(* ===== verification/Prelude.thy ===== *)
theory Prelude
  imports Complex_Main
begin

text \<open>
  Shared ground of the development: Python exceptions as values, programs over an explicit world
  that may raise, Python's indexing of lists, little- and big-endian byte codings, the bit masks the
  code uses, and decimal and hexadecimal formatting.

  Conventions used by every other theory:
  \<^item> a Python \<open>int\<close> is an Isabelle \<open>int\<close>; a Python \<open>float\<close> is a rational (IEEE rounding is not
    modelled); \<open>bytes\<close> is a list of integers, each between 0 and 255 (\<open>is_bytes\<close>);
  \<^item> a pure function that may raise returns \<open>exn + 'a\<close>; a method that changes state or talks to
    the outside is a program \<open>('w, 'a) io\<close>, a function from the world before to the outcome and
    the world after, so that the effects made before an exception stay made;
  \<^item> logging and printing leave no trace in the model.
\<close>

unbundle bit_operations_syntax

named_theorems io_simps "unfolding of programs"
named_theorems keeps_intros "rules for programs that keep an invariant"
named_theorems bits_simps "masks and shifts as arithmetic"

section \<open>Exceptions\<close>

datatype exn_class =
    Exception | ValueError | JSONDecodeError | KeyError | IndexError | TypeError
  | OverflowError | OSError | FileNotFoundError | ConnectionError | BrokenPipeError
  | RuntimeError | FlashError | CanFlasherError | CanError | CalledProcessError
  | TimeoutExpired | SystemExit | KeyboardInterrupt

text \<open>\<open>RpcErr\<close> is \<open>broker.rpc.RpcError\<close>, which carries a code beside its message.\<close>

datatype exn = Exn exn_class string | RpcErr string string

fun is_os_error :: "exn \<Rightarrow> bool" where
  "is_os_error (Exn c m) =
     (c \<in> {OSError, FileNotFoundError, ConnectionError, BrokenPipeError})"
| "is_os_error (RpcErr c m) = False"

fun is_value_error :: "exn \<Rightarrow> bool" where
  "is_value_error (Exn c m) = (c \<in> {ValueError, JSONDecodeError})"
| "is_value_error (RpcErr c m) = False"

text \<open>What \<open>except Exception\<close> catches: everything but \<open>SystemExit\<close> and \<open>KeyboardInterrupt\<close>.\<close>

fun is_exception :: "exn \<Rightarrow> bool" where
  "is_exception (Exn c m) = (c \<notin> {SystemExit, KeyboardInterrupt})"
| "is_exception (RpcErr c m) = True"

section \<open>Programs\<close>

type_synonym 'a res = "exn + 'a"
type_synonym ('w, 'a) io = "'w \<Rightarrow> (exn + 'a) \<times> 'w"

definition ret :: "'a \<Rightarrow> ('w, 'a) io" where
  [io_simps]: "ret x w = (Inr x, w)"

definition raise :: "exn \<Rightarrow> ('w, 'a) io" where
  [io_simps]: "raise e w = (Inl e, w)"

definition bind :: "('w, 'a) io \<Rightarrow> ('a \<Rightarrow> ('w, 'b) io) \<Rightarrow> ('w, 'b) io" where
  [io_simps]: "bind m f w = (case m w of (Inl e, w') \<Rightarrow> (Inl e, w') | (Inr x, w') \<Rightarrow> f x w')"

text \<open>\<open>try: m except P as e: h e\<close>, and \<open>try: m finally: f\<close>.\<close>

definition try_except :: "('w, 'a) io \<Rightarrow> (exn \<Rightarrow> bool) \<Rightarrow> (exn \<Rightarrow> ('w, 'a) io) \<Rightarrow> ('w, 'a) io" where
  [io_simps]: "try_except m P h w =
     (case m w of (Inl e, w') \<Rightarrow> if P e then h e w' else (Inl e, w') | (Inr x, w') \<Rightarrow> (Inr x, w'))"

definition try_finally :: "('w, 'a) io \<Rightarrow> ('w, unit) io \<Rightarrow> ('w, 'a) io" where
  [io_simps]: "try_finally m f w =
     (case m w of (r, w') \<Rightarrow>
       (case f w' of (Inl e, w'') \<Rightarrow> (Inl e, w'') | (Inr u, w'') \<Rightarrow> (r, w'')))"

definition of_res :: "'a res \<Rightarrow> ('w, 'a) io" where
  [io_simps]: "of_res r w = (r, w)"

definition reads :: "('w \<Rightarrow> 'a) \<Rightarrow> ('w, 'a) io" where
  [io_simps]: "reads f w = (Inr (f w), w)"

definition modify :: "('w \<Rightarrow> 'w) \<Rightarrow> ('w, unit) io" where
  [io_simps]: "modify f w = (Inr (), f w)"

definition whenever :: "bool \<Rightarrow> ('w, unit) io \<Rightarrow> ('w, unit) io" where
  [io_simps]: "whenever b m = (if b then m else ret ())"

text \<open>\<open>for x in xs: f x\<close>, and \<open>[f x for x in xs]\<close>.\<close>

primrec for_each :: "('a \<Rightarrow> ('w, unit) io) \<Rightarrow> 'a list \<Rightarrow> ('w, unit) io" where
  "for_each f [] = ret ()"
| "for_each f (x # xs) = bind (f x) (\<lambda>_. for_each f xs)"

primrec map_io :: "('a \<Rightarrow> ('w, 'b) io) \<Rightarrow> 'a list \<Rightarrow> ('w, 'b list) io" where
  "map_io f [] = ret []"
| "map_io f (x # xs) = bind (f x) (\<lambda>y. bind (map_io f xs) (\<lambda>ys. ret (y # ys)))"

text \<open>The same for pure functions that may raise.\<close>

definition rbind :: "'a res \<Rightarrow> ('a \<Rightarrow> 'b res) \<Rightarrow> 'b res" where
  "rbind r f = (case r of Inl e \<Rightarrow> Inl e | Inr x \<Rightarrow> f x)"

lemma rbind_simps [simp]: "rbind (Inl e) f = Inl e" "rbind (Inr x) f = f x"
  by (simp_all add: rbind_def)

lemma rbind_Inr_iff: "rbind r f = Inr y \<longleftrightarrow> (\<exists>x. r = Inr x \<and> f x = Inr y)"
  by (cases r) auto

primrec rmap :: "('a \<Rightarrow> 'b res) \<Rightarrow> 'a list \<Rightarrow> 'b list res" where
  "rmap f [] = Inr []"
| "rmap f (x # xs) = rbind (f x) (\<lambda>y. rbind (rmap f xs) (\<lambda>ys. Inr (y # ys)))"

text \<open>Running a program on a component of a larger world.\<close>

definition zoom :: "('s \<Rightarrow> 'w) \<Rightarrow> ('w \<Rightarrow> 's \<Rightarrow> 's) \<Rightarrow> ('w, 'a) io \<Rightarrow> ('s, 'a) io" where
  [io_simps]: "zoom getter putter m s = (case m (getter s) of (r, w) \<Rightarrow> (r, putter w s))"

lemma bind_ret [simp]: "bind (ret x) f = f x"
  by (simp add: fun_eq_iff io_simps)

lemma bind_raise [simp]: "bind (raise e) f = raise e"
  by (simp add: fun_eq_iff io_simps)

lemma bind_assoc: "bind (bind m f) g = bind m (\<lambda>x. bind (f x) g)"
  by (auto simp: fun_eq_iff io_simps split: prod.splits sum.splits)

lemma for_each_append: "for_each f (xs @ ys) = bind (for_each f xs) (\<lambda>_. for_each f ys)"
  by (induction xs) (simp_all add: bind_assoc)

subsection \<open>Programs that keep an invariant\<close>

definition keeps :: "('w \<Rightarrow> bool) \<Rightarrow> ('w, 'a) io \<Rightarrow> bool" where
  "keeps I m \<longleftrightarrow> (\<forall>w. I w \<longrightarrow> I (snd (m w)))"

lemma keepsI: "(\<And>w. I w \<Longrightarrow> I (snd (m w))) \<Longrightarrow> keeps I m"
  by (simp add: keeps_def)

lemma keepsD: "keeps I m \<Longrightarrow> I w \<Longrightarrow> I (snd (m w))"
  by (simp add: keeps_def)

lemma keeps_ret [keeps_intros]: "keeps I (ret x)"
  by (simp add: keeps_def io_simps)

lemma keeps_raise [keeps_intros]: "keeps I (raise e)"
  by (simp add: keeps_def io_simps)

lemma keeps_of_res [keeps_intros]: "keeps I (of_res r)"
  by (simp add: keeps_def io_simps)

lemma keeps_reads [keeps_intros]: "keeps I (reads f)"
  by (simp add: keeps_def io_simps)

lemma keeps_bind [keeps_intros]:
  "keeps I m \<Longrightarrow> (\<And>x. keeps I (f x)) \<Longrightarrow> keeps I (bind m f)"
  by (force simp: keeps_def io_simps split: prod.splits sum.splits)

lemma keeps_try_except [keeps_intros]:
  "keeps I m \<Longrightarrow> (\<And>e. keeps I (h e)) \<Longrightarrow> keeps I (try_except m P h)"
  by (force simp: keeps_def io_simps split: prod.splits sum.splits)

lemma keeps_try_finally [keeps_intros]:
  "keeps I m \<Longrightarrow> keeps I f \<Longrightarrow> keeps I (try_finally m f)"
  by (force simp: keeps_def io_simps split: prod.splits sum.splits)

lemma keeps_whenever [keeps_intros]: "keeps I m \<Longrightarrow> keeps I (whenever b m)"
  by (simp add: keeps_def io_simps)

lemma keeps_if [keeps_intros]: "keeps I m \<Longrightarrow> keeps I n \<Longrightarrow> keeps I (if b then m else n)"
  by simp

lemma keeps_modify: "(\<And>w. I w \<Longrightarrow> I (f w)) \<Longrightarrow> keeps I (modify f)"
  by (simp add: keeps_def io_simps)

lemma keeps_for_each [keeps_intros]: "(\<And>x. keeps I (f x)) \<Longrightarrow> keeps I (for_each f xs)"
  by (induction xs) (simp_all add: keeps_ret keeps_bind)

lemma keeps_map_io [keeps_intros]: "(\<And>x. keeps I (f x)) \<Longrightarrow> keeps I (map_io f xs)"
  by (induction xs) (simp_all add: keeps_ret keeps_bind)

section \<open>Python lists\<close>

text \<open>\<open>xs[i]\<close>: negative indices count from the end, anything else out of range raises.\<close>

definition py_pos :: "'a list \<Rightarrow> int \<Rightarrow> nat res" where
  "py_pos xs i =
     (let n = int (length xs); j = (if i < 0 then i + n else i)
      in if 0 \<le> j \<and> j < n then Inr (nat j) else Inl (Exn IndexError ''list index out of range''))"

definition py_nth :: "'a list \<Rightarrow> int \<Rightarrow> 'a res" where
  "py_nth xs i = rbind (py_pos xs i) (\<lambda>j. Inr (xs ! j))"

definition py_set :: "'a list \<Rightarrow> int \<Rightarrow> 'a \<Rightarrow> 'a list res" where
  "py_set xs i v = rbind (py_pos xs i) (\<lambda>j. Inr (xs[j := v]))"

text \<open>\<open>xs[lo:hi]\<close> for bounds that are not negative: it clips and never raises.\<close>

definition slice :: "nat \<Rightarrow> nat \<Rightarrow> 'a list \<Rightarrow> 'a list" where
  "slice lo hi xs = take (hi - lo) (drop lo xs)"

lemma py_pos_nonneg: "0 \<le> i \<Longrightarrow> i < int (length xs) \<Longrightarrow> py_pos xs i = Inr (nat i)"
  by (simp add: py_pos_def)

lemma py_pos_lt: "py_pos xs i = Inr j \<Longrightarrow> j < length xs"
  by (auto simp: py_pos_def Let_def split: if_splits)

lemma py_nth_nonneg: "0 \<le> i \<Longrightarrow> i < int (length xs) \<Longrightarrow> py_nth xs i = Inr (xs ! nat i)"
  by (simp add: py_nth_def py_pos_nonneg)

lemma py_nth_out: "int (length xs) \<le> i \<Longrightarrow>
    py_nth xs i = Inl (Exn IndexError ''list index out of range'')"
  by (auto simp: py_nth_def py_pos_def Let_def)

lemma py_set_length: "py_set xs i v = Inr ys \<Longrightarrow> length ys = length xs"
  by (auto simp: py_set_def rbind_Inr_iff)

lemma py_set_nonneg: "0 \<le> i \<Longrightarrow> i < int (length xs) \<Longrightarrow> py_set xs i v = Inr (xs[nat i := v])"
  by (simp add: py_set_def py_pos_nonneg)

text \<open>\<open>data[i]\<close> on \<open>bytes\<close>, for a literal index: it raises on a short payload.\<close>

definition byte_at :: "int list \<Rightarrow> nat \<Rightarrow> int res" where
  "byte_at data i = (if i < length data then Inr (data ! i) else Inl (Exn IndexError ''index out of range''))"

lemma byte_at_Inr [simp]: "i < length data \<Longrightarrow> byte_at data i = Inr (data ! i)"
  by (simp add: byte_at_def)

lemma byte_at_Inl [simp]: "length data \<le> i \<Longrightarrow> byte_at data i = Inl (Exn IndexError ''index out of range'')"
  by (simp add: byte_at_def)

section \<open>Masks and shifts\<close>

definition is_byte :: "int \<Rightarrow> bool" where
  "is_byte b \<longleftrightarrow> 0 \<le> b \<and> b < 256"

lemma and_pow2: "(x::int) AND (2 ^ n - 1) = x mod 2 ^ n"
  by (simp add: take_bit_eq_mask [symmetric] mask_eq_exp_minus_1 [symmetric] take_bit_eq_mod)

lemma and_mask_1 [bits_simps]: "(x::int) AND 1 = x mod 2"
  by (fact and_one_eq)

lemma and_mask_3 [bits_simps]: "(x::int) AND 3 = x mod 4"
  using and_pow2 [of x 2] by simp

lemma and_mask_7 [bits_simps]: "(x::int) AND 7 = x mod 8"
  using and_pow2 [of x 3] by simp

lemma and_mask_15 [bits_simps]: "(x::int) AND 15 = x mod 16"
  using and_pow2 [of x 4] by simp

lemma and_mask_31 [bits_simps]: "(x::int) AND 31 = x mod 32"
  using and_pow2 [of x 5] by simp

lemma and_mask_63 [bits_simps]: "(x::int) AND 63 = x mod 64"
  using and_pow2 [of x 6] by simp

lemma and_mask_127 [bits_simps]: "(x::int) AND 127 = x mod 128"
  using and_pow2 [of x 7] by simp

lemma and_mask_255 [bits_simps]: "(x::int) AND 255 = x mod 256"
  using and_pow2 [of x 8] by simp

lemma and_mask_16383 [bits_simps]: "(x::int) AND 16383 = x mod 16384"
  using and_pow2 [of x 14] by simp

lemma and_mask_32767 [bits_simps]: "(x::int) AND 32767 = x mod 32768"
  using and_pow2 [of x 15] by simp

lemma and_mask_65535 [bits_simps]: "(x::int) AND 65535 = x mod 65536"
  using and_pow2 [of x 16] by simp

lemma and_mask_1048575 [bits_simps]: "(x::int) AND 1048575 = x mod 1048576"
  using and_pow2 [of x 20] by simp

lemma and_mask_4294967295 [bits_simps]: "(x::int) AND 4294967295 = x mod 4294967296"
  using and_pow2 [of x 32] by simp

lemma shifts [bits_simps]:
  "drop_bit n (x::int) = x div 2 ^ n" "push_bit n x = x * 2 ^ n"
  by (simp_all add: drop_bit_eq_div push_bit_eq_mult)

text \<open>\<open>(hi << n) | lo\<close> concatenates when \<open>lo\<close> fits in \<open>n\<close> bits.\<close>

lemma or_concat:
  assumes "0 \<le> lo" "lo < 2 ^ n"
  shows "(hi * 2 ^ n) OR lo = hi * 2 ^ n + (lo::int)"
proof -
  have "take_bit n lo = lo"
    using assms by (simp add: take_bit_eq_mod)
  moreover have "push_bit n hi AND take_bit n lo = 0"
    by (rule bit_eqI) (auto simp: bit_simps)
  ultimately show ?thesis
    by (simp add: disjunctive_add_eq_or push_bit_eq_mult)
qed

lemma byte_or [bits_simps]: "is_byte lo \<Longrightarrow> (hi * 256) OR lo = hi * 256 + lo"
  using or_concat [of lo 8 hi] by (simp add: is_byte_def)

text \<open>Exclusive or: it cancels, and it stays within a byte.\<close>

lemma xor_cancel: "(a::int) XOR b = a XOR c \<Longrightarrow> b = c"
  by (metis xor.assoc xor.left_neutral xor_self_eq)

lemma mod_xor: "((a::int) XOR b) mod 2 ^ n = (a mod 2 ^ n) XOR (b mod 2 ^ n)"
  using take_bit_xor [of n a b] by (simp add: take_bit_eq_mod)

lemma is_byte_xor: "is_byte a \<Longrightarrow> is_byte b \<Longrightarrow> is_byte (a XOR b)"
  using mod_xor [of a b 8] pos_mod_bound [of 256 "a XOR b"] pos_mod_sign [of 256 "a XOR b"]
  by (simp add: is_byte_def)

section \<open>Bytes\<close>

definition is_bytes :: "int list \<Rightarrow> bool" where
  "is_bytes bs \<longleftrightarrow> list_all is_byte bs"

lemma is_bytes_simps [simp]:
  "is_bytes []" "is_bytes (b # bs) \<longleftrightarrow> is_byte b \<and> is_bytes bs"
  "is_bytes (xs @ ys) \<longleftrightarrow> is_bytes xs \<and> is_bytes ys" "is_bytes (rev xs) \<longleftrightarrow> is_bytes xs"
  by (auto simp: is_bytes_def list_all_iff)

lemma is_byte_mod [simp]: "is_byte (x mod 256)"
  by (simp add: is_byte_def)

lemma is_bytes_nth: "is_bytes bs \<Longrightarrow> i < length bs \<Longrightarrow> 0 \<le> bs ! i \<and> bs ! i < 256"
  by (auto simp: is_bytes_def list_all_length is_byte_def)

lemma is_bytes_take: "is_bytes bs \<Longrightarrow> is_bytes (take n bs)"
  by (auto simp: is_bytes_def list_all_iff dest: in_set_takeD)

lemma is_bytes_drop: "is_bytes bs \<Longrightarrow> is_bytes (drop n bs)"
  by (auto simp: is_bytes_def list_all_iff dest: in_set_dropD)

lemma is_bytes_slice: "is_bytes bs \<Longrightarrow> is_bytes (slice a b bs)"
  by (simp add: slice_def is_bytes_take is_bytes_drop)

text \<open>\<open>int.from_bytes(bs, "little")\<close>, \<open>"big"\<close>, and \<open>signed=True\<close> on \<open>n\<close> bytes.\<close>

primrec from_le :: "int list \<Rightarrow> int" where
  "from_le [] = 0"
| "from_le (b # bs) = b + 256 * from_le bs"

definition from_be :: "int list \<Rightarrow> int" where
  "from_be bs = from_le (rev bs)"

definition signed :: "nat \<Rightarrow> int \<Rightarrow> int" where
  "signed bits v = (if 2 ^ (bits - 1) \<le> v then v - 2 ^ bits else v)"

text \<open>The \<open>n\<close> low bytes of \<open>v\<close>, least significant first; \<open>v.to_bytes\<close> raises out of range.\<close>

primrec le_bytes :: "nat \<Rightarrow> int \<Rightarrow> int list" where
  "le_bytes 0 v = []"
| "le_bytes (Suc n) v = v mod 256 # le_bytes n (v div 256)"

definition to_bytes_le :: "nat \<Rightarrow> int \<Rightarrow> int list res" where
  "to_bytes_le n v =
     (if v < 0 then Inl (Exn OverflowError ''can't convert negative int to unsigned'')
      else if 256 ^ n \<le> v then Inl (Exn OverflowError ''int too big to convert'')
      else Inr (le_bytes n v))"

definition to_bytes_le_signed :: "nat \<Rightarrow> int \<Rightarrow> int list res" where
  "to_bytes_le_signed n v =
     (if - (2 ^ (8 * n - 1)) \<le> v \<and> v < 2 ^ (8 * n - 1) then Inr (le_bytes n v)
      else Inl (Exn OverflowError ''int too big to convert''))"

lemma length_le_bytes [simp]: "length (le_bytes n v) = n"
  by (induction n arbitrary: v) simp_all

lemma is_bytes_le_bytes [simp]: "is_bytes (le_bytes n v)"
  by (induction n arbitrary: v) simp_all

lemma from_le_le_bytes: "from_le (le_bytes n v) = v mod 256 ^ n"
proof (induction n arbitrary: v)
  case 0
  then show ?case by simp
next
  case (Suc n)
  have "v mod (256 * 256 ^ n) = 256 * (v div 256 mod 256 ^ n) + v mod 256"
    by (rule zmod_zmult2_eq) simp
  with Suc show ?case by simp
qed

lemma from_le_bounds: "is_bytes bs \<Longrightarrow> 0 \<le> from_le bs \<and> from_le bs < 256 ^ length bs"
  by (induction bs) (auto simp: is_byte_def)

lemma from_be_bounds: "is_bytes bs \<Longrightarrow> 0 \<le> from_be bs \<and> from_be bs < 256 ^ length bs"
  using from_le_bounds [of "rev bs"] by (simp add: from_be_def)

lemma le_bytes_from_le: "is_bytes bs \<Longrightarrow> le_bytes (length bs) (from_le bs) = bs"
  by (induction bs) (auto simp: is_byte_def)

lemma to_bytes_le_roundtrip: "to_bytes_le n v = Inr bs \<Longrightarrow> from_le bs = v \<and> length bs = n"
  by (auto simp: to_bytes_le_def from_le_le_bytes split: if_splits)

lemma signed_mod:
  assumes "0 < n" "- (2 ^ (n - 1)) \<le> v" "v < 2 ^ (n - 1)"
  shows "signed n (v mod 2 ^ n) = (v::int)"
proof -
  have p: "(2::int) ^ n = 2 * 2 ^ (n - 1)"
    using assms(1) by (metis One_nat_def Suc_pred power_Suc)
  show ?thesis
  proof (cases "v < 0")
    case True
    have "v mod 2 ^ n = v + 2 ^ n"
      by (rule int_mod_pos_eq [where q = "-1"]) (use True assms p in auto)
    with True assms p show ?thesis by (simp add: signed_def)
  next
    case False
    with assms p have "v mod 2 ^ n = v" by simp
    with False assms show ?thesis by (simp add: signed_def)
  qed
qed

section \<open>Formatting numbers\<close>

definition hex_char :: "nat \<Rightarrow> char" where
  "hex_char d = ''0123456789ABCDEF'' ! d"

fun digits :: "nat \<Rightarrow> nat \<Rightarrow> string" where
  "digits b n = (if n < b \<or> b < 2 then [hex_char (n mod 16)] else digits b (n div b) @ [hex_char (n mod b)])"

declare digits.simps [simp del]

text \<open>\<open>str.lower\<close> and \<open>sep.join\<close>.\<close>

definition lower_char :: "char \<Rightarrow> char" where
  "lower_char c = (if of_char c \<in> {65..90 :: nat} then char_of (of_char c + 32 :: nat) else c)"

definition py_lower :: "string \<Rightarrow> string" where
  "py_lower = map lower_char"

primrec py_join :: "string \<Rightarrow> string list \<Rightarrow> string" where
  "py_join sep [] = []"
| "py_join sep (x # xs) = x @ (if xs = [] then [] else sep @ py_join sep xs)"

text \<open>\<open>str(i)\<close>, and the format \<open>0{w}X\<close>.\<close>

definition show_int :: "int \<Rightarrow> string" where
  "show_int i = (if i < 0 then ''-'' else '''') @ digits 10 (nat \<bar>i\<bar>)"

definition hexX :: "nat \<Rightarrow> int \<Rightarrow> string" where
  "hexX w i = (let s = digits 16 (nat \<bar>i\<bar>); sgn = (if i < 0 then ''-'' else '''')
               in sgn @ replicate (w - length s - length sgn) (CHR ''0'') @ s)"

lemma digits_nonempty: "digits b n \<noteq> []"
  by (subst digits.simps) simp

section \<open>Association lists as dictionaries\<close>

text \<open>A Python \<open>dict\<close> keeps the order of insertion; \<open>d[k] = v\<close> keeps the position of a key that
  is already there.\<close>

fun alist_set :: "'k \<Rightarrow> 'v \<Rightarrow> ('k \<times> 'v) list \<Rightarrow> ('k \<times> 'v) list" where
  "alist_set k v [] = [(k, v)]"
| "alist_set k v ((k', v') # d) = (if k = k' then (k, v) # d else (k', v') # alist_set k v d)"

lemma map_of_alist_set [simp]: "map_of (alist_set k v d) = (map_of d)(k \<mapsto> v)"
  by (induction k v d rule: alist_set.induct) auto

lemma keys_alist_set: "fst ` set (alist_set k v d) = insert k (fst ` set d)"
  by (induction k v d rule: alist_set.induct) auto

lemma distinct_alist_set: "distinct (map fst d) \<Longrightarrow> distinct (map fst (alist_set k v d))"
proof (induction k v d rule: alist_set.induct)
  case (2 k v k' v' d)
  then show ?case
    using keys_alist_set [of k v d] by (auto simp: image_iff)
qed simp

end
