(* ===== verification/Codec.thy ===== *)
theory Codec
  imports Prelude
begin

text \<open>
  The two contracts of a CAN payload. A \<open>payload_decoder\<close> reads the first \<open>n\<close> bytes of a payload
  and raises exactly on shorter ones; a \<open>codec\<close> is an encoder whose output a decoder reads back.
  The frame maps of the AMS and the VCU, the simulators and the emulator interpret them.
\<close>

locale payload_decoder =
  fixes dec :: "int list \<Rightarrow> 'a res"
    and n :: nat
  assumes dec_short: "length d < n \<Longrightarrow> \<exists>e. dec d = Inl e"
    and dec_long: "n \<le> length d \<Longrightarrow> \<exists>r. dec d = Inr r"
    and dec_prefix: "n \<le> length d \<Longrightarrow> dec (take n d) = dec d"
begin

lemma returns_iff: "(\<exists>r. dec d = Inr r) \<longleftrightarrow> n \<le> length d"
proof
  assume "\<exists>r. dec d = Inr r"
  then have "\<not> (\<exists>e. dec d = Inl e)" by auto
  with dec_short show "n \<le> length d" by (meson not_le)
qed (rule dec_long)

lemma trailing_ignored: "n \<le> length d \<Longrightarrow> dec (d @ e) = dec d"
  using dec_prefix [of d] dec_prefix [of "d @ e"] by simp

lemma same_prefix: "n \<le> length d \<Longrightarrow> n \<le> length d' \<Longrightarrow> take n d = take n d' \<Longrightarrow> dec d = dec d'"
  using dec_prefix [of d] dec_prefix [of d'] by simp

end

locale codec =
  fixes enc :: "'a \<Rightarrow> int list"
    and dec :: "int list \<Rightarrow> 'b res"
    and view :: "'a \<Rightarrow> 'b"
    and valid :: "'a \<Rightarrow> bool"
    and n :: nat
  assumes roundtrip: "valid x \<Longrightarrow> dec (enc x) = Inr (view x)"
    and enc_length: "length (enc x) = n"
    and enc_bytes: "is_bytes (enc x)"
begin

lemma enc_eq_view: "valid x \<Longrightarrow> valid y \<Longrightarrow> enc x = enc y \<Longrightarrow> view x = view y"
  using roundtrip [of x] roundtrip [of y] by simp

lemma enc_inj_on: "inj_on view {x. valid x} \<Longrightarrow> inj_on enc {x. valid x}"
  by (rule inj_onI) (auto dest: enc_eq_view inj_onD)

end

text \<open>A codec whose decoder is also a payload decoder of the same length: frames may carry padding.\<close>

locale padded_codec = codec enc dec view valid n + payload_decoder dec n
  for enc :: "'a \<Rightarrow> int list" and dec :: "int list \<Rightarrow> 'b res" and view valid n
begin

lemma roundtrip_padded: "valid x \<Longrightarrow> dec (enc x @ pad) = Inr (view x)"
  by (simp add: trailing_ignored enc_length roundtrip)

end

end
