(* ===== verification/Ams_Can_Map.thy ===== *)
theory Ams_Can_Map
  imports Codec
begin

text \<open>
  \<^verbatim>\<open>tools/firmware_test/ams/can_map.py\<close>: the CAN identifiers of the AMS, the address arithmetic of
  the five BMS slave modules, and the decoders of the telemetry frames. A decoder that returns a
  dictionary returns a record with the same fields here.
\<close>

section \<open>BMS slave addressing\<close>

definition NUM_BMS_MODULES :: int where "NUM_BMS_MODULES = 5"

definition BMS_BASE_CANID :: int where "BMS_BASE_CANID = 0x12C"

definition BMS_MODULE_STRIDE :: int where "BMS_MODULE_STRIDE = 0x1E"

lemmas bms_const_defs = NUM_BMS_MODULES_def BMS_BASE_CANID_def BMS_MODULE_STRIDE_def

definition bms_canid :: "int \<Rightarrow> int res" where
  "bms_canid m =
     (if \<not> (0 \<le> m \<and> m < NUM_BMS_MODULES)
      then Inl (Exn ValueError (''module must be 0..'' @ show_int (NUM_BMS_MODULES - 1) @ '', got '' @ show_int m))
      else Inr (BMS_BASE_CANID + m * BMS_MODULE_STRIDE))"

definition bms_voltage_poll_id :: "int \<Rightarrow> int res" where
  "bms_voltage_poll_id m = bms_canid m"

definition bms_voltage_resp_id :: "int \<Rightarrow> int \<Rightarrow> int res" where
  "bms_voltage_resp_id m frame_idx =
     (if \<not> (0 \<le> frame_idx \<and> frame_idx < 5)
      then Inl (Exn ValueError (''frame_idx must be 0..4, got '' @ show_int frame_idx))
      else rbind (bms_canid m) (\<lambda>c. Inr (c + 1 + frame_idx)))"

definition bms_temp_poll_id :: "int \<Rightarrow> int res" where
  "bms_temp_poll_id m = rbind (bms_canid m) (\<lambda>c. Inr (c + 20))"

definition bms_temp_resp_id :: "int \<Rightarrow> int \<Rightarrow> int res" where
  "bms_temp_resp_id m frame_idx =
     (if \<not> (0 \<le> frame_idx \<and> frame_idx < 5)
      then Inl (Exn ValueError (''frame_idx must be 0..4, got '' @ show_int frame_idx))
      else rbind (bms_canid m) (\<lambda>c. Inr (c + 21 + frame_idx)))"

definition BMS_VOLTAGE_POLL_IDS :: "int res list" where
  "BMS_VOLTAGE_POLL_IDS = map bms_voltage_poll_id [0..NUM_BMS_MODULES - 1]"

definition BMS_TEMP_POLL_IDS :: "int res list" where
  "BMS_TEMP_POLL_IDS = map bms_temp_poll_id [0..NUM_BMS_MODULES - 1]"

definition CELLS_PER_MODULE :: nat where "CELLS_PER_MODULE = 19"

definition TEMPS_PER_MODULE :: nat where "TEMPS_PER_MODULE = 38"

definition CELLS_PER_FRAME :: nat where "CELLS_PER_FRAME = 4"

definition TEMPS_PER_FRAME :: nat where "TEMPS_PER_FRAME = 8"

lemmas bms_size_defs =
  CELLS_PER_MODULE_def TEMPS_PER_MODULE_def CELLS_PER_FRAME_def TEMPS_PER_FRAME_def

text \<open>The identifiers as a closed form, for modules and frames in range.\<close>

datatype bms_frame = VoltPoll | VoltResp int | TempPoll | TempResp int

fun bms_frame_id :: "int \<Rightarrow> bms_frame \<Rightarrow> int res" where
  "bms_frame_id m VoltPoll = bms_voltage_poll_id m"
| "bms_frame_id m (VoltResp i) = bms_voltage_resp_id m i"
| "bms_frame_id m TempPoll = bms_temp_poll_id m"
| "bms_frame_id m (TempResp i) = bms_temp_resp_id m i"

fun bms_frame_offset :: "bms_frame \<Rightarrow> int" where
  "bms_frame_offset VoltPoll = 0"
| "bms_frame_offset (VoltResp i) = 1 + i"
| "bms_frame_offset TempPoll = 20"
| "bms_frame_offset (TempResp i) = 21 + i"

fun bms_frame_ok :: "bms_frame \<Rightarrow> bool" where
  "bms_frame_ok (VoltResp i) = (0 \<le> i \<and> i < 5)"
| "bms_frame_ok (TempResp i) = (0 \<le> i \<and> i < 5)"
| "bms_frame_ok f = True"

lemmas bms_id_defs = bms_canid_def bms_voltage_poll_id_def bms_voltage_resp_id_def
  bms_temp_poll_id_def bms_temp_resp_id_def

lemma bms_frame_id_Inr:
  "bms_frame_id m f = Inr i \<longleftrightarrow>
     0 \<le> m \<and> m < 5 \<and> bms_frame_ok f \<and> i = 300 + 30 * m + bms_frame_offset f"
  by (cases f) (auto simp: bms_id_defs bms_const_defs rbind_Inr_iff)

lemma bms_frame_offset_range: "bms_frame_ok f \<Longrightarrow> 0 \<le> bms_frame_offset f \<and> bms_frame_offset f < 26"
  by (cases f) auto

lemma bms_frame_offset_inj:
  "bms_frame_ok f \<Longrightarrow> bms_frame_ok g \<Longrightarrow> bms_frame_offset f = bms_frame_offset g \<Longrightarrow> f = g"
  by (cases f; cases g) auto

section \<open>Identifiers of the vehicle bus\<close>

text \<open>Name, identifier and whether it is sent as a 29-bit (extended) frame, in the file's order.\<close>

definition ams_bus_ids :: "(string \<times> int \<times> bool) list" where
  "ams_bus_ids =
     [(''ID_DC_BUS_VOLTAGE'', 0x100, False), (''ID_BALANCE_OVERRIDE'', 0x103, False),
      (''ID_START_BUTTON'', 0x600, False), (''ID_CHARGER_DETECT'', 0x18FF50E7, True),
      (''ID_MIN_CELL_V_TX'', 0x12C, True), (''ID_AMS_STATE_REPLY'', 0x20, True),
      (''ID_CURRENT_TX'', 0x450, False), (''ID_CURRENT_WARN'', 0x500, False),
      (''ID_CURRENT_OVER'', 0x501, False), (''ID_CURRENT_NORMAL'', 0x502, False)]"

definition ams_telem_ids :: "(string \<times> int \<times> bool) list" where
  "ams_telem_ids =
     [(''ID_TELEM_STATUS'', 0x4A0, False), (''ID_TELEM_PACK'', 0x4A1, False),
      (''ID_TELEM_TEMPS'', 0x4A2, False), (''ID_RELAY_STATUS'', 0x4A4, False)]"

definition ams_pit_ids :: "(string \<times> int \<times> bool) list" where
  "ams_pit_ids =
     [(''ID_PIT_DIAG_CMD'', 0x7F0, False), (''ID_PIT_DIAG_ACK'', 0x7F1, False),
      (''ID_PIT_DIAG_CELL_BASE'', 0x680, False), (''ID_PIT_DIAG_TEMP_BASE'', 0x6A0, False),
      (''ID_PIT_DIAG_FSM_STATUS'', 0x6C0, False), (''ID_PIT_DIAG_TIMING'', 0x6C1, False),
      (''ID_PIT_DIAG_BAL_MASK_A'', 0x6C2, False), (''ID_PIT_DIAG_BAL_MASK_B'', 0x6C3, False),
      (''ID_PIT_DIAG_BOOT'', 0x6C4, False), (''ID_PIT_DIAG_POST_MORTEM'', 0x6C5, False),
      (''ID_PIT_DIAG_FW_ID'', 0x6C6, False), (''ID_PIT_DIAG_PEC_PER_IC_A'', 0x6C7, False),
      (''ID_PIT_DIAG_PEC_PER_IC_B'', 0x6C8, False), (''ID_PIT_DIAG_FDCAN1_RECOVERY'', 0x6C9, False)]"

definition ID_BOOT_TRIGGER :: int where "ID_BOOT_TRIGGER = 0x002"

definition BOOT_TRIGGER_PAYLOAD :: "int list" where
  "BOOT_TRIGGER_PAYLOAD = [0xB0, 0x07, 0xAD, 0x11]"

text \<open>The range of identifiers a name stands for: the two bases name 24 and 25 consecutive frames.\<close>

fun ids_of :: "string \<times> int \<times> bool \<Rightarrow> (int \<times> bool) list" where
  "ids_of (name, i, ext) =
     (if name = ''ID_PIT_DIAG_CELL_BASE'' then map (\<lambda>k. (i + k, ext)) [0..23]
      else if name = ''ID_PIT_DIAG_TEMP_BASE'' then map (\<lambda>k. (i + k, ext)) [0..24]
      else [(i, ext)])"

definition ams_all_ids :: "(int \<times> bool) list" where
  "ams_all_ids =
     (ID_BOOT_TRIGGER, False) # concat (map ids_of (ams_bus_ids @ ams_telem_ids @ ams_pit_ids))"

lemmas ams_ids_defs = ams_all_ids_def ams_bus_ids_def ams_telem_ids_def ams_pit_ids_def ID_BOOT_TRIGGER_def

section \<open>Telemetry decoders\<close>

definition fsm_names :: "(int \<times> string) list" where
  "fsm_names =
     [(0, ''Start''), (1, ''Precharge''), (2, ''Transition''), (3, ''Run''), (4, ''Charge''),
      (5, ''Error'')]"

definition FsmState_name :: "int \<Rightarrow> string" where
  "FsmState_name v = (case map_of fsm_names v of Some s \<Rightarrow> s | None \<Rightarrow> ''0x'' @ hexX 2 v)"

definition short_frame :: "string \<Rightarrow> string \<Rightarrow> int list \<Rightarrow> exn" where
  "short_frame fid need data = Exn ValueError (fid @ '' needs '' @ need @ '', got '' @ show_int (int (length data)))"

record telem_status =
  ts_state :: int
  ts_state_name :: string
  ts_ams_ok :: bool
  ts_module_online_mask :: int
  ts_min_cell_mV :: int
  ts_max_cell_mV :: int

definition decode_telem_status :: "int list \<Rightarrow> telem_status res" where
  "decode_telem_status data =
     (if length data < 8 then Inl (short_frame ''0x4A0'' ''8 bytes'' data)
      else Inr \<lparr>ts_state = data ! 0, ts_state_name = FsmState_name (data ! 0),
                ts_ams_ok = (data ! 1 \<noteq> 0), ts_module_online_mask = data ! 2,
                ts_min_cell_mV = push_bit 8 (data ! 4) OR data ! 5,
                ts_max_cell_mV = push_bit 8 (data ! 6) OR data ! 7\<rparr>)"

record telem_pack =
  tp_pack_voltage_mV :: int
  tp_filtered_mA :: int

definition decode_telem_pack :: "int list \<Rightarrow> telem_pack res" where
  "decode_telem_pack data =
     (if length data < 8 then Inl (short_frame ''0x4A1'' ''8 bytes'' data)
      else Inr \<lparr>tp_pack_voltage_mV = from_le (slice 0 4 data),
                tp_filtered_mA = signed 32 (from_le (slice 4 8 data))\<rparr>)"

record relay_status =
  rs_air_negative :: bool
  rs_air_positive :: bool
  rs_precharge :: bool
  rs_ams_ok :: bool

definition decode_relay_status :: "int list \<Rightarrow> relay_status res" where
  "decode_relay_status data =
     (if length data < 1 then Inl (short_frame ''0x4A4'' ''>=1 byte'' data)
      else (let b = data ! 0 in
        Inr \<lparr>rs_air_negative = (b AND 1 \<noteq> 0), rs_air_positive = (b AND 2 \<noteq> 0),
             rs_precharge = (b AND 4 \<noteq> 0), rs_ams_ok = (b AND 8 \<noteq> 0)\<rparr>))"

record fdcan1_recovery =
  fr_busoff_recovery_count :: int
  fr_acu_tx_fail_count :: int

definition decode_fdcan1_recovery :: "int list \<Rightarrow> fdcan1_recovery res" where
  "decode_fdcan1_recovery data =
     (if length data < 8 then Inl (short_frame ''0x6C9'' ''8 bytes'' data)
      else Inr \<lparr>fr_busoff_recovery_count = from_le (slice 0 4 data),
                fr_acu_tx_fail_count = from_le (slice 4 8 data)\<rparr>)"

definition i8 :: "int \<Rightarrow> int" where
  "i8 b = (if 127 < b then b - 256 else b)"

record cockpit =
  cp_raw :: int
  cp_valid :: bool
  cp_mode :: int
  cp_tsms :: bool
  cp_dash :: bool

record telem_temps =
  tt_min_tempC :: int
  tt_max_tempC :: int
  tt_avg_tempC :: int
  tt_dc_bus_V :: int
  tt_heartbeat :: int
  tt_cockpit :: cockpit

definition decode_telem_temps :: "int list \<Rightarrow> telem_temps res" where
  "decode_telem_temps data =
     (if length data < 8 then Inl (short_frame ''0x4A2'' ''8 bytes'' data)
      else (let cb = data ! 5 in
        Inr \<lparr>tt_min_tempC = i8 (data ! 0), tt_max_tempC = i8 (data ! 1), tt_avg_tempC = i8 (data ! 2),
             tt_dc_bus_V = data ! 3 OR push_bit 8 (data ! 4), tt_heartbeat = data ! 7,
             tt_cockpit = \<lparr>cp_raw = cb, cp_valid = (cb AND 0x80 \<noteq> 0),
                           cp_mode = drop_bit 2 cb AND 3, cp_tsms = (cb AND 2 \<noteq> 0),
                           cp_dash = (cb AND 1 \<noteq> 0)\<rparr>\<rparr>))"

subsection \<open>Every decoder reads exactly its bytes\<close>

lemma nth_take8: "8 \<le> length d \<Longrightarrow> i < 8 \<Longrightarrow> take 8 d ! i = d ! i"
  by simp

lemma slice_take: "b \<le> k \<Longrightarrow> slice a b (take k d) = slice a b d"
  by (simp add: slice_def drop_take min_def)

interpretation telem_status_dec: payload_decoder decode_telem_status 8
  by unfold_locales (auto simp: decode_telem_status_def)

interpretation telem_pack_dec: payload_decoder decode_telem_pack 8
  by unfold_locales (auto simp: decode_telem_pack_def slice_take)

interpretation relay_status_dec: payload_decoder decode_relay_status 1
  by unfold_locales (auto simp: decode_relay_status_def Let_def)

interpretation fdcan1_recovery_dec: payload_decoder decode_fdcan1_recovery 8
  by unfold_locales (auto simp: decode_fdcan1_recovery_def slice_take)

interpretation telem_temps_dec: payload_decoder decode_telem_temps 8
  by unfold_locales (auto simp: decode_telem_temps_def Let_def)

lemma i8_range: "is_byte b \<Longrightarrow> -128 \<le> i8 b \<and> i8 b \<le> 127"
  by (auto simp: i8_def is_byte_def)

lemma i8_signed: "i8 b = signed 8 b"
  by (auto simp: i8_def signed_def)

lemma be16_bytes: "is_byte a \<Longrightarrow> is_byte b \<Longrightarrow> push_bit 8 a OR b = a * 256 + b"
  by (simp add: bits_simps)

lemma le16_bytes: "is_byte a \<Longrightarrow> is_byte b \<Longrightarrow> b OR push_bit 8 a = a * 256 + b"
  using be16_bytes [of a b] by (simp add: or.commute)

lemma is_byte_nth: "is_bytes d \<Longrightarrow> i < length d \<Longrightarrow> is_byte (d ! i)"
  by (simp add: is_bytes_def list_all_length)

section \<open>Properties\<close>

text \<open>the identifiers of the five BMS modules never collide: two frames of the address map (polls
  and the five voltage and five temperature responses of each module) with the same identifier are
  the same frame of the same module, and all of them lie in 300 to 445.\<close>

theorem bms_ids_injective:
  assumes "bms_frame_id m f = Inr i" "bms_frame_id m' f' = Inr i"
  shows "m = m' \<and> f = f' \<and> 300 \<le> i \<and> i \<le> 445"
proof -
  from assms have *: "0 \<le> m" "m < 5" "0 \<le> m'" "m' < 5" "bms_frame_ok f" "bms_frame_ok f'"
      "i = 300 + 30 * m + bms_frame_offset f" "i = 300 + 30 * m' + bms_frame_offset f'"
    by (auto simp: bms_frame_id_Inr)
  with bms_frame_offset_range [of f] bms_frame_offset_range [of f']
  have m: "m = m'" by linarith
  with * have "bms_frame_offset f = bms_frame_offset f'" by simp
  with * m bms_frame_offset_inj [of f f'] bms_frame_offset_range [of f] show ?thesis by auto
qed

theorem bms_ids_injective_witness:
  "bms_frame_id 2 (TempResp 4) = Inr 385 \<and> (2::int) = 2 \<and> (300::int) \<le> 385"
proof -
  have h: "bms_frame_id 2 (TempResp 4) = Inr 385" by (simp add: bms_frame_id_Inr del: bms_frame_id.simps)
  from bms_ids_injective [OF h h] h show ?thesis by simp
qed

text \<open>on the vehicle bus no two frames of the map share an identifier in the same format: the
  boot trigger, the vehicle and telemetry frames, and the 24 cell, 25 temperature and 10 further
  frames of the pit-diagnostics stream are pairwise distinct.\<close>

theorem ams_bus_ids_distinct: "distinct ams_all_ids \<and> length ams_all_ids = 76"
  by (simp add: ams_ids_defs upto.simps)

text \<open>The documented layouts of 0x4A0 and 0x4A1, as encoders the decoders are checked against.\<close>

definition be16 :: "int \<Rightarrow> int list" where
  "be16 v = [v div 256 mod 256, v mod 256]"

definition telem_status_layout :: "telem_status \<Rightarrow> int list" where
  "telem_status_layout t =
     [ts_state t mod 256, of_bool (ts_ams_ok t), ts_module_online_mask t mod 256, 0]
       @ be16 (ts_min_cell_mV t) @ be16 (ts_max_cell_mV t)"

definition telem_status_valid :: "telem_status \<Rightarrow> bool" where
  "telem_status_valid t \<longleftrightarrow> is_byte (ts_state t) \<and> is_byte (ts_module_online_mask t) \<and>
     0 \<le> ts_min_cell_mV t \<and> ts_min_cell_mV t < 65536 \<and>
     0 \<le> ts_max_cell_mV t \<and> ts_max_cell_mV t < 65536 \<and>
     ts_state_name t = FsmState_name (ts_state t)"

definition telem_pack_layout :: "telem_pack \<Rightarrow> int list" where
  "telem_pack_layout t = le_bytes 4 (tp_pack_voltage_mV t) @ le_bytes 4 (tp_filtered_mA t)"

definition telem_pack_valid :: "telem_pack \<Rightarrow> bool" where
  "telem_pack_valid t \<longleftrightarrow> 0 \<le> tp_pack_voltage_mV t \<and> tp_pack_voltage_mV t < 2 ^ 32 \<and>
     - (2 ^ 31) \<le> tp_filtered_mA t \<and> tp_filtered_mA t < 2 ^ 31"

lemma be16_value: "0 \<le> v \<Longrightarrow> v < 65536 \<Longrightarrow> push_bit 8 (v div 256 mod 256) OR (v mod 256) = (v::int)"
proof -
  assume "0 \<le> v" "v < 65536"
  then have "is_byte (v div 256)" unfolding is_byte_def by presburger
  then show ?thesis using be16_bytes [of "v div 256" "v mod 256"] by (simp add: is_byte_def)
qed

lemma is_byte_mod_id: "is_byte x \<Longrightarrow> x mod 256 = x"
  by (simp add: is_byte_def)

interpretation telem_status_codec:
  padded_codec telem_status_layout decode_telem_status "\<lambda>t. t" telem_status_valid 8
  by unfold_locales
    (auto simp: telem_status_layout_def be16_def decode_telem_status_def telem_status_valid_def
       be16_value is_byte_mod_id is_byte_def)

interpretation telem_pack_codec:
  padded_codec telem_pack_layout decode_telem_pack "\<lambda>t. t" telem_pack_valid 8
  by unfold_locales
    (auto simp: telem_pack_layout_def decode_telem_pack_def telem_pack_valid_def slice_def
       from_le_le_bytes signed_mod [of 32, simplified])

text \<open>C21: decoding inverts the documented layouts of the status (0x4A0) and pack (0x4A1) frames: every
  in-range field comes back, the signed current included, whatever bytes follow the payload.\<close>

theorem telem_roundtrip:
  assumes "telem_status_valid t" "telem_pack_valid p"
  shows "decode_telem_status (telem_status_layout t @ pad) = Inr t \<and>
         decode_telem_pack (telem_pack_layout p @ pad) = Inr p"
  using telem_status_codec.roundtrip_padded [OF assms(1)]
    telem_pack_codec.roundtrip_padded [OF assms(2)] by simp

theorem telem_roundtrip_witness:
  "decode_telem_pack (telem_pack_layout \<lparr>tp_pack_voltage_mV = 350000, tp_filtered_mA = -1500\<rparr> @ [7])
     = Inr \<lparr>tp_pack_voltage_mV = 350000, tp_filtered_mA = -1500\<rparr>"
proof -
  have "telem_status_valid \<lparr>ts_state = 3, ts_state_name = ''Run'', ts_ams_ok = True,
      ts_module_online_mask = 31, ts_min_cell_mV = 3600, ts_max_cell_mV = 3900\<rparr>"
    by (simp add: telem_status_valid_def is_byte_def FsmState_name_def fsm_names_def)
  moreover have "telem_pack_valid \<lparr>tp_pack_voltage_mV = 350000, tp_filtered_mA = -1500\<rparr>"
    by (simp add: telem_pack_valid_def)
  ultimately show ?thesis by (rule telem_roundtrip [THEN conjunct2])
qed

text \<open>each telemetry decoder returns exactly on payloads of at least its length (8 bytes, 1 for the
  relay status) and raises on every shorter one.\<close>

theorem telem_decoders_total:
  "((\<exists>r. decode_telem_status d = Inr r) \<longleftrightarrow> 8 \<le> length d) \<and>
   ((\<exists>r. decode_telem_pack d = Inr r) \<longleftrightarrow> 8 \<le> length d) \<and>
   ((\<exists>r. decode_fdcan1_recovery d = Inr r) \<longleftrightarrow> 8 \<le> length d) \<and>
   ((\<exists>r. decode_telem_temps d = Inr r) \<longleftrightarrow> 8 \<le> length d) \<and>
   ((\<exists>r. decode_relay_status d = Inr r) \<longleftrightarrow> 1 \<le> length d)"
  using telem_status_dec.returns_iff telem_pack_dec.returns_iff fdcan1_recovery_dec.returns_iff
    telem_temps_dec.returns_iff relay_status_dec.returns_iff by simp

end
