(* ===== verification/Crc.thy ===== *)
theory Crc
  imports Prelude
begin

text \<open>
  The contract of a byte-wise cyclic redundancy check: one step is injective in the register and in
  the byte. Its clients get the detection of every single corrupted byte from these two laws.
\<close>

locale crc =
  fixes step :: "'r \<Rightarrow> int \<Rightarrow> 'r"
    and reg :: "'r \<Rightarrow> bool"
  assumes step_reg: "reg c \<Longrightarrow> is_byte b \<Longrightarrow> reg (step c b)"
    and step_inj_reg: "reg c \<Longrightarrow> reg c' \<Longrightarrow> is_byte b \<Longrightarrow> step c b = step c' b \<Longrightarrow> c = c'"
    and step_inj_byte: "reg c \<Longrightarrow> is_byte b \<Longrightarrow> is_byte b' \<Longrightarrow> step c b = step c b' \<Longrightarrow> b = b'"
begin

lemma fold_reg: "reg c \<Longrightarrow> is_bytes bs \<Longrightarrow> reg (foldl step c bs)"
  by (induction bs arbitrary: c) (simp_all add: step_reg)

lemma fold_inj_reg:
  "reg c \<Longrightarrow> reg c' \<Longrightarrow> is_bytes bs \<Longrightarrow> foldl step c bs = foldl step c' bs \<Longrightarrow> c = c'"
proof (induction bs arbitrary: c c')
  case (Cons b bs)
  then have "step c b = step c' b" by (simp add: step_reg)
  with Cons.prems step_inj_reg [of c c' b] show ?case by simp
qed simp

lemma single_byte_detected:
  assumes "reg c" "is_bytes xs" "is_byte b" "is_byte b'" "is_bytes ys"
    and "foldl step c (xs @ b # ys) = foldl step c (xs @ b' # ys)"
  shows "b = b'"
proof -
  let ?c = "foldl step c xs"
  have c: "reg ?c" using assms by (simp add: fold_reg)
  with assms have "step ?c b = step ?c b'"
    using fold_inj_reg [of "step ?c b" "step ?c b'" ys] by (simp add: step_reg)
  with c assms step_inj_byte show ?thesis by blast
qed

text \<open>The same for a list updated in one place.\<close>

lemma update_detected:
  assumes "reg c" "is_bytes bs" "i < length bs" "is_byte v" "v \<noteq> bs ! i"
  shows "foldl step c (bs[i := v]) \<noteq> foldl step c bs"
proof
  assume eq: "foldl step c (bs[i := v]) = foldl step c bs"
  have "bs = take i bs @ bs ! i # drop (Suc i) bs"
    using assms by (simp add: id_take_nth_drop)
  moreover have "bs[i := v] = take i bs @ v # drop (Suc i) bs"
    using assms by (simp add: upd_conv_take_nth_drop)
  ultimately have "v = bs ! i"
    using single_byte_detected [of c "take i bs" v "bs ! i" "drop (Suc i) bs"] assms eq
      is_bytes_nth [of bs i]
    by (simp add: is_bytes_take is_bytes_drop is_byte_def)
  with assms show False by simp
qed

end

end
