(* ===== verification/Vcu_Can_Map.thy ===== *)
theory Vcu_Can_Map
  imports Codec Crc
begin

text \<open>
  \<^verbatim>\<open>tools/firmware_test/vcu/can_map.py\<close>: the CAN identifiers of the vehicle control unit, the
  decoders of its pit-diagnostics frames, the little-endian bit fields of the inverter's frames, the
  end-to-end protected inverter frames (SAE J1850 CRC and rolling counter), and the torque map of the
  driverless mode. A decoder whose Python raises \<open>IndexError\<close> on a short payload returns a
  \<open>res\<close>; slices clip, as in Python.
\<close>

section \<open>Identifiers and enumerations\<close>

definition vcu_ids :: "(string \<times> int) list" where
  "vcu_ids =
     [(''ID_HEARTBEAT'', 0x100), (''ID_PIT_ENABLE'', 0x7E0), (''ID_PIT_ACK'', 0x7E1),
      (''ID_PIT_STATUS'', 0x700), (''ID_PIT_PEDALS'', 0x701), (''ID_PIT_INVERTER'', 0x702),
      (''ID_PIT_FWINFO'', 0x703), (''ID_PIT_HEALTH'', 0x704), (''ID_PIT_BRAKE'', 0x705),
      (''ID_PIT_TEMPS'', 0x706),
      (''ID_DV_TS_ACTIVE'', 0x504), (''ID_DV_BRAKE_OVER'', 0x505), (''ID_DV_MOTOR_RPM'', 0x506),
      (''ID_DV_R2D_CONFIRM'', 0x511), (''ID_UDV_TORQUE'', 0x507), (''ID_UDV_R2D_REQ'', 0x510),
      (''ID_INV_CMD'', 0x360), (''ID_INV_TORQUE'', 0x362), (''ID_INV_STATE2'', 0x461),
      (''ID_INV_RPM'', 0x463), (''ID_INV_TEMPS'', 0x464), (''ID_INV_STATE7'', 0x466),
      (''ID_ACU_PRECHARGE'', 0x020), (''ID_AMS_STATUS'', 0x4A0)]"

definition VcuFsmState :: "(int \<times> string) list" where
  "VcuFsmState =
     [(0, ''WAIT_INV_VDC_CONFIG''), (1, ''PRECHARGE''), (2, ''WAIT_START_BRAKE''),
      (3, ''R2D_DELAY''), (4, ''WAIT_INV_STANDBY''), (5, ''ACTIVE''), (6, ''AMS_ERROR'')]"

definition VcuFsmState_name_of :: "int \<Rightarrow> string" where
  "VcuFsmState_name_of v = (case map_of VcuFsmState v of Some s \<Rightarrow> s | None \<Rightarrow> ''?'' @ show_int v)"

definition InvState :: "(int \<times> string) list" where
  "InvState = [(3, ''STANDBY''), (4, ''READY''), (6, ''TORQUE''), (10, ''FAULT_SOFT''), (11, ''FAULT_HARD'')]"

definition InvMode :: "(int \<times> string) list" where
  "InvMode = [(0x01, ''OFF''), (0x04, ''READY''), (0x06, ''TORQUE_ENABLE''), (0x0D, ''HARD_FAULT_RESET''),
     (0x13, ''FAULT'')]"

definition ResetCause :: "(int \<times> string) list" where
  "ResetCause = [(0, ''UNKNOWN''), (1, ''POR''), (2, ''PIN''), (3, ''SOFT''), (4, ''IWDG''), (5, ''WWDG''),
     (6, ''LPWR'')]"

definition pit_flags :: "(string \<times> int) list" where
  "pit_flags = [(''EV_2_3'', push_bit 0 1), (''T11_8_9'', push_bit 1 1), (''RTDS_ACTIVE'', push_bit 2 1),
     (''OK_PRECHARGE'', push_bit 3 1), (''START_BUTTON'', push_bit 4 1)]"

definition LAST_FAULT :: "(int \<times> string) list" where
  "LAST_FAULT = [(0x00, ''none''), (0xF1, ''hardfault''), (0xF2, ''memmanage''), (0xF3, ''busfault''),
     (0xF4, ''usagefault''), (0xF5, ''stack_overflow''), (0xF6, ''malloc_failed''), (0xF7, ''assert'')]"

definition TASK_ALL :: int where
  "TASK_ALL = push_bit 0 1 OR push_bit 1 1 OR push_bit 2 1 OR push_bit 3 1 OR push_bit 4 1"

section \<open>Little-endian bit fields\<close>

definition u_field :: "int list \<Rightarrow> nat \<Rightarrow> nat \<Rightarrow> int" where
  "u_field data start len = drop_bit start (from_le data) AND (push_bit len 1 - 1)"

definition s_field :: "int list \<Rightarrow> nat \<Rightarrow> nat \<Rightarrow> int" where
  "s_field data start len =
     (let raw = u_field data start len
      in if push_bit (len - 1) 1 \<le> raw then raw - push_bit len 1 else raw)"

lemma u_field_arith: "u_field data start len = from_le data div 2 ^ start mod 2 ^ len"
  by (simp add: u_field_def push_bit_eq_mult drop_bit_eq_div and_pow2)

lemma s_field_arith: "s_field data start len = signed len (from_le data div 2 ^ start mod 2 ^ len)"
  by (simp add: s_field_def u_field_arith signed_def Let_def push_bit_eq_mult)

section \<open>Decoders\<close>

definition decode_heartbeat :: "int list \<Rightarrow> int" where
  "decode_heartbeat data = from_le (slice 0 2 data)"

record pit_status =
  ps_fsm_state :: int
  ps_inv_state :: int
  ps_flags :: int
  ps_torque_pct :: int
  ps_v_cell_min_mV :: int
  ps_torque_cmd :: int

datatype pit_status_view = PitShort "int option" | PitFull pit_status

definition decode_pit_status :: "int list \<Rightarrow> pit_status_view" where
  "decode_pit_status data =
     (if length data < 8 then PitShort (if data \<noteq> [] then Some (data ! 0) else None)
      else PitFull \<lparr>ps_fsm_state = data ! 0, ps_inv_state = data ! 1, ps_flags = data ! 2,
                    ps_torque_pct = data ! 3, ps_v_cell_min_mV = from_be (slice 4 6 data),
                    ps_torque_cmd = signed 16 (from_be (slice 6 8 data))\<rparr>)"

record pit_pedals =
  pp_apps1_raw :: int
  pp_apps2_raw :: int
  pp_brake_raw :: int
  pp_apps1_pct :: int
  pp_apps2_pct :: int

definition decode_pit_pedals :: "int list \<Rightarrow> pit_pedals res" where
  "decode_pit_pedals data =
     rbind (byte_at data 6) (\<lambda>a1. rbind (byte_at data 7) (\<lambda>a2.
       Inr \<lparr>pp_apps1_raw = from_be (slice 0 2 data), pp_apps2_raw = from_be (slice 2 4 data),
            pp_brake_raw = from_be (slice 4 6 data), pp_apps1_pct = a1, pp_apps2_pct = a2\<rparr>))"

record pit_inverter =
  pi_dc_bus_v :: int
  pi_inv_rpm :: int
  pi_inv_error :: int

definition decode_pit_inverter :: "int list \<Rightarrow> pit_inverter res" where
  "decode_pit_inverter data =
     rbind (byte_at data 6) (\<lambda>e.
       Inr \<lparr>pi_dc_bus_v = from_be (slice 0 2 data),
            pi_inv_rpm = signed 32 (from_be (slice 2 6 data)), pi_inv_error = e\<rparr>)"

record pit_fwinfo =
  pf_fw_version :: "int \<times> int \<times> int"
  pf_git_hash :: int

definition decode_pit_fwinfo :: "int list \<Rightarrow> pit_fwinfo res" where
  "decode_pit_fwinfo data =
     rbind (byte_at data 0) (\<lambda>a. rbind (byte_at data 1) (\<lambda>b. rbind (byte_at data 2) (\<lambda>c.
       Inr \<lparr>pf_fw_version = (a, b, c), pf_git_hash = from_be (slice 3 7 data)\<rparr>)))"

record pit_health =
  ph_free_heap :: int
  ph_min_free_heap :: int
  ph_task_ran_mask :: int
  ph_stub_no_ams :: int
  ph_stub_no_inverter :: int
  ph_stub_start :: int
  ph_reset_cause :: int
  ph_stub_brake :: int
  ph_cal_status :: int
  ph_stub_torque_cap :: int
  ph_boot_refused :: int
  ph_uptime_s :: int
  ph_last_fault :: int

definition decode_pit_health :: "int list \<Rightarrow> pit_health res" where
  "decode_pit_health data =
     rbind (byte_at data 4) (\<lambda>b4. rbind (byte_at data 5) (\<lambda>b5.
     rbind (byte_at data 6) (\<lambda>b6. rbind (byte_at data 7) (\<lambda>b7.
       Inr \<lparr>ph_free_heap = from_be (slice 0 2 data),
            ph_min_free_heap = from_be (slice 2 4 data),
            ph_task_ran_mask = b4 AND TASK_ALL,
            ph_stub_no_ams = drop_bit 5 b4 AND 1,
            ph_stub_no_inverter = drop_bit 6 b4 AND 1,
            ph_stub_start = drop_bit 7 b4 AND 1,
            ph_reset_cause = b5 AND 7,
            ph_stub_brake = drop_bit 3 b5 AND 1,
            ph_cal_status = drop_bit 4 b5 AND 3,
            ph_stub_torque_cap = drop_bit 6 b5 AND 1,
            ph_boot_refused = drop_bit 7 b5 AND 1,
            ph_uptime_s = b6,
            ph_last_fault = b7\<rparr>))))"

record pit_brake =
  pb_brake_pressure_bar :: rat
  pb_brake_pct :: int

definition decode_pit_brake :: "int list \<Rightarrow> pit_brake res" where
  "decode_pit_brake data =
     rbind (byte_at data 2) (\<lambda>p.
       Inr \<lparr>pb_brake_pressure_bar = of_int (from_be (slice 0 2 data)) * (1 / 10), pb_brake_pct = p\<rparr>)"

record inv_cmd =
  ic_app_state_req :: int
  ic_flt_clear :: int

definition decode_inv_cmd :: "int list \<Rightarrow> inv_cmd" where
  "decode_inv_cmd data =
     \<lparr>ic_app_state_req = u_field data 16 7, ic_flt_clear = u_field data 23 1\<rparr>"

definition decode_inv_torque :: "int list \<Rightarrow> int" where
  "decode_inv_torque data = s_field data 16 16"

record pit_temps =
  pt_board_degC :: int
  pt_pwrstg_degC :: int
  pt_motor1_degC :: int
  pt_motor2_degC :: int

definition decode_pit_temps :: "int list \<Rightarrow> pit_temps res" where
  "decode_pit_temps data =
     rbind (byte_at data 0) (\<lambda>a. rbind (byte_at data 1) (\<lambda>b.
     rbind (byte_at data 2) (\<lambda>c. rbind (byte_at data 3) (\<lambda>d.
       Inr \<lparr>pt_board_degC = a - 50, pt_pwrstg_degC = b - 50,
            pt_motor1_degC = c - 50, pt_motor2_degC = d - 50\<rparr>))))"

definition decode_ts_active :: "int list \<Rightarrow> int res" where
  "decode_ts_active data = byte_at data 0"

definition decode_brake_over :: "int list \<Rightarrow> int res" where
  "decode_brake_over data = byte_at data 0"

definition decode_motor_rpm :: "int list \<Rightarrow> int" where
  "decode_motor_rpm data = (let bs = slice 0 4 data in signed (8 * length bs) (from_le bs))"

definition decode_r2d_confirm :: "int list \<Rightarrow> int res" where
  "decode_r2d_confirm data = byte_at data 0"

section \<open>End-to-end protected frames\<close>

definition crc8_shift :: "int \<Rightarrow> int" where
  "crc8_shift c =
     (if c AND 0x80 \<noteq> 0 then (push_bit 1 c XOR 0x1D) AND 0xFF else push_bit 1 c AND 0xFF)"

definition crc8_step :: "int \<Rightarrow> int \<Rightarrow> int" where
  "crc8_step c b = (crc8_shift ^^ 8) (c XOR b)"

definition crc8_j1850 :: "int list \<Rightarrow> int" where
  "crc8_j1850 payload = foldl crc8_step 0xFF payload XOR 0xFF"

definition e2e_frame :: "nat \<Rightarrow> int \<Rightarrow> int \<Rightarrow> (int list \<Rightarrow> int list) \<Rightarrow> int list" where
  "e2e_frame dlc cnt data_id sig_writer =
     (let buf = sig_writer ((replicate dlc 0)[1 := cnt AND 0x0F])
      in buf[0 := crc8_j1850 ((data_id AND 0xFF) # drop 1 buf)])"

definition encode_inv_state2 :: "int \<Rightarrow> int \<Rightarrow> int \<Rightarrow> int list" where
  "encode_inv_state2 inv_state cnt data_id =
     e2e_frame 7 cnt data_id (\<lambda>buf. buf[4 := inv_state AND 0x0F])"

definition encode_inv_state7 :: "int \<Rightarrow> int \<Rightarrow> int \<Rightarrow> int list" where
  "encode_inv_state7 dc_bus_v cnt data_id =
     e2e_frame 6 cnt data_id (\<lambda>buf. let v = dc_bus_v AND 0xFFFF
       in buf[2 := v AND 0xFF, 3 := drop_bit 8 v AND 0xFF])"

definition encode_inv_rpm :: "int \<Rightarrow> int list" where
  "encode_inv_rpm rpm =
     (let raw = rpm AND 0xFFFFF
      in (replicate 8 0)[5 := push_bit 4 (raw AND 0x0F), 6 := drop_bit 4 raw AND 0xFF,
                         7 := drop_bit 12 raw AND 0xFF])"

definition encode_inv_temps :: "int \<Rightarrow> int \<Rightarrow> int \<Rightarrow> int \<Rightarrow> int list" where
  "encode_inv_temps board pwrstg motor1 motor2 =
     [(board + 50) AND 0xFF, (pwrstg + 50) AND 0xFF, (motor1 + 50) AND 0xFF, (motor2 + 50) AND 0xFF]"

section \<open>Driverless mode\<close>

definition encode_udv_torque :: "int \<Rightarrow> int list res" where
  "encode_udv_torque pct = to_bytes_le_signed 4 pct"

definition encode_udv_r2d :: "int \<Rightarrow> int list" where
  "encode_udv_r2d request = [request AND 0xFF]"

definition DV_TORQUE_DEADBAND_PCT :: int where "DV_TORQUE_DEADBAND_PCT = 10"

definition dv_conditioned_pct :: "int \<Rightarrow> int" where
  "dv_conditioned_pct cmd = (if cmd < 0 then 0 else if 100 < cmd then 100 else cmd)"

definition dv_torque_nm :: "int \<Rightarrow> int" where
  "dv_torque_nm pct =
     (if pct < DV_TORQUE_DEADBAND_PCT then 0 else - (pct * 240 div 90 - 2400 div 90))"

section \<open>The CRC as an instance of the contract\<close>

lemma and_pow2_eq_0: "(x::int) AND 2 ^ n = 0 \<longleftrightarrow> even (x div 2 ^ n)"
  by (simp add: and_exp_eq_0_iff_not_bit bit_iff_odd)

lemma crc8_shift_low:
  assumes "is_byte c" "c < 128"
  shows "crc8_shift c = 2 * c"
proof -
  have "c AND 128 = 0" using and_pow2_eq_0 [of c 7] assms by (simp add: is_byte_def)
  moreover have "(2 * c) mod 256 = 2 * c" using assms by (simp add: is_byte_def)
  ultimately show ?thesis by (simp add: crc8_shift_def and_mask_255 push_bit_eq_mult mult.commute)
qed

lemma crc8_shift_high:
  assumes "is_byte c" "\<not> c < 128"
  shows "crc8_shift c = (2 * (c - 128)) XOR 29"
proof -
  have "c div 128 = 1" by (rule int_div_pos_eq [where r = "c - 128"]) (use assms in \<open>auto simp: is_byte_def\<close>)
  with and_pow2_eq_0 [of c 7] have n: "c AND 128 \<noteq> 0" by simp
  have "(c * 2) mod 256 = 2 * (c - 128)"
    by (rule int_mod_pos_eq [where q = 1]) (use assms in \<open>auto simp: is_byte_def\<close>)
  with mod_xor [of "c * 2" 29 8] have "((c * 2) XOR 29) mod 256 = (2 * (c - 128)) XOR 29" by simp
  with n show ?thesis by (simp add: crc8_shift_def and_mask_255 push_bit_eq_mult)
qed

lemma is_byte_crc8_shift: "is_byte (crc8_shift c)"
  by (simp add: crc8_shift_def bits_simps)

lemma even_xor_29: "odd ((2 * x) XOR (29::int))"
  by (simp add: even_xor_iff)

lemma crc8_shift_inj: "is_byte c \<Longrightarrow> is_byte c' \<Longrightarrow> crc8_shift c = crc8_shift c' \<Longrightarrow> c = c'"
proof -
  assume b: "is_byte c" "is_byte c'" and eq: "crc8_shift c = crc8_shift c'"
  have par: "even (crc8_shift x) \<longleftrightarrow> x < 128" if "is_byte x" for x
    using that even_xor_29 [of "x - 128"] by (cases "x < 128") (simp_all only: crc8_shift_low crc8_shift_high not_False_eq_True, auto)
  from b eq par have "(c < 128) = (c' < 128)" by metis
  then show ?thesis
  proof (cases "c < 128")
    case True
    with \<open>(c < 128) = (c' < 128)\<close> b eq show ?thesis by (simp add: crc8_shift_low)
  next
    case False
    with \<open>(c < 128) = (c' < 128)\<close> b eq have "29 XOR (2 * (c - 128)) = 29 XOR (2 * (c' - 128))"
      by (simp add: crc8_shift_high xor.commute)
    from xor_cancel [OF this] show ?thesis by simp
  qed
qed

lemma is_byte_crc8_iter: "is_byte c \<Longrightarrow> is_byte ((crc8_shift ^^ n) c)"
  by (cases n) (simp_all add: is_byte_crc8_shift)

lemma crc8_iter_inj:
  "is_byte c \<Longrightarrow> is_byte c' \<Longrightarrow> (crc8_shift ^^ n) c = (crc8_shift ^^ n) c' \<Longrightarrow> c = c'"
  by (induction n) (auto dest: crc8_shift_inj [OF is_byte_crc8_iter is_byte_crc8_iter, rotated 2])

lemma crc8_step_inj:
  assumes "is_byte c" "is_byte b" "is_byte c'" "is_byte b'" "crc8_step c b = crc8_step c' b'"
  shows "c XOR b = c' XOR b'"
  using assms crc8_iter_inj [of "c XOR b" "c' XOR b'" 8]
  by (simp add: crc8_step_def is_byte_xor del: funpow.simps)

interpretation crc8: crc crc8_step is_byte
proof
  fix c c' b b' :: int
  show "is_byte c \<Longrightarrow> is_byte b \<Longrightarrow> is_byte (crc8_step c b)"
    unfolding crc8_step_def by (intro is_byte_crc8_iter is_byte_xor)
  show "c = c'" if "is_byte c" "is_byte c'" "is_byte b" "crc8_step c b = crc8_step c' b"
    using crc8_step_inj [of c b c' b] that xor_cancel [of b c c'] by (simp add: xor.commute)
  show "b = b'" if "is_byte c" "is_byte b" "is_byte b'" "crc8_step c b = crc8_step c b'"
    using crc8_step_inj [of c b c b'] that xor_cancel [of c b b'] by simp
qed

section \<open>Protected frames\<close>

text \<open>What a receiver of an end-to-end protected frame checks: byte 0 is the CRC of the data
  identifier and of the rest of the frame.\<close>

definition e2e_ok :: "int \<Rightarrow> int list \<Rightarrow> bool" where
  "e2e_ok data_id frame \<longleftrightarrow>
     frame \<noteq> [] \<and> hd frame = crc8_j1850 ((data_id AND 0xFF) # drop 1 frame)"

lemma crc8_j1850_inj: "crc8_j1850 p = crc8_j1850 q \<longleftrightarrow> foldl crc8_step 0xFF p = foldl crc8_step 0xFF q"
  using xor_cancel [of 255 "foldl crc8_step 0xFF p" "foldl crc8_step 0xFF q"]
  by (auto simp: crc8_j1850_def xor.commute)

lemma e2e_frame_shape:
  "0 < dlc \<Longrightarrow> length (w ((replicate dlc 0)[1 := cnt AND 0x0F])) = dlc \<Longrightarrow>
   length (e2e_frame dlc cnt data_id w) = dlc \<and> e2e_ok data_id (e2e_frame dlc cnt data_id w)"
  by (cases "w ((replicate dlc 0)[1 := cnt AND 15])") (auto simp: e2e_frame_def e2e_ok_def Let_def)

lemma e2e_corruption_detected:
  assumes "e2e_ok data_id frame" "is_bytes (drop 1 frame)" "i < length frame"
    and "is_byte v" "v \<noteq> frame ! i"
  shows "\<not> e2e_ok data_id (frame[i := v])"
proof (cases i)
  case 0
  with assms show ?thesis by (cases frame) (auto simp: e2e_ok_def)
next
  case (Suc j)
  let ?p = "(data_id AND 0xFF) # drop 1 frame"
  from assms Suc have "foldl crc8_step 0xFF (?p[i := v]) \<noteq> foldl crc8_step 0xFF ?p"
    by (intro crc8.update_detected) (auto simp: and_mask_255 is_byte_def)
  with assms Suc show ?thesis
    by (cases frame) (auto simp: e2e_ok_def crc8_j1850_inj)
qed

text \<open>The frames the map builds; \<open>data_id\<close> and the signal are arbitrary integers.\<close>

datatype inv_frame = State2 int int int | State7 int int int

fun inv_frame_bytes :: "inv_frame \<Rightarrow> int list" where
  "inv_frame_bytes (State2 s cnt data_id) = encode_inv_state2 s cnt data_id"
| "inv_frame_bytes (State7 v cnt data_id) = encode_inv_state7 v cnt data_id"

fun inv_frame_data_id :: "inv_frame \<Rightarrow> int" where
  "inv_frame_data_id (State2 s cnt data_id) = data_id"
| "inv_frame_data_id (State7 v cnt data_id) = data_id"

fun inv_frame_cnt :: "inv_frame \<Rightarrow> int" where
  "inv_frame_cnt (State2 s cnt data_id) = cnt"
| "inv_frame_cnt (State7 v cnt data_id) = cnt"

lemma replicate_frame:
  "replicate 6 (x::int) = [x, x, x, x, x, x]" "replicate 7 x = [x, x, x, x, x, x, x]"
  "replicate 8 x = [x, x, x, x, x, x, x, x]"
  by (simp_all add: eval_nat_numeral)

lemma encode_inv_state2_bytes:
  "encode_inv_state2 s cnt data_id =
     [crc8_j1850 [data_id mod 256, cnt mod 16, 0, 0, s mod 16, 0, 0], cnt mod 16, 0, 0, s mod 16, 0, 0]"
  by (simp add: encode_inv_state2_def e2e_frame_def Let_def replicate_frame and_mask_15 and_mask_255)

lemma encode_inv_state7_bytes:
  "encode_inv_state7 v cnt data_id =
     (let lo = v mod 65536 mod 256; hi = v mod 65536 div 256 mod 256
      in [crc8_j1850 [data_id mod 256, cnt mod 16, lo, hi, 0, 0], cnt mod 16, lo, hi, 0, 0])"
  by (simp add: encode_inv_state7_def e2e_frame_def Let_def replicate_frame and_mask_15 and_mask_255
      and_mask_65535 drop_bit_eq_div)

lemma inv_frame_bytes_shape:
  "e2e_ok (inv_frame_data_id f) (inv_frame_bytes f) \<and> is_bytes (drop 1 (inv_frame_bytes f))
   \<and> inv_frame_bytes f ! 1 = inv_frame_cnt f mod 16"
  by (cases f) (auto simp: encode_inv_state2_bytes encode_inv_state7_bytes e2e_ok_def Let_def
      is_byte_def and_mask_255)

text \<open>C22: every protected inverter frame carries a valid CRC and its counter modulo 16, and replacing
  any one of its bytes, the CRC included, by another byte value makes the check fail.\<close>

theorem inv_frames_protected:
  assumes "i < length (inv_frame_bytes f)" "is_byte v" "v \<noteq> inv_frame_bytes f ! i"
  shows "e2e_ok (inv_frame_data_id f) (inv_frame_bytes f) \<and>
         inv_frame_bytes f ! 1 = inv_frame_cnt f mod 16 \<and>
         \<not> e2e_ok (inv_frame_data_id f) ((inv_frame_bytes f)[i := v])"
  using e2e_corruption_detected [OF _ _ assms] inv_frame_bytes_shape [of f] by blast

theorem inv_frames_protected_witness:
  "\<not> e2e_ok 0x461 ((inv_frame_bytes (State2 3 5 0x461))[4 := 11])"
  using inv_frames_protected [of 4 "State2 3 5 1121" 11]
  by (simp add: encode_inv_state2_bytes is_byte_def)

section \<open>Round trips\<close>

lemma encode_inv_rpm_bytes:
  "encode_inv_rpm rpm = [0, 0, 0, 0, 0] @ le_bytes 3 (rpm mod 1048576 * 16)"
proof -
  have "r * 16 mod 256 = r mod 16 * 16" "r * 16 div 256 = r div 16" for r :: int
    using mult_mod_right [of 16 r 16] div_mult_mult2 [of 16 r 16] by (simp_all add: mult.commute)
  moreover have "r div 16 div 256 = r div 4096" for r :: int
    by (simp add: zdiv_zmult2_eq [symmetric])
  ultimately show ?thesis
    by (simp add: encode_inv_rpm_def Let_def replicate_frame and_mask_1048575 and_mask_15 and_mask_255
        shifts numeral_3_eq_3 mod_mod_trivial)
qed

lemma from_le_replicate: "from_le (replicate n 0 @ bs) = 256 ^ n * from_le bs"
  by (induction n) simp_all

lemma rpm_field: "u_field (encode_inv_rpm rpm) 44 20 = rpm mod 1048576"
proof -
  let ?r = "rpm mod 1048576"
  have "from_le (le_bytes 3 (?r * 16)) = ?r * 16"
    by (simp add: from_le_le_bytes) 
  then have "from_le (encode_inv_rpm rpm) = 2 ^ 44 * ?r"
    using from_le_replicate [of 5 "le_bytes 3 (?r * 16)"]
    by (simp add: encode_inv_rpm_bytes eval_nat_numeral(2-3))
  then show ?thesis by (simp add: u_field_arith)
qed

lemma s_field_rpm: "s_field (encode_inv_rpm rpm) 44 20 = signed 20 (rpm mod 1048576)"
  using rpm_field [of rpm] by (simp add: s_field_def signed_def Let_def push_bit_eq_mult)

definition temps_valid :: "int \<times> int \<times> int \<times> int \<Rightarrow> bool" where
  "temps_valid = (\<lambda>(a, b, c, d). \<forall>t\<in>{a, b, c, d}. -50 \<le> t \<and> t \<le> 205)"

interpretation temps_codec: codec "\<lambda>(a, b, c, d). encode_inv_temps a b c d" decode_pit_temps
  "\<lambda>(a, b, c, d). \<lparr>pt_board_degC = a, pt_pwrstg_degC = b, pt_motor1_degC = c, pt_motor2_degC = d\<rparr>"
  temps_valid 4
  by unfold_locales
    (auto simp: encode_inv_temps_def decode_pit_temps_def temps_valid_def and_mask_255 is_byte_def)

interpretation temps_dec: payload_decoder decode_pit_temps 4
proof
  fix d :: "int list"
  show "length d < 4 \<Longrightarrow> \<exists>e. decode_pit_temps d = Inl e"
    by (auto simp: decode_pit_temps_def rbind_def split: sum.splits)
qed (auto simp: decode_pit_temps_def simp del: length_greater_0_conv)

lemma torque_roundtrip:
  "encode_udv_torque pct = Inr bs \<Longrightarrow> length bs = 4 \<and> decode_motor_rpm bs = pct"
  using signed_mod [of 32 pct]
  by (auto simp: encode_udv_torque_def to_bytes_le_signed_def decode_motor_rpm_def Let_def slice_def
      from_le_le_bytes split: if_splits)

lemma torque_raises: "(\<exists>bs. encode_udv_torque pct = Inr bs) \<longleftrightarrow> - (2 ^ 31) \<le> pct \<and> pct < 2 ^ 31"
  by (simp add: encode_udv_torque_def to_bytes_le_signed_def)

text \<open>C23: the values the rig injects into the inverter and driverless frames come back through the
  corresponding readers: the 20-bit signed speed at bit 44 of 0x463 for every speed in range, the
  four inverter temperatures from -50 to 205 degrees whatever the padding, and a torque command that
  is encodable at all (exactly the 32-bit signed integers), read as the rpm frame's format.\<close>

theorem vcu_roundtrips:
  assumes "- (2 ^ 19) \<le> rpm" "rpm < 2 ^ 19" "temps_valid (a, b, c, d)"
  shows "s_field (encode_inv_rpm rpm) 44 20 = rpm \<and>
         decode_pit_temps (encode_inv_temps a b c d @ pad) =
           Inr \<lparr>pt_board_degC = a, pt_pwrstg_degC = b, pt_motor1_degC = c, pt_motor2_degC = d\<rparr> \<and>
         ((\<exists>bs. encode_udv_torque pct = Inr bs \<and> decode_motor_rpm bs = pct) \<longleftrightarrow>
            - (2 ^ 31) \<le> pct \<and> pct < 2 ^ 31)"
proof (intro conjI)
  show "s_field (encode_inv_rpm rpm) 44 20 = rpm"
    using signed_mod [of 20 rpm] assms by (simp add: s_field_rpm)
  show "decode_pit_temps (encode_inv_temps a b c d @ pad) =
      Inr \<lparr>pt_board_degC = a, pt_pwrstg_degC = b, pt_motor1_degC = c, pt_motor2_degC = d\<rparr>"
    using temps_codec.roundtrip [of "(a, b, c, d)"] temps_codec.enc_length [of "(a, b, c, d)"] assms
      temps_dec.trailing_ignored [of "encode_inv_temps a b c d"] by simp
  show "(\<exists>bs. encode_udv_torque pct = Inr bs \<and> decode_motor_rpm bs = pct) \<longleftrightarrow>
      - (2 ^ 31) \<le> pct \<and> pct < 2 ^ 31"
    using torque_roundtrip [of pct] torque_raises [of pct] by blast
qed

theorem vcu_roundtrips_witness:
  "s_field (encode_inv_rpm (-1500)) 44 20 = -1500 \<and>
   decode_pit_temps (encode_inv_temps 30 40 (-25) 205 @ [1, 2]) =
     Inr \<lparr>pt_board_degC = 30, pt_pwrstg_degC = 40, pt_motor1_degC = -25, pt_motor2_degC = 205\<rparr>"
  using vcu_roundtrips [of "-1500" 30 40 "-25" 205 "[1, 2]"] by (simp add: temps_valid_def)

text \<open>the driverless torque map never drives forward and never exceeds 240 Nm of braking torque,
  whatever integer the bus carries; it asks for no torque up to a command of 10 percent, and for more
  with every larger command.\<close>

theorem dv_torque_safe:
  "- 240 \<le> dv_torque_nm (dv_conditioned_pct cmd) \<and> dv_torque_nm (dv_conditioned_pct cmd) \<le> 0 \<and>
   (dv_torque_nm (dv_conditioned_pct cmd) = 0 \<longleftrightarrow> cmd \<le> 10) \<and>
   (\<forall>cmd' \<ge> cmd. dv_torque_nm (dv_conditioned_pct cmd') \<le> dv_torque_nm (dv_conditioned_pct cmd))"
proof -
  have mono: "x * 240 div 90 \<le> y * 240 div 90" if "x \<le> y" for x y :: int
    by (rule zdiv_mono1) (use that in auto)
  have "dv_torque_nm (dv_conditioned_pct y) \<le> dv_torque_nm (dv_conditioned_pct x)" if "x \<le> y" for x y
    using that mono [of x y] mono [of x 100] mono [of 10 y] mono [of 10 100]
    by (auto simp: dv_torque_nm_def dv_conditioned_pct_def DV_TORQUE_DEADBAND_PCT_def)
  moreover have "- 240 \<le> dv_torque_nm (dv_conditioned_pct cmd) \<and>
      dv_torque_nm (dv_conditioned_pct cmd) \<le> 0"
    using mono [of cmd 100] mono [of 10 cmd]
    by (auto simp: dv_torque_nm_def dv_conditioned_pct_def DV_TORQUE_DEADBAND_PCT_def)
  moreover have "dv_torque_nm (dv_conditioned_pct cmd) = 0 \<longleftrightarrow> cmd \<le> 10"
    using mono [of 11 cmd] 
    by (auto simp: dv_torque_nm_def dv_conditioned_pct_def DV_TORQUE_DEADBAND_PCT_def)
  ultimately show ?thesis by blast
qed

theorem dv_torque_safe_witness:
  "dv_torque_nm (dv_conditioned_pct 250) \<le> dv_torque_nm (dv_conditioned_pct 40) \<and>
   dv_torque_nm (dv_conditioned_pct 40) = - 80 \<and> dv_torque_nm (dv_conditioned_pct 250) = - 240"
  using dv_torque_safe [of 40]
  by (simp add: dv_torque_nm_def dv_conditioned_pct_def DV_TORQUE_DEADBAND_PCT_def)

end
