(* ===== verification/Can_Observer.thy ===== *)
theory Can_Observer
  imports Codec
begin

text \<open>
  CAN messages as \<^verbatim>\<open>python-can\<close> carries them, and \<^verbatim>\<open>tools/firmware_test/can_observer.py\<close>: the list of
  captured frames and the queries over it. The capture thread is one append per received message;
  \<open>statistics.mean\<close> is the sum divided by the count.
\<close>

record can_msg =
  cm_id :: int
  cm_ext :: bool
  cm_data :: "int list"

definition std_msg :: "int \<Rightarrow> int list \<Rightarrow> can_msg" where
  "std_msg i d = \<lparr>cm_id = i, cm_ext = False, cm_data = d\<rparr>"

lemma std_msg_simps [simp]:
  "cm_id (std_msg i d) = i" "cm_ext (std_msg i d) = False" "cm_data (std_msg i d) = d"
  by (simp_all add: std_msg_def)

section \<open>Captured frames\<close>

record captured_frame =
  cf_timestamp :: rat
  cf_can_id :: int
  cf_is_extended_id :: bool
  cf_dlc :: nat
  cf_data :: "int list"

text \<open>One iteration of \<open>_run\<close>: what \<open>recv\<close> gave (an exception, nothing, or a message with the
  driver's timestamp, 0 when it has none) and the clock.\<close>

fun observer_step :: "rat \<Rightarrow> (exn + (rat \<times> can_msg) option) \<Rightarrow> captured_frame list \<Rightarrow> captured_frame list" where
  "observer_step now (Inl e) caps = caps"
| "observer_step now (Inr None) caps = caps"
| "observer_step now (Inr (Some (ts, m))) caps =
     caps @ [\<lparr>cf_timestamp = (if ts \<noteq> 0 then ts else now), cf_can_id = cm_id m,
              cf_is_extended_id = cm_ext m, cf_dlc = length (cm_data m), cf_data = cm_data m\<rparr>]"

definition observer_frames ::
  "captured_frame list \<Rightarrow> int option \<Rightarrow> bool option \<Rightarrow> rat option \<Rightarrow> captured_frame list" where
  "observer_frames caps can_id extended since =
     (let out = (case since of None \<Rightarrow> caps | Some t \<Rightarrow> filter (\<lambda>f. t \<le> cf_timestamp f) caps);
          out = (case can_id of None \<Rightarrow> out | Some i \<Rightarrow> filter (\<lambda>f. cf_can_id f = i) out)
      in case extended of None \<Rightarrow> out | Some x \<Rightarrow> filter (\<lambda>f. cf_is_extended_id f = x) out)"

definition observer_count :: "captured_frame list \<Rightarrow> int \<Rightarrow> bool \<Rightarrow> rat option \<Rightarrow> nat" where
  "observer_count caps i x since = length (observer_frames caps (Some i) (Some x) since)"

definition period_deltas :: "captured_frame list \<Rightarrow> rat list" where
  "period_deltas fs = map (\<lambda>(a, b). (cf_timestamp b - cf_timestamp a) * 1000) (zip fs (tl fs))"

definition mean_period_ms :: "captured_frame list \<Rightarrow> int \<Rightarrow> bool \<Rightarrow> rat option \<Rightarrow> rat option" where
  "mean_period_ms caps i x since =
     (let fs = observer_frames caps (Some i) (Some x) since
      in if length fs < 2 then None
         else Some (sum_list (period_deltas fs) / of_nat (length (period_deltas fs))))"

definition max_period_ms :: "captured_frame list \<Rightarrow> int \<Rightarrow> bool \<Rightarrow> rat option \<Rightarrow> rat option" where
  "max_period_ms caps i x since =
     (let fs = observer_frames caps (Some i) (Some x) since
      in if length fs < 2 then None else Some (foldl max (hd (period_deltas fs)) (tl (period_deltas fs))))"

definition observer_last :: "captured_frame list \<Rightarrow> int \<Rightarrow> bool \<Rightarrow> captured_frame option" where
  "observer_last caps i x =
     (let fs = observer_frames caps (Some i) (Some x) None in if fs \<noteq> [] then Some (last fs) else None)"

section \<open>Queries as one filter; the mean as a span\<close>

lemma observer_frames_filter:
  "observer_frames caps can_id extended since =
     filter (\<lambda>f. (case since of None \<Rightarrow> True | Some t \<Rightarrow> t \<le> cf_timestamp f) \<and>
                 (case can_id of None \<Rightarrow> True | Some i \<Rightarrow> cf_can_id f = i) \<and>
                 (case extended of None \<Rightarrow> True | Some x \<Rightarrow> cf_is_extended_id f = x)) caps"
  by (cases since; cases can_id; cases extended)
     (simp_all add: observer_frames_def Let_def conj_commute conj_left_commute)

lemma sum_period_deltas:
  "fs \<noteq> [] \<Longrightarrow> sum_list (period_deltas fs) = (cf_timestamp (last fs) - cf_timestamp (hd fs)) * 1000"
proof (induction fs)
  case (Cons a fs)
  show ?case
  proof (cases fs)
    case (Cons b gs)
    with Cons.IH have "sum_list (period_deltas fs) = (cf_timestamp (last fs) - cf_timestamp b) * 1000"
      by simp
    with Cons show ?thesis by (simp add: period_deltas_def algebra_simps)
  qed (simp add: period_deltas_def)
qed simp

lemma length_period_deltas: "length (period_deltas fs) = length fs - 1"
  by (cases fs) (auto simp: period_deltas_def)

lemma le_foldl_max: "(x::rat) \<in> insert a (set xs) \<Longrightarrow> x \<le> foldl max a xs"
proof (induction xs arbitrary: a x)
  case (Cons y xs)
  have "max a y \<le> foldl max (max a y) xs" by (rule Cons.IH) simp
  with Cons show ?case by (auto intro: order_trans)
qed simp

lemma foldl_max_in: "foldl max a xs \<in> insert (a::rat) (set xs)"
proof (induction xs arbitrary: a)
  case (Cons y xs)
  from Cons [of "max a y"] show ?case by (auto simp: max_def split: if_splits)
qed simp

lemma set_period_deltas:
  "set (period_deltas fs) =
     {(cf_timestamp (fs ! Suc k) - cf_timestamp (fs ! k)) * 1000 | k. Suc k < length fs}"
  by (cases fs) (auto simp: period_deltas_def set_zip image_def)

text \<open>the observer's period statistics: on a channel with at least two frames of the identifier,
  the mean period is the time from the first to the last of them divided by their number less one,
  the maximum is one of the gaps between neighbours and bounds them all, and with fewer than two
  frames both are None.\<close>

theorem observer_periods:
  assumes "fs = observer_frames caps (Some i) (Some x) since" "2 \<le> length fs"
  shows "mean_period_ms caps i x since =
           Some ((cf_timestamp (last fs) - cf_timestamp (hd fs)) * 1000 / of_nat (length fs - 1)) \<and>
         (\<exists>m. max_period_ms caps i x since = Some m \<and>
           (\<exists>k. Suc k < length fs \<and> m = (cf_timestamp (fs ! Suc k) - cf_timestamp (fs ! k)) * 1000) \<and>
           (\<forall>k. Suc k < length fs \<longrightarrow> (cf_timestamp (fs ! Suc k) - cf_timestamp (fs ! k)) * 1000 \<le> m))"
proof -
  let ?ds = "period_deltas fs" and ?m = "foldl max (hd (period_deltas fs)) (tl (period_deltas fs))"
  from assms have ne: "fs \<noteq> []" "?ds \<noteq> []"
    using length_period_deltas [of fs] by auto
  then have ds: "insert (hd ?ds) (set (tl ?ds)) = set ?ds" by (cases ?ds) auto
  have "?m \<in> set ?ds" using foldl_max_in [of "hd ?ds" "tl ?ds"] ds by simp
  moreover have "\<forall>d\<in>set ?ds. d \<le> ?m" using le_foldl_max [of _ "hd ?ds" "tl ?ds"] ds by blast
  ultimately have "\<exists>k. Suc k < length fs \<and> ?m = (cf_timestamp (fs ! Suc k) - cf_timestamp (fs ! k)) * 1000"
    and "\<forall>k. Suc k < length fs \<longrightarrow> (cf_timestamp (fs ! Suc k) - cf_timestamp (fs ! k)) * 1000 \<le> ?m"
    unfolding set_period_deltas by blast+
  moreover have "max_period_ms caps i x since = Some ?m"
    using assms by (simp add: max_period_ms_def Let_def)
  moreover have "mean_period_ms caps i x since =
      Some ((cf_timestamp (last fs) - cf_timestamp (hd fs)) * 1000 / of_nat (length fs - 1))"
    using assms sum_period_deltas [OF ne(1)] length_period_deltas [of fs]
    by (simp add: mean_period_ms_def Let_def)
  ultimately show ?thesis by blast
qed

definition obs_demo :: "captured_frame list" where
  "obs_demo = foldl (\<lambda>c (t, i). observer_step 0 (Inr (Some (t, std_msg i [1]))) c) []
     [(1, 256), (5/4, 7), (3/2, 256), (3, 256)]"

theorem observer_periods_witness:
  "mean_period_ms obs_demo 256 False None = Some 1000 \<and>
   max_period_ms obs_demo 256 False None = Some 1500"
proof -
  let ?fs = "observer_frames obs_demo (Some 256) (Some False) None"
  have "map cf_timestamp ?fs = [1, 3/2, 3]"
    by (simp add: obs_demo_def observer_frames_def std_msg_def)
  then obtain a b c where fs: "?fs = [a, b, c]" "cf_timestamp a = 1" "cf_timestamp b = 3/2"
      "cf_timestamp c = 3"
    by (auto simp: Cons_eq_map_conv map_eq_Cons_conv)
  have "2 \<le> length [a, b, c]" by simp
  note p = observer_periods [OF refl, of obs_demo 256 False None, unfolded fs(1), OF this]
  from p fs have mean: "mean_period_ms obs_demo 256 False None = Some 1000" by simp
  from p obtain m where m: "max_period_ms obs_demo 256 False None = Some m"
      "\<exists>k. Suc k < length [a, b, c] \<and>
         m = (cf_timestamp ([a, b, c] ! Suc k) - cf_timestamp ([a, b, c] ! k)) * 1000"
      "\<forall>k. Suc k < length [a, b, c] \<longrightarrow>
         (cf_timestamp ([a, b, c] ! Suc k) - cf_timestamp ([a, b, c] ! k)) * 1000 \<le> m"
    by blast
  from m(3) [rule_format, of 1] fs have "1500 \<le> m" by simp
  moreover from m(2) fs have "m \<le> 1500" by (auto simp: less_Suc_eq numeral_3_eq_3)
  ultimately show ?thesis using m(1) mean by simp
qed

end
