(* ===== verification/Can_Sims.thy ===== *)
theory Can_Sims
  imports Vcu_Can_Map Can_Observer
begin

text \<open>
  The stimulus side of the rig: the AMS simulator (\<^verbatim>\<open>vcu/ams_sim.py\<close>), the inverter simulator
  (\<^verbatim>\<open>vcu/inverter_sim.py\<close>), the ACU stimulus (\<^verbatim>\<open>acu_stim.py\<close>) and the TCA9555 pin wrapper
  (\<^verbatim>\<open>tca_pin.py\<close>), all under \<^verbatim>\<open>tools/firmware_test\<close>.
\<close>

section \<open>AMS simulator\<close>

definition f_4a0 :: "int \<Rightarrow> int \<Rightarrow> int list" where
  "f_4a0 state session = (replicate 8 0)[0 := state AND 0xFF, 3 := session AND 0xFF]"

definition f_020 :: "int \<Rightarrow> int list" where
  "f_020 ok = (replicate 8 0)[0 := (if ok \<noteq> 0 then 1 else 0)]"

definition ams_build_round :: "int \<Rightarrow> int \<Rightarrow> int \<Rightarrow> (int \<times> int list) list" where
  "ams_build_round state session precharge = [(0x4A0, f_4a0 state session), (0x020, f_020 precharge)]"

section \<open>Inverter simulator\<close>

definition f_461 :: "int \<Rightarrow> int \<Rightarrow> int \<Rightarrow> int list" where
  "f_461 state err cnt =
     (replicate 7 0)[1 := cnt AND 0x0F, 2 := err AND 0xFF, 4 := state AND 0x0F]"

definition f_463 :: "int \<Rightarrow> int \<Rightarrow> int list" where
  "f_463 rpm cnt =
     (let r = rpm AND 0xFFFFF
      in (replicate 8 0)[1 := cnt AND 0x0F, 5 := r AND 0xFF, 6 := drop_bit 8 r AND 0xFF,
                         7 := drop_bit 16 r AND 0x0F])"

definition f_464 :: "int \<Rightarrow> int \<Rightarrow> int \<Rightarrow> int list" where
  "f_464 motor_c igbt_c air_c =
     (replicate 8 0)[0 := motor_c AND 0xFF, 1 := igbt_c AND 0xFF, 2 := air_c AND 0xFF]"

definition f_465 :: "int \<Rightarrow> int \<Rightarrow> int \<Rightarrow> int list" where
  "f_465 speed current cnt =
     (replicate 8 0)[1 := cnt AND 0x0F, 2 := speed AND 0xFF, 3 := drop_bit 8 speed AND 0xFF,
                     4 := current AND 0xFF, 5 := drop_bit 8 current AND 0xFF]"

definition f_466 :: "int \<Rightarrow> int \<Rightarrow> int list" where
  "f_466 vdc cnt =
     (replicate 6 0)[1 := cnt AND 0x0F, 2 := vdc AND 0xFF, 3 := drop_bit 8 vdc AND 0xFF]"

record inv_args =
  ia_state :: int
  ia_err :: int
  ia_vdc :: int
  ia_rpm :: int
  ia_motor_temp :: int
  ia_igbt_temp :: int
  ia_air_temp :: int
  ia_speed :: int
  ia_current :: int

definition inv_build_round :: "inv_args \<Rightarrow> int \<Rightarrow> (int \<times> nat \<times> int list) list" where
  "inv_build_round a cnt =
     [(0x461, 7, f_461 (ia_state a) (ia_err a) cnt),
      (0x466, 6, f_466 (ia_vdc a) cnt),
      (0x463, 8, f_463 (ia_rpm a) cnt),
      (0x464, 8, f_464 (ia_motor_temp a) (ia_igbt_temp a) (ia_air_temp a)),
      (0x465, 8, f_465 (ia_speed a) (ia_current a) cnt)]"

text \<open>The loop of \<open>main\<close>: the rolling counter and the frames sent, round by round.\<close>

primrec inv_sim_rounds :: "nat \<Rightarrow> inv_args \<Rightarrow> int \<Rightarrow> (int \<times> nat \<times> int list) list" where
  "inv_sim_rounds 0 a cnt = []"
| "inv_sim_rounds (Suc n) a cnt =
     (let cnt' = (cnt + 1) AND 0x0F in inv_build_round a cnt' @ inv_sim_rounds n a cnt')"

section \<open>ACU stimulus\<close>

text \<open>\<open>send bus message\<close> is \<^verbatim>\<open>can.Bus.send\<close>; the bus is None before \<open>start\<close>.\<close>

definition acu_send :: "(can_msg \<Rightarrow> ('w, unit) io) option \<Rightarrow> int \<Rightarrow> int list \<Rightarrow> bool \<Rightarrow> ('w, unit) io" where
  "acu_send bus can_id data ext =
     (case bus of None \<Rightarrow> raise (Exn RuntimeError ''AcuStim used before start()'')
      | Some send \<Rightarrow> send \<lparr>cm_id = can_id, cm_ext = ext, cm_data = data\<rparr>)"

definition send_dc_bus_v :: "(can_msg \<Rightarrow> ('w, unit) io) option \<Rightarrow> int \<Rightarrow> ('w, unit) io" where
  "send_dc_bus_v bus volts =
     (let v = volts AND 0xFFFF
      in acu_send bus 0x100 [v AND 0xFF, drop_bit 8 v AND 0xFF] False)"

section \<open>TCA9555 pin\<close>

text \<open>\<open>write addr port pin value\<close> is the broker call \<^verbatim>\<open>tca.write_pin\<close>; \<open>sleep ms\<close> waits.\<close>

record tca_pin =
  tpin_addr :: int
  tpin_port :: int
  tpin_pin :: int

definition tca_pin_set :: "(int \<Rightarrow> int \<Rightarrow> int \<Rightarrow> bool \<Rightarrow> ('w, unit) io) \<Rightarrow> tca_pin \<Rightarrow> bool \<Rightarrow> ('w, unit) io" where
  "tca_pin_set wr p v = wr (tpin_addr p) (tpin_port p) (tpin_pin p) v"

definition tca_pin_press ::
  "(int \<Rightarrow> int \<Rightarrow> int \<Rightarrow> bool \<Rightarrow> ('w, unit) io) \<Rightarrow> (int \<Rightarrow> ('w, unit) io) \<Rightarrow> tca_pin \<Rightarrow> int \<Rightarrow> int \<Rightarrow> ('w, unit) io"
where
  "tca_pin_press wr sleep p hold_ms settle_ms =
     bind (tca_pin_set wr p False) (\<lambda>_. bind (sleep settle_ms) (\<lambda>_.
     bind (tca_pin_set wr p True) (\<lambda>_. bind (sleep hold_ms) (\<lambda>_. tca_pin_set wr p False))))"

section \<open>Properties\<close>

lemma f_463_bytes:
  "f_463 rpm cnt = [0, cnt mod 16, 0, 0, 0] @ le_bytes 3 (rpm mod 1048576)"
proof -
  have "r mod 1048576 div 65536 mod 16 = r mod 1048576 div 65536 mod 256" for r :: int
  proof -
    have "0 \<le> r mod 1048576" "r mod 1048576 < 1048576" by simp_all
    then have "0 \<le> r mod 1048576 div 65536" "r mod 1048576 div 65536 < 16" by linarith+
    then show ?thesis by simp
  qed
  then show ?thesis
    by (simp add: f_463_def Let_def replicate_frame and_mask_1048575 and_mask_15 and_mask_255
        shifts numeral_3_eq_3 zdiv_zmult2_eq [symmetric])
qed

lemma from_le_append: "from_le (xs @ ys) = from_le xs + 256 ^ length xs * from_le ys"
  by (induction xs) (simp_all add: algebra_simps)

lemma from_le_div: "is_bytes (take k bs) \<Longrightarrow> from_le bs div 256 ^ k = from_le (drop k bs)"
proof (induction k arbitrary: bs)
  case (Suc k)
  then show ?case
  proof (cases bs)
    case (Cons b cs)
    with Suc.prems have "(b + 256 * from_le cs) div 256 = from_le cs"
      by (simp add: is_byte_def)
    with Suc Cons show ?thesis by (simp add: zdiv_zmult2_eq)
  qed simp
qed simp

lemma u_field_drop:
  "is_bytes (take k bs) \<Longrightarrow> u_field bs (8 * k) n = from_le (drop k bs) mod 2 ^ n"
  by (simp add: u_field_arith from_le_div [symmetric] power_mult)

lemma is_byte_crc8_j1850: "is_bytes p \<Longrightarrow> is_byte (crc8_j1850 p)"
  using crc8.fold_reg [of 255 p] is_byte_xor [of "foldl crc8_step 255 p" 255]
  by (simp add: crc8_j1850_def is_byte_def)

lemma le16_value: "v mod 256 + 256 * (v div 256 mod 256) = v mod (65536::int)"
  using zmod_zmult2_eq [of 256 v 256] by simp

lemma is_byte_small [simp]: "is_byte 0" "is_byte (x mod 16)" "is_byte (v mod 65536 div 256)"
proof -
  have "0 \<le> v mod 65536" "v mod 65536 < 65536" "0 \<le> x mod 16" "x mod 16 < 16" by simp_all
  then show "is_byte 0" "is_byte (x mod 16)" "is_byte (v mod 65536 div 256)"
    unfolding is_byte_def by linarith+
qed

lemma high_byte [simp]: "v mod 65536 div 256 mod 256 = v mod 65536 div (256::int)"
  using is_byte_small(3) [of v] by (simp add: is_byte_def)

lemma f_466_bytes: "f_466 v cnt = [0, cnt mod 16, v mod 256, v div 256 mod 256, 0, 0]"
  by (simp add: f_466_def replicate_frame and_mask_255 and_mask_15 drop_bit_eq_div)

lemma voltage_fields:
  "u_field (f_466 v cnt) 16 16 = v mod 65536"
  "u_field (encode_inv_state7 v cnt data_id) 16 16 = v mod 65536"
proof -
  have field: "u_field [a, b, v mod 256, v div 256 mod 256, 0, 0] 16 16 = v mod 65536"
    if "is_byte a" "is_byte b" for a b and v :: int
  proof -
    have "u_field [a, b, v mod 256, v div 256 mod 256, 0, 0] (8 * 2) 16 =
        (v mod 256 + 256 * (v div 256 mod 256)) mod 65536"
      by (subst u_field_drop) (use that in simp_all)
    then show ?thesis by (simp only: le16_value) simp
  qed
  show "u_field (f_466 v cnt) 16 16 = v mod 65536"
    unfolding f_466_bytes by (rule field) simp_all
  show "u_field (encode_inv_state7 v cnt data_id) 16 16 = v mod 65536"
    using field [of "hd (encode_inv_state7 v cnt data_id)" "cnt mod 16" "v mod 65536"]
    by (simp only: encode_inv_state7_bytes Let_def list.sel) (simp add: is_byte_crc8_j1850)
qed

lemma state_fields:
  "u_field (f_461 st err cnt) 32 4 = st mod 16"
  "u_field (encode_inv_state2 st cnt data_id) 32 4 = st mod 16"
  using u_field_drop [of 4 "f_461 st err cnt" 4] u_field_drop [of 4 "encode_inv_state2 st cnt data_id" 4]
  by (simp_all add: f_461_def replicate_frame and_mask_255 and_mask_15 encode_inv_state2_bytes
      is_byte_crc8_j1850)

text \<open>read with the layout the map documents for 0x463 (20-bit signed at bit 44), the frame of the
  inverter simulator carries the requested speed divided by 16: the two encoders of the frame place
  the field four bits apart. Its torque, voltage and temperature bytes are where the ECU reads them.\<close>

theorem inverter_sim_rpm_shifted:
  "s_field (f_463 rpm cnt) 44 20 = rpm mod 1048576 div 16 \<and>
   s_field (encode_inv_rpm rpm) 44 20 = signed 20 (rpm mod 1048576) \<and>
   u_field (f_466 vdc cnt) 16 16 = vdc mod 65536 \<and>
   u_field (encode_inv_state7 vdc cnt data_id) 16 16 = vdc mod 65536 \<and>
   u_field (f_461 state err cnt) 32 4 = state mod 16 \<and>
   u_field (encode_inv_state2 state cnt data_id) 32 4 = state mod 16"
proof (intro conjI)
  let ?r = "rpm mod 1048576"
  have "0 \<le> ?r" "?r < 1048576" by simp_all
  then have b: "0 \<le> ?r div 16" "?r div 16 < 65536" by linarith+
  have "from_le (f_463 rpm cnt) = 256 * (cnt mod 16) + 2 ^ 40 * ?r"
    by (simp add: f_463_bytes from_le_append from_le_le_bytes)
  moreover have "(256 * (cnt mod 16) + 2 ^ 40 * ?r) div 2 ^ 44 mod 2 ^ 20 = ?r div 16"
  proof -
    have "(256 * (cnt mod 16) + 2 ^ 40 * ?r) div (2 ^ 40 * 16) = ?r div 16"
      by (subst zdiv_zmult2_eq) (simp_all add: div_add1_eq)
    with b show ?thesis by simp
  qed
  ultimately have "u_field (f_463 rpm cnt) 44 20 = ?r div 16"
    by (simp add: u_field_arith)
  with b show "s_field (f_463 rpm cnt) 44 20 = ?r div 16"
    by (simp add: s_field_def Let_def push_bit_eq_mult)
qed (simp_all add: s_field_rpm voltage_fields state_fields)

end
