(* ===== verification/Bms_Emulator.thy ===== *)
theory Bms_Emulator
  imports Ams_Can_Map Can_Observer
begin

text \<open>
  \<^verbatim>\<open>tools/firmware_test/ams/bms_emulator.py\<close>: the emulator that answers the AMS voltage and
  temperature polls for all slave modules. A slave is a record; the lookup table of the code refers to
  the slave objects of the list, so here it holds their positions. One iteration of the receive loop
  is \<open>bms_run_once\<close>, given what \<open>recv\<close> returned; the bus is a program \<open>send\<close> that may raise.
\<close>

section \<open>One slave\<close>

record bms_slave =
  bs_module :: int
  bs_cell_mV :: "int list"
  bs_temp_C :: "int list"

definition new_slave :: "int \<Rightarrow> bms_slave" where
  "new_slave m = \<lparr>bs_module = m, bs_cell_mV = replicate CELLS_PER_MODULE 3700,
                  bs_temp_C = replicate TEMPS_PER_MODULE 25\<rparr>"

text \<open>The payload of one frame, as the inner loops fill the eight-byte buffer.\<close>

primrec fill_cells :: "nat \<Rightarrow> int list \<Rightarrow> int list \<Rightarrow> int list" where
  "fill_cells k [] buf = buf"
| "fill_cells k (mv # mvs) buf =
     fill_cells (Suc k) mvs (buf[2 * k := drop_bit 8 mv AND 0xFF, 2 * k + 1 := mv AND 0xFF])"

primrec fill_temps :: "nat \<Rightarrow> int list \<Rightarrow> int list \<Rightarrow> int list" where
  "fill_temps k [] buf = buf"
| "fill_temps k (t # ts) buf =
     fill_temps (Suc k) ts (buf[k := (if 0 \<le> t then t AND 0xFF else (256 + t) AND 0xFF)])"

definition voltage_payload :: "bms_slave \<Rightarrow> nat \<Rightarrow> int list" where
  "voltage_payload s fi =
     fill_cells 0 (slice (fi * CELLS_PER_FRAME) ((fi + 1) * CELLS_PER_FRAME) (bs_cell_mV s)) (replicate 8 0)"

definition temperature_payload :: "bms_slave \<Rightarrow> nat \<Rightarrow> int list" where
  "temperature_payload s fi =
     fill_temps 0 (slice (fi * TEMPS_PER_FRAME) ((fi + 1) * TEMPS_PER_FRAME) (bs_temp_C s)) (replicate 8 0)"

definition voltage_response_frames :: "bms_slave \<Rightarrow> can_msg list res" where
  "voltage_response_frames s =
     rmap (\<lambda>fi. rbind (bms_voltage_resp_id (bs_module s) (int fi))
                     (\<lambda>i. Inr (std_msg i (voltage_payload s fi)))) [0..<5]"

definition temperature_response_frames :: "bms_slave \<Rightarrow> can_msg list res" where
  "temperature_response_frames s =
     rmap (\<lambda>fi. rbind (bms_temp_resp_id (bs_module s) (int fi))
                     (\<lambda>i. Inr (std_msg i (temperature_payload s fi)))) [0..<5]"

section \<open>The emulator\<close>

datatype poll_kind = Voltage | Temperature

record bms_emulator =
  be_slaves :: "bms_slave list"
  be_lookup :: "int \<rightharpoonup> (poll_kind \<times> nat)"
  be_voltage_replies :: nat
  be_temp_replies :: nat
  be_unknown_rx :: nat

text \<open>\<open>__init__\<close>: it raises when a module has no identifier.\<close>

primrec add_polls :: "nat list \<Rightarrow> (int \<rightharpoonup> (poll_kind \<times> nat)) \<Rightarrow> (int \<rightharpoonup> (poll_kind \<times> nat)) res" where
  "add_polls [] lk = Inr lk"
| "add_polls (k # ks) lk =
     rbind (bms_voltage_poll_id (int k)) (\<lambda>v.
     rbind (bms_temp_poll_id (int k)) (\<lambda>t.
       add_polls ks (lk(v \<mapsto> (Voltage, k), t \<mapsto> (Temperature, k)))))"

definition bms_init :: "nat \<Rightarrow> bms_emulator res" where
  "bms_init num_modules =
     rbind (add_polls [0..<num_modules] Map.empty) (\<lambda>lk.
       Inr \<lparr>be_slaves = map (\<lambda>m. new_slave (int m)) [0..<num_modules], be_lookup = lk,
            be_voltage_replies = 0, be_temp_replies = 0, be_unknown_rx = 0\<rparr>)"

definition set_cell :: "int \<Rightarrow> int \<Rightarrow> int \<Rightarrow> bms_emulator \<Rightarrow> bms_emulator res" where
  "set_cell m c mV e =
     rbind (py_nth (be_slaves e) m) (\<lambda>s.
     rbind (py_set (bs_cell_mV s) c mV) (\<lambda>cs.
     rbind (py_set (be_slaves e) m (s\<lparr>bs_cell_mV := cs\<rparr>)) (\<lambda>ss. Inr (e\<lparr>be_slaves := ss\<rparr>))))"

definition set_all_cells :: "int \<Rightarrow> bms_emulator \<Rightarrow> bms_emulator" where
  "set_all_cells mV e =
     e\<lparr>be_slaves := map (\<lambda>s. s\<lparr>bs_cell_mV := replicate CELLS_PER_MODULE mV\<rparr>) (be_slaves e)\<rparr>"

definition set_temp :: "int \<Rightarrow> int \<Rightarrow> int \<Rightarrow> bms_emulator \<Rightarrow> bms_emulator res" where
  "set_temp m c t e =
     rbind (py_nth (be_slaves e) m) (\<lambda>s.
     rbind (py_set (bs_temp_C s) c t) (\<lambda>ts.
     rbind (py_set (be_slaves e) m (s\<lparr>bs_temp_C := ts\<rparr>)) (\<lambda>ss. Inr (e\<lparr>be_slaves := ss\<rparr>))))"

definition set_all_temps :: "int \<Rightarrow> bms_emulator \<Rightarrow> bms_emulator" where
  "set_all_temps t e =
     e\<lparr>be_slaves := map (\<lambda>s. s\<lparr>bs_temp_C := replicate TEMPS_PER_MODULE t\<rparr>) (be_slaves e)\<rparr>"

definition stop_module :: "int \<Rightarrow> bms_emulator \<Rightarrow> bms_emulator res" where
  "stop_module m e =
     rbind (bms_voltage_poll_id m) (\<lambda>v. rbind (bms_temp_poll_id m) (\<lambda>t.
       Inr (e\<lparr>be_lookup := (be_lookup e)(v := None, t := None)\<rparr>)))"

section \<open>The receive loop\<close>

text \<open>\<open>for f in frames: try: send(f) except CanError: break; else: \<dots>\<close>: whether all were sent.\<close>

fun is_can_error :: "exn \<Rightarrow> bool" where
  "is_can_error (Exn c m) = (c = CanError)"
| "is_can_error (RpcErr c m) = False"

primrec send_burst :: "(can_msg \<Rightarrow> ('w, unit) io) \<Rightarrow> can_msg list \<Rightarrow> ('w, bool) io" where
  "send_burst send [] = ret True"
| "send_burst send (f # fs) =
     bind (try_except (bind (send f) (\<lambda>_. ret True)) is_can_error (\<lambda>_. ret False))
       (\<lambda>ok. if ok then send_burst send fs else ret False)"

definition slave_frames :: "poll_kind \<Rightarrow> bms_slave \<Rightarrow> can_msg list res" where
  "slave_frames k s =
     (case k of Voltage \<Rightarrow> voltage_response_frames s | Temperature \<Rightarrow> temperature_response_frames s)"

definition count_reply :: "poll_kind \<Rightarrow> bms_emulator \<Rightarrow> bms_emulator" where
  "count_reply k e =
     (case k of Voltage \<Rightarrow> e\<lparr>be_voltage_replies := be_voltage_replies e + 1\<rparr>
      | Temperature \<Rightarrow> e\<lparr>be_temp_replies := be_temp_replies e + 1\<rparr>)"

definition bms_run_once ::
  "(can_msg \<Rightarrow> ('w, unit) io) \<Rightarrow> (exn + can_msg option) \<Rightarrow> bms_emulator \<Rightarrow> ('w, bms_emulator) io" where
  "bms_run_once send rx e =
     (case rx of
        Inl x \<Rightarrow> (if is_exception x then ret e else raise x)
      | Inr None \<Rightarrow> ret e
      | Inr (Some msg) \<Rightarrow>
          (if cm_ext msg then ret e
           else case be_lookup e (cm_id msg) of
             None \<Rightarrow> ret (e\<lparr>be_unknown_rx := be_unknown_rx e + 1\<rparr>)
           | Some (k, i) \<Rightarrow>
               bind (of_res (slave_frames k (be_slaves e ! i))) (\<lambda>fs.
               bind (send_burst send fs) (\<lambda>ok. ret (if ok then count_reply k e else e)))))"

primrec bms_run :: "(can_msg \<Rightarrow> ('w, unit) io) \<Rightarrow> (exn + can_msg option) list \<Rightarrow> bms_emulator \<Rightarrow>
    ('w, bms_emulator) io" where
  "bms_run send [] e = ret e"
| "bms_run send (rx # rxs) e = bind (bms_run_once send rx e) (bms_run send rxs)"

section \<open>The payload of a frame\<close>

lemma fill_cells_eq:
  "2 * k + 2 * length mvs \<le> length buf \<Longrightarrow>
   fill_cells k mvs buf = take (2 * k) buf @ concat (map be16 mvs) @ drop (2 * k + 2 * length mvs) buf"
proof (induction mvs arbitrary: k buf)
  case (Cons mv mvs)
  let ?b = "buf[2 * k := drop_bit 8 mv AND 0xFF, 2 * k + 1 := mv AND 0xFF]"
  have "take (2 * k + 2) ?b = take (2 * k) buf @ be16 mv"
    using Cons.prems
    by (simp add: be16_def and_mask_255 drop_bit_eq_div take_Suc_conv_app_nth take_update_swap list_update_append)
  with Cons show ?case by (simp add: add.commute)
qed simp

lemma fill_temps_eq:
  "k + length ts \<le> length buf \<Longrightarrow>
   fill_temps k ts buf = take k buf @ map (\<lambda>t. t mod 256) ts @ drop (k + length ts) buf"
proof (induction ts arbitrary: k buf)
  case (Cons t ts)
  then show ?case by (simp add: and_mask_255 take_Suc_conv_app_nth)
qed simp

lemma slice_nth: "k < length xs - a \<Longrightarrow> k < b - a \<Longrightarrow> slice a b xs ! k = xs ! (a + k)"
  by (simp add: slice_def)

lemma length_slice [simp]: "length (slice a b xs) = min (b - a) (length xs - a)"
  by (simp add: slice_def)

lemma slice_be16: "k < length xs \<Longrightarrow> slice (2 * k) (2 * k + 2) (concat (map be16 xs) @ r) = be16 (xs ! k)"
proof (induction xs arbitrary: k)
  case (Cons x xs)
  then show ?case
    by (cases k) (auto simp: slice_def be16_def)
qed simp

lemma voltage_payload_eq:
  "voltage_payload s fi =
     (let cs = slice (fi * 4) (fi * 4 + 4) (bs_cell_mV s)
      in concat (map be16 cs) @ replicate (8 - 2 * length cs) 0)"
  using fill_cells_eq [of 0 "slice (fi * 4) (fi * 4 + 4) (bs_cell_mV s)" "replicate 8 0"]
  by (simp add: voltage_payload_def Let_def bms_size_defs add.commute)

lemma temperature_payload_eq:
  "temperature_payload s fi =
     (let ts = slice (fi * 8) (fi * 8 + 8) (bs_temp_C s)
      in map (\<lambda>t. t mod 256) ts @ replicate (8 - length ts) 0)"
  using fill_temps_eq [of 0 "slice (fi * 8) (fi * 8 + 8) (bs_temp_C s)" "replicate 8 0"]
  by (simp add: temperature_payload_def Let_def bms_size_defs add.commute)

lemma from_be_be16: "0 \<le> v \<Longrightarrow> v < 65536 \<Longrightarrow> from_be (be16 v) = v"
  by (simp add: from_be_def be16_def)

text \<open>How the firmware reads the frames: cell \<open>c\<close> is the big-endian pair at byte \<open>2 (c mod 4)\<close> of frame
  \<open>c div 4\<close>, sensor \<open>c\<close> the signed byte \<open>c mod 8\<close> of frame \<open>c div 8\<close>.\<close>

definition read_cell :: "can_msg list \<Rightarrow> nat \<Rightarrow> int" where
  "read_cell fs c = from_be (slice (2 * (c mod 4)) (2 * (c mod 4) + 2) (cm_data (fs ! (c div 4))))"

definition read_temp :: "can_msg list \<Rightarrow> nat \<Rightarrow> int" where
  "read_temp fs c = i8 (cm_data (fs ! (c div 8)) ! (c mod 8))"

definition slave_wf :: "bms_slave \<Rightarrow> bool" where
  "slave_wf s \<longleftrightarrow> length (bs_cell_mV s) = CELLS_PER_MODULE \<and> length (bs_temp_C s) = TEMPS_PER_MODULE"

lemma voltage_frames_eq:
  assumes "0 \<le> bs_module s" "bs_module s < 5"
  shows "voltage_response_frames s =
     Inr (map (\<lambda>i. std_msg (300 + 30 * bs_module s + 1 + int i) (voltage_payload s i)) [0..<5])"
  using assms by (simp add: voltage_response_frames_def bms_id_defs bms_const_defs upt_rec)

lemma temperature_frames_eq:
  assumes "0 \<le> bs_module s" "bs_module s < 5"
  shows "temperature_response_frames s =
     Inr (map (\<lambda>i. std_msg (300 + 30 * bs_module s + 21 + int i) (temperature_payload s i)) [0..<5])"
  using assms by (simp add: temperature_response_frames_def bms_id_defs bms_const_defs upt_rec)

lemma cell_frame_payload:
  assumes "slave_wf s" "c < 19" "0 \<le> bs_cell_mV s ! c" "bs_cell_mV s ! c < 65536"
  shows "from_be (slice (2 * (c mod 4)) (2 * (c mod 4) + 2) (voltage_payload s (c div 4))) = bs_cell_mV s ! c"
proof -
  let ?cs = "slice (c div 4 * 4) (c div 4 * 4 + 4) (bs_cell_mV s)"
  have l: "c mod 4 < length ?cs"
    using assms div_mult_mod_eq [of c 4] by (simp add: slave_wf_def bms_size_defs, linarith)
  then have "?cs ! (c mod 4) = bs_cell_mV s ! c"
    by (subst slice_nth) (simp_all del: length_slice, simp_all)
  with l slice_be16 [of "c mod 4" ?cs] assms show ?thesis
    by (simp add: voltage_payload_eq Let_def from_be_be16 del: length_slice)
qed

lemma temp_frame_payload:
  assumes "slave_wf s" "c < 38" "- 128 \<le> bs_temp_C s ! c" "bs_temp_C s ! c < 128"
  shows "i8 (temperature_payload s (c div 8) ! (c mod 8)) = bs_temp_C s ! c"
proof -
  let ?ts = "slice (c div 8 * 8) (c div 8 * 8 + 8) (bs_temp_C s)"
  have l: "c mod 8 < length ?ts"
    using assms div_mult_mod_eq [of c 8] by (simp add: slave_wf_def bms_size_defs, linarith)
  then have "?ts ! (c mod 8) = bs_temp_C s ! c"
    by (subst slice_nth) (simp_all del: length_slice, simp_all)
  with l assms signed_mod [of 8 "bs_temp_C s ! c"] show ?thesis
    by (simp add: temperature_payload_eq Let_def nth_append i8_signed del: length_slice)
qed

lemma frames_carry:
  assumes "slave_wf s" "0 \<le> bs_module s" "bs_module s < 5"
    "\<forall>v\<in>set (bs_cell_mV s). 0 \<le> v \<and> v < 65536" "\<forall>t\<in>set (bs_temp_C s). - 128 \<le> t \<and> t < 128"
  shows "\<exists>vs ts. voltage_response_frames s = Inr vs \<and> temperature_response_frames s = Inr ts \<and>
     map cm_id vs = map (\<lambda>i. 300 + 30 * bs_module s + 1 + int i) [0..<5] \<and>
     map cm_id ts = map (\<lambda>i. 300 + 30 * bs_module s + 21 + int i) [0..<5] \<and>
     (\<forall>f\<in>set (vs @ ts). \<not> cm_ext f \<and> length (cm_data f) = 8) \<and>
     map (read_cell vs) [0..<19] = bs_cell_mV s \<and> map (read_temp ts) [0..<38] = bs_temp_C s"
proof (intro exI conjI)
  show "voltage_response_frames s =
      Inr (map (\<lambda>i. std_msg (300 + 30 * bs_module s + 1 + int i) (voltage_payload s i)) [0..<5])"
    using assms by (simp add: voltage_frames_eq)
  show "temperature_response_frames s =
      Inr (map (\<lambda>i. std_msg (300 + 30 * bs_module s + 21 + int i) (temperature_payload s i)) [0..<5])"
    using assms by (simp add: temperature_frames_eq)
  show "map (read_cell (map (\<lambda>i. std_msg (300 + 30 * bs_module s + 1 + int i) (voltage_payload s i)) [0..<5]))
      [0..<19] = bs_cell_mV s"
    using assms by (intro nth_equalityI)
      (auto simp: read_cell_def cell_frame_payload slave_wf_def bms_size_defs less_mult_imp_div_less
         simp del: add_2_eq_Suc')
  show "map (read_temp (map (\<lambda>i. std_msg (300 + 30 * bs_module s + 21 + int i) (temperature_payload s i)) [0..<5]))
      [0..<38] = bs_temp_C s"
    using assms by (intro nth_equalityI)
      (auto simp: read_temp_def temp_frame_payload slave_wf_def bms_size_defs less_mult_imp_div_less)
qed (auto simp: voltage_payload_eq temperature_payload_eq Let_def length_concat sum_list_triv comp_def be16_def)

text \<open>C26: a slave with 19 cells and 38 sensors answers a voltage poll with exactly five standard frames
  of eight bytes, with the module's five voltage identifiers in order, from which the firmware reads
  back every cell voltage of the slave; and a temperature poll with five frames that carry every
  signed temperature.\<close>

theorem bms_frames_carry_values:
  assumes "slave_wf s" "0 \<le> bs_module s" "bs_module s < 5"
    "\<forall>v\<in>set (bs_cell_mV s). 0 \<le> v \<and> v < 65536" "\<forall>t\<in>set (bs_temp_C s). - 128 \<le> t \<and> t < 128"
  shows "\<exists>vs ts. voltage_response_frames s = Inr vs \<and> temperature_response_frames s = Inr ts \<and>
     map cm_id vs = map (\<lambda>i. 300 + 30 * bs_module s + 1 + int i) [0..<5] \<and>
     map cm_id ts = map (\<lambda>i. 300 + 30 * bs_module s + 21 + int i) [0..<5] \<and>
     (\<forall>f\<in>set (vs @ ts). \<not> cm_ext f \<and> length (cm_data f) = 8) \<and>
     map (read_cell vs) [0..<19] = bs_cell_mV s \<and> map (read_temp ts) [0..<38] = bs_temp_C s"
  by (rule frames_carry [OF assms])

theorem bms_frames_carry_values_witness:
  "\<exists>vs. voltage_response_frames (new_slave 2\<lparr>bs_cell_mV := replicate 18 3700 @ [2700]\<rparr>) = Inr vs \<and>
        read_cell vs 18 = 2700 \<and> cm_id (vs ! 4) = 365"
proof -
  let ?s = "new_slave 2\<lparr>bs_cell_mV := replicate 18 3700 @ [2700]\<rparr>"
  have wf: "slave_wf ?s" "bs_module ?s = 2" "bs_cell_mV ?s = replicate 18 3700 @ [2700]"
      "bs_temp_C ?s = replicate 38 25"
    by (simp_all add: slave_wf_def new_slave_def bms_size_defs)
  then obtain vs where vs: "voltage_response_frames ?s = Inr vs"
      "map cm_id vs = map (\<lambda>i. 361 + int i) [0..<5]"
      "map (read_cell vs) [0..<19] = replicate 18 3700 @ [2700]"
    using bms_frames_carry_values [of ?s] by auto
  then have "length vs = 5" by (metis length_map length_upt diff_zero)
  then have "cm_id (vs ! 4) = map cm_id vs ! 4" by simp
  moreover have "read_cell vs 18 = map (read_cell vs) [0..<19] ! 18" by simp
  ultimately show ?thesis using vs by (intro exI [of _ vs]) (simp add: nth_append)
qed

section \<open>The state of the emulator\<close>

definition poll_offset :: "poll_kind \<Rightarrow> int" where
  "poll_offset k = (case k of Voltage \<Rightarrow> 0 | Temperature \<Rightarrow> 20)"

definition bms_inv :: "bms_emulator \<Rightarrow> bool" where
  "bms_inv e \<longleftrightarrow>
     length (be_slaves e) \<le> 5 \<and>
     (\<forall>k < length (be_slaves e). bs_module (be_slaves e ! k) = int k \<and> slave_wf (be_slaves e ! k)) \<and>
     (\<forall>i kd k. be_lookup e i = Some (kd, k) \<longrightarrow>
        k < length (be_slaves e) \<and> i = 300 + 30 * int k + poll_offset kd)"

lemma poll_ids:
  "bms_voltage_poll_id m = Inr i \<longleftrightarrow> 0 \<le> m \<and> m < 5 \<and> i = 300 + 30 * m"
  "bms_temp_poll_id m = Inr i \<longleftrightarrow> 0 \<le> m \<and> m < 5 \<and> i = 300 + 30 * m + 20"
  using bms_frame_id_Inr [of m VoltPoll i] bms_frame_id_Inr [of m TempPoll i] by simp_all

lemma add_polls_Inr:
  "add_polls ks lk = Inr lk' \<Longrightarrow> (\<forall>k\<in>set ks. k < 5) \<and>
     (\<forall>i kd k. lk' i = Some (kd, k) \<longrightarrow> lk i = Some (kd, k) \<or>
        k \<in> set ks \<and> i = 300 + 30 * int k + poll_offset kd)"
  by (induction ks arbitrary: lk)
     (fastforce simp: rbind_Inr_iff poll_ids poll_offset_def split: if_splits)+

lemma add_polls_total: "\<forall>k\<in>set ks. k < 5 \<Longrightarrow> \<exists>lk'. add_polls ks lk = Inr lk'"
  by (induction ks arbitrary: lk) (simp_all add: bms_id_defs bms_const_defs)


lemma bms_init_inv: "bms_init n = Inr e \<Longrightarrow> bms_inv e \<and> n \<le> 5"
proof -
  assume "bms_init n = Inr e"
  then obtain lk where lk: "add_polls [0..<n] Map.empty = Inr lk"
    and e: "e = \<lparr>be_slaves = map (\<lambda>m. new_slave (int m)) [0..<n], be_lookup = lk,
            be_voltage_replies = 0, be_temp_replies = 0, be_unknown_rx = 0\<rparr>"
    by (auto simp: bms_init_def rbind_Inr_iff)
  from add_polls_Inr [OF lk] have n: "n \<le> 5" by (cases n) auto
  with e add_polls_Inr [OF lk] show ?thesis
    by (auto simp: bms_inv_def new_slave_def slave_wf_def bms_size_defs)
qed

lemma py_nth_Inr: "py_nth xs i = Inr x \<Longrightarrow> \<exists>j < length xs. py_pos xs i = Inr j \<and> x = xs ! j"
  by (auto simp: py_nth_def rbind_Inr_iff dest: py_pos_lt)

lemma set_cell_eq:
  assumes "set_cell m c mV e = Inr e'"
  obtains k j where "k < length (be_slaves e)" "j < length (bs_cell_mV (be_slaves e ! k))"
    "py_pos (be_slaves e) m = Inr k" "py_pos (bs_cell_mV (be_slaves e ! k)) c = Inr j"
    "e' = e\<lparr>be_slaves := (be_slaves e)[k := (be_slaves e ! k)
              \<lparr>bs_cell_mV := (bs_cell_mV (be_slaves e ! k))[j := mV]\<rparr>]\<rparr>"
proof -
  from assms obtain k j where *: "py_pos (be_slaves e) m = Inr k" "py_pos (bs_cell_mV (be_slaves e ! k)) c = Inr j"
      "e' = e\<lparr>be_slaves := (be_slaves e)[k := (be_slaves e ! k)
              \<lparr>bs_cell_mV := (bs_cell_mV (be_slaves e ! k))[j := mV]\<rparr>]\<rparr>"
    by (auto simp: set_cell_def rbind_Inr_iff py_nth_def py_set_def)
  show ?thesis by (rule that [OF py_pos_lt [OF *(1)] py_pos_lt [OF *(2)] *])
qed

lemma set_temp_eq:
  assumes "set_temp m c t e = Inr e'"
  obtains k j where "k < length (be_slaves e)" "j < length (bs_temp_C (be_slaves e ! k))"
    "py_pos (be_slaves e) m = Inr k" "py_pos (bs_temp_C (be_slaves e ! k)) c = Inr j"
    "e' = e\<lparr>be_slaves := (be_slaves e)[k := (be_slaves e ! k)
              \<lparr>bs_temp_C := (bs_temp_C (be_slaves e ! k))[j := t]\<rparr>]\<rparr>"
proof -
  from assms obtain k j where *: "py_pos (be_slaves e) m = Inr k" "py_pos (bs_temp_C (be_slaves e ! k)) c = Inr j"
      "e' = e\<lparr>be_slaves := (be_slaves e)[k := (be_slaves e ! k)
              \<lparr>bs_temp_C := (bs_temp_C (be_slaves e ! k))[j := t]\<rparr>]\<rparr>"
    by (auto simp: set_temp_def rbind_Inr_iff py_nth_def py_set_def)
  show ?thesis by (rule that [OF py_pos_lt [OF *(1)] py_pos_lt [OF *(2)] *])
qed

lemma set_cell_inv: "bms_inv e \<Longrightarrow> set_cell m c mV e = Inr e' \<Longrightarrow> bms_inv e'"
  by (erule set_cell_eq) (auto simp: bms_inv_def slave_wf_def nth_list_update)

lemma set_temp_inv: "bms_inv e \<Longrightarrow> set_temp m c t e = Inr e' \<Longrightarrow> bms_inv e'"
  by (erule set_temp_eq) (auto simp: bms_inv_def slave_wf_def nth_list_update)

lemma set_all_inv: "bms_inv e \<Longrightarrow> bms_inv (set_all_cells v e) \<and> bms_inv (set_all_temps t e)"
  by (auto simp: bms_inv_def slave_wf_def set_all_cells_def set_all_temps_def)

lemma stop_module_inv: "bms_inv e \<Longrightarrow> stop_module m e = Inr e' \<Longrightarrow> bms_inv e'"
  by (auto simp: stop_module_def rbind_Inr_iff bms_inv_def split: if_splits)

lemma bms_run_once_result:
  "fst (bms_run_once send rx e w) = Inr e' \<Longrightarrow>
   be_slaves e' = be_slaves e \<and> be_lookup e' = be_lookup e"
  by (auto simp: bms_run_once_def io_simps count_reply_def
      split: sum.splits option.splits if_splits prod.splits poll_kind.splits)

lemma bms_run_once_inv: "bms_inv e \<Longrightarrow> fst (bms_run_once send rx e w) = Inr e' \<Longrightarrow> bms_inv e'"
  using bms_run_once_result [of send rx e w e'] by (simp add: bms_inv_def)

section \<open>What reaches the bus\<close>

text \<open>A bus that takes every message, and records it.\<close>

definition tap :: "can_msg \<Rightarrow> (can_msg list, unit) io" where
  "tap f out = (Inr (), out @ [f])"

lemma send_burst_tap: "send_burst tap fs out = (Inr True, out @ fs)"
  by (induction fs arbitrary: out) (simp_all add: io_simps tap_def)

lemma slave_frames_total:
  assumes "bms_inv e" "k < length (be_slaves e)"
  obtains fs where "slave_frames kd (be_slaves e ! k) = Inr fs"
    "map cm_id fs = map (\<lambda>j. 300 + 30 * int k + poll_offset kd + 1 + int j) [0..<5]"
proof -
  from assms have m: "bs_module (be_slaves e ! k) = int k" "int k < 5" by (auto simp: bms_inv_def)
  show ?thesis
  proof (cases kd)
    case Voltage
    show ?thesis by (rule that, unfold Voltage slave_frames_def poll_kind.case, rule voltage_frames_eq)
      (use m in \<open>simp_all add: comp_def poll_offset_def\<close>)
  next
    case Temperature
    show ?thesis by (rule that, unfold Temperature slave_frames_def poll_kind.case, rule temperature_frames_eq)
      (use m in \<open>simp_all add: comp_def poll_offset_def\<close>)
  qed
qed

lemma run_once_known:
  assumes "bms_inv e" "\<not> cm_ext msg" "be_lookup e (cm_id msg) = Some (kd, k)"
    "slave_frames kd (be_slaves e ! k) = Inr fs"
  shows "bms_run_once tap (Inr (Some msg)) e out = (Inr (count_reply kd e), out @ fs)"
  using assms by (simp add: bms_run_once_def io_simps send_burst_tap)

definition reply_of :: "bms_emulator \<Rightarrow> can_msg \<Rightarrow> bool" where
  "reply_of e f \<longleftrightarrow> (\<exists>i kd k j. be_lookup e i = Some (kd, k) \<and> 0 \<le> j \<and> j < 5 \<and>
     cm_id f = 300 + 30 * int k + poll_offset kd + 1 + j)"

lemma run_once_sends:
  assumes "bms_inv e" "bms_run_once tap rx e out = (r, out')"
  shows "\<exists>fs. out' = out @ fs \<and> (\<forall>f\<in>set fs. reply_of e f)"
proof (cases "\<exists>msg kd k. rx = Inr (Some msg) \<and> \<not> cm_ext msg \<and> be_lookup e (cm_id msg) = Some (kd, k)")
  case True
  then obtain msg kd k where m: "rx = Inr (Some msg)" "\<not> cm_ext msg" "be_lookup e (cm_id msg) = Some (kd, k)"
    by blast
  with assms have "k < length (be_slaves e)" by (auto simp: bms_inv_def)
  from slave_frames_total [OF assms(1) this, of kd] obtain fs where
    fs: "slave_frames kd (be_slaves e ! k) = Inr fs"
      "map cm_id fs = map (\<lambda>j. 300 + 30 * int k + poll_offset kd + 1 + int j) [0..<5]" .
  have "reply_of e f" if "f \<in> set fs" for f
  proof -
    from that have "cm_id f \<in> set (map cm_id fs)" by simp
    then obtain j where "j < 5" "cm_id f = 300 + 30 * int k + poll_offset kd + 1 + int j"
      unfolding fs(2) by auto
    then show ?thesis unfolding reply_of_def using m(3) by (intro exI [of _ "int j"] exI) auto
  qed
  with run_once_known [OF assms(1) m(2,3) fs(1), of out] assms(2) m(1) show ?thesis by auto
next
  case False
  then have "bms_run_once tap rx e out = (fst (bms_run_once tap rx e out), out)"
    by (auto simp: bms_run_once_def io_simps split: sum.splits option.splits)
  with assms(2) show ?thesis by auto
qed

lemma bms_run_sends:
  "bms_inv e \<Longrightarrow> bms_run tap rxs e out = (r, out') \<Longrightarrow>
   \<exists>fs. out' = out @ fs \<and> (\<forall>f\<in>set fs. reply_of e f)"
proof (induction rxs arbitrary: e out)
  case (Cons rx rxs)
  obtain r1 out1 where 1: "bms_run_once tap rx e out = (r1, out1)" by force
  from run_once_sends [OF Cons.prems(1) 1] obtain fs where
    fs: "out1 = out @ fs" "\<forall>f\<in>set fs. reply_of e f" by blast
  show ?case
  proof (cases r1)
    case (Inl x)
    with Cons.prems 1 fs show ?thesis by (auto simp: io_simps)
  next
    case (Inr e1)
    with 1 have e1: "fst (bms_run_once tap rx e out) = Inr e1" by simp
    with Inr Cons.prems 1 have "bms_run tap rxs e1 out1 = (r, out')" by (simp add: io_simps)
    from Cons.IH [OF bms_run_once_inv [OF Cons.prems(1) e1] this] obtain gs where
      "out' = out1 @ gs" "\<forall>f\<in>set gs. reply_of e1 f" by blast
    moreover have "reply_of e1 = reply_of e"
      using bms_run_once_result [OF e1] by (simp add: reply_of_def fun_eq_iff)
    ultimately show ?thesis using fs by auto
  qed
qed (auto simp: io_simps)

text \<open>C27: the emulator's state stays well formed (at most five slaves, slave \<open>k\<close> being module \<open>k\<close> with 19
  cells and 38 sensors, the lookup table pointing from poll identifiers to their own module) under
  construction, every setter, \<open>stop_module\<close> and every iteration of the receive loop.\<close>

theorem bms_emulator_invariant:
  "(bms_init n = Inr e0 \<longrightarrow> bms_inv e0 \<and> n \<le> 5) \<and>
   (bms_inv e \<longrightarrow>
      bms_inv (set_all_cells v e) \<and> bms_inv (set_all_temps v e) \<and>
      (\<forall>e'. set_cell m c v e = Inr e' \<longrightarrow> bms_inv e') \<and>
      (\<forall>e'. set_temp m c v e = Inr e' \<longrightarrow> bms_inv e') \<and>
      (\<forall>e'. stop_module m e = Inr e' \<longrightarrow> bms_inv e') \<and>
      (\<forall>e'. fst (bms_run_once send rx e w) = Inr e' \<longrightarrow> bms_inv e'))"
  by (intro conjI impI allI) (auto dest: bms_init_inv set_all_inv set_cell_inv set_temp_inv stop_module_inv
      bms_run_once_inv)

text \<open>Any bus, which may raise, with the messages it took.\<close>

definition tapped :: "(can_msg \<Rightarrow> ('w, unit) io) \<Rightarrow> can_msg \<Rightarrow> ('w \<times> can_msg list, unit) io" where
  "tapped send f = (\<lambda>(w, out). case send f w of
     (Inr u, w') \<Rightarrow> (Inr (), (w', out @ [f])) | (Inl x, w') \<Rightarrow> (Inl x, (w', out)))"

lemma tapped_run:
  "send f w = (Inr u, v) \<Longrightarrow> tapped send f (w, out) = (Inr (), (v, out @ [f]))"
  "send f w = (Inl x, v) \<Longrightarrow> tapped send f (w, out) = (Inl x, (v, out))"
  by (simp_all add: tapped_def)

text \<open>A burst is sent whole, or up to the first message whose sending raises.\<close>

definition burst_end :: "(can_msg \<Rightarrow> ('w, unit) io) \<Rightarrow> can_msg list \<Rightarrow> 'a \<Rightarrow> 'a \<Rightarrow> 'a res \<Rightarrow> can_msg list \<Rightarrow> bool" where
  "burst_end send fs all_sent given_up r sent \<longleftrightarrow>
     (r = Inr all_sent \<and> sent = fs) \<or>
     (\<exists>j<length fs. sent = take j fs \<and> (\<exists>w x. fst (send (fs ! j) w) = Inl x \<and>
        r = (if is_can_error x then Inr given_up else Inl x)))"

lemma send_burst_tapped:
  "send_burst (tapped send) fs (w, out) = (r, (w', out')) \<Longrightarrow>
   \<exists>sent. out' = out @ sent \<and> burst_end send fs True False r sent"
proof (induction fs arbitrary: w out)
  case (Cons f fs)
  obtain q v where q: "send f w = (q, v)" by force
  show ?case
  proof (cases q)
    case (Inl x)
    with q Cons.prems have "out' = out" "r = (if is_can_error x then Inr False else Inl x)"
      by (auto simp: tapped_run(2) [of send f w x v] io_simps split: if_splits)
    with q Inl show ?thesis
      by (intro exI [of _ "[]"]) (auto simp: burst_end_def intro!: exI [of _ 0] exI [of _ w] exI [of _ x])
  next
    case (Inr u)
    with q Cons.prems have "send_burst (tapped send) fs (v, out @ [f]) = (r, (w', out'))"
      by (simp add: tapped_run(1) [of send f w u v] io_simps)
    from Cons.IH [OF this] obtain sent where s: "out' = (out @ [f]) @ sent" "burst_end send fs True False r sent" by blast
    from s(2) have "burst_end send (f # fs) True False r (f # sent)"
      unfolding burst_end_def
    proof (elim disjE exE conjE)
      fix j w x
      assume j: "j < length fs" "sent = take j fs" "fst (send (fs ! j) w) = Inl x"
        "r = (if is_can_error x then Inr False else Inl x)"
      then show "r = Inr True \<and> f # sent = f # fs \<or> (\<exists>j<length (f # fs). f # sent = take j (f # fs) \<and>
          (\<exists>w x. fst (send ((f # fs) ! j) w) = Inl x \<and> r = (if is_can_error x then Inr False else Inl x)))"
        by (intro disjI2 exI [of _ "Suc j"] conjI exI [of _ w] exI [of _ x]) simp_all
    qed simp
    with s(1) show ?thesis by (intro exI [of _ "f # sent"]) simp
  qed
qed (auto simp: io_simps burst_end_def)

lemma run_once_tapped:
  assumes "\<not> cm_ext msg" "be_lookup e (cm_id msg) = Some (kd, k)" "slave_frames kd (be_slaves e ! k) = Inr fs"
    and "bms_run_once (tapped send) (Inr (Some msg)) e (w, out) = (r, (w', out'))"
  shows "\<exists>sent. out' = out @ sent \<and> burst_end send fs (count_reply kd e) e r sent"
proof -
  obtain q v out1 where b: "send_burst (tapped send) fs (w, out) = (q, (v, out1))" by (metis prod.collapse)
  from send_burst_tapped [OF b] obtain sent where s: "out1 = out @ sent" "burst_end send fs True False q sent" by blast
  from assms b have r: "out' = out1" "r = (case q of Inr ok \<Rightarrow> Inr (if ok then count_reply kd e else e) | Inl x \<Rightarrow> Inl x)"
    by (cases q; simp add: bms_run_once_def io_simps)+
  from s(2) r(2) have "burst_end send fs (count_reply kd e) e r sent"
    unfolding burst_end_def by (elim disjE exE conjE) (force split: if_splits)+
  with s(1) r(1) show ?thesis by blast
qed

text \<open>C28: on any bus, which may raise at any send, a standard frame with the voltage poll identifier of a live
  module sends, in order, five standard frames of eight bytes with that module's voltage identifiers, from
  which the firmware reads back the module's 19 cell voltages, and counts one voltage reply; the
  temperature poll identifier sends the five frames with the 38 temperatures and counts one temperature
  reply. Where a send raises, the frames before it are sent, nothing is counted, and the loop goes on after a
  \<open>CanError\<close> and ends with any other exception. An unknown identifier is only counted; an extended frame, an
  empty receive and one that raises an \<open>Exception\<close> change nothing.\<close>

theorem bms_poll_answered:
  assumes "bms_inv e"
    and "\<forall>s\<in>set (be_slaves e). (\<forall>v\<in>set (bs_cell_mV s). 0 \<le> v \<and> v < 65536) \<and> (\<forall>t\<in>set (bs_temp_C s). - 128 \<le> t \<and> t < 128)"
    and "bms_run_once (tapped send) (Inr (Some (std_msg i d))) e (w, out) = (r, (w', out'))"
  shows "(be_lookup e i \<noteq> None \<longrightarrow>
       (\<exists>m fs e' sent. m < length (be_slaves e) \<and>
          (i = 300 + 30 * int m \<and> map cm_id fs = map (\<lambda>j. 300 + 30 * int m + 1 + int j) [0..<5] \<and>
             map (read_cell fs) [0..<19] = bs_cell_mV (be_slaves e ! m) \<and>
             e' = e\<lparr>be_voltage_replies := be_voltage_replies e + 1\<rparr> \<or>
           i = 320 + 30 * int m \<and> map cm_id fs = map (\<lambda>j. 320 + 30 * int m + 1 + int j) [0..<5] \<and>
             map (read_temp fs) [0..<38] = bs_temp_C (be_slaves e ! m) \<and>
             e' = e\<lparr>be_temp_replies := be_temp_replies e + 1\<rparr>) \<and>
          (\<forall>f\<in>set fs. \<not> cm_ext f \<and> length (cm_data f) = 8) \<and>
          out' = out @ sent \<and>
          (sent = fs \<and> r = Inr e' \<or>
           (\<exists>j<5. sent = take j fs \<and> (\<exists>v x. fst (send (fs ! j) v) = Inl x \<and>
              r = (if is_can_error x then Inr e else Inl x))))))
    \<and> (be_lookup e i = None \<longrightarrow> r = Inr (e\<lparr>be_unknown_rx := be_unknown_rx e + 1\<rparr>) \<and> out' = out)
    \<and> (cm_ext msg \<longrightarrow> bms_run_once send (Inr (Some msg)) e v = (Inr e, v))
    \<and> bms_run_once send (Inr None) e v = (Inr e, v)
    \<and> (is_exception x \<longrightarrow> bms_run_once send (Inl x) e v = (Inr e, v))"
proof (intro conjI impI)
  assume "be_lookup e i \<noteq> None"
  then obtain kd m where l: "be_lookup e i = Some (kd, m)" by auto
  with assms(1) have m: "m < length (be_slaves e)" and i: "i = 300 + 30 * int m + poll_offset kd"
    by (auto simp: bms_inv_def)
  let ?s = "be_slaves e ! m"
  have s: "slave_wf ?s" "bs_module ?s = int m" "0 \<le> bs_module ?s" "bs_module ?s < 5"
    "\<forall>v\<in>set (bs_cell_mV ?s). 0 \<le> v \<and> v < 65536" "\<forall>t\<in>set (bs_temp_C ?s). - 128 \<le> t \<and> t < 128"
    using assms(1,2) m by (auto simp: bms_inv_def)
  obtain vs ts where c: "voltage_response_frames ?s = Inr vs" "temperature_response_frames ?s = Inr ts"
     "map cm_id vs = map (\<lambda>i. 300 + 30 * bs_module ?s + 1 + int i) [0..<5]"
     "map cm_id ts = map (\<lambda>i. 300 + 30 * bs_module ?s + 21 + int i) [0..<5]"
     "\<forall>f\<in>set (vs @ ts). \<not> cm_ext f \<and> length (cm_data f) = 8"
     "map (read_cell vs) [0..<19] = bs_cell_mV ?s" "map (read_temp ts) [0..<38] = bs_temp_C ?s"
    using frames_carry [OF s(1,3-6)] by blast
  have len: "length vs = 5" "length ts = 5" using c(3,4) by (metis length_map length_upt diff_zero)+
  show "\<exists>m fs e' sent. m < length (be_slaves e) \<and>
          (i = 300 + 30 * int m \<and> map cm_id fs = map (\<lambda>j. 300 + 30 * int m + 1 + int j) [0..<5] \<and>
             map (read_cell fs) [0..<19] = bs_cell_mV (be_slaves e ! m) \<and>
             e' = e\<lparr>be_voltage_replies := be_voltage_replies e + 1\<rparr> \<or>
           i = 320 + 30 * int m \<and> map cm_id fs = map (\<lambda>j. 320 + 30 * int m + 1 + int j) [0..<5] \<and>
             map (read_temp fs) [0..<38] = bs_temp_C (be_slaves e ! m) \<and>
             e' = e\<lparr>be_temp_replies := be_temp_replies e + 1\<rparr>) \<and>
          (\<forall>f\<in>set fs. \<not> cm_ext f \<and> length (cm_data f) = 8) \<and>
          out' = out @ sent \<and>
          (sent = fs \<and> r = Inr e' \<or>
           (\<exists>j<5. sent = take j fs \<and> (\<exists>v x. fst (send (fs ! j) v) = Inl x \<and>
              r = (if is_can_error x then Inr e else Inl x))))"
  proof (cases kd)
    case Voltage
    from run_once_tapped [OF _ _ _ assms(3), of Voltage m vs] l c(1) Voltage obtain sent where
      "out' = out @ sent" "burst_end send vs (count_reply Voltage e) e r sent" by (auto simp: slave_frames_def)
    note b = this(1) this(2) [unfolded burst_end_def len]
    have "\<forall>f\<in>set vs. \<not> cm_ext f \<and> length (cm_data f) = 8" using c(5) by simp
    moreover have "sent = vs \<and> r = Inr (count_reply Voltage e) \<or>
           (\<exists>j<5. sent = take j vs \<and> (\<exists>v x. fst (send (vs ! j) v) = Inl x \<and>
              r = (if is_can_error x then Inr e else Inl x)))" using b(2) by blast
    moreover have "i = 300 + 30 * int m" using i by (simp add: Voltage poll_offset_def)
    moreover have "count_reply Voltage e = e\<lparr>be_voltage_replies := be_voltage_replies e + 1\<rparr>" by (simp add: count_reply_def)
    moreover note m c(3) [unfolded s(2)] c(6) b(1)
    ultimately show ?thesis
      by (intro exI [of _ m] exI [of _ vs] exI [of _ "count_reply Voltage e"] exI [of _ sent] conjI) (simp_all add: algebra_simps)
  next
    case Temperature
    from run_once_tapped [OF _ _ _ assms(3), of Temperature m ts] l c(2) Temperature obtain sent where
      "out' = out @ sent" "burst_end send ts (count_reply Temperature e) e r sent" by (auto simp: slave_frames_def)
    note b = this(1) this(2) [unfolded burst_end_def len]
    have "\<forall>f\<in>set ts. \<not> cm_ext f \<and> length (cm_data f) = 8" using c(5) by simp
    moreover have "sent = ts \<and> r = Inr (count_reply Temperature e) \<or>
           (\<exists>j<5. sent = take j ts \<and> (\<exists>v x. fst (send (ts ! j) v) = Inl x \<and>
              r = (if is_can_error x then Inr e else Inl x)))" using b(2) by blast
    moreover have "i = 320 + 30 * int m" using i by (simp add: Temperature poll_offset_def)
    moreover have "count_reply Temperature e = e\<lparr>be_temp_replies := be_temp_replies e + 1\<rparr>" by (simp add: count_reply_def)
    moreover note m c(4) [unfolded s(2)] c(7) b(1)
    ultimately show ?thesis
      by (intro exI [of _ m] exI [of _ ts] exI [of _ "count_reply Temperature e"] exI [of _ sent] conjI) (simp_all add: algebra_simps)
  qed
next
  assume "be_lookup e i = None"
  with assms(3) show "r = Inr (e\<lparr>be_unknown_rx := be_unknown_rx e + 1\<rparr>)" "out' = out"
    by (simp_all add: bms_run_once_def io_simps)
qed (simp_all add: bms_run_once_def io_simps)

text \<open>once a module is stopped, whatever is received afterwards, no frame with any identifier of
  that module is ever sent.\<close>

theorem stopped_module_silent:
  assumes "bms_inv e" "stop_module m e = Inr e'" "bms_run tap rxs e' out = (r, out')"
  shows "\<exists>fs. out' = out @ fs \<and> (\<forall>f\<in>set fs. \<forall>fr. bms_frame_id m fr \<noteq> Inr (cm_id f))"
proof -
  have inv: "bms_inv e'" using stop_module_inv assms by blast
  from bms_run_sends [OF inv assms(3)] obtain fs where
    fs: "out' = out @ fs" "\<forall>f\<in>set fs. reply_of e' f" by blast
  have "bms_frame_id m fr \<noteq> Inr (cm_id f)" if f: "f \<in> set fs" for f fr
  proof
    assume eq: "bms_frame_id m fr = Inr (cm_id f)"
    from fs(2) f obtain i kd k j where
      l: "be_lookup e' i = Some (kd, k)" and j: "0 \<le> j" "j < 5"
      and c: "cm_id f = 300 + 30 * int k + poll_offset kd + 1 + j"
      unfolding reply_of_def by blast
    have off: "0 \<le> poll_offset kd + 1 + j" "poll_offset kd + 1 + j < 26"
      using j by (cases kd; simp add: poll_offset_def)+
    from eq have m: "0 \<le> m" "m < 5" "bms_frame_ok fr" "cm_id f = 300 + 30 * m + bms_frame_offset fr"
      by (auto simp: bms_frame_id_Inr)
    with c off bms_frame_offset_range [of fr] have "int k = m" by linarith
    moreover from inv l have "i = 300 + 30 * int k + poll_offset kd" by (auto simp: bms_inv_def)
    moreover from assms(2) m have "be_lookup e' (300 + 30 * m) = None" "be_lookup e' (300 + 30 * m + 20) = None"
      by (auto simp: stop_module_def rbind_Inr_iff poll_ids)
    ultimately show False using l by (cases kd) (auto simp: poll_offset_def)
  qed
  with fs(1) show ?thesis by blast
qed

section \<open>The one-module emulator as the concrete input of the witnesses\<close>

definition bms_demo :: bms_emulator where
  "bms_demo = \<lparr>be_slaves = [new_slave 0],
     be_lookup = [300 \<mapsto> (Voltage, 0), 320 \<mapsto> (Temperature, 0)],
     be_voltage_replies = 0, be_temp_replies = 0, be_unknown_rx = 0\<rparr>"

lemma bms_demo_init: "bms_init 1 = Inr bms_demo"
  by (simp add: bms_init_def bms_demo_def bms_id_defs bms_const_defs)

lemma bms_demo_inv: "bms_inv bms_demo"
  using bms_init_inv [OF bms_demo_init] by simp

theorem bms_emulator_invariant_witness:
  "bms_inv bms_demo \<and> (\<exists>e'. set_cell (- 1) (- 1) 2700 bms_demo = Inr e' \<and> bms_inv e')"
proof -
  obtain e' where e: "set_cell (- 1) (- 1) 2700 bms_demo = Inr e'"
    by (simp add: set_cell_def py_nth_def py_set_def py_pos_def bms_demo_def new_slave_def bms_size_defs)
  have "bms_inv bms_demo"
    by (rule bms_emulator_invariant [THEN conjunct1, rule_format, OF bms_demo_init, THEN conjunct1])
  from bms_emulator_invariant [THEN conjunct2, rule_format, OF this, THEN conjunct2, THEN conjunct2,
      THEN conjunct1, rule_format, OF e] have "bms_inv e'" .
  with \<open>bms_inv bms_demo\<close> e show ?thesis by blast
qed

text \<open>A bus that takes two messages and then has no buffer: the world counts.\<close>

definition full_bus :: "can_msg \<Rightarrow> (nat, unit) io" where
  "full_bus f n = (if n < 2 then (Inr (), Suc n) else (Inl (Exn CanError ''no buffer space''), n))"

theorem bms_poll_answered_witness:
  "\<exists>fs. map cm_id fs = [321, 322] \<and>
     bms_run_once (tapped full_bus) (Inr (Some (std_msg 320 []))) bms_demo (0, []) = (Inr bms_demo, (2, fs))"
proof -
  let ?run = "bms_run_once (tapped full_bus) (Inr (Some (std_msg 320 []))) bms_demo (0, [])"
  have f: "fst (snd ?run) = 2" "length (snd (snd ?run)) = 2" by code_simp+
  obtain r w' out' where rw: "?run = (r, (w', out'))" by (metis prod.collapse)
  with f have run: "?run = (r, (2, out'))" "length out' = 2" by simp_all
  have "\<forall>s\<in>set (be_slaves bms_demo). (\<forall>v\<in>set (bs_cell_mV s). 0 \<le> v \<and> v < 65536) \<and> (\<forall>t\<in>set (bs_temp_C s). - 128 \<le> t \<and> t < 128)"
    by (simp add: bms_demo_def new_slave_def)
  note answered = bms_poll_answered [OF bms_demo_inv this run(1), THEN conjunct1, THEN mp]
  have "be_lookup bms_demo 320 \<noteq> None" by (simp add: bms_demo_def)
  from answered [OF this] show ?thesis
  proof (elim exE conjE, goal_cases)
    case (1 m fs e' sent)
    have "m = 0" using 1(1) by (simp add: bms_demo_def)
    with 1(2) have ids: "map cm_id fs = map (\<lambda>j. 321 + int j) [0..<5]" by simp
    then have l: "length fs = 5" by (metis length_map length_upt diff_zero)
    from 1(4) run(2) have sent: "length sent = 2" "out' = sent" by simp_all
    from 1(5) obtain j where "sent = take j fs" "r = Inr bms_demo"
      using sent(1) l by (auto simp: full_bus_def split: if_splits)
    moreover from this l sent(1) have "j = 2" by (auto simp: min_def split: if_splits)
    ultimately have "out' = take 2 fs" using sent(2) by simp
    moreover have "map cm_id (take 2 fs) = take 2 (map cm_id fs)" by (simp add: take_map)
    ultimately have "map cm_id out' = [321, 322]" using ids by (simp add: upt_rec)
    with run(1) \<open>r = Inr bms_demo\<close> show ?case by (intro exI [of _ out']) simp
  qed
qed

theorem stopped_module_silent_witness:
  "\<exists>e'. stop_module 0 bms_demo = Inr e' \<and>
     (\<forall>f\<in>set (snd (bms_run tap [Inr (Some (std_msg 300 [])), Inr (Some (std_msg 320 []))] e' [])).
        bms_frame_id 0 (VoltResp 0) \<noteq> Inr (cm_id f))"
proof -
  obtain e' where e: "stop_module 0 bms_demo = Inr e'"
    by (simp add: stop_module_def bms_id_defs bms_const_defs)
  let ?run = "bms_run tap [Inr (Some (std_msg 300 [])), Inr (Some (std_msg 320 []))] e' []"
  have "?run = (fst ?run, snd ?run)" by simp
  from stopped_module_silent [OF bms_demo_inv e this] have "\<forall>f\<in>set (snd ?run). bms_frame_id 0 (VoltResp 0) \<noteq> Inr (cm_id f)"
    by (elim exE conjE) (simp only: append_Nil, blast)
  with e show ?thesis by blast
qed

end
