(* ===== verification/Hw_Config.thy ===== *)
theory Hw_Config
  imports Prelude
begin

text \<open>
  \<^verbatim>\<open>tools/hw_config.py\<close>: pins (BCM numbering), bus addresses and limits of the backplane.
\<close>

definition spi_config :: "(string \<times> int) list" where
  "spi_config = [(''SPI_BUS'', 0), (''SPI_DEVICE'', 3), (''SPI_MAX_HZ'', 1000000)]"

definition cs_pins :: "(string \<times> int) list" where
  "cs_pins =
     [(''CS_CAN1'', 27), (''CS_CAN2'', 17), (''CS_CAN3'', 18),
      (''CS_ADC1'', 19), (''CS_ADC2'', 20), (''CS_ADC3'', 21),
      (''CS_DAC1'', 22), (''CS_DAC2'', 23), (''CS_DAC3'', 24), (''CS_DAC4'', 25),
      (''NRF24_CS'', 26)]"

definition other_pins :: "(string \<times> int) list" where
  "other_pins =
     [(''NRF24_CE'', 13), (''NRF24_IRQ'', 12), (''INT_CAN1'', 4), (''INT_CAN2'', 5), (''INT_CAN3'', 6),
      (''PSU_ON'', 7), (''PWR_OK'', 8)]"

definition INA226_ADDRS :: "int list" where
  "INA226_ADDRS = [0x40, 0x41, 0x44, 0x45]"

definition INA226_SHUNT_OHM :: rat where "INA226_SHUNT_OHM = 1 / 100"

definition TCA9555_ADDRS :: "int list" where
  "TCA9555_ADDRS = [0x20, 0x21, 0x22]"

definition RELAY_PINS :: "(string \<times> int \<times> int \<times> int) list" where
  "RELAY_PINS = [(''K1'', 0x20, 0, 0), (''K2'', 0x20, 0, 1), (''K3'', 0x20, 0, 2), (''K4'', 0x20, 0, 3)]"

definition MCP2515_OSC_HZ :: int where "MCP2515_OSC_HZ = 16000000"

definition CAN_BITRATE :: int where "CAN_BITRATE = 500000"

definition MLC_CURRENT_MAX_A :: rat where "MLC_CURRENT_MAX_A = 3"

text \<open>no GPIO of the backplane is assigned twice (chip selects, interrupts, radio and power pins),
  no two devices share an address on the I2C bus, and the relays sit on distinct expander pins.\<close>

theorem hw_config_disjoint:
  "distinct (map snd cs_pins @ map snd other_pins) \<and> distinct (INA226_ADDRS @ TCA9555_ADDRS) \<and>
   distinct (map snd RELAY_PINS)"
  by (simp add: cs_pins_def other_pins_def INA226_ADDRS_def TCA9555_ADDRS_def RELAY_PINS_def)

end
