(* ===== verification/Hw_Bus.thy ===== *)
theory Hw_Bus
  imports Hw_Config
begin

text \<open>
  What the drivers and the hardware manager use of the machine: \<^verbatim>\<open>spidev\<close>, \<^verbatim>\<open>RPi.GPIO\<close>, \<^verbatim>\<open>smbus2\<close>, the
  clock and the \<^verbatim>\<open>ip\<close> command. They are not part of the repository, so they are a record of programs
  over an arbitrary world, and the drivers take that record as an argument.

  A loop \<open>while time.time() < deadline\<close> is \<open>poll\<close>, with fuel; None means the fuel ran out, and
  \<open>poll_returns\<close> shows that a clock advanced by every wait makes a known amount of fuel enough.
\<close>

datatype gpio_mode = Output | OutputInit bool | InputPullUp | InputPullDown | InputFloat

record 'w hw =
  hw_xfer2 :: "nat \<Rightarrow> int list \<Rightarrow> ('w, int list) io"
  hw_get_mode :: "nat \<Rightarrow> ('w, int) io"
  hw_set_mode :: "nat \<Rightarrow> int \<Rightarrow> ('w, unit) io"
  hw_gpio_setup :: "int \<Rightarrow> gpio_mode \<Rightarrow> ('w, unit) io"
  hw_gpio_out :: "int \<Rightarrow> bool \<Rightarrow> ('w, unit) io"
  hw_gpio_in :: "int \<Rightarrow> ('w, bool) io"
  hw_i2c_read :: "int \<Rightarrow> int \<Rightarrow> ('w, int) io"
  hw_i2c_write :: "int \<Rightarrow> int \<Rightarrow> int \<Rightarrow> ('w, unit) io"
  hw_i2c_read_block :: "int \<Rightarrow> int \<Rightarrow> int \<Rightarrow> ('w, int list) io"
  hw_i2c_write_block :: "int \<Rightarrow> int \<Rightarrow> int list \<Rightarrow> ('w, unit) io"
  hw_i2c_probe :: "int \<Rightarrow> ('w, unit) io"
  hw_time :: "('w, rat) io"
  hw_sleep :: "rat \<Rightarrow> ('w, unit) io"

text \<open>A machine on which nothing happens, for the witnesses to build on.\<close>

definition null_hw :: "'w hw" where
  "null_hw =
     \<lparr>hw_xfer2 = (\<lambda>h pkt. ret pkt), hw_get_mode = (\<lambda>h. ret 0), hw_set_mode = (\<lambda>h m. ret ()),
      hw_gpio_setup = (\<lambda>p m. ret ()), hw_gpio_out = (\<lambda>p v. ret ()), hw_gpio_in = (\<lambda>p. ret False), hw_i2c_read = (\<lambda>a r. ret 0),
      hw_i2c_write = (\<lambda>a r v. ret ()), hw_i2c_read_block = (\<lambda>a r n. ret []),
      hw_i2c_write_block = (\<lambda>a r d. ret ()), hw_i2c_probe = (\<lambda>a. ret ()), hw_time = ret 0,
      hw_sleep = (\<lambda>t. ret ())\<rparr>"

section \<open>SPI devices\<close>

text \<open>A device: its \<^verbatim>\<open>spidev\<close> handle, and the chip-select pin when userspace toggles it (None when the
  kernel owns it). \<open>plain_xfer\<close> is the code of the ADC and CAN drivers, \<open>safe_xfer\<close> the radio's, with
  its \<open>try/finally\<close>.\<close>

record spi_dev =
  sd_handle :: nat
  sd_cs :: "int option"

definition plain_xfer :: "'w hw \<Rightarrow> spi_dev \<Rightarrow> int list \<Rightarrow> ('w, int list) io" where
  "plain_xfer hw d pkt =
     (case sd_cs d of
        None \<Rightarrow> hw_xfer2 hw (sd_handle d) pkt
      | Some cs \<Rightarrow>
          bind (hw_gpio_out hw cs False) (\<lambda>_.
          bind (hw_xfer2 hw (sd_handle d) pkt) (\<lambda>resp.
          bind (hw_gpio_out hw cs True) (\<lambda>_. ret resp))))"

definition safe_xfer :: "'w hw \<Rightarrow> spi_dev \<Rightarrow> int list \<Rightarrow> ('w, int list) io" where
  "safe_xfer hw d pkt =
     (case sd_cs d of
        None \<Rightarrow> hw_xfer2 hw (sd_handle d) pkt
      | Some cs \<Rightarrow>
          bind (hw_gpio_out hw cs False) (\<lambda>_.
          try_finally (hw_xfer2 hw (sd_handle d) pkt) (hw_gpio_out hw cs True)))"

section \<open>Polling with a deadline\<close>

primrec poll :: "nat \<Rightarrow> ('w, rat) io \<Rightarrow> rat \<Rightarrow> ('w, bool) io \<Rightarrow> ('w, unit) io \<Rightarrow> ('w, bool option) io" where
  "poll 0 time deadline test wait = ret None"
| "poll (Suc n) time deadline test wait =
     bind time (\<lambda>t.
       if t < deadline
       then bind test (\<lambda>b. if b then ret (Some True) else bind wait (\<lambda>_. poll n time deadline test wait))
       else ret (Some False))"

text \<open>A clock that every wait advances by at least \<open>step\<close> and the test does not turn back.\<close>

definition clock_ok ::
  "('w \<Rightarrow> rat) \<Rightarrow> ('w, rat) io \<Rightarrow> ('w, bool) io \<Rightarrow> ('w, unit) io \<Rightarrow> rat \<Rightarrow> bool"
where
  "clock_ok clk time test wait step \<longleftrightarrow>
     (\<forall>w. time w = (Inr (clk w), w)) \<and>
     (\<forall>w. clk w \<le> clk (snd (test w))) \<and>
     (\<forall>w. clk w + step \<le> clk (snd (wait w)))"

lemma poll_returns:
  assumes "clock_ok clk time test wait step" "0 < step" "deadline - clk w \<le> of_nat n * step"
  shows "fst (poll (Suc n) time deadline test wait w) \<noteq> Inr None"
  using assms(3)
proof (induction n arbitrary: w)
  case 0
  have "time w = (Inr (clk w), w)" using assms(1) by (simp add: clock_ok_def)
  with 0 show ?case by (simp add: io_simps)
next
  case (Suc n)
  have time: "time w = (Inr (clk w), w)" using assms(1) by (simp add: clock_ok_def)
  show ?case
  proof (cases "clk w < deadline")
    case False
    with time show ?thesis by (simp add: io_simps)
  next
    case True
    obtain b w1 where t: "test w = (b, w1)" by force
    obtain u w2 where wt: "wait w1 = (u, w2)" by force
    have "clk w \<le> clk w1" "clk w1 + step \<le> clk w2"
      using assms(1) t wt unfolding clock_ok_def by (metis snd_conv)+
    with Suc.prems have "deadline - clk w2 \<le> of_nat n * step" by (simp add: algebra_simps)
    from Suc.IH [OF this] True time t wt show ?thesis
      by (cases b; cases u) (simp_all add: io_simps)
  qed
qed

end
