(* ===== verification/Pin_Bank.thy ===== *)
theory Pin_Bank
  imports Prelude
begin

text \<open>
  The contract of a bank of output pins, as the port expanders offer it to the relays, the carrier
  supplies and the switch inputs of the rig: \<open>wr i k v\<close> drives pin \<open>k\<close> of port \<open>i\<close>, \<open>out\<close> is the latch of
  a port, and a write changes exactly its own pin. The fake backend interprets it, and the TCA9555 driver
  satisfies it on every chip that latches what is written (\<open>tca_pin_bank\<close>); its clients are the pin wrapper and the power sequencing of the DUT flasher.
\<close>

type_synonym 'i pin_write = "'i \<times> nat \<times> bool"

text \<open>The last value written to a pin by a sequence of writes.\<close>

fun last_write :: "'i pin_write list \<Rightarrow> 'i \<Rightarrow> nat \<Rightarrow> bool option" where
  "last_write [] i k = None"
| "last_write ((i', k', v) # ws) i k =
     (case last_write ws i k of Some b \<Rightarrow> Some b
      | None \<Rightarrow> if i' = i \<and> k' = k then Some v else None)"

locale pin_bank =
  fixes out :: "'s \<Rightarrow> 'i \<Rightarrow> int"
    and wr :: "'i \<Rightarrow> nat \<Rightarrow> bool \<Rightarrow> 's \<Rightarrow> 's"
    and ok :: "'s \<Rightarrow> bool"
    and ports :: "'i set"
  assumes wr_ok: "ok s \<Longrightarrow> i \<in> ports \<Longrightarrow> k < 8 \<Longrightarrow> ok (wr i k v s)"
    and wr_bit: "ok s \<Longrightarrow> i \<in> ports \<Longrightarrow> i' \<in> ports \<Longrightarrow> k < 8 \<Longrightarrow> k' < 8 \<Longrightarrow>
      bit (out (wr i k v s) i') k' = (if i' = i \<and> k' = k then v else bit (out s i') k')"
begin

definition writes :: "'i pin_write list \<Rightarrow> 's \<Rightarrow> 's" where
  "writes ws s = foldl (\<lambda>s (i, k, v). wr i k v s) s ws"

definition valid_writes :: "'i pin_write list \<Rightarrow> bool" where
  "valid_writes ws \<longleftrightarrow> (\<forall>(i, k, v)\<in>set ws. i \<in> ports \<and> k < 8)"

lemma writes_ok: "ok s \<Longrightarrow> valid_writes ws \<Longrightarrow> ok (writes ws s)"
  unfolding writes_def valid_writes_def by (induction ws arbitrary: s) (auto simp: wr_ok)

text \<open>A sequence of writes leaves each pin at the last value written to it, and the others alone.\<close>

lemma writes_bit:
  "ok s \<Longrightarrow> valid_writes ws \<Longrightarrow> i \<in> ports \<Longrightarrow> k < 8 \<Longrightarrow>
   bit (out (writes ws s) i) k = (case last_write ws i k of Some v \<Rightarrow> v | None \<Rightarrow> bit (out s i) k)"
proof (induction ws arbitrary: s)
  case (Cons w ws)
  obtain i' k' v where w: "w = (i', k', v)" by (cases w)
  have "writes (w # ws) s = writes ws (wr i' k' v s)" by (simp add: writes_def w)
  moreover have "ok (wr i' k' v s)" "valid_writes ws"
    using Cons.prems w by (auto simp: valid_writes_def wr_ok)
  ultimately have "bit (out (writes (w # ws) s) i) k =
      (case last_write ws i k of Some v \<Rightarrow> v | None \<Rightarrow> bit (out (wr i' k' v s) i) k)"
    using Cons by simp
  then show ?case
    using Cons.prems w by (auto simp: valid_writes_def wr_bit split: option.split)
qed (simp add: writes_def)

lemma writes_commute:
  assumes "ok s" "valid_writes ws" "valid_writes ws'" "i \<in> ports" "k < 8"
    and "\<And>i k. last_write ws i k = last_write ws' i k"
  shows "bit (out (writes ws s) i) k = bit (out (writes ws' s) i) k"
  using assms by (simp add: writes_bit)

end

end
