(* ===== verification/I2c_Drivers.thy ===== *)
theory I2c_Drivers
  imports Hw_Bus Pin_Bank
begin

text \<open>
  The drivers on the I2C bus: \<^verbatim>\<open>tools/tca9555.py\<close>, the port expander, and \<^verbatim>\<open>tools/ina226.py\<close>, the power
  monitor. A driver object is its address (and the current scale of the monitor); its methods are
  programs over the bus of \<open>Hw_Bus\<close>.
\<close>

section \<open>TCA9555\<close>

definition tca_regs :: "(string \<times> int) list" where
  "tca_regs = [(''INPUT_0'', 0x00), (''INPUT_1'', 0x01), (''OUTPUT_0'', 0x02), (''OUTPUT_1'', 0x03),
     (''POL_0'', 0x04), (''POL_1'', 0x05), (''CONFIG_0'', 0x06), (''CONFIG_1'', 0x07)]"

definition tca_rd :: "'w hw \<Rightarrow> int \<Rightarrow> int \<Rightarrow> ('w, int) io" where
  "tca_rd hw addr reg = hw_i2c_read hw addr reg"

definition tca_wr :: "'w hw \<Rightarrow> int \<Rightarrow> int \<Rightarrow> int \<Rightarrow> ('w, unit) io" where
  "tca_wr hw addr reg v = hw_i2c_write hw addr reg (v AND 0xFF)"

definition tca_set_direction :: "'w hw \<Rightarrow> int \<Rightarrow> int \<Rightarrow> int \<Rightarrow> ('w, unit) io" where
  "tca_set_direction hw addr port msk = tca_wr hw addr (if port = 0 then 0x06 else 0x07) msk"

definition tca_get_direction :: "'w hw \<Rightarrow> int \<Rightarrow> int \<Rightarrow> ('w, int) io" where
  "tca_get_direction hw addr port = tca_rd hw addr (if port = 0 then 0x06 else 0x07)"

definition tca_set_all_outputs :: "'w hw \<Rightarrow> int \<Rightarrow> ('w, unit) io" where
  "tca_set_all_outputs hw addr = bind (tca_wr hw addr 0x06 0x00) (\<lambda>_. tca_wr hw addr 0x07 0x00)"

definition tca_set_all_inputs :: "'w hw \<Rightarrow> int \<Rightarrow> ('w, unit) io" where
  "tca_set_all_inputs hw addr = bind (tca_wr hw addr 0x06 0xFF) (\<lambda>_. tca_wr hw addr 0x07 0xFF)"

definition tca_write_port :: "'w hw \<Rightarrow> int \<Rightarrow> int \<Rightarrow> int \<Rightarrow> ('w, unit) io" where
  "tca_write_port hw addr port v = tca_wr hw addr (if port = 0 then 0x02 else 0x03) v"

definition shift_one :: "int \<Rightarrow> int res" where
  "shift_one n = (if n < 0 then Inl (Exn ValueError ''negative shift count'') else Inr (push_bit (nat n) 1))"

definition tca_write_pin :: "'w hw \<Rightarrow> int \<Rightarrow> int \<Rightarrow> int \<Rightarrow> bool \<Rightarrow> ('w, unit) io" where
  "tca_write_pin hw addr port pin state =
     (let reg = (if port = 0 then 0x02 else 0x03)
      in bind (tca_rd hw addr reg) (\<lambda>cur.
         bind (of_res (shift_one pin)) (\<lambda>m.
           tca_wr hw addr reg (if state then cur OR m else cur AND NOT m))))"

definition tca_write_all :: "'w hw \<Rightarrow> int \<Rightarrow> int \<Rightarrow> int \<Rightarrow> ('w, unit) io" where
  "tca_write_all hw addr p0 p1 = bind (tca_wr hw addr 0x02 p0) (\<lambda>_. tca_wr hw addr 0x03 p1)"

definition tca_read_port :: "'w hw \<Rightarrow> int \<Rightarrow> int \<Rightarrow> ('w, int) io" where
  "tca_read_port hw addr port = tca_rd hw addr (if port = 0 then 0x00 else 0x01)"

definition tca_read_pin :: "'w hw \<Rightarrow> int \<Rightarrow> int \<Rightarrow> int \<Rightarrow> ('w, bool) io" where
  "tca_read_pin hw addr port pin =
     bind (tca_read_port hw addr port) (\<lambda>v. bind (of_res (shift_one pin)) (\<lambda>m. ret (v AND m \<noteq> 0)))"

definition tca_is_present :: "'w hw \<Rightarrow> int \<Rightarrow> ('w, bool) io" where
  "tca_is_present hw addr =
     try_except (bind (tca_rd hw addr 0x06) (\<lambda>_. ret True)) is_os_error (\<lambda>_. ret False)"

record tca_snapshot =
  tsn_input_port0 :: int
  tsn_input_port1 :: int
  tsn_output_port0 :: int
  tsn_output_port1 :: int
  tsn_config_port0 :: int
  tsn_config_port1 :: int

definition tca_read_all :: "'w hw \<Rightarrow> int \<Rightarrow> ('w, tca_snapshot) io" where
  "tca_read_all hw addr =
     bind (tca_rd hw addr 0x00) (\<lambda>i0. bind (tca_rd hw addr 0x01) (\<lambda>i1.
     bind (tca_rd hw addr 0x02) (\<lambda>o0. bind (tca_rd hw addr 0x03) (\<lambda>o1.
     bind (tca_rd hw addr 0x06) (\<lambda>c0. bind (tca_rd hw addr 0x07) (\<lambda>c1.
       ret \<lparr>tsn_input_port0 = i0, tsn_input_port1 = i1, tsn_output_port0 = o0,
            tsn_output_port1 = o1, tsn_config_port0 = c0, tsn_config_port1 = c1\<rparr>))))))"

section \<open>INA226\<close>

record ina226 =
  ina_addr :: int
  ina_shunt :: rat
  ina_current_lsb :: rat

definition ina_rd :: "'w hw \<Rightarrow> ina226 \<Rightarrow> int \<Rightarrow> ('w, int) io" where
  "ina_rd hw d reg =
     bind (hw_i2c_read_block hw (ina_addr d) reg 2) (\<lambda>raw.
       if length raw = 2 \<and> is_bytes raw then ret (from_be raw)
       else raise (Exn Exception ''struct.error''))"

definition ina_wr :: "'w hw \<Rightarrow> ina226 \<Rightarrow> int \<Rightarrow> int \<Rightarrow> ('w, unit) io" where
  "ina_wr hw d reg v =
     hw_i2c_write_block hw (ina_addr d) reg [drop_bit 8 v AND 0xFF, v AND 0xFF]"

definition ina_configure :: "'w hw \<Rightarrow> ina226 \<Rightarrow> ('w, unit) io" where
  "ina_configure hw d =
     bind (ina_wr hw d 0x00 0x4527) (\<lambda>_.
       let cal = \<lfloor>(512 / 100000) / (ina_current_lsb d * ina_shunt d)\<rfloor>
       in ina_wr hw d 0x05 (cal AND 0x7FFF))"

definition ina_new :: "'w hw \<Rightarrow> int \<Rightarrow> rat \<Rightarrow> rat \<Rightarrow> ('w, ina226) io" where
  "ina_new hw addr shunt max_a =
     (let d = \<lparr>ina_addr = addr, ina_shunt = shunt, ina_current_lsb = max_a / 32768\<rparr>
      in bind (try_except (ina_configure hw d) is_os_error (\<lambda>_. ret ())) (\<lambda>_. ret d))"

definition ina_read_manufacturer_id :: "'w hw \<Rightarrow> ina226 \<Rightarrow> ('w, int) io" where
  "ina_read_manufacturer_id hw d = ina_rd hw d 0xFE"

definition ina_read_die_id :: "'w hw \<Rightarrow> ina226 \<Rightarrow> ('w, int) io" where
  "ina_read_die_id hw d = ina_rd hw d 0xFF"

definition ina_is_present :: "'w hw \<Rightarrow> ina226 \<Rightarrow> ('w, bool) io" where
  "ina_is_present hw d =
     try_except
       (bind (ina_read_manufacturer_id hw d) (\<lambda>m.
          if m = 0x5449 then bind (ina_read_die_id hw d) (\<lambda>i. ret (i = 0x2260)) else ret False))
       is_os_error (\<lambda>_. ret False)"

definition ina_signed :: "int \<Rightarrow> int" where
  "ina_signed raw = (if 0x7FFF < raw then raw - 0x10000 else raw)"

definition ina_bus_voltage :: "'w hw \<Rightarrow> ina226 \<Rightarrow> ('w, rat) io" where
  "ina_bus_voltage hw d = bind (ina_rd hw d 0x02) (\<lambda>raw. ret (of_int raw * (125 / 100000)))"

definition ina_shunt_voltage :: "'w hw \<Rightarrow> ina226 \<Rightarrow> ('w, rat) io" where
  "ina_shunt_voltage hw d =
     bind (ina_rd hw d 0x01) (\<lambda>raw. ret (of_int (ina_signed raw) * (25 / 10000000)))"

definition ina_current :: "'w hw \<Rightarrow> ina226 \<Rightarrow> ('w, rat) io" where
  "ina_current hw d = bind (ina_rd hw d 0x04) (\<lambda>raw. ret (of_int (ina_signed raw) * ina_current_lsb d))"

definition ina_power :: "'w hw \<Rightarrow> ina226 \<Rightarrow> ('w, rat) io" where
  "ina_power hw d = bind (ina_rd hw d 0x03) (\<lambda>raw. ret (of_int raw * 25 * ina_current_lsb d))"

record ina_snapshot =
  isn_bus_voltage_V :: rat
  isn_shunt_voltage_V :: rat
  isn_current_A :: rat
  isn_power_W :: rat

definition ina_take_snapshot :: "'w hw \<Rightarrow> ina226 \<Rightarrow> ('w, ina_snapshot) io" where
  "ina_take_snapshot hw d =
     bind (ina_bus_voltage hw d) (\<lambda>v. bind (ina_shunt_voltage hw d) (\<lambda>s.
     bind (ina_current hw d) (\<lambda>c. bind (ina_power hw d) (\<lambda>p.
       ret \<lparr>isn_bus_voltage_V = v, isn_shunt_voltage_V = s, isn_current_A = c, isn_power_W = p\<rparr>))))"

section \<open>The expander chip, and its output latches as a bank of pins\<close>

text \<open>The documented behaviour of the expanders at the addresses \<open>A\<close>: a register reads as its latch, and
  a byte written to an output or configuration register replaces that latch only. The input
  registers follow the pins and are not constrained.\<close>

definition tca_chip :: "'w hw \<Rightarrow> ('w \<Rightarrow> int \<Rightarrow> int \<Rightarrow> int) \<Rightarrow> int set \<Rightarrow> bool" where
  "tca_chip hw regs A \<longleftrightarrow>
     (\<forall>w. \<forall>a\<in>A. \<forall>r\<in>{2, 3, 6, 7}. is_byte (regs w a r) \<and> hw_i2c_read hw a r w = (Inr (regs w a r), w)) \<and>
     (\<forall>w. \<forall>a\<in>A. \<forall>r\<in>{2, 3, 6, 7}. \<forall>v. is_byte v \<longrightarrow>
        fst (hw_i2c_write hw a r v w) = Inr () \<and>
        (\<forall>a'\<in>A. \<forall>r'\<in>{2, 3, 6, 7}. regs (snd (hw_i2c_write hw a r v w)) a' r' =
           (if a' = a \<and> r' = r then v else regs w a' r')))"

definition tca_latch :: "('w \<Rightarrow> int \<Rightarrow> int \<Rightarrow> int) \<Rightarrow> 'w \<Rightarrow> int \<times> int \<Rightarrow> int" where
  "tca_latch regs w = (\<lambda>(a, p). regs w a (if p = 0 then 2 else 3))"

lemma bit_byte_and: "k < 8 \<Longrightarrow> bit ((x::int) AND 255) k = bit x k"
  using bit_take_bit_iff [of 8 x k] by (simp add: and_mask_255 take_bit_eq_mod)

lemma bit_255: "k < 8 \<Longrightarrow> bit (255::int) k"
  using bit_byte_and [of k "- 1"] by simp

lemma tca_write_pin_run:
  assumes "tca_chip hw regs A" "a \<in> A" "p \<in> {0, 1}"
  shows "tca_write_pin hw a p (int k) v w =
     hw_i2c_write hw a (if p = 0 then 2 else 3)
       ((if v then tca_latch regs w (a, p) OR push_bit k 1
         else tca_latch regs w (a, p) AND NOT (push_bit k 1)) AND 255) w"
  using assms by (auto simp: tca_write_pin_def tca_rd_def tca_wr_def tca_chip_def io_simps shift_one_def
      tca_latch_def Let_def)

lemma tca_write_pin_latch:
  assumes "tca_chip hw regs A" "a \<in> A" "p \<in> {0, 1}" "a' \<in> A" "p' \<in> {0, 1}"
  shows "fst (tca_write_pin hw a p (int k) v w) = Inr () \<and>
     tca_latch regs (snd (tca_write_pin hw a p (int k) v w)) (a', p') =
       (if a' = a \<and> p' = p
        then (if v then tca_latch regs w (a, p) OR push_bit k 1
              else tca_latch regs w (a, p) AND NOT (push_bit k 1)) AND 255
        else tca_latch regs w (a', p'))"
proof -
  have "is_byte ((if v then tca_latch regs w (a, p) OR push_bit k 1
         else tca_latch regs w (a, p) AND NOT (push_bit k 1)) AND 255)"
    by (simp add: and_mask_255)
  with assms show ?thesis
    unfolding tca_write_pin_run [OF assms(1-3)] by (auto simp: tca_chip_def tca_latch_def)
qed

lemma tca_pin_bank:
  assumes "tca_chip hw regs A"
  shows "pin_bank (tca_latch regs) (\<lambda>(a, p) k v w. snd (tca_write_pin hw a p (int k) v w))
           (\<lambda>w. True) (A \<times> {0, 1})"
proof
  fix w v and i i' :: "int \<times> int" and k k' :: nat
  assume "i \<in> A \<times> {0, 1}" "i' \<in> A \<times> {0, 1}" "k < 8" "k' < 8"
  then show "bit (tca_latch regs ((\<lambda>(a, p) k v w. snd (tca_write_pin hw a p (int k) v w)) i k v w) i') k' =
      (if i' = i \<and> k' = k then v else bit (tca_latch regs w i') k')"
    using tca_write_pin_latch [OF assms, of "fst i" "snd i" "fst i'" "snd i'" k v w]
    by (cases i; cases i') (auto simp: bit_255 bit_simps)
qed simp

text \<open>on expanders that latch what is written to them, driving a sequence of pins leaves every output
  pin of both ports at the last value written to it, and all pins that were not written unchanged.\<close>

theorem tca_pins_last_write:
  assumes "tca_chip hw regs A" "\<forall>((a, p), k, v)\<in>set ws. a \<in> A \<and> p \<in> {0, 1} \<and> k < 8"
    and "a \<in> A" "p \<in> {0, 1}" "k < 8"
  shows "bit (tca_latch regs (foldl (\<lambda>w ((a, p), k, v). snd (tca_write_pin hw a p (int k) v w)) w ws) (a, p)) k =
     (case last_write ws (a, p) k of Some b \<Rightarrow> b | None \<Rightarrow> bit (tca_latch regs w (a, p)) k)"
proof -
  let ?wr = "\<lambda>(a, p) k v w. snd (tca_write_pin hw a p (int k) v w)"
  have ws: "pin_bank.valid_writes (A \<times> {0, 1}) ws"
    unfolding pin_bank.valid_writes_def [OF tca_pin_bank [OF assms(1)]] using assms(2) by fastforce
  have "pin_bank.writes ?wr ws w = foldl (\<lambda>w ((a, p), k, v). snd (tca_write_pin hw a p (int k) v w)) w ws"
    unfolding pin_bank.writes_def [OF tca_pin_bank [OF assms(1)]]
    by (rule foldl_cong) auto
  with pin_bank.writes_bit [OF tca_pin_bank [OF assms(1)], where s = w and ws = ws and i = "(a, p)" and k = k]
    ws assms show ?thesis by simp
qed

text \<open>A chip for the witnesses: registers as a function, written and read as they are.\<close>

definition sim_hw :: "(int \<Rightarrow> int \<Rightarrow> int) hw" where
  "sim_hw = null_hw\<lparr>hw_i2c_read := \<lambda>a r w. (Inr (w a r mod 256), w),
                    hw_i2c_write := \<lambda>a r v. modify (\<lambda>w. w(a := (w a)(r := v)))\<rparr>"

lemma sim_chip: "tca_chip sim_hw (\<lambda>w a r. w a r mod 256) A"
  by (auto simp: tca_chip_def sim_hw_def io_simps is_byte_def)

theorem tca_pins_last_write_witness:
  "bit (tca_latch (\<lambda>w a r. w a r mod 256) (foldl (\<lambda>w ((a, p), k, v). snd (tca_write_pin sim_hw a p (int k) v w))
     (\<lambda>_ _. 255) [((32, 1), 4, False), ((32, 1), 7, False), ((32, 1), 4, True)]) (32, 1)) 4 = True"
  using tca_pins_last_write [OF sim_chip [of "{32}"], of "[((32, 1), 4, False), ((32, 1), 7, False), ((32, 1), 4, True)]" 32 1 4 "\<lambda>_ _. 255"]
  by simp

section \<open>The power monitor\<close>

lemma ina_signed_range: "0 \<le> raw \<Longrightarrow> raw < 65536 \<Longrightarrow> - 32768 \<le> ina_signed raw \<and> ina_signed raw < 32768"
  by (auto simp: ina_signed_def)

text \<open>whatever two bytes the monitor returns, the current read from it is the signed 16-bit register
  times the scale, so its magnitude never exceeds the maximum current the monitor was set up for.\<close>

theorem ina_current_bounded:
  assumes "hw_i2c_read_block hw addr 4 2 w = (Inr [hi, lo], w')" "is_byte hi" "is_byte lo" "0 \<le> max_a"
  shows "\<exists>c. ina_current hw \<lparr>ina_addr = addr, ina_shunt = shunt, ina_current_lsb = max_a / 32768\<rparr> w = (Inr c, w') \<and>
     c = of_int (signed 16 (256 * hi + lo)) * (max_a / 32768) \<and> \<bar>c\<bar> \<le> max_a"
proof -
  let ?raw = "256 * hi + lo"
  have raw: "0 \<le> ?raw" "?raw < 65536" using assms(2,3) by (auto simp: is_byte_def)
  have s: "ina_signed ?raw = signed 16 ?raw" by (simp add: ina_signed_def signed_def)
  have abs: "\<bar>of_int (ina_signed ?raw) * (max_a / 32768)\<bar> \<le> max_a"
  proof -
    have "\<bar>of_int (ina_signed ?raw)\<bar> \<le> (32768 :: rat)"
      using ina_signed_range [OF raw] by (simp add: abs_le_iff)
    then have "\<bar>of_int (ina_signed ?raw)\<bar> * (max_a / 32768) \<le> 32768 * (max_a / 32768)"
      using assms(4) by (intro mult_right_mono) auto
    then show ?thesis using assms(4) by (simp add: abs_mult)
  qed
  have "from_be [hi, lo] = ?raw" by (simp add: from_be_def)
  with assms(1-3)
  have run: "ina_current hw \<lparr>ina_addr = addr, ina_shunt = shunt, ina_current_lsb = max_a / 32768\<rparr> w =
      (Inr (of_int (ina_signed ?raw) * (max_a / 32768)), w')"
    by (simp add: ina_current_def ina_rd_def io_simps)
  show ?thesis unfolding run s [symmetric] using abs by blast
qed

theorem ina_current_bounded_witness:
  "\<exists>c. ina_current (sim_hw\<lparr>hw_i2c_read_block := \<lambda>a r n. ret [255, 254]\<rparr>)
     \<lparr>ina_addr = 64, ina_shunt = 1 / 100, ina_current_lsb = 3 / 32768\<rparr> (\<lambda>_ _. 0) = (Inr c, \<lambda>_ _. 0) \<and> \<bar>c\<bar> \<le> 3"
  using ina_current_bounded [of "sim_hw\<lparr>hw_i2c_read_block := \<lambda>a r n. ret [255, 254]\<rparr>" 64 "\<lambda>_ _. 0" 255 254
      "\<lambda>_ _. 0" 3 "1 / 100"]
  by (auto simp: io_simps is_byte_def)

end
