(* ===== verification/Spi_Drivers.thy ===== *)
theory Spi_Drivers
  imports Hw_Bus
begin

text \<open>
  The drivers on the SPI bus: \<^verbatim>\<open>tools/mcp3208.py\<close> (ADC), \<^verbatim>\<open>tools/dac80504.py\<close> (DAC),
  \<^verbatim>\<open>tools/nrf24l01.py\<close> (radio) and \<^verbatim>\<open>tools/mcp2515.py\<close> (CAN controller, register level). A response is a
  list of bytes indexed as in Python, so a short one raises. Voltages are rationals.
\<close>

section \<open>MCP3208\<close>

definition vref :: rat where "vref = 33 / 10"

definition adc_cmd :: "int \<Rightarrow> bool \<Rightarrow> int list" where
  "adc_cmd channel differential =
     (let sgl = (if differential then 0 else 1)
      in [0x04 OR push_bit 1 sgl OR (drop_bit 2 channel AND 0x01), push_bit 6 (channel AND 0x03), 0x00])"

definition adc_value :: "int \<Rightarrow> int \<Rightarrow> int" where
  "adc_value r1 r2 = push_bit 8 (r1 AND 0x0F) OR r2"

definition mcp3208_read_raw :: "'w hw \<Rightarrow> spi_dev \<Rightarrow> int \<Rightarrow> bool \<Rightarrow> ('w, int) io" where
  "mcp3208_read_raw hw d channel differential =
     (if channel < 0 \<or> 7 < channel
      then raise (Exn ValueError (''Channel must be 0-7, got '' @ show_int channel))
      else bind (plain_xfer hw d (adc_cmd channel differential)) (\<lambda>resp.
           bind (of_res (py_nth resp 1)) (\<lambda>r1. bind (of_res (py_nth resp 2)) (\<lambda>r2.
             ret (adc_value r1 r2)))))"

definition mcp3208_read_voltage :: "'w hw \<Rightarrow> spi_dev \<Rightarrow> int \<Rightarrow> ('w, rat) io" where
  "mcp3208_read_voltage hw d channel =
     bind (mcp3208_read_raw hw d channel False) (\<lambda>raw. ret (of_int raw / 4095 * vref))"

definition mcp3208_read_all :: "'w hw \<Rightarrow> spi_dev \<Rightarrow> ('w, int list) io" where
  "mcp3208_read_all hw d = map_io (\<lambda>ch. mcp3208_read_raw hw d ch False) [0..7]"

section \<open>DAC80504\<close>

text \<open>With a userspace chip select the transfer also switches the bus to SPI mode 1 and back.\<close>

definition dac_xfer :: "'w hw \<Rightarrow> spi_dev \<Rightarrow> int list \<Rightarrow> ('w, int list) io" where
  "dac_xfer hw d pkt =
     (case sd_cs d of
        None \<Rightarrow> hw_xfer2 hw (sd_handle d) pkt
      | Some cs \<Rightarrow>
          bind (hw_get_mode hw (sd_handle d)) (\<lambda>old.
          bind (hw_set_mode hw (sd_handle d) 1) (\<lambda>_.
          bind (hw_gpio_out hw cs False) (\<lambda>_.
          bind (hw_xfer2 hw (sd_handle d) pkt) (\<lambda>resp.
          bind (hw_gpio_out hw cs True) (\<lambda>_.
          bind (hw_set_mode hw (sd_handle d) old) (\<lambda>_. ret resp)))))))"

definition dac_write_reg :: "'w hw \<Rightarrow> spi_dev \<Rightarrow> int \<Rightarrow> int \<Rightarrow> ('w, unit) io" where
  "dac_write_reg hw d addr data =
     bind (dac_xfer hw d [addr AND 0x0F, drop_bit 8 data AND 0xFF, data AND 0xFF]) (\<lambda>_. ret ())"

definition dac_read_reg :: "'w hw \<Rightarrow> spi_dev \<Rightarrow> int \<Rightarrow> ('w, int) io" where
  "dac_read_reg hw d addr =
     bind (dac_xfer hw d [0x80 OR (addr AND 0x0F), 0x00, 0x00]) (\<lambda>_.
     bind (dac_xfer hw d [0x00, 0x00, 0x00]) (\<lambda>resp.
     bind (of_res (py_nth resp 1)) (\<lambda>r1. bind (of_res (py_nth resp 2)) (\<lambda>r2.
       ret (push_bit 8 r1 OR r2)))))"

definition DAC_REGS :: "int list" where "DAC_REGS = [0x08, 0x09, 0x0A, 0x0B]"

definition dac_new :: "'w hw \<Rightarrow> spi_dev \<Rightarrow> ('w, spi_dev) io" where
  "dac_new hw d =
     bind (dac_write_reg hw d 0x03 0x0100) (\<lambda>_.
     bind (dac_write_reg hw d 0x02 0x0000) (\<lambda>_.
     bind (dac_write_reg hw d 0x04 0x010F) (\<lambda>_. ret d)))"

definition dac_read_device_id :: "'w hw \<Rightarrow> spi_dev \<Rightarrow> ('w, int) io" where
  "dac_read_device_id hw d = bind (dac_read_reg hw d 0x01) (\<lambda>v. ret (v AND 0x3FFF))"

definition dac_reset :: "'w hw \<Rightarrow> spi_dev \<Rightarrow> ('w, unit) io" where
  "dac_reset hw d = dac_write_reg hw d 0x05 0x000A"

definition dac_code :: "rat \<Rightarrow> int" where
  "dac_code voltage = (let v = max 0 (min voltage vref) in \<lfloor>v / vref * 65535\<rfloor>)"

definition dac_set_voltage :: "'w hw \<Rightarrow> spi_dev \<Rightarrow> int \<Rightarrow> rat \<Rightarrow> ('w, unit) io" where
  "dac_set_voltage hw d channel voltage =
     (if channel < 0 \<or> 3 < channel
      then raise (Exn ValueError (''Channel must be 0-3, got '' @ show_int channel))
      else bind (of_res (py_nth DAC_REGS channel)) (\<lambda>r. dac_write_reg hw d r (dac_code voltage)))"

definition dac_set_all :: "'w hw \<Rightarrow> spi_dev \<Rightarrow> rat \<Rightarrow> ('w, unit) io" where
  "dac_set_all hw d voltage = for_each (\<lambda>ch. dac_set_voltage hw d ch voltage) [0..3]"

definition dac_zero_all :: "'w hw \<Rightarrow> spi_dev \<Rightarrow> ('w, unit) io" where
  "dac_zero_all hw d = dac_set_all hw d 0"

definition dac_get_voltage :: "'w hw \<Rightarrow> spi_dev \<Rightarrow> int \<Rightarrow> ('w, rat) io" where
  "dac_get_voltage hw d channel =
     (if channel < 0 \<or> 3 < channel
      then raise (Exn ValueError (''Channel must be 0-3, got '' @ show_int channel))
      else bind (of_res (py_nth DAC_REGS channel)) (\<lambda>r.
           bind (dac_read_reg hw d r) (\<lambda>raw. ret (of_int raw / 65535 * vref))))"

section \<open>nRF24L01+\<close>

definition nrf_new :: "'w hw \<Rightarrow> spi_dev \<Rightarrow> int \<Rightarrow> ('w, spi_dev) io" where
  "nrf_new hw d ce = bind (hw_gpio_out hw ce False) (\<lambda>_. ret d)"

definition nrf_read_reg :: "'w hw \<Rightarrow> spi_dev \<Rightarrow> int \<Rightarrow> ('w, int) io" where
  "nrf_read_reg hw d addr =
     bind (safe_xfer hw d [0x00 OR (addr AND 0x1F), 0xFF]) (\<lambda>resp. of_res (py_nth resp 1))"

definition nrf_write_reg :: "'w hw \<Rightarrow> spi_dev \<Rightarrow> int \<Rightarrow> int \<Rightarrow> ('w, unit) io" where
  "nrf_write_reg hw d addr v =
     bind (safe_xfer hw d [0x20 OR (addr AND 0x1F), v AND 0xFF]) (\<lambda>_. ret ())"

definition nrf_nop :: "'w hw \<Rightarrow> spi_dev \<Rightarrow> ('w, int) io" where
  "nrf_nop hw d = bind (safe_xfer hw d [0xFF]) (\<lambda>resp. of_res (py_nth resp 0))"

definition nrf_is_present :: "'w hw \<Rightarrow> spi_dev \<Rightarrow> ('w, bool) io" where
  "nrf_is_present hw d =
     try_except
       (bind (nrf_write_reg hw d 0x05 0x4C) (\<lambda>_.
        bind (hw_sleep hw (1 / 1000)) (\<lambda>_.
        bind (nrf_read_reg hw d 0x05) (\<lambda>v. ret (v = 0x4C)))))
       is_exception (\<lambda>_. ret False)"

definition nrf_power_up :: "'w hw \<Rightarrow> spi_dev \<Rightarrow> ('w, unit) io" where
  "nrf_power_up hw d =
     bind (nrf_read_reg hw d 0x00) (\<lambda>cfg.
     bind (nrf_write_reg hw d 0x00 (cfg OR 0x02)) (\<lambda>_. hw_sleep hw (2 / 1000)))"

definition nrf_power_down :: "'w hw \<Rightarrow> spi_dev \<Rightarrow> ('w, unit) io" where
  "nrf_power_down hw d =
     bind (nrf_read_reg hw d 0x00) (\<lambda>cfg. nrf_write_reg hw d 0x00 (cfg AND NOT 0x02))"

definition nrf_set_channel :: "'w hw \<Rightarrow> spi_dev \<Rightarrow> int \<Rightarrow> ('w, unit) io" where
  "nrf_set_channel hw d ch = nrf_write_reg hw d 0x05 (ch AND 0x7F)"

definition nrf_get_channel :: "'w hw \<Rightarrow> spi_dev \<Rightarrow> ('w, int) io" where
  "nrf_get_channel hw d = bind (nrf_read_reg hw d 0x05) (\<lambda>v. ret (v AND 0x7F))"

record fifo_status =
  ff_tx_reuse :: bool
  ff_tx_full :: bool
  ff_tx_empty :: bool
  ff_rx_full :: bool
  ff_rx_empty :: bool

definition nrf_fifo_status :: "'w hw \<Rightarrow> spi_dev \<Rightarrow> ('w, fifo_status) io" where
  "nrf_fifo_status hw d =
     bind (nrf_read_reg hw d 0x17) (\<lambda>raw.
       ret \<lparr>ff_tx_reuse = (raw AND 0x40 \<noteq> 0), ff_tx_full = (raw AND 0x20 \<noteq> 0),
            ff_tx_empty = (raw AND 0x10 \<noteq> 0), ff_rx_full = (raw AND 0x02 \<noteq> 0),
            ff_rx_empty = (raw AND 0x01 \<noteq> 0)\<rparr>)"

section \<open>MCP2515\<close>

text \<open>The deadline loops take fuel \<open>n\<close>; running out of it is the value None.\<close>

definition mcp_read_reg :: "'w hw \<Rightarrow> spi_dev \<Rightarrow> int \<Rightarrow> ('w, int) io" where
  "mcp_read_reg hw d addr = bind (plain_xfer hw d [0x03, addr, 0x00]) (\<lambda>resp. of_res (py_nth resp 2))"

definition mcp_write_reg :: "'w hw \<Rightarrow> spi_dev \<Rightarrow> int \<Rightarrow> int \<Rightarrow> ('w, unit) io" where
  "mcp_write_reg hw d addr data = bind (plain_xfer hw d [0x02, addr, data AND 0xFF]) (\<lambda>_. ret ())"

definition mcp_bit_modify :: "'w hw \<Rightarrow> spi_dev \<Rightarrow> int \<Rightarrow> int \<Rightarrow> int \<Rightarrow> ('w, unit) io" where
  "mcp_bit_modify hw d addr msk data =
     bind (plain_xfer hw d [0x05, addr, msk AND 0xFF, data AND 0xFF]) (\<lambda>_. ret ())"

definition mcp_reset :: "'w hw \<Rightarrow> spi_dev \<Rightarrow> ('w, unit) io" where
  "mcp_reset hw d = bind (plain_xfer hw d [0xC0]) (\<lambda>_. hw_sleep hw (1 / 100))"

definition mcp_get_mode :: "'w hw \<Rightarrow> spi_dev \<Rightarrow> ('w, int) io" where
  "mcp_get_mode hw d = bind (mcp_read_reg hw d 0x0E) (\<lambda>v. ret (v AND 0xE0))"

definition mcp_set_mode :: "'w hw \<Rightarrow> nat \<Rightarrow> spi_dev \<Rightarrow> int \<Rightarrow> rat \<Rightarrow> ('w, bool option) io" where
  "mcp_set_mode hw n d mode timeout =
     bind (mcp_get_mode hw d) (\<lambda>m.
     bind (if m = 0x20 then bind (mcp_reset hw d) (\<lambda>_. ret (mode = 0x80)) else ret False) (\<lambda>done'.
       if done' then ret (Some True)
       else bind (mcp_bit_modify hw d 0x0F 0xE0 mode) (\<lambda>_.
            bind (hw_time hw) (\<lambda>t.
              poll n (hw_time hw) (t + timeout)
                (bind (mcp_get_mode hw d) (\<lambda>m'. ret (m' = mode))) (hw_sleep hw (1 / 1000))))))"

definition bitrate_config :: "(int \<times> int \<times> int \<times> int) list" where
  "bitrate_config =
     [(125000, 0x03, 0xF0, 0x86), (250000, 0x01, 0xF0, 0x86), (500000, 0x00, 0xF0, 0x86),
      (1000000, 0x00, 0xD0, 0x82)]"

definition mcp_configure_bitrate :: "'w hw \<Rightarrow> spi_dev \<Rightarrow> int \<Rightarrow> ('w, unit) io" where
  "mcp_configure_bitrate hw d bitrate =
     (case map_of bitrate_config bitrate of
        None \<Rightarrow> raise (Exn ValueError (''Unsupported bitrate '' @ show_int bitrate))
      | Some (cnf1, cnf2, cnf3) \<Rightarrow>
          bind (mcp_write_reg hw d 0x2A cnf1) (\<lambda>_.
          bind (mcp_write_reg hw d 0x29 cnf2) (\<lambda>_. mcp_write_reg hw d 0x28 cnf3)))"

definition mcp_init :: "'w hw \<Rightarrow> spi_dev \<Rightarrow> int \<Rightarrow> ('w, bool) io" where
  "mcp_init hw d bitrate =
     bind (mcp_reset hw d) (\<lambda>_.
     bind (mcp_get_mode hw d) (\<lambda>m.
       if m \<noteq> 0x80 then ret False
       else bind (mcp_configure_bitrate hw d bitrate) (\<lambda>_.
            bind (mcp_write_reg hw d 0x60 0x60) (\<lambda>_. ret True))))"

text \<open>The receive side of the self test: identifier, length, then the bytes, stopping at a mismatch.\<close>

primrec mcp_check_bytes :: "'w hw \<Rightarrow> spi_dev \<Rightarrow> int \<Rightarrow> int list \<Rightarrow> ('w, bool) io" where
  "mcp_check_bytes hw d reg [] = ret True"
| "mcp_check_bytes hw d reg (b # bs) =
     bind (mcp_read_reg hw d reg) (\<lambda>v. if v \<noteq> b then ret False else mcp_check_bytes hw d (reg + 1) bs)"

definition mcp_verify_rx :: "'w hw \<Rightarrow> spi_dev \<Rightarrow> int \<Rightarrow> int list \<Rightarrow> ('w, bool) io" where
  "mcp_verify_rx hw d can_id data =
     bind (mcp_read_reg hw d 0x61) (\<lambda>sidh. bind (mcp_read_reg hw d 0x62) (\<lambda>sidl.
       if push_bit 3 sidh OR (drop_bit 5 sidl AND 0x07) \<noteq> can_id then ret False
       else bind (mcp_read_reg hw d 0x65) (\<lambda>dlc.
         if dlc AND 0x0F \<noteq> int (length data) AND 0x0F then ret False
         else bind (mcp_check_bytes hw d 0x66 data) (\<lambda>ok.
           if ok then bind (mcp_bit_modify hw d 0x2C 0x01 0x00) (\<lambda>_. ret True) else ret False))))"

definition mcp_loopback_test :: "'w hw \<Rightarrow> nat \<Rightarrow> spi_dev \<Rightarrow> int \<Rightarrow> int list \<Rightarrow> ('w, bool option) io" where
  "mcp_loopback_test hw n d can_id data =
     bind (mcp_set_mode hw n d 0x40 (1 / 10)) (\<lambda>ok.
     case ok of
       None \<Rightarrow> ret None
     | Some False \<Rightarrow> ret (Some False)
     | Some True \<Rightarrow>
         bind (mcp_write_reg hw d 0x31 (drop_bit 3 can_id AND 0xFF)) (\<lambda>_.
         bind (mcp_write_reg hw d 0x32 (push_bit 5 (can_id AND 0x07))) (\<lambda>_.
         bind (mcp_write_reg hw d 0x35 (int (length data) AND 0x0F)) (\<lambda>_.
         bind (for_each (\<lambda>(i, b). mcp_write_reg hw d (0x36 + int i) b) (enumerate 0 data)) (\<lambda>_.
         bind (mcp_bit_modify hw d 0x2C 0x01 0x00) (\<lambda>_.
         bind (plain_xfer hw d [0x80 OR 0x01]) (\<lambda>_.
         bind (hw_time hw) (\<lambda>t.
         bind (poll n (hw_time hw) (t + 1 / 10)
                (bind (mcp_read_reg hw d 0x2C) (\<lambda>v. ret (v AND 0x01 \<noteq> 0))) (hw_sleep hw (1 / 1000)))
           (\<lambda>rx. case rx of
              None \<Rightarrow> ret None
            | Some False \<Rightarrow> ret (Some False)
            | Some True \<Rightarrow> bind (mcp_verify_rx hw d can_id data) (\<lambda>r. ret (Some r)))))))))))"

definition mcp_read_error_counters :: "'w hw \<Rightarrow> spi_dev \<Rightarrow> ('w, int \<times> int) io" where
  "mcp_read_error_counters hw d =
     bind (mcp_read_reg hw d 0x1C) (\<lambda>t. bind (mcp_read_reg hw d 0x1D) (\<lambda>r. ret (t, r)))"

section \<open>The converters\<close>

text \<open>an ADC reading is the 12-bit number in the last two bytes of the response, whatever the chip
  clocked out around it, so it lies between 0 and 4095.\<close>

theorem adc_reading:
  assumes "sd_cs d = None"
    "hw_xfer2 hw (sd_handle d) [if channel < 4 then 6 else 7, channel mod 4 * 64, 0] w = (Inr [x, hi, lo], w')"
    "is_byte lo" "0 \<le> channel" "channel < 8"
  shows "mcp3208_read_raw hw d channel False w = (Inr (hi mod 16 * 256 + lo), w') \<and>
     0 \<le> hi mod 16 * 256 + lo \<and> hi mod 16 * 256 + lo \<le> 4095"
proof -
  have "channel \<in> {0, 1, 2, 3, 4, 5, 6, 7}" using assms(4,5) by auto
  then have cmd: "adc_cmd channel False = [if channel < 4 then 6 else 7, channel mod 4 * 64, 0]"
    by (auto simp: adc_cmd_def)
  have hi: "0 \<le> hi mod 16" "hi mod 16 \<le> 15" by simp_all
  with assms(3) have "0 \<le> hi mod 16 * 256 + lo" "hi mod 16 * 256 + lo \<le> 4095"
    by (auto simp: is_byte_def)
  moreover have "adc_value hi lo = hi mod 16 * 256 + lo"
    using assms(3) byte_or [of lo "hi mod 16"] by (simp add: adc_value_def and_mask_15 push_bit_eq_mult)
  ultimately show ?thesis
    using assms(1,2,4,5) by (simp add: mcp3208_read_raw_def io_simps plain_xfer_def cmd py_nth_nonneg)
qed

theorem adc_reading_witness:
  "mcp3208_read_raw (null_hw\<lparr>hw_xfer2 := \<lambda>h pkt. ret [255, 250, 17]\<rparr>) \<lparr>sd_handle = 8, sd_cs = None\<rparr> 5 False ()
     = (Inr 2577, ())"
  using adc_reading [of "\<lparr>sd_handle = 8, sd_cs = None\<rparr>" "null_hw\<lparr>hw_xfer2 := \<lambda>h pkt. ret [255, 250, 17]\<rparr>" 5
      "()" 255 250 17 "()"]
  by (simp add: io_simps is_byte_def)

section \<open>The DAC as a register file with a pipelined read\<close>

text \<open>The documented protocol of the chip: a frame with the read bit clear replaces the addressed register
  (all addresses but 0, which does nothing), a frame with the bit set makes the next response carry
  the register; the chip's other answers are not constrained.\<close>

definition dac_chip :: "'w hw \<Rightarrow> nat \<Rightarrow> ('w \<Rightarrow> int \<Rightarrow> int) \<Rightarrow> ('w \<Rightarrow> int option) \<Rightarrow> bool" where
  "dac_chip hw h regs pend \<longleftrightarrow>
     (\<forall>w hdr hi lo. is_byte hdr \<and> is_byte hi \<and> is_byte lo \<longrightarrow>
        (\<exists>x r1 r2 w'. hw_xfer2 hw h [hdr, hi, lo] w = (Inr [x, r1, r2], w') \<and>
           (\<forall>a. pend w = Some a \<longrightarrow> 256 * r1 + r2 = regs w a \<and> is_byte r1 \<and> is_byte r2) \<and>
           (if hdr < 128 then pend w' = None \<and>
              regs w' = (if hdr mod 16 = 0 then regs w else (regs w)(hdr mod 16 := 256 * hi + lo))
            else pend w' = Some (hdr mod 16) \<and> regs w' = regs w)))"

lemma dac_code_range: "0 \<le> dac_code v \<and> dac_code v \<le> 65535"
proof -
  have "0 \<le> max 0 (min v vref) / vref * 65535" by (simp add: vref_def)
  moreover have "max 0 (min v vref) / vref * 65535 \<le> 65535"
    by (simp add: vref_def max_def min_def)
  ultimately show ?thesis
    unfolding dac_code_def Let_def by (simp add: floor_le_iff)
qed

lemma header_byte: "a \<in> {0..15} \<Longrightarrow> (128 OR a) = 128 + (a::int)"
  using or_concat [of a 4 8] by simp

lemma dac_reg_write:
  assumes "dac_chip hw h regs pend" "0 < a" "a < 16" "0 \<le> v" "v < 65536"
  shows "\<exists>w'. dac_write_reg hw \<lparr>sd_handle = h, sd_cs = None\<rparr> a v w = (Inr (), w') \<and>
     regs w' = (regs w)(a := v)"
proof -
  have b: "is_byte a" "is_byte (v div 256)" "is_byte (v mod 256)"
    using assms(2-5) by (auto simp: is_byte_def)
  have am: "a mod 16 = a" using assms(2,3) by simp
  have "256 * (v div 256) + v mod 256 = v" by simp
  moreover have "\<exists>x r1 r2 w'. hw_xfer2 hw h [a, v div 256, v mod 256] w = (Inr [x, r1, r2], w') \<and>
      (if a < 128 then pend w' = None \<and>
         regs w' = (if a mod 16 = 0 then regs w else (regs w)(a mod 16 := 256 * (v div 256) + v mod 256))
       else pend w' = Some (a mod 16) \<and> regs w' = regs w)"
    using assms(1) b unfolding dac_chip_def by blast
  ultimately obtain x r1 r2 w' where
    "hw_xfer2 hw h [a, v div 256, v mod 256] w = (Inr [x, r1, r2], w')" "regs w' = (regs w)(a := v)"
    using am assms(2,3) by auto
  then show ?thesis
    using b by (simp add: dac_write_reg_def dac_xfer_def io_simps and_mask_15 am and_mask_255 drop_bit_eq_div is_byte_def)
qed

lemma dac_reg_read:
  assumes "dac_chip hw h regs pend" "0 \<le> a" "a < 16"
  shows "\<exists>w'. dac_read_reg hw \<lparr>sd_handle = h, sd_cs = None\<rparr> a w = (Inr (regs w a), w') \<and> regs w' = regs w"
proof -
  have b: "is_byte (128 + a)" "(128 + a) mod 16 = a" "a mod 16 = a" "128 OR a = 128 + a"
    using assms(2,3) header_byte [of a] by (auto simp: is_byte_def int_mod_pos_eq [of "128 + a" 16 8 a])
  have "is_byte 0" by (simp add: is_byte_def)
  with assms(1) b(1) have "\<exists>x r1 r2 w'. hw_xfer2 hw h [128 + a, 0, 0] w = (Inr [x, r1, r2], w') \<and>
      (if 128 + a < 128 then pend w' = None \<and>
         regs w' = (if (128 + a) mod 16 = 0 then regs w else (regs w)((128 + a) mod 16 := 256 * 0 + 0))
       else pend w' = Some ((128 + a) mod 16) \<and> regs w' = regs w)"
    unfolding dac_chip_def by blast
  then have "\<exists>x r1 r2 w'. hw_xfer2 hw h [128 + a, 0, 0] w = (Inr [x, r1, r2], w') \<and>
      pend w' = Some a \<and> regs w' = regs w"
    using assms(2) b(2) by simp
  then obtain x r1 r2 w1 where 1: "hw_xfer2 hw h [128 + a, 0, 0] w = (Inr [x, r1, r2], w1)"
      "pend w1 = Some a" "regs w1 = regs w" by blast
  have "\<exists>x r1 r2 w'. hw_xfer2 hw h [0, 0, 0] w1 = (Inr [x, r1, r2], w') \<and>
      256 * r1 + r2 = regs w1 a \<and> is_byte r1 \<and> is_byte r2 \<and> regs w' = regs w1"
    using assms(1) 1(2) unfolding dac_chip_def
    by (elim allE [of _ w1] allE [of _ "0 :: int"] impE) (auto simp: is_byte_def)
  then obtain y s1 s2 w2 where 2: "hw_xfer2 hw h [0, 0, 0] w1 = (Inr [y, s1, s2], w2)"
      "256 * s1 + s2 = regs w1 a" "is_byte s1" "is_byte s2" "regs w2 = regs w1" by blast
  have "push_bit 8 s1 OR s2 = regs w a" using 2 1(3) by (simp add: bits_simps)
  with 1 2 b show ?thesis
    by (simp add: dac_read_reg_def dac_xfer_def io_simps and_mask_15 py_nth_nonneg)
qed

lemma dac_regs_nth: "0 \<le> ch \<Longrightarrow> ch \<le> 3 \<Longrightarrow> py_nth DAC_REGS ch = Inr (8 + ch)"
proof -
  assume "0 \<le> ch" "ch \<le> 3"
  then have "ch \<in> {0, 1, 2, 3}" by auto
  then show ?thesis by (auto simp: DAC_REGS_def py_nth_nonneg)
qed

lemma dac_code_error:
  "\<bar>of_int (dac_code v) / 65535 * vref - max 0 (min v vref)\<bar> \<le> vref / 65535"
proof -
  let ?c = "max 0 (min v vref)"
  have "of_int (dac_code v) \<le> ?c / vref * 65535" "?c / vref * 65535 < of_int (dac_code v) + 1"
    by (simp_all add: dac_code_def Let_def) linarith
  then show ?thesis by (simp add: vref_def abs_le_iff field_simps)
qed

text \<open>setting a channel of the DAC and reading it back gives the voltage clamped to 0 to 3.3 V, off by
  at most one code step, and leaves the other channels where they were.\<close>

theorem dac_set_get:
  assumes "dac_chip hw h regs pend" "0 \<le> ch" "ch \<le> 3" "0 \<le> ch'" "ch' \<le> 3"
    "dac_set_voltage hw \<lparr>sd_handle = h, sd_cs = None\<rparr> ch v w = (r, w1)"
    "dac_get_voltage hw \<lparr>sd_handle = h, sd_cs = None\<rparr> ch' w1 = (r', w2)"
  shows "r = Inr () \<and>
     r' = Inr (of_int (if ch' = ch then dac_code v else regs w (8 + ch')) / 65535 * vref) \<and>
     \<bar>of_int (dac_code v) / 65535 * vref - max 0 (min v vref)\<bar> \<le> vref / 65535"
proof -
  obtain w1' where 1: "dac_write_reg hw \<lparr>sd_handle = h, sd_cs = None\<rparr> (8 + ch) (dac_code v) w = (Inr (), w1')"
      "regs w1' = (regs w)(8 + ch := dac_code v)"
    using dac_reg_write [OF assms(1), of "8 + ch" "dac_code v" w] dac_code_range [of v] assms(2,3) by auto
  then have r: "r = Inr ()" "w1 = w1'"
    using assms(2,3,6) by (simp_all add: dac_set_voltage_def dac_regs_nth io_simps)
  obtain w2' where 2: "dac_read_reg hw \<lparr>sd_handle = h, sd_cs = None\<rparr> (8 + ch') w1 = (Inr (regs w1 (8 + ch')), w2')"
    using dac_reg_read [OF assms(1), of "8 + ch'" w1] assms(4,5) by auto
  then have "r' = Inr (of_int (regs w1 (8 + ch')) / 65535 * vref)"
    using assms(4,5,7) by (simp add: dac_get_voltage_def dac_regs_nth io_simps)
  with r 1(2) dac_code_error [of v] show ?thesis by (simp only: fun_upd_apply add_left_cancel)
qed

text \<open>A chip that follows the protocol, for the witness.\<close>

definition dac_sim :: "int list \<Rightarrow> ((int \<Rightarrow> int) \<times> int option, int list) io" where
  "dac_sim pkt = (\<lambda>(regs, pend).
     (Inr (case pend of None \<Rightarrow> [0, 0, 0] | Some a \<Rightarrow> [0, regs a mod 65536 div 256, regs a mod 256]),
      (if pkt ! 0 < 128
       then (if pkt ! 0 mod 16 = 0 then regs else regs(pkt ! 0 mod 16 := 256 * pkt ! 1 + pkt ! 2), None)
       else (regs, Some (pkt ! 0 mod 16)))))"

lemma dac_sim_chip:
  "dac_chip (null_hw\<lparr>hw_xfer2 := \<lambda>h. dac_sim\<rparr>) h (\<lambda>w a. fst w a mod 65536) snd"
proof -
  have "256 * (x mod 65536 div 256) + x mod 256 = x mod 65536" for x :: int
    using div_mult_mod_eq [of "x mod 65536" 256] by (simp add: mult.commute mod_mod_cancel)
  moreover have "is_byte (x mod 65536 div 256)" for x :: int
  proof -
    have "0 \<le> x mod 65536" "x mod 65536 < 65536" by simp_all
    then show ?thesis unfolding is_byte_def by linarith
  qed
  moreover have "(\<lambda>a. (regs(k := v)) a mod 65536) = (\<lambda>a. regs a mod 65536)(k := v mod 65536)"
    for regs :: "int \<Rightarrow> int" and k v by auto
  ultimately show ?thesis
    by (auto simp: dac_chip_def dac_sim_def is_byte_def split: option.splits simp del: fun_upd_apply)
qed

theorem dac_set_get_witness:
  "fst (dac_get_voltage (null_hw\<lparr>hw_xfer2 := \<lambda>h. dac_sim\<rparr>) \<lparr>sd_handle = 4, sd_cs = None\<rparr> 2
     (snd (dac_set_voltage (null_hw\<lparr>hw_xfer2 := \<lambda>h. dac_sim\<rparr>) \<lparr>sd_handle = 4, sd_cs = None\<rparr> 2 5
        (\<lambda>_. 0, None)))) = Inr (33 / 10)"
  using dac_set_get [OF dac_sim_chip, of 2 2 4 5 "(\<lambda>_. 0, None)"]
  by (cases "dac_set_voltage (null_hw\<lparr>hw_xfer2 := \<lambda>h. dac_sim\<rparr>) \<lparr>sd_handle = 4, sd_cs = None\<rparr> 2 5 (\<lambda>_. 0, None)";
      cases "dac_get_voltage (null_hw\<lparr>hw_xfer2 := \<lambda>h. dac_sim\<rparr>) \<lparr>sd_handle = 4, sd_cs = None\<rparr> 2
     (snd (dac_set_voltage (null_hw\<lparr>hw_xfer2 := \<lambda>h. dac_sim\<rparr>) \<lparr>sd_handle = 4, sd_cs = None\<rparr> 2 5
        (\<lambda>_. 0, None)))") (auto simp: dac_code_def vref_def)

section \<open>Chip selects after a failed transfer\<close>

text \<open>GPIO outputs hold the level last written, and SPI transfers leave them alone.\<close>

definition gpio_latches :: "'w hw \<Rightarrow> ('w \<Rightarrow> int \<Rightarrow> bool) \<Rightarrow> bool" where
  "gpio_latches hw lv \<longleftrightarrow>
     (\<forall>p v w. fst (hw_gpio_out hw p v w) = Inr () \<and> lv (snd (hw_gpio_out hw p v w)) = (lv w)(p := v)) \<and>
     (\<forall>h pkt w. lv (snd (hw_xfer2 hw h pkt w)) = lv w)"

text \<open>C36: with a userspace chip select the radio's transfer always ends with the chip deselected (level
  high), even when the transfer raises; the ADC and CAN transfer, which has no \<open>finally\<close>, leaves the
  chip selected in exactly that case.\<close>

theorem chip_select_released:
  assumes "gpio_latches hw lv" "sd_cs d = Some cs"
  shows "lv (snd (safe_xfer hw d pkt w)) cs \<and>
     (lv (snd (plain_xfer hw d pkt w)) cs \<longleftrightarrow> (\<exists>resp. fst (plain_xfer hw d pkt w) = Inr resp))"
proof -
  obtain w1 where 1: "hw_gpio_out hw cs False w = (Inr (), w1)" "lv w1 = (lv w)(cs := False)"
    using assms(1) unfolding gpio_latches_def by (metis prod.collapse)
  obtain r w2 where 2: "hw_xfer2 hw (sd_handle d) pkt w1 = (r, w2)" by force
  then have lv2: "lv w2 = lv w1" using assms(1) unfolding gpio_latches_def by (metis snd_conv)
  obtain w3 where 3: "hw_gpio_out hw cs True w2 = (Inr (), w3)" "lv w3 = (lv w2)(cs := True)"
    using assms(1) unfolding gpio_latches_def by (metis prod.collapse)
  show ?thesis
    using assms(2) 1 2 3 lv2
    by (cases r) (simp_all add: safe_xfer_def plain_xfer_def io_simps)
qed

theorem chip_select_released_witness:
  "let hw = (null_hw\<lparr>hw_gpio_out := \<lambda>p v. modify (\<lambda>lv. lv(p := v)),
                    hw_xfer2 := \<lambda>h pkt. raise (Exn OSError ''spi'')\<rparr>) :: (int \<Rightarrow> bool) hw
   in snd (safe_xfer hw \<lparr>sd_handle = 3, sd_cs = Some 26\<rparr> [255] (\<lambda>_. True)) 26 \<and>
      \<not> snd (plain_xfer hw \<lparr>sd_handle = 3, sd_cs = Some 26\<rparr> [255] (\<lambda>_. True)) 26"
proof -
  let ?hw = "(null_hw\<lparr>hw_gpio_out := \<lambda>p v. modify (\<lambda>lv. lv(p := v)),
                    hw_xfer2 := \<lambda>h pkt. raise (Exn OSError ''spi'')\<rparr>) :: (int \<Rightarrow> bool) hw"
  have "gpio_latches ?hw (\<lambda>lv. lv)" by (simp add: gpio_latches_def io_simps)
  from chip_select_released [OF this, of "\<lparr>sd_handle = 3, sd_cs = Some 26\<rparr>" 26 "[255]" "\<lambda>_. True"]
  show ?thesis by (simp add: plain_xfer_def io_simps)
qed

end
