(* ===== verification/Py_Value.thy ===== *)
theory Py_Value
  imports Prelude
begin

text \<open>
  The dynamically typed values that cross the broker: what \<^verbatim>\<open>json.loads\<close> produces and
  \<^verbatim>\<open>json.dumps\<close> accepts. The coercions are those of the Python operators the broker applies to
  its arguments: a \<open>bool\<close> is an \<open>int\<close>, a float never indexes a list, keys that are equal hash equally,
  and every other kind raises \<open>TypeError\<close>. Floats are rationals; NaN and infinities are not modelled.
  The text of the interpreter's own messages is abbreviated.
\<close>

datatype json =
    JNull | JBool bool | JInt int | JNum rat | JStr string
  | JList "json list" | JObj "(string \<times> json) list"

fun py_type_name :: "json \<Rightarrow> string" where
  "py_type_name JNull = ''NoneType''"
| "py_type_name (JBool b) = ''bool''"
| "py_type_name (JInt i) = ''int''"
| "py_type_name (JNum r) = ''float''"
| "py_type_name (JStr s) = ''str''"
| "py_type_name (JList xs) = ''list''"
| "py_type_name (JObj kvs) = ''dict''"

fun truthy :: "json \<Rightarrow> bool" where
  "truthy JNull = False"
| "truthy (JBool b) = b"
| "truthy (JInt i) = (i \<noteq> 0)"
| "truthy (JNum r) = (r \<noteq> 0)"
| "truthy (JStr s) = (s \<noteq> [])"
| "truthy (JList xs) = (xs \<noteq> [])"
| "truthy (JObj kvs) = (kvs \<noteq> [])"

definition type_error :: "string \<Rightarrow> json \<Rightarrow> exn" where
  "type_error what v = Exn TypeError (what @ '': '' @ py_type_name v)"

text \<open>An operand of \<open>&\<close>, \<open>|\<close>, \<open><<\<close>, and a list index: an \<open>int\<close> or a \<open>bool\<close>.\<close>

fun as_int :: "string \<Rightarrow> json \<Rightarrow> int res" where
  "as_int what (JInt i) = Inr i"
| "as_int what (JBool b) = Inr (of_bool b)"
| "as_int what v = Inl (type_error what v)"

text \<open>An operand of a numeric comparison with an \<open>int\<close>.\<close>

fun as_num :: "json \<Rightarrow> rat res" where
  "as_num (JInt i) = Inr (of_int i)"
| "as_num (JBool b) = Inr (of_bool b)"
| "as_num (JNum r) = Inr r"
| "as_num v = Inl (type_error ''not supported between instances'' v)"

text \<open>\<open>float(v)\<close>; \<open>fl\<close> reads a float from a string, and is None where Python raises \<open>ValueError\<close>.\<close>

fun as_float :: "(string \<Rightarrow> rat option) \<Rightarrow> json \<Rightarrow> rat res" where
  "as_float fl (JStr s) = (case fl s of Some r \<Rightarrow> Inr r
     | None \<Rightarrow> Inl (Exn ValueError (''could not convert string to float: '' @ s)))"
| "as_float fl v = (case as_num v of Inr r \<Rightarrow> Inr r
     | Inl e \<Rightarrow> Inl (type_error ''float() argument must be a string or a real number'' v))"

text \<open>A dictionary or set key: numbers that compare equal are the same key.\<close>

definition num_key :: "rat \<Rightarrow> json" where
  "num_key r = (if of_int \<lfloor>r\<rfloor> = r then JInt \<lfloor>r\<rfloor> else JNum r)"

fun as_key :: "json \<Rightarrow> json res" where
  "as_key (JBool b) = Inr (JInt (of_bool b))"
| "as_key (JNum r) = Inr (num_key r)"
| "as_key (JList xs) = Inl (type_error ''unhashable type'' (JList xs))"
| "as_key (JObj kvs) = Inl (type_error ''unhashable type'' (JObj kvs))"
| "as_key v = Inr v"

lemma num_key_of_int [simp]: "num_key (of_int i) = JInt i"
  by (simp add: num_key_def)

text \<open>\<open>v[k]\<close> and \<open>v.get(k, default)\<close> on a parsed object.\<close>

definition json_item :: "string \<Rightarrow> json \<Rightarrow> json res" where
  "json_item k v =
     (case v of
        JObj kvs \<Rightarrow> (case map_of kvs k of Some x \<Rightarrow> Inr x | None \<Rightarrow> Inl (Exn KeyError k))
      | _ \<Rightarrow> Inl (type_error ''object is not subscriptable'' v))"

definition data_get :: "string \<Rightarrow> json \<Rightarrow> json \<Rightarrow> json res" where
  "data_get k dflt v =
     (case v of
        JObj kvs \<Rightarrow> Inr (case map_of kvs k of Some x \<Rightarrow> x | None \<Rightarrow> dflt)
      | _ \<Rightarrow> Inl (Exn Exception ''object has no attribute get''))"

text \<open>\<open>f"{x}"\<close> of a decoded value.\<close>

fun py_str :: "json \<Rightarrow> string" where
  "py_str (JStr s) = s"
| "py_str (JInt i) = show_int i"
| "py_str (JBool b) = (if b then ''True'' else ''False'')"
| "py_str JNull = ''None''"
| "py_str v = py_type_name v"

text \<open>\<open>round(x, n)\<close>.\<close>

definition round_even :: "rat \<Rightarrow> int" where
  "round_even x =
     (let f = \<lfloor>x\<rfloor>; d = x - of_int f
      in if d < 1 / 2 then f else if d > 1 / 2 then f + 1 else if even f then f else f + 1)"

definition py_round :: "nat \<Rightarrow> rat \<Rightarrow> rat" where
  "py_round n x = of_int (round_even (x * 10 ^ n)) / 10 ^ n"

text \<open>\<open>xs[i]\<close> and \<open>xs[i] = v\<close> with an index that came from outside.\<close>

definition py_get :: "'a list \<Rightarrow> json \<Rightarrow> 'a res" where
  "py_get xs i = rbind (as_int ''list indices must be integers or slices'' i) (py_nth xs)"

definition py_index :: "'a list \<Rightarrow> json \<Rightarrow> nat res" where
  "py_index xs i = rbind (as_int ''list indices must be integers or slices'' i) (py_pos xs)"

lemma py_get_index: "py_get xs i = rbind (py_index xs i) (\<lambda>k. Inr (xs ! k))"
  by (cases i) (simp_all add: py_get_def py_index_def py_nth_def)

lemma py_index_lt: "py_index xs i = Inr k \<Longrightarrow> k < length xs"
  by (auto simp: py_index_def rbind_Inr_iff dest: py_pos_lt)

lemma py_index_nat [simp]: "k < length xs \<Longrightarrow> py_index xs (JInt (int k)) = Inr k"
  by (simp add: py_index_def py_pos_nonneg)

lemma py_index_cong: "length xs = length ys \<Longrightarrow> py_index xs i = py_index ys i"
  by (cases i) (simp_all add: py_index_def py_pos_def)

section \<open>Calls with keyword arguments\<close>

text \<open>A signature: parameter names with their defaults. \<open>f(**kwargs)\<close> raises \<open>TypeError\<close> for a
  parameter without a value and for a keyword without a parameter.\<close>

type_synonym signature = "(string \<times> json option) list"

primrec bind_params :: "signature \<Rightarrow> (string \<times> json) list \<Rightarrow> json list res" where
  "bind_params [] kws = Inr []"
| "bind_params (p # ps) kws =
     (case (case map_of kws (fst p) of Some v \<Rightarrow> Some v | None \<Rightarrow> snd p) of
        None \<Rightarrow> Inl (Exn TypeError (''missing a required argument: '' @ fst p))
      | Some v \<Rightarrow> rbind (bind_params ps kws) (\<lambda>vs. Inr (v # vs)))"

definition bind_args :: "signature \<Rightarrow> (string \<times> json) list \<Rightarrow> json list res" where
  "bind_args sg kws =
     (case filter (\<lambda>k. k \<notin> set (map fst sg)) (map fst kws) of
        k # ks \<Rightarrow> Inl (Exn TypeError (''got an unexpected keyword argument '' @ k))
      | [] \<Rightarrow> bind_params sg kws)"

lemma bind_params_cong:
  "(\<And>n. n \<in> fst ` set sg \<Longrightarrow> map_of kws n = map_of kws' n) \<Longrightarrow> bind_params sg kws = bind_params sg kws'"
proof (induction sg)
  case (Cons p ps)
  then have "bind_params ps kws = bind_params ps kws'" "map_of kws (fst p) = map_of kws' (fst p)" by auto
  then show ?case by (simp split: option.split)
qed simp

text \<open>Passing every parameter by its name gives the arguments back in the order of the signature.\<close>

lemma bind_params_zip:
  "distinct (map fst sg) \<Longrightarrow> length vs = length sg \<Longrightarrow>
   bind_params sg (zip (map fst sg) vs) = Inr vs"
proof (induction sg arbitrary: vs)
  case (Cons p ps)
  then obtain v vs' where vs: "vs = v # vs'" by (cases vs) auto
  have "bind_params ps ((fst p, v) # zip (map fst ps) vs') = bind_params ps (zip (map fst ps) vs')"
  proof (rule bind_params_cong)
    fix n assume "n \<in> fst ` set ps"
    moreover have "fst p \<notin> fst ` set ps" using Cons.prems by simp
    ultimately have "n \<noteq> fst p" by metis
    then show "map_of ((fst p, v) # zip (map fst ps) vs') n = map_of (zip (map fst ps) vs') n" by simp
  qed
  with Cons vs show ?case by simp
qed simp

lemma bind_args_zip:
  assumes "distinct (map fst sg)" "length vs = length sg"
  shows "bind_args sg (zip (map fst sg) vs) = Inr vs"
proof -
  have "filter (\<lambda>k. k \<notin> set (map fst sg)) (map fst (zip (map fst sg) vs)) = []"
    using assms by (auto simp: filter_empty_conv set_zip)
  then show ?thesis using bind_params_zip [OF assms] by (simp add: bind_args_def)
qed

lemma bind_args_type_error: "bind_args sg kws = Inl e \<Longrightarrow> \<exists>m. e = Exn TypeError m"
proof -
  have "bind_params sg kws = Inl e \<Longrightarrow> \<exists>m. e = Exn TypeError m" for e
    by (induction sg) (auto simp: rbind_def split: option.splits sum.splits)
  then show "bind_args sg kws = Inl e \<Longrightarrow> \<exists>m. e = Exn TypeError m"
    by (auto simp: bind_args_def split: list.splits)
qed

end
