(* ===== verification/Rpc.thy ===== *)
theory Rpc
  imports Py_Value
begin

text \<open>
  \<^verbatim>\<open>broker/rpc.py\<close>, and the \<open>HardwareBackend\<close> protocol of \<^verbatim>\<open>broker/bus.py\<close> it dispatches to. A
  line of the wire is modelled by what \<^verbatim>\<open>json.loads\<close> makes of it: blank, text that is no JSON, or the
  syntax tree of a document (whose objects have distinct keys). The backend is a record of programs,
  one per method of the protocol, over the state of the backend; its methods take the dynamically
  typed values of the request, as in the code. Their results are JSON values, so writing an answer with
  \<^verbatim>\<open>json.dumps\<close> cannot fail; \<^verbatim>\<open>json.loads\<close> fails with \<open>JSONDecodeError\<close> only (a document nested too
  deeply for the interpreter's stack is outside the model).
\<close>

section \<open>The backend protocol and the method table\<close>

record 'w backend =
  be_adc_read :: "json \<Rightarrow> json \<Rightarrow> ('w, json) io"
  be_adc_read_all :: "json \<Rightarrow> ('w, json) io"
  be_adc_read_voltage :: "json \<Rightarrow> json \<Rightarrow> ('w, json) io"
  be_dac_set_voltage :: "json \<Rightarrow> json \<Rightarrow> json \<Rightarrow> ('w, json) io"
  be_dac_get_voltage :: "json \<Rightarrow> json \<Rightarrow> ('w, json) io"
  be_dac_read_device_id :: "json \<Rightarrow> ('w, json) io"
  be_dac_reset :: "json \<Rightarrow> ('w, json) io"
  be_dac_zero_all :: "json \<Rightarrow> ('w, json) io"
  be_can_set_mode :: "json \<Rightarrow> json \<Rightarrow> ('w, json) io"
  be_can_get_mode :: "json \<Rightarrow> ('w, json) io"
  be_can_read_error_counters :: "json \<Rightarrow> ('w, json) io"
  be_can_status :: "json \<Rightarrow> ('w, json) io"
  be_can_reset :: "json \<Rightarrow> ('w, json) io"
  be_can_init :: "json \<Rightarrow> json \<Rightarrow> ('w, json) io"
  be_can_loopback_test :: "json \<Rightarrow> json \<Rightarrow> json \<Rightarrow> ('w, json) io"
  be_can_int_level :: "json \<Rightarrow> ('w, json) io"
  be_ina_read :: "json \<Rightarrow> ('w, json) io"
  be_ina_is_present :: "json \<Rightarrow> ('w, json) io"
  be_ina_bus_voltage :: "json \<Rightarrow> ('w, json) io"
  be_ina_shunt_voltage :: "json \<Rightarrow> ('w, json) io"
  be_ina_current :: "json \<Rightarrow> ('w, json) io"
  be_ina_power :: "json \<Rightarrow> ('w, json) io"
  be_ina_read_manufacturer_id :: "json \<Rightarrow> ('w, json) io"
  be_ina_read_die_id :: "json \<Rightarrow> ('w, json) io"
  be_tca_read :: "json \<Rightarrow> ('w, json) io"
  be_tca_is_present :: "json \<Rightarrow> ('w, json) io"
  be_tca_read_port :: "json \<Rightarrow> json \<Rightarrow> ('w, json) io"
  be_tca_set_direction :: "json \<Rightarrow> json \<Rightarrow> json \<Rightarrow> ('w, json) io"
  be_tca_get_direction :: "json \<Rightarrow> json \<Rightarrow> ('w, json) io"
  be_tca_set_all_inputs :: "json \<Rightarrow> ('w, json) io"
  be_tca_set_all_outputs :: "json \<Rightarrow> ('w, json) io"
  be_tca_write_port :: "json \<Rightarrow> json \<Rightarrow> json \<Rightarrow> ('w, json) io"
  be_tca_write_all :: "json \<Rightarrow> json \<Rightarrow> json \<Rightarrow> ('w, json) io"
  be_tca_write_pin :: "json \<Rightarrow> json \<Rightarrow> json \<Rightarrow> json \<Rightarrow> ('w, json) io"
  be_i2c_scan :: "json \<Rightarrow> json \<Rightarrow> ('w, json) io"
  be_nrf_is_present :: "('w, json) io"
  be_psu_power :: "json \<Rightarrow> ('w, json) io"
  be_psu_status :: "('w, json) io"
  be_health :: "('w, json) io"

text \<open>A method of the table: the parameters of the bound method and the call itself.\<close>

type_synonym 'w rpc_method = "signature \<times> (json list \<Rightarrow> ('w, json) io)"

fun call0 :: "('w, json) io \<Rightarrow> json list \<Rightarrow> ('w, json) io" where
  "call0 f [] = f"
| "call0 f _ = raise (Exn TypeError ''wrong number of arguments'')"

fun call1 :: "(json \<Rightarrow> ('w, json) io) \<Rightarrow> json list \<Rightarrow> ('w, json) io" where
  "call1 f [a] = f a"
| "call1 f _ = raise (Exn TypeError ''wrong number of arguments'')"

fun call2 :: "(json \<Rightarrow> json \<Rightarrow> ('w, json) io) \<Rightarrow> json list \<Rightarrow> ('w, json) io" where
  "call2 f [a, b] = f a b"
| "call2 f _ = raise (Exn TypeError ''wrong number of arguments'')"

fun call3 :: "(json \<Rightarrow> json \<Rightarrow> json \<Rightarrow> ('w, json) io) \<Rightarrow> json list \<Rightarrow> ('w, json) io" where
  "call3 f [a, b, c] = f a b c"
| "call3 f _ = raise (Exn TypeError ''wrong number of arguments'')"

fun call4 :: "(json \<Rightarrow> json \<Rightarrow> json \<Rightarrow> json \<Rightarrow> ('w, json) io) \<Rightarrow> json list \<Rightarrow> ('w, json) io" where
  "call4 f [a, b, c, d] = f a b c d"
| "call4 f _ = raise (Exn TypeError ''wrong number of arguments'')"

definition sig_of :: "string list \<Rightarrow> signature" where
  "sig_of ns = map (\<lambda>n. (n, None)) ns"

definition build_method_table :: "'w backend \<Rightarrow> (string \<times> 'w rpc_method) list" where
  "build_method_table b =
     [(''adc.read'', sig_of [''idx'', ''channel''], call2 (be_adc_read b)),
      (''adc.read_all'', sig_of [''idx''], call1 (be_adc_read_all b)),
      (''adc.read_voltage'', sig_of [''idx'', ''channel''], call2 (be_adc_read_voltage b)),
      (''dac.set_voltage'', sig_of [''idx'', ''channel'', ''volts''], call3 (be_dac_set_voltage b)),
      (''dac.get_voltage'', sig_of [''idx'', ''channel''], call2 (be_dac_get_voltage b)),
      (''dac.read_device_id'', sig_of [''idx''], call1 (be_dac_read_device_id b)),
      (''dac.reset'', sig_of [''idx''], call1 (be_dac_reset b)),
      (''dac.zero_all'', sig_of [''idx''], call1 (be_dac_zero_all b)),
      (''can.set_mode'', sig_of [''idx'', ''mode''], call2 (be_can_set_mode b)),
      (''can.get_mode'', sig_of [''idx''], call1 (be_can_get_mode b)),
      (''can.read_error_counters'', sig_of [''idx''], call1 (be_can_read_error_counters b)),
      (''can.status'', sig_of [''idx''], call1 (be_can_status b)),
      (''can.reset'', sig_of [''idx''], call1 (be_can_reset b)),
      (''can.init'', sig_of [''idx'', ''bitrate''], call2 (be_can_init b)),
      (''can.loopback_test'', sig_of [''idx'', ''can_id'', ''data_b64''], call3 (be_can_loopback_test b)),
      (''can.int_level'', sig_of [''idx''], call1 (be_can_int_level b)),
      (''ina.read'', sig_of [''addr''], call1 (be_ina_read b)),
      (''ina.is_present'', sig_of [''addr''], call1 (be_ina_is_present b)),
      (''ina.bus_voltage'', sig_of [''addr''], call1 (be_ina_bus_voltage b)),
      (''ina.shunt_voltage'', sig_of [''addr''], call1 (be_ina_shunt_voltage b)),
      (''ina.current'', sig_of [''addr''], call1 (be_ina_current b)),
      (''ina.power'', sig_of [''addr''], call1 (be_ina_power b)),
      (''ina.read_manufacturer_id'', sig_of [''addr''], call1 (be_ina_read_manufacturer_id b)),
      (''ina.read_die_id'', sig_of [''addr''], call1 (be_ina_read_die_id b)),
      (''tca.read'', sig_of [''addr''], call1 (be_tca_read b)),
      (''tca.is_present'', sig_of [''addr''], call1 (be_tca_is_present b)),
      (''tca.read_port'', sig_of [''addr'', ''port''], call2 (be_tca_read_port b)),
      (''tca.set_direction'', sig_of [''addr'', ''port'', ''mask''], call3 (be_tca_set_direction b)),
      (''tca.get_direction'', sig_of [''addr'', ''port''], call2 (be_tca_get_direction b)),
      (''tca.set_all_inputs'', sig_of [''addr''], call1 (be_tca_set_all_inputs b)),
      (''tca.set_all_outputs'', sig_of [''addr''], call1 (be_tca_set_all_outputs b)),
      (''tca.write_port'', sig_of [''addr'', ''port'', ''value''], call3 (be_tca_write_port b)),
      (''tca.write_all'', sig_of [''addr'', ''p0'', ''p1''], call3 (be_tca_write_all b)),
      (''tca.write_pin'', sig_of [''addr'', ''port'', ''pin'', ''value''], call4 (be_tca_write_pin b)),
      (''i2c.scan'', [(''start'', Some (JInt 8)), (''end'', Some (JInt 120))], call2 (be_i2c_scan b)),
      (''nrf.is_present'', sig_of [], call0 (be_nrf_is_present b)),
      (''psu.power'', sig_of [''on''], call1 (be_psu_power b)),
      (''psu.status'', sig_of [], call0 (be_psu_status b)),
      (''broker.health'', sig_of [], call0 (be_health b))]"

section \<open>Dispatching one line\<close>

datatype wire_line = Blank | Garbage string | Doc json

fun loads :: "wire_line \<Rightarrow> json res" where
  "loads (Doc j) = Inr j"
| "loads (Garbage s) = Inl (Exn JSONDecodeError s)"
| "loads Blank = Inl (Exn JSONDecodeError ''Expecting value'')"

fun exn_name :: "exn_class \<Rightarrow> string" where
  "exn_name ValueError = ''ValueError''"
| "exn_name JSONDecodeError = ''JSONDecodeError''"
| "exn_name KeyError = ''KeyError''"
| "exn_name IndexError = ''IndexError''"
| "exn_name TypeError = ''TypeError''"
| "exn_name OverflowError = ''OverflowError''"
| "exn_name OSError = ''OSError''"
| "exn_name FileNotFoundError = ''FileNotFoundError''"
| "exn_name ConnectionError = ''ConnectionError''"
| "exn_name BrokenPipeError = ''BrokenPipeError''"
| "exn_name RuntimeError = ''RuntimeError''"
| "exn_name FlashError = ''FlashError''"
| "exn_name CanFlasherError = ''CanFlasherError''"
| "exn_name CanError = ''CanError''"
| "exn_name CalledProcessError = ''CalledProcessError''"
| "exn_name TimeoutExpired = ''TimeoutExpired''"
| "exn_name SystemExit = ''SystemExit''"
| "exn_name KeyboardInterrupt = ''KeyboardInterrupt''"
| "exn_name Exception = ''Exception''"

definition error_line :: "json \<Rightarrow> string \<Rightarrow> string \<Rightarrow> wire_line" where
  "error_line req_id code msg =
     Doc (JObj [(''id'', req_id), (''error'', JObj [(''code'', JStr code), (''message'', JStr msg)])])"

definition result_line :: "json \<Rightarrow> json \<Rightarrow> wire_line" where
  "result_line req_id r = Doc (JObj [(''id'', req_id), (''result'', r)])"

definition quoted :: "string \<Rightarrow> string" where
  "quoted s = CHR 0x27 # s @ [CHR 0x27]"

definition get_or_none :: "(string \<times> json) list \<Rightarrow> string \<Rightarrow> json" where
  "get_or_none kvs k = (case map_of kvs k of Some v \<Rightarrow> v | None \<Rightarrow> JNull)"

text \<open>\<open>fn(**params)\<close> and the three handlers around it.\<close>

fun exn_response :: "json \<Rightarrow> exn \<Rightarrow> wire_line" where
  "exn_response req_id (RpcErr code msg) = error_line req_id code msg"
| "exn_response req_id (Exn c msg) =
     (if c = TypeError then error_line req_id ''invalid_params'' msg
      else error_line req_id ''internal_error'' (exn_name c @ '': '' @ msg))"

definition apply_method :: "'w rpc_method \<Rightarrow> (string \<times> json) list \<Rightarrow> ('w, json) io" where
  "apply_method m kws = bind (of_res (bind_args (fst m) kws)) (snd m)"

definition respond :: "json \<Rightarrow> ('w, json) io \<Rightarrow> ('w, wire_line option) io" where
  "respond req_id call =
     try_except
       (bind call (\<lambda>r. ret (if req_id = JNull then None else Some (result_line req_id r))))
       is_exception (\<lambda>e. ret (Some (exn_response req_id e)))"

definition handle_request :: "(string \<times> 'w rpc_method) list \<Rightarrow> wire_line \<Rightarrow> ('w, wire_line option) io" where
  "handle_request methods line =
     (case loads line of
        Inl (Exn c m) \<Rightarrow> ret (Some (error_line JNull ''parse_error'' (''invalid JSON: '' @ m)))
      | Inl e \<Rightarrow> raise e
      | Inr (JObj req) \<Rightarrow>
          (let req_id = get_or_none req ''id'';
               params = (if truthy (get_or_none req ''params'') then get_or_none req ''params'' else JObj [])
           in case get_or_none req ''method'' of
                JStr method \<Rightarrow>
                  (case params of
                     JObj kws \<Rightarrow>
                       (case map_of methods method of
                          None \<Rightarrow> ret (Some (error_line req_id ''method_not_found'' (''unknown method: '' @ method)))
                        | Some m \<Rightarrow> respond req_id (apply_method m kws))
                   | _ \<Rightarrow> ret (Some (error_line req_id ''invalid_request'' (quoted ''params'' @ '' must be an object''))))
              | _ \<Rightarrow> ret (Some (error_line req_id ''invalid_request'' (''missing or non-string '' @ quoted ''method''))))
      | Inr _ \<Rightarrow> ret (Some (error_line JNull ''invalid_request'' ''request must be a JSON object'')))"

text \<open>The same handler in two halves: what it makes of a line before it calls a method, either an answer or
  the method to call with its keyword arguments and the identifier to answer under.\<close>

datatype 'm plan = Reply wire_line | Invoke json 'm "(string \<times> json) list"

definition request_plan :: "(string \<times> 'm) list \<Rightarrow> wire_line \<Rightarrow> 'm plan" where
  "request_plan methods line =
     (case loads line of
        Inl (Exn c m) \<Rightarrow> Reply (error_line JNull ''parse_error'' (''invalid JSON: '' @ m))
      | Inl (RpcErr c m) \<Rightarrow> Reply (error_line JNull ''parse_error'' (''invalid JSON: '' @ m))
      | Inr (JObj req) \<Rightarrow>
          (let req_id = get_or_none req ''id'';
               params = (if truthy (get_or_none req ''params'') then get_or_none req ''params'' else JObj [])
           in case get_or_none req ''method'' of
                JStr method \<Rightarrow>
                  (case params of
                     JObj kws \<Rightarrow>
                       (case map_of methods method of
                          None \<Rightarrow> Reply (error_line req_id ''method_not_found'' (''unknown method: '' @ method))
                        | Some m \<Rightarrow> Invoke req_id m kws)
                   | _ \<Rightarrow> Reply (error_line req_id ''invalid_request'' (quoted ''params'' @ '' must be an object'')))
              | _ \<Rightarrow> Reply (error_line req_id ''invalid_request'' (''missing or non-string '' @ quoted ''method'')))
      | Inr _ \<Rightarrow> Reply (error_line JNull ''invalid_request'' ''request must be a JSON object''))"

lemma handle_request_plan:
  "handle_request methods line =
     (case request_plan methods line of Reply r \<Rightarrow> ret (Some r) | Invoke i m kws \<Rightarrow> respond i (apply_method m kws))"
proof (cases line)
  case (Doc j)
  show ?thesis
  proof (cases j)
    case (JObj req)
    show ?thesis
      unfolding handle_request_def request_plan_def Doc JObj loads.simps Let_def
      by (simp split: json.split option.split)
  qed (simp_all add: Doc handle_request_def request_plan_def)
qed (simp_all add: handle_request_def request_plan_def)

section \<open>What the dispatcher promises\<close>

definition request :: "json \<Rightarrow> string \<Rightarrow> (string \<times> json) list \<Rightarrow> wire_line" where
  "request req_id method kws =
     Doc (JObj [(''id'', req_id), (''method'', JStr method), (''params'', JObj kws)])"

lemma handle_request_known:
  "map_of methods n = Some m \<Longrightarrow> handle_request methods (request i n kws) = respond i (apply_method m kws)"
  by (cases kws) (simp_all add: handle_request_def request_def get_or_none_def Let_def)

lemma handle_request_unknown:
  "map_of methods n = None \<Longrightarrow> handle_request methods (request i n kws) =
     ret (Some (error_line i ''method_not_found'' (''unknown method: '' @ n)))"
  by (cases kws) (simp_all add: handle_request_def request_def get_or_none_def Let_def)

lemma ex_ret [simp]: "\<exists>r. ret x = ret r"
  by blast

text \<open>Either the line is answered without touching the backend, or it is one call of the table.\<close>

lemma plan_known:
  assumes "request_plan methods line = Invoke i m kws"
  obtains req n where "line = Doc (JObj req)" "i = get_or_none req ''id''" "get_or_none req ''method'' = JStr n"
    "map_of methods n = Some m"
    "get_or_none req ''params'' = JObj kws \<or> \<not> truthy (get_or_none req ''params'') \<and> kws = []"
proof -
  obtain req where line: "line = Doc (JObj req)"
    using assms by (cases line) (auto simp: request_plan_def split: json.splits)
  obtain n where n: "get_or_none req ''method'' = JStr n"
    using assms by (auto simp: line request_plan_def Let_def split: json.splits)
  let ?p = "if truthy (get_or_none req ''params'') then get_or_none req ''params'' else JObj []"
  obtain kws' where p: "?p = JObj kws'"
    using assms by (simp add: line n request_plan_def Let_def del: if_split_asm split: json.splits)
  with assms line n have "map_of methods n = Some m" "i = get_or_none req ''id''" "kws' = kws"
    by (simp_all add: request_plan_def Let_def split: option.splits)
  with line n p show thesis by (intro that) (auto split: if_splits)
qed

lemma plan_set: "request_plan methods line = Invoke i m kws \<Longrightarrow> \<exists>n. (n, m) \<in> set methods"
  by (erule plan_known) (auto dest: map_of_SomeD)

lemma handle_request_cases:
  obtains r where "handle_request methods line = ret r"
  | m i kws n where "(n, m) \<in> set methods" "handle_request methods line = respond i (apply_method m kws)"
proof (cases "request_plan methods line")
  case (Reply r)
  with that(1) show ?thesis by (simp add: handle_request_plan)
next
  case (Invoke i m kws)
  from plan_set [OF Invoke] obtain n where "(n, m) \<in> set methods" by blast
  then show ?thesis by (rule that(2)) (simp add: handle_request_plan Invoke)
qed

lemma keeps_call0: "keeps I f \<Longrightarrow> keeps I (call0 f vs)"
  by (cases "(f, vs)" rule: call0.cases) (simp_all add: keeps_raise)

lemma keeps_call1: "(\<And>a. keeps I (f a)) \<Longrightarrow> keeps I (call1 f vs)"
  by (cases "(f, vs)" rule: call1.cases) (simp_all add: keeps_raise)

lemma keeps_call2: "(\<And>a b. keeps I (f a b)) \<Longrightarrow> keeps I (call2 f vs)"
  by (cases "(f, vs)" rule: call2.cases) (simp_all add: keeps_raise)

lemma keeps_call3: "(\<And>a b c. keeps I (f a b c)) \<Longrightarrow> keeps I (call3 f vs)"
  by (cases "(f, vs)" rule: call3.cases) (simp_all add: keeps_raise)

lemma keeps_call4: "(\<And>a b c d. keeps I (f a b c d)) \<Longrightarrow> keeps I (call4 f vs)"
  by (cases "(f, vs)" rule: call4.cases) (simp_all add: keeps_raise)

lemmas keeps_calls = keeps_call0 keeps_call1 keeps_call2 keeps_call3 keeps_call4

text \<open>The contract of a backend behind the dispatcher: its methods keep an invariant. Then no line of
  the wire breaks it.\<close>

locale rpc_service =
  fixes methods :: "(string \<times> 'w rpc_method) list"
    and inv :: "'w \<Rightarrow> bool"
  assumes method_keeps: "(n, m) \<in> set methods \<Longrightarrow> keeps inv (snd m vs)"
begin

lemma apply_keeps: "(n, m) \<in> set methods \<Longrightarrow> keeps inv (apply_method m kws)"
  unfolding apply_method_def by (intro keeps_intros method_keeps)

lemma handle_keeps: "keeps inv (handle_request methods line)"
proof (cases rule: handle_request_cases [of methods line])
  case (1 r)
  then show ?thesis by (simp add: keeps_ret)
next
  case (2 m i kws n)
  then show ?thesis unfolding respond_def by (auto intro!: keeps_intros intro: apply_keeps)
qed

end

text \<open>Well-formed answers carry the identifier of the request and either a result or an error.\<close>

fun request_id :: "wire_line \<Rightarrow> json" where
  "request_id (Doc (JObj req)) = get_or_none req ''id''"
| "request_id line = JNull"

fun answers :: "json \<Rightarrow> wire_line \<Rightarrow> bool" where
  "answers i (Doc (JObj [(k, v), (k', v')])) =
     (k = ''id'' \<and> v = i \<and> (k' = ''result'' \<or> k' = ''error''))"
| "answers i line = False"

lemma answers_lines [simp]:
  "answers i (error_line j c m) \<longleftrightarrow> i = j" "answers i (result_line j r) \<longleftrightarrow> i = j"
  "answers i (exn_response j e) \<longleftrightarrow> i = j"
  by (cases e; auto simp: error_line_def result_line_def)+

definition no_exit :: "(string \<times> 'w rpc_method) list \<Rightarrow> bool" where
  "no_exit methods \<longleftrightarrow> (\<forall>(n, m)\<in>set methods. \<forall>vs w e. fst (snd m vs w) = Inl e \<longrightarrow> is_exception e)"

lemma respond_cases:
  "respond i call w =
     (case call w of
        (Inr r, w') \<Rightarrow> (Inr (if i = JNull then None else Some (result_line i r)), w')
      | (Inl e, w') \<Rightarrow> if is_exception e then (Inr (Some (exn_response i e)), w') else (Inl e, w'))"
  by (simp add: respond_def io_simps split: prod.split sum.split)

lemma apply_bound: "bind_args sg kws = Inr vs \<Longrightarrow> apply_method (sg, fn) kws = fn vs"
  by (simp add: apply_method_def io_simps fun_eq_iff)

lemma apply_unbound: "bind_args sg kws = Inl e \<Longrightarrow> apply_method (sg, fn) kws = raise e"
  by (simp add: apply_method_def io_simps fun_eq_iff)

text \<open>a well-formed request for a method of the table runs exactly that method on its arguments, in
  the order of the signature, and answers with its result under the request's identifier; an
  exception becomes an error line (the code of an \<open>RpcError\<close>, \<open>invalid_params\<close> for a \<open>TypeError\<close>,
  \<open>internal_error\<close> otherwise), and the effects made before it stay made.\<close>

theorem rpc_call:
  assumes "map_of methods n = Some (sg, fn)" "bind_args sg kws = Inr vs" "i \<noteq> JNull"
  shows "handle_request methods (request i n kws) w =
     (case fn vs w of
        (Inr r, w') \<Rightarrow> (Inr (Some (result_line i r)), w')
      | (Inl (RpcErr c m), w') \<Rightarrow> (Inr (Some (error_line i c m)), w')
      | (Inl (Exn c m), w') \<Rightarrow>
          if c \<in> {SystemExit, KeyboardInterrupt} then (Inl (Exn c m), w')
          else if c = TypeError then (Inr (Some (error_line i ''invalid_params'' m)), w')
          else (Inr (Some (error_line i ''internal_error'' (exn_name c @ '': '' @ m))), w'))"
  using assms by (simp add: handle_request_known apply_bound respond_cases split: prod.split sum.split exn.split)

theorem rpc_call_witness:
  "handle_request [(''inc'', sig_of [''by''], \<lambda>vs w. (Inr (hd vs), w + (1::nat)))]
     (request (JInt 7) ''inc'' [(''by'', JInt 2)]) 5 = (Inr (Some (result_line (JInt 7) (JInt 2))), 6)"
  using rpc_call [of "[(''inc'', sig_of [''by''], \<lambda>vs w. (Inr (hd vs), w + (1::nat)))]" "''inc''"
      "sig_of [''by'']" "\<lambda>vs w. (Inr (hd vs), w + (1::nat))" "[(''by'', JInt 2)]" "[JInt 2]" "JInt 7" 5]
  by (simp add: sig_of_def bind_args_def)

text \<open>What is answered without a call is an error under the identifier of the line.\<close>

lemma plan_reply:
  assumes "request_plan methods line = Reply r"
  shows "\<exists>c m. r = error_line (request_id line) c m"
proof (cases line)
  case (Doc j)
  show ?thesis
  proof (cases j)
    case (JObj req)
    with assms Doc show ?thesis
      by (auto simp: request_plan_def Let_def split: json.splits option.splits)
  qed (use assms Doc in \<open>auto simp: request_plan_def\<close>)
qed (use assms in \<open>auto simp: request_plan_def\<close>)

lemma plan_id: "request_plan methods line = Invoke i m kws \<Longrightarrow> request_id line = i"
  by (erule plan_known) simp

lemma apply_exception:
  assumes "no_exit methods" "(n, m) \<in> set methods" "fst (apply_method m kws w) = Inl e"
  shows "is_exception e"
proof (cases "bind_args (fst m) kws")
  case (Inl x)
  with bind_args_type_error [OF Inl] assms(3) show ?thesis
    by (cases m) (auto simp: apply_unbound io_simps)
next
  case (Inr vs)
  with assms show ?thesis by (cases m) (auto simp: apply_bound no_exit_def)
qed

lemma exn_response_error: "\<exists>c m. exn_response i e = error_line i c m"
  by (cases e) auto

text \<open>The calls that are not answered: notifications that succeed.\<close>

definition silent :: "(string \<times> 'w rpc_method) list \<Rightarrow> wire_line \<Rightarrow> 'w \<Rightarrow> bool" where
  "silent methods line w \<longleftrightarrow>
     (\<exists>i m kws v. request_plan methods line = Invoke i m kws \<and> i = JNull \<and> fst (apply_method m kws w) = Inr v)"


lemma handle_request_answers:
  assumes "no_exit methods"
  shows "\<exists>r w'. handle_request methods line w = (Inr r, w') \<and>
     (r = None \<longleftrightarrow> silent methods line w) \<and>
     (\<forall>resp. r = Some resp \<longrightarrow> answers (request_id line) resp \<and>
        (request_id line = JNull \<longrightarrow> (\<exists>c m. resp = error_line JNull c m))) \<and>
     (w' \<noteq> w \<longrightarrow> (\<exists>i m kws. request_plan methods line = Invoke i m kws))"
proof (cases "request_plan methods line")
  case (Reply r)
  moreover from plan_reply [OF Reply] obtain c m where "r = error_line (request_id line) c m" by blast
  ultimately show ?thesis by (simp add: handle_request_plan silent_def io_simps) blast
next
  case (Invoke i m kws)
  obtain n where n: "(n, m) \<in> set methods" using plan_set [OF Invoke] by blast
  obtain x w' where x: "apply_method m kws w = (x, w')" by force
  have "is_exception e" if "x = Inl e" for e
    by (rule apply_exception [OF assms n, of kws w]) (simp add: x that)
  with x plan_id [OF Invoke] exn_response_error Invoke show ?thesis
    by (cases x) (auto simp: handle_request_plan silent_def respond_cases)
qed

lemma handle_request_total:
  "no_exit methods \<Longrightarrow> \<exists>r w'. handle_request methods line w = (Inr r, w')"
  using handle_request_answers [of methods line w] by blast



end
