(* ===== verification/Fake_Bus.thy ===== *)
theory Fake_Bus
  imports Rpc Hw_Config Pin_Bank
begin

text \<open>
  \<^verbatim>\<open>broker/fake_bus.py\<close>: the in-memory backend. Its state is a record, \<open>fk_now\<close> being the clock that
  \<^verbatim>\<open>time.time()\<close> reads. Every method takes the dynamically typed arguments of a request and coerces
  them where the Python operators do, after the operation counter has ticked. The port dictionaries
  of an expander are association lists over their keys, since a write may add a key.
\<close>

record fake_state =
  fk_started_at :: rat
  fk_now :: rat
  fk_op_count :: nat
  fk_adc :: "int list list"
  fk_dac :: "rat list list"
  fk_can_mode :: "json list"
  fk_can_tec :: "int list"
  fk_can_rec :: "int list"
  fk_tca_ports :: "int \<Rightarrow> (json \<times> int) list"
  fk_tca_dir :: "int \<Rightarrow> (json \<times> int) list"
  fk_psu_on :: bool
  fk_pwr_ok :: bool

type_synonym 'a fake_io = "(fake_state, 'a) io"

definition fake_init :: "rat \<Rightarrow> fake_state" where
  "fake_init now =
     \<lparr>fk_started_at = now, fk_now = now, fk_op_count = 0,
      fk_adc = replicate 3 (replicate 8 0), fk_dac = replicate 4 (replicate 4 0),
      fk_can_mode = replicate 3 (JInt 0x80), fk_can_tec = replicate 3 0, fk_can_rec = replicate 3 0,
      fk_tca_ports = (\<lambda>_. [(JInt 0, 0), (JInt 1, 0)]),
      fk_tca_dir = (\<lambda>_. [(JInt 0, 0xFF), (JInt 1, 0xFF)]),
      fk_psu_on = False, fk_pwr_ok = False\<rparr>"

definition fake_tick :: "unit fake_io" where
  "fake_tick = modify (\<lambda>s. s\<lparr>fk_op_count := fk_op_count s + 1\<rparr>)"

text \<open>\<open>self._tick()\<close>, then the rest of the method.\<close>

definition ticked :: "'a fake_io \<Rightarrow> 'a fake_io" where
  "ticked m = bind fake_tick (\<lambda>_. m)"

definition none :: "unit fake_io \<Rightarrow> json fake_io" where
  "none m = bind m (\<lambda>_. ret JNull)"

section \<open>ADC and DAC\<close>

definition fake_adc_read :: "json \<Rightarrow> json \<Rightarrow> json fake_io" where
  "fake_adc_read idx channel = ticked
     (bind (reads fk_adc) (\<lambda>adc. of_res (rbind (py_get adc idx) (\<lambda>row.
        rbind (py_get row channel) (\<lambda>v. Inr (JInt v))))))"

definition fake_adc_read_all :: "json \<Rightarrow> json fake_io" where
  "fake_adc_read_all idx = ticked
     (bind (reads fk_adc) (\<lambda>adc. of_res (rbind (py_get adc idx) (\<lambda>row. Inr (JList (map JInt row))))))"

definition fake_adc_read_voltage :: "json \<Rightarrow> json \<Rightarrow> json fake_io" where
  "fake_adc_read_voltage idx channel = ticked
     (bind (reads fk_adc) (\<lambda>adc. of_res (rbind (py_get adc idx) (\<lambda>row.
        rbind (py_get row channel) (\<lambda>v. Inr (JNum (of_int v * (33 / 10) / 4095)))))))"

definition fake_dac_set_voltage :: "(string \<Rightarrow> rat option) \<Rightarrow> json \<Rightarrow> json \<Rightarrow> json \<Rightarrow> json fake_io" where
  "fake_dac_set_voltage fl idx channel volts = ticked
     (bind (of_res (as_float fl volts)) (\<lambda>v.
      bind (reads fk_dac) (\<lambda>dac.
      bind (of_res (py_index dac idx)) (\<lambda>i.
      bind (of_res (py_index (dac ! i) channel)) (\<lambda>c.
      none (modify (\<lambda>s. s\<lparr>fk_dac := (fk_dac s)[i := (fk_dac s ! i)[c := v]]\<rparr>)))))))"

definition fake_dac_get_voltage :: "json \<Rightarrow> json \<Rightarrow> json fake_io" where
  "fake_dac_get_voltage idx channel = ticked
     (bind (reads fk_dac) (\<lambda>dac. of_res (rbind (py_get dac idx) (\<lambda>row.
        rbind (py_get row channel) (\<lambda>v. Inr (JNum v))))))"

definition fake_dac_read_device_id :: "json \<Rightarrow> json fake_io" where
  "fake_dac_read_device_id idx = ticked (ret (JInt 0x0417))"

definition fake_dac_reset :: "json \<Rightarrow> json fake_io" where
  "fake_dac_reset idx = ticked
     (bind (reads fk_dac) (\<lambda>dac. bind (of_res (py_index dac idx)) (\<lambda>i.
        none (modify (\<lambda>s. s\<lparr>fk_dac := (fk_dac s)[i := replicate 4 0]\<rparr>)))))"

definition fake_dac_zero_all :: "json \<Rightarrow> json fake_io" where
  "fake_dac_zero_all idx = ticked
     (bind (reads fk_dac) (\<lambda>dac. bind (of_res (py_index dac idx)) (\<lambda>i.
        none (modify (\<lambda>s. s\<lparr>fk_dac := (fk_dac s)[i := replicate 4 0]\<rparr>)))))"

section \<open>CAN\<close>

text \<open>\<open>self._can_mode[idx] = mode\<close>, and likewise the two error counters.\<close>

definition set_can_mode :: "json \<Rightarrow> json \<Rightarrow> unit fake_io" where
  "set_can_mode idx mode =
     bind (reads fk_can_mode) (\<lambda>ms. bind (of_res (py_index ms idx)) (\<lambda>i.
       modify (\<lambda>s. s\<lparr>fk_can_mode := (fk_can_mode s)[i := mode]\<rparr>)))"

definition set_can_tec :: "json \<Rightarrow> int \<Rightarrow> unit fake_io" where
  "set_can_tec idx v =
     bind (reads fk_can_tec) (\<lambda>ms. bind (of_res (py_index ms idx)) (\<lambda>i.
       modify (\<lambda>s. s\<lparr>fk_can_tec := (fk_can_tec s)[i := v]\<rparr>)))"

definition set_can_rec :: "json \<Rightarrow> int \<Rightarrow> unit fake_io" where
  "set_can_rec idx v =
     bind (reads fk_can_rec) (\<lambda>ms. bind (of_res (py_index ms idx)) (\<lambda>i.
       modify (\<lambda>s. s\<lparr>fk_can_rec := (fk_can_rec s)[i := v]\<rparr>)))"

definition fake_can_set_mode :: "json \<Rightarrow> json \<Rightarrow> json fake_io" where
  "fake_can_set_mode idx mode = ticked (bind (set_can_mode idx mode) (\<lambda>_. ret (JBool True)))"

definition fake_can_get_mode :: "json \<Rightarrow> json fake_io" where
  "fake_can_get_mode idx = ticked (bind (reads fk_can_mode) (\<lambda>ms. of_res (py_get ms idx)))"

definition fake_can_read_error_counters :: "json \<Rightarrow> json fake_io" where
  "fake_can_read_error_counters idx = ticked
     (bind (reads fk_can_tec) (\<lambda>ts. bind (of_res (py_get ts idx)) (\<lambda>t.
      bind (reads fk_can_rec) (\<lambda>rs. bind (of_res (py_get rs idx)) (\<lambda>r.
      ret (JList [JInt t, JInt r]))))))"

definition fake_can_status :: "json \<Rightarrow> json fake_io" where
  "fake_can_status idx = ticked
     (bind (reads fk_can_mode) (\<lambda>ms. bind (of_res (py_get ms idx)) (\<lambda>m.
      bind (reads fk_can_tec) (\<lambda>ts. bind (of_res (py_get ts idx)) (\<lambda>t.
      bind (reads fk_can_rec) (\<lambda>rs. bind (of_res (py_get rs idx)) (\<lambda>r.
      ret (JObj [(''mode'', m), (''tec'', JInt t), (''rec'', JInt r)]))))))))"

definition fake_can_reset :: "json \<Rightarrow> json fake_io" where
  "fake_can_reset idx = ticked
     (bind (set_can_mode idx (JInt 0x80)) (\<lambda>_. bind (set_can_tec idx 0) (\<lambda>_. none (set_can_rec idx 0))))"

definition fake_can_init :: "json \<Rightarrow> json \<Rightarrow> json fake_io" where
  "fake_can_init idx bitrate = ticked (bind (set_can_mode idx (JInt 0x80)) (\<lambda>_. ret (JBool True)))"

definition fake_can_loopback_test :: "json \<Rightarrow> json \<Rightarrow> json \<Rightarrow> json fake_io" where
  "fake_can_loopback_test idx can_id data_b64 = ticked (ret (JBool True))"

definition fake_can_int_level :: "json \<Rightarrow> json fake_io" where
  "fake_can_int_level idx = ticked (ret (JInt 1))"

section \<open>Addresses\<close>

text \<open>\<open>KeyError(f"no INA226 at 0x{addr:02X}")\<close>: formatting a string or a float raises
  \<open>ValueError\<close>, formatting \<open>None\<close> raises \<open>TypeError\<close>.\<close>

fun not_found :: "string \<Rightarrow> json \<Rightarrow> exn" where
  "not_found what (JInt i) = Exn KeyError (''no '' @ what @ '' at 0x'' @ hexX 2 i)"
| "not_found what (JBool b) = Exn KeyError (''no '' @ what @ '' at 0x'' @ hexX 2 (of_bool b))"
| "not_found what (JNum r) = Exn ValueError ''Unknown format code for object of type float''"
| "not_found what (JStr s) = Exn ValueError ''Unknown format code for object of type str''"
| "not_found what v = type_error ''unsupported format string'' v"

definition check_addr :: "int list \<Rightarrow> string \<Rightarrow> json \<Rightarrow> int res" where
  "check_addr valid what addr =
     rbind (as_key addr) (\<lambda>k. case k of
        JInt i \<Rightarrow> if i \<in> set valid then Inr i else Inl (not_found what addr)
      | _ \<Rightarrow> Inl (not_found what addr))"

definition check_ina :: "json \<Rightarrow> int fake_io" where
  "check_ina addr = of_res (check_addr INA226_ADDRS ''INA226'' addr)"

definition check_tca :: "json \<Rightarrow> int fake_io" where
  "check_tca addr = of_res (check_addr TCA9555_ADDRS ''TCA9555'' addr)"

section \<open>INA226\<close>

definition fake_ina_read :: "json \<Rightarrow> json fake_io" where
  "fake_ina_read addr = ticked (bind (check_ina addr) (\<lambda>_. ret (JObj [(''bus_voltage_V'', JNum 0), (''shunt_voltage_V'', JNum (5 / 1000)),
       (''current_A'', JNum (1 / 2)), (''power_W'', JNum 0)])))"

definition fake_ina_is_present :: "json \<Rightarrow> json fake_io" where
  "fake_ina_is_present addr = ticked (bind (check_ina addr) (\<lambda>_. ret (JBool True)))"

definition fake_ina_bus_voltage :: "json \<Rightarrow> json fake_io" where
  "fake_ina_bus_voltage addr = ticked (bind (check_ina addr) (\<lambda>_. ret (JNum 0)))"

definition fake_ina_shunt_voltage :: "json \<Rightarrow> json fake_io" where
  "fake_ina_shunt_voltage addr = ticked (bind (check_ina addr) (\<lambda>_. ret (JNum (5 / 1000))))"

definition fake_ina_current :: "json \<Rightarrow> json fake_io" where
  "fake_ina_current addr = ticked (bind (check_ina addr) (\<lambda>_. ret (JNum (1 / 2))))"

definition fake_ina_power :: "json \<Rightarrow> json fake_io" where
  "fake_ina_power addr = ticked (bind (check_ina addr) (\<lambda>_. ret (JNum 0)))"

definition fake_ina_read_manufacturer_id :: "json \<Rightarrow> json fake_io" where
  "fake_ina_read_manufacturer_id addr = ticked (bind (check_ina addr) (\<lambda>_. ret (JInt 0x5449)))"

definition fake_ina_read_die_id :: "json \<Rightarrow> json fake_io" where
  "fake_ina_read_die_id addr = ticked (bind (check_ina addr) (\<lambda>_. ret (JInt 0x2260)))"

section \<open>TCA9555\<close>

definition dict_get :: "(json \<times> int) list \<Rightarrow> json \<Rightarrow> int res" where
  "dict_get d key =
     rbind (as_key key) (\<lambda>k. case map_of d k of Some v \<Rightarrow> Inr v | None \<Rightarrow> Inl (Exn KeyError ''key''))"

text \<open>\<open>ports[addr][port] = v\<close> on either dictionary of ports.\<close>

definition set_port :: "int \<Rightarrow> json \<Rightarrow> int \<Rightarrow> unit fake_io" where
  "set_port a port v =
     bind (of_res (as_key port)) (\<lambda>k.
       modify (\<lambda>s. s\<lparr>fk_tca_ports := (fk_tca_ports s)(a := alist_set k v (fk_tca_ports s a))\<rparr>))"

definition set_dir :: "int \<Rightarrow> json \<Rightarrow> int \<Rightarrow> unit fake_io" where
  "set_dir a port v =
     bind (of_res (as_key port)) (\<lambda>k.
       modify (\<lambda>s. s\<lparr>fk_tca_dir := (fk_tca_dir s)(a := alist_set k v (fk_tca_dir s a))\<rparr>))"

definition fake_tca_read :: "json \<Rightarrow> json fake_io" where
  "fake_tca_read addr = ticked (bind (check_tca addr) (\<lambda>a.
     bind (reads (\<lambda>s. fk_tca_ports s a)) (\<lambda>d.
     bind (of_res (dict_get d (JInt 0))) (\<lambda>p0.
     bind (of_res (dict_get d (JInt 1))) (\<lambda>p1.
     ret (JObj [(''input_port0'', JInt p0), (''input_port1'', JInt p1),
                (''output_port0'', JInt p0), (''output_port1'', JInt p1),
                (''config_port0'', JInt 0), (''config_port1'', JInt 0)]))))))"

definition fake_tca_is_present :: "json \<Rightarrow> json fake_io" where
  "fake_tca_is_present addr = ticked (bind (check_tca addr) (\<lambda>_. ret (JBool True)))"

definition fake_tca_read_port :: "json \<Rightarrow> json \<Rightarrow> json fake_io" where
  "fake_tca_read_port addr port = ticked (bind (check_tca addr) (\<lambda>a.
     bind (reads (\<lambda>s. fk_tca_ports s a)) (\<lambda>d.
     bind (of_res (dict_get d port)) (\<lambda>v. ret (JInt v)))))"

definition fake_tca_set_direction :: "json \<Rightarrow> json \<Rightarrow> json \<Rightarrow> json fake_io" where
  "fake_tca_set_direction addr port msk = ticked (bind (check_tca addr) (\<lambda>a.
     bind (of_res (as_int ''unsupported operand type(s) for &'' msk)) (\<lambda>m.
     none (set_dir a port (m AND 0xFF)))))"

definition fake_tca_get_direction :: "json \<Rightarrow> json \<Rightarrow> json fake_io" where
  "fake_tca_get_direction addr port = ticked (bind (check_tca addr) (\<lambda>a.
     bind (reads (\<lambda>s. fk_tca_dir s a)) (\<lambda>d.
     bind (of_res (dict_get d port)) (\<lambda>v. ret (JInt v)))))"

definition fake_tca_set_all_inputs :: "json \<Rightarrow> json fake_io" where
  "fake_tca_set_all_inputs addr = ticked (bind (check_tca addr) (\<lambda>a.
     none (modify (\<lambda>s. s\<lparr>fk_tca_dir := (fk_tca_dir s)(a := [(JInt 0, 0xFF), (JInt 1, 0xFF)])\<rparr>))))"

definition fake_tca_set_all_outputs :: "json \<Rightarrow> json fake_io" where
  "fake_tca_set_all_outputs addr = ticked (bind (check_tca addr) (\<lambda>a.
     none (modify (\<lambda>s. s\<lparr>fk_tca_dir := (fk_tca_dir s)(a := [(JInt 0, 0x00), (JInt 1, 0x00)])\<rparr>))))"

definition fake_tca_write_port :: "json \<Rightarrow> json \<Rightarrow> json \<Rightarrow> json fake_io" where
  "fake_tca_write_port addr port val = ticked (bind (check_tca addr) (\<lambda>a.
     bind (of_res (as_int ''unsupported operand type(s) for &'' val)) (\<lambda>v.
     none (set_port a port (v AND 0xFF)))))"

definition fake_tca_write_all :: "json \<Rightarrow> json \<Rightarrow> json \<Rightarrow> json fake_io" where
  "fake_tca_write_all addr p0 p1 = ticked (bind (check_tca addr) (\<lambda>a.
     bind (of_res (as_int ''unsupported operand type(s) for &'' p0)) (\<lambda>v0.
     bind (of_res (as_int ''unsupported operand type(s) for &'' p1)) (\<lambda>v1.
     none (modify (\<lambda>s. s\<lparr>fk_tca_ports :=
       (fk_tca_ports s)(a := [(JInt 0, v0 AND 0xFF), (JInt 1, v1 AND 0xFF)])\<rparr>))))))"

text \<open>\<open>1 << pin\<close>.\<close>

definition bit_mask :: "json \<Rightarrow> int res" where
  "bit_mask pin =
     rbind (as_int ''unsupported operand type(s) for <<'' pin) (\<lambda>n.
       if n < 0 then Inl (Exn ValueError ''negative shift count'') else Inr (push_bit (nat n) 1))"

definition fake_tca_write_pin :: "json \<Rightarrow> json \<Rightarrow> json \<Rightarrow> json \<Rightarrow> json fake_io" where
  "fake_tca_write_pin addr port pin val = ticked (bind (check_tca addr) (\<lambda>a.
     bind (of_res (bit_mask pin)) (\<lambda>mask.
     bind (reads (\<lambda>s. fk_tca_ports s a)) (\<lambda>d.
     bind (of_res (dict_get d port)) (\<lambda>cur.
     none (set_port a port (if truthy val then cur OR mask else cur AND NOT mask)))))))"

section \<open>Scan, radio, power supply, health\<close>

text \<open>\<open>[a for a in present if start <= a < end]\<close>: \<open>end\<close> is compared only when \<open>start\<close> passed.\<close>

primrec scan_filter :: "json \<Rightarrow> json \<Rightarrow> int list \<Rightarrow> int list res" where
  "scan_filter lo hi [] = Inr []"
| "scan_filter lo hi (a # as) =
     rbind (as_num lo) (\<lambda>l.
       if l \<le> of_int a
       then rbind (as_num hi) (\<lambda>h. rbind (scan_filter lo hi as) (\<lambda>r.
              Inr (if of_int a < h then a # r else r)))
       else scan_filter lo hi as)"

definition fake_i2c_scan :: "json \<Rightarrow> json \<Rightarrow> json fake_io" where
  "fake_i2c_scan lo hi = ticked
     (of_res (rbind (scan_filter lo hi (sort (remdups (INA226_ADDRS @ TCA9555_ADDRS))))
        (\<lambda>r. Inr (JList (map JInt r)))))"

definition fake_nrf_is_present :: "json fake_io" where
  "fake_nrf_is_present = ticked (ret (JBool False))"

definition fake_psu_status :: "json fake_io" where
  "fake_psu_status =
     reads (\<lambda>s. JObj [(''ps_on'', JBool (fk_psu_on s)), (''pwr_ok'', JBool (fk_pwr_ok s))])"

definition fake_psu_power :: "json \<Rightarrow> json fake_io" where
  "fake_psu_power on = ticked
     (bind (modify (\<lambda>s. s\<lparr>fk_psu_on := truthy on, fk_pwr_ok := truthy on\<rparr>)) (\<lambda>_. fake_psu_status))"

definition fake_health :: "json fake_io" where
  "fake_health =
     reads (\<lambda>s. JObj [(''uptime_s'', JNum (fk_now s - fk_started_at s)), (''op_count'', JInt (int (fk_op_count s))),
                      (''last_error'', JNull), (''backend'', JStr ''fake'')])"

section \<open>As a backend\<close>

definition fake_backend :: "(string \<Rightarrow> rat option) \<Rightarrow> fake_state backend" where
  "fake_backend fl =
     \<lparr>be_adc_read = fake_adc_read,
      be_adc_read_all = fake_adc_read_all,
      be_adc_read_voltage = fake_adc_read_voltage,
      be_dac_set_voltage = fake_dac_set_voltage fl,
      be_dac_get_voltage = fake_dac_get_voltage,
      be_dac_read_device_id = fake_dac_read_device_id,
      be_dac_reset = fake_dac_reset,
      be_dac_zero_all = fake_dac_zero_all,
      be_can_set_mode = fake_can_set_mode,
      be_can_get_mode = fake_can_get_mode,
      be_can_read_error_counters = fake_can_read_error_counters,
      be_can_status = fake_can_status,
      be_can_reset = fake_can_reset,
      be_can_init = fake_can_init,
      be_can_loopback_test = fake_can_loopback_test,
      be_can_int_level = fake_can_int_level,
      be_ina_read = fake_ina_read,
      be_ina_is_present = fake_ina_is_present,
      be_ina_bus_voltage = fake_ina_bus_voltage,
      be_ina_shunt_voltage = fake_ina_shunt_voltage,
      be_ina_current = fake_ina_current,
      be_ina_power = fake_ina_power,
      be_ina_read_manufacturer_id = fake_ina_read_manufacturer_id,
      be_ina_read_die_id = fake_ina_read_die_id,
      be_tca_read = fake_tca_read,
      be_tca_is_present = fake_tca_is_present,
      be_tca_read_port = fake_tca_read_port,
      be_tca_set_direction = fake_tca_set_direction,
      be_tca_get_direction = fake_tca_get_direction,
      be_tca_set_all_inputs = fake_tca_set_all_inputs,
      be_tca_set_all_outputs = fake_tca_set_all_outputs,
      be_tca_write_port = fake_tca_write_port,
      be_tca_write_all = fake_tca_write_all,
      be_tca_write_pin = fake_tca_write_pin,
      be_i2c_scan = fake_i2c_scan,
      be_nrf_is_present = fake_nrf_is_present,
      be_psu_power = fake_psu_power,
      be_psu_status = fake_psu_status,
      be_health = fake_health\<rparr>"

lemmas fake_defs =
  fake_adc_read_def
  fake_adc_read_all_def
  fake_adc_read_voltage_def
  fake_dac_set_voltage_def
  fake_dac_get_voltage_def
  fake_dac_read_device_id_def
  fake_dac_reset_def
  fake_dac_zero_all_def
  fake_can_set_mode_def
  fake_can_get_mode_def
  fake_can_read_error_counters_def
  fake_can_status_def
  fake_can_reset_def
  fake_can_init_def
  fake_can_loopback_test_def
  fake_can_int_level_def
  fake_ina_read_def
  fake_ina_is_present_def
  fake_ina_bus_voltage_def
  fake_ina_shunt_voltage_def
  fake_ina_current_def
  fake_ina_power_def
  fake_ina_read_manufacturer_id_def
  fake_ina_read_die_id_def
  fake_tca_read_def
  fake_tca_is_present_def
  fake_tca_read_port_def
  fake_tca_set_direction_def
  fake_tca_get_direction_def
  fake_tca_set_all_inputs_def
  fake_tca_set_all_outputs_def
  fake_tca_write_port_def
  fake_tca_write_all_def
  fake_tca_write_pin_def
  fake_i2c_scan_def
  fake_nrf_is_present_def
  fake_psu_power_def
  fake_psu_status_def
  fake_health_def

section \<open>The state keeps its shape\<close>

definition port_dict :: "(json \<times> int) list \<Rightarrow> bool" where
  "port_dict d \<longleftrightarrow> distinct (map fst d) \<and> JInt 0 \<in> fst ` set d \<and> JInt 1 \<in> fst ` set d"

definition byte_values :: "(json \<times> int) list \<Rightarrow> bool" where
  "byte_values d \<longleftrightarrow> is_bytes (map snd d)"

definition rows :: "nat \<Rightarrow> nat \<Rightarrow> 'a list list \<Rightarrow> bool" where
  "rows n k xs \<longleftrightarrow> length xs = n \<and> (\<forall>row\<in>set xs. length row = k)"

definition fake_inv :: "fake_state \<Rightarrow> bool" where
  "fake_inv s \<longleftrightarrow>
     rows 3 8 (fk_adc s) \<and> rows 4 4 (fk_dac s) \<and>
     length (fk_can_mode s) = 3 \<and> length (fk_can_tec s) = 3 \<and> length (fk_can_rec s) = 3 \<and>
     (\<forall>a. port_dict (fk_tca_ports s a) \<and> port_dict (fk_tca_dir s a) \<and> byte_values (fk_tca_dir s a)) \<and>
     fk_psu_on s = fk_pwr_ok s"

lemma fake_init_inv: "fake_inv (fake_init now)"
  by (simp add: fake_inv_def fake_init_def port_dict_def byte_values_def rows_def is_byte_def)

lemma rows_update:
  "rows n k xs \<Longrightarrow> i < length xs \<longrightarrow> length v = k \<Longrightarrow> rows n k (xs[i := v])"
  by (cases "i < length xs") (auto simp: rows_def not_less list_update_beyond dest: set_update_subset_insert [THEN subsetD])

lemma rows_nth: "rows 4 4 xs \<Longrightarrow> i < length xs \<Longrightarrow> length (xs ! i) = 4"
  by (simp add: rows_def)

lemma port_dict_set: "port_dict d \<Longrightarrow> port_dict (alist_set k v d)"
  by (simp add: port_dict_def distinct_alist_set keys_alist_set)

lemma byte_values_set: "byte_values d \<Longrightarrow> is_byte v \<Longrightarrow> byte_values (alist_set k v d)"
  unfolding byte_values_def by (induction k v d rule: alist_set.induct) auto

subsection \<open>Updates that keep it\<close>

lemma keeps_fake_tick [keeps_intros]: "keeps fake_inv fake_tick"
  unfolding fake_tick_def by (rule keeps_modify) (simp add: fake_inv_def)

lemma keeps_ticked [keeps_intros]: "keeps fake_inv m \<Longrightarrow> keeps fake_inv (ticked m)"
  unfolding ticked_def by (intro keeps_intros)

lemma keeps_none [keeps_intros]: "keeps fake_inv m \<Longrightarrow> keeps fake_inv (none m)"
  unfolding none_def by (intro keeps_intros)

lemma keeps_dac_item [keeps_intros]:
  "keeps fake_inv (modify (\<lambda>s. s\<lparr>fk_dac := (fk_dac s)[i := (fk_dac s ! i)[c := v]]\<rparr>))"
  by (rule keeps_modify) (simp add: fake_inv_def rows_update rows_nth)

lemma keeps_dac_row [keeps_intros]:
  "keeps fake_inv (modify (\<lambda>s. s\<lparr>fk_dac := (fk_dac s)[i := replicate 4 0]\<rparr>))"
  by (rule keeps_modify) (simp add: fake_inv_def rows_update)

lemma keeps_can_setters [keeps_intros]:
  "keeps fake_inv (set_can_mode idx m)" "keeps fake_inv (set_can_tec idx v)"
  "keeps fake_inv (set_can_rec idx v)"
  unfolding set_can_mode_def set_can_tec_def set_can_rec_def
  by (intro keeps_intros keeps_modify; simp add: fake_inv_def)+

lemma keeps_checks [keeps_intros]: "keeps fake_inv (check_ina a)" "keeps fake_inv (check_tca a)"
  unfolding check_ina_def check_tca_def by (intro keeps_intros)+

lemma keeps_set_port [keeps_intros]: "keeps fake_inv (set_port a port v)"
  unfolding set_port_def by (intro keeps_intros keeps_modify) (simp add: fake_inv_def port_dict_set)

lemma keeps_set_dir [keeps_intros]: "is_byte v \<Longrightarrow> keeps fake_inv (set_dir a port v)"
  unfolding set_dir_def
  by (intro keeps_intros keeps_modify) (simp add: fake_inv_def port_dict_set byte_values_set)

lemma keeps_port_pair [keeps_intros]:
  "keeps fake_inv (modify (\<lambda>s. s\<lparr>fk_tca_ports := (fk_tca_ports s)(a := [(JInt 0, p), (JInt 1, q)])\<rparr>))"
  by (rule keeps_modify) (simp add: fake_inv_def port_dict_def byte_values_def)

lemma keeps_dir_pair [keeps_intros]:
  "is_byte p \<Longrightarrow> is_byte q \<Longrightarrow>
   keeps fake_inv (modify (\<lambda>s. s\<lparr>fk_tca_dir := (fk_tca_dir s)(a := [(JInt 0, p), (JInt 1, q)])\<rparr>))"
  by (rule keeps_modify) (simp add: fake_inv_def port_dict_def byte_values_def)

lemma is_byte_and_255 [keeps_intros]: "is_byte (v AND 255)"
  by (simp add: and_mask_255)

lemma is_byte_lits [keeps_intros]: "is_byte 0" "is_byte 255"
  by (simp_all add: is_byte_def)

lemma keeps_psu [keeps_intros]:
  "keeps fake_inv (modify (\<lambda>s. s\<lparr>fk_psu_on := b, fk_pwr_ok := b\<rparr>))"
  by (rule keeps_modify) (simp add: fake_inv_def)

lemma keeps_fake_adc_dac:
  "keeps fake_inv (fake_adc_read a b)"
  "keeps fake_inv (fake_adc_read_all a)"
  "keeps fake_inv (fake_adc_read_voltage a b)"
  "keeps fake_inv (fake_dac_set_voltage fl a b c)"
  "keeps fake_inv (fake_dac_get_voltage a b)"
  "keeps fake_inv (fake_dac_read_device_id a)"
  "keeps fake_inv (fake_dac_reset a)"
  "keeps fake_inv (fake_dac_zero_all a)"
  unfolding fake_adc_read_def fake_adc_read_all_def fake_adc_read_voltage_def fake_dac_set_voltage_def fake_dac_get_voltage_def fake_dac_read_device_id_def fake_dac_reset_def fake_dac_zero_all_def
  by (intro keeps_intros)+

lemma keeps_fake_can:
  "keeps fake_inv (fake_can_set_mode a b)"
  "keeps fake_inv (fake_can_get_mode a)"
  "keeps fake_inv (fake_can_read_error_counters a)"
  "keeps fake_inv (fake_can_status a)"
  "keeps fake_inv (fake_can_reset a)"
  "keeps fake_inv (fake_can_init a b)"
  "keeps fake_inv (fake_can_loopback_test a b c)"
  "keeps fake_inv (fake_can_int_level a)"
  unfolding fake_can_set_mode_def fake_can_get_mode_def fake_can_read_error_counters_def fake_can_status_def fake_can_reset_def fake_can_init_def fake_can_loopback_test_def fake_can_int_level_def
  by (intro keeps_intros)+

lemma keeps_fake_ina:
  "keeps fake_inv (fake_ina_read a)"
  "keeps fake_inv (fake_ina_is_present a)"
  "keeps fake_inv (fake_ina_bus_voltage a)"
  "keeps fake_inv (fake_ina_shunt_voltage a)"
  "keeps fake_inv (fake_ina_current a)"
  "keeps fake_inv (fake_ina_power a)"
  "keeps fake_inv (fake_ina_read_manufacturer_id a)"
  "keeps fake_inv (fake_ina_read_die_id a)"
  unfolding fake_ina_read_def fake_ina_is_present_def fake_ina_bus_voltage_def fake_ina_shunt_voltage_def fake_ina_current_def fake_ina_power_def fake_ina_read_manufacturer_id_def fake_ina_read_die_id_def
  by (intro keeps_intros)+

lemma keeps_fake_tca:
  "keeps fake_inv (fake_tca_read a)"
  "keeps fake_inv (fake_tca_is_present a)"
  "keeps fake_inv (fake_tca_read_port a b)"
  "keeps fake_inv (fake_tca_set_direction a b c)"
  "keeps fake_inv (fake_tca_get_direction a b)"
  "keeps fake_inv (fake_tca_set_all_inputs a)"
  "keeps fake_inv (fake_tca_set_all_outputs a)"
  "keeps fake_inv (fake_tca_write_port a b c)"
  "keeps fake_inv (fake_tca_write_all a b c)"
  "keeps fake_inv (fake_tca_write_pin a b c d)"
  unfolding fake_tca_read_def fake_tca_is_present_def fake_tca_read_port_def fake_tca_set_direction_def fake_tca_get_direction_def fake_tca_set_all_inputs_def fake_tca_set_all_outputs_def fake_tca_write_port_def fake_tca_write_all_def fake_tca_write_pin_def
  by (intro keeps_intros)+

lemma keeps_fake_rest:
  "keeps fake_inv (fake_i2c_scan a b)"
  "keeps fake_inv (fake_nrf_is_present)"
  "keeps fake_inv (fake_psu_power a)"
  "keeps fake_inv (fake_psu_status)"
  "keeps fake_inv (fake_health)"
  unfolding fake_i2c_scan_def fake_nrf_is_present_def fake_psu_power_def fake_psu_status_def fake_health_def
  by (intro keeps_intros)+

lemmas keeps_fake = keeps_fake_adc_dac keeps_fake_can keeps_fake_ina keeps_fake_tca keeps_fake_rest

section \<open>Behind the dispatcher\<close>

interpretation fake_rpc: rpc_service "build_method_table (fake_backend fl)" fake_inv for fl
  by unfold_locales
    (auto simp: build_method_table_def fake_backend_def intro!: keeps_calls keeps_fake)

section \<open>Every operation is counted once\<close>

definition counted :: "'a fake_io \<Rightarrow> bool" where
  "counted m \<longleftrightarrow> (\<forall>s. fk_op_count (snd (m s)) = fk_op_count s + 1)"

lemma counted_ticked:
  assumes "\<And>c. keeps (\<lambda>s. fk_op_count s = c) m"
  shows "counted (ticked m)"
  unfolding counted_def
proof
  fix s
  show "fk_op_count (snd (ticked m s)) = fk_op_count s + 1"
    using keepsD [OF assms, of "s\<lparr>fk_op_count := fk_op_count s + 1\<rparr>" "fk_op_count s + 1"]
    by (simp add: ticked_def fake_tick_def io_simps)
qed

lemma keeps_count [keeps_intros]:
  "keeps (\<lambda>s. fk_op_count s = c) (set_can_mode idx m)" "keeps (\<lambda>s. fk_op_count s = c) (set_can_tec idx v)"
  "keeps (\<lambda>s. fk_op_count s = c) (set_can_rec idx v)" "keeps (\<lambda>s. fk_op_count s = c) (set_port a port x)"
  "keeps (\<lambda>s. fk_op_count s = c) (set_dir a port x)" "keeps (\<lambda>s. fk_op_count s = c) (check_ina ad)"
  "keeps (\<lambda>s. fk_op_count s = c) (check_tca ad)"
  unfolding set_can_mode_def set_can_tec_def set_can_rec_def set_port_def set_dir_def check_ina_def check_tca_def
  by ((intro keeps_intros keeps_modify; simp)+)

lemmas counts_tac = counted_ticked keeps_bind keeps_ret keeps_reads keeps_of_res keeps_count keeps_modify

lemma counted_adc_dac:
  "counted (fake_adc_read a b)"
  "counted (fake_adc_read_all a)"
  "counted (fake_adc_read_voltage a b)"
  "counted (fake_dac_set_voltage fl a b c)"
  "counted (fake_dac_get_voltage a b)"
  "counted (fake_dac_read_device_id a)"
  "counted (fake_dac_reset a)"
  "counted (fake_dac_zero_all a)"
  unfolding fake_adc_read_def fake_adc_read_all_def fake_adc_read_voltage_def fake_dac_set_voltage_def fake_dac_get_voltage_def fake_dac_read_device_id_def fake_dac_reset_def fake_dac_zero_all_def none_def
  by (intro counts_tac; simp)+

lemma counted_can:
  "counted (fake_can_set_mode a b)"
  "counted (fake_can_get_mode a)"
  "counted (fake_can_read_error_counters a)"
  "counted (fake_can_status a)"
  "counted (fake_can_reset a)"
  "counted (fake_can_init a b)"
  "counted (fake_can_loopback_test a b c)"
  "counted (fake_can_int_level a)"
  unfolding fake_can_set_mode_def fake_can_get_mode_def fake_can_read_error_counters_def fake_can_status_def fake_can_reset_def fake_can_init_def fake_can_loopback_test_def fake_can_int_level_def none_def
  by (intro counts_tac; simp)+

lemma counted_ina:
  "counted (fake_ina_read a)"
  "counted (fake_ina_is_present a)"
  "counted (fake_ina_bus_voltage a)"
  "counted (fake_ina_shunt_voltage a)"
  "counted (fake_ina_current a)"
  "counted (fake_ina_power a)"
  "counted (fake_ina_read_manufacturer_id a)"
  "counted (fake_ina_read_die_id a)"
  unfolding fake_ina_read_def fake_ina_is_present_def fake_ina_bus_voltage_def fake_ina_shunt_voltage_def fake_ina_current_def fake_ina_power_def fake_ina_read_manufacturer_id_def fake_ina_read_die_id_def none_def
  by (intro counts_tac; simp)+

lemma counted_tca:
  "counted (fake_tca_read a)"
  "counted (fake_tca_is_present a)"
  "counted (fake_tca_read_port a b)"
  "counted (fake_tca_set_direction a b c)"
  "counted (fake_tca_get_direction a b)"
  "counted (fake_tca_set_all_inputs a)"
  "counted (fake_tca_set_all_outputs a)"
  "counted (fake_tca_write_port a b c)"
  "counted (fake_tca_write_all a b c)"
  "counted (fake_tca_write_pin a b c d)"
  unfolding fake_tca_read_def fake_tca_is_present_def fake_tca_read_port_def fake_tca_set_direction_def fake_tca_get_direction_def fake_tca_set_all_inputs_def fake_tca_set_all_outputs_def fake_tca_write_port_def fake_tca_write_all_def fake_tca_write_pin_def none_def
  by (intro counts_tac; simp)+

lemma counted_rest:
  "counted (fake_i2c_scan a b)"
  "counted (fake_nrf_is_present)"
  "counted (fake_psu_power a)"
  unfolding fake_i2c_scan_def fake_nrf_is_present_def fake_psu_power_def none_def fake_psu_status_def
  by (intro counts_tac; simp)+

lemmas counted_fake = counted_adc_dac counted_can counted_ina counted_tca counted_rest

lemma counted_call0: "vs = [] \<Longrightarrow> counted f \<Longrightarrow> counted (call0 f vs)"
  by (cases "(f, vs)" rule: call0.cases) simp_all

lemma counted_call1: "length vs = Suc 0 \<Longrightarrow> (\<And>a. counted (f a)) \<Longrightarrow> counted (call1 f vs)"
  by (cases "(f, vs)" rule: call1.cases) simp_all

lemma counted_call2: "length vs = Suc (Suc 0) \<Longrightarrow> (\<And>a b. counted (f a b)) \<Longrightarrow> counted (call2 f vs)"
  by (cases "(f, vs)" rule: call2.cases) simp_all

lemma counted_call3: "length vs = Suc (Suc (Suc 0)) \<Longrightarrow> (\<And>a b c. counted (f a b c)) \<Longrightarrow> counted (call3 f vs)"
  by (cases "(f, vs)" rule: call3.cases) simp_all

lemma counted_call4: "length vs = Suc (Suc (Suc (Suc 0))) \<Longrightarrow> (\<And>a b c d. counted (f a b c d)) \<Longrightarrow> counted (call4 f vs)"
  by (cases "(f, vs)" rule: call4.cases) simp_all

lemmas counted_calls = counted_call0 counted_call1 counted_call2 counted_call3 counted_call4

lemma table_counted:
  assumes "(n, sg, fn) \<in> set (build_method_table (fake_backend fl))" "length vs = length sg"
  shows "n = ''psu.status'' \<or> n = ''broker.health'' \<or> counted (fn vs)"
  using assms
  apply (simp only: build_method_table_def fake_backend_def backend.select_convs list.set insert_iff
      empty_iff prod.inject)
  apply (elim disjE conjE FalseE)
  apply ((hypsubst, ((rule disjI1, rule refl) | (rule disjI2, rule disjI1, rule refl) |
     (rule disjI2, rule disjI2, rule counted_calls, simp add: sig_of_def, rule counted_fake)))+)
  done

text \<open>every method the dispatcher can reach, except the two status queries, counts as exactly one
  operation, whatever its arguments and whether it returns or raises.\<close>

theorem fake_ops_counted:
  assumes "(n, sg, fn) \<in> set (build_method_table (fake_backend fl))" "length vs = length sg"
    and "n \<noteq> ''psu.status''" "n \<noteq> ''broker.health''"
  shows "fk_op_count (snd (fn vs s)) = fk_op_count s + 1"
  using table_counted [OF assms(1,2)] assms(3,4) by (simp only: counted_def simp_thms)

theorem fake_ops_counted_witness:
  "fk_op_count (snd (call2 fake_adc_read [JInt 9, JStr ''x''] (fake_init 0))) = 1"
proof -
  have "(''adc.read'', sig_of [''idx'', ''channel''], call2 fake_adc_read)
      \<in> set (build_method_table (fake_backend (\<lambda>_. None)))"
    by (simp add: build_method_table_def fake_backend_def)
  from fake_ops_counted [OF this, of "[JInt 9, JStr ''x'']" "fake_init 0"]
  show ?thesis by (simp add: sig_of_def fake_init_def)
qed

section \<open>The expander as a bank of pins\<close>

definition fake_port :: "fake_state \<Rightarrow> int \<times> int \<Rightarrow> int" where
  "fake_port s = (\<lambda>(a, p). case map_of (fk_tca_ports s a) (JInt p) of Some v \<Rightarrow> v | None \<Rightarrow> 0)"

definition fake_write :: "int \<times> int \<Rightarrow> nat \<Rightarrow> bool \<Rightarrow> fake_state \<Rightarrow> fake_state" where
  "fake_write = (\<lambda>(a, p) k v s. snd (fake_tca_write_pin (JInt a) (JInt p) (JInt (int k)) (JBool v) s))"

definition fake_pin_ports :: "(int \<times> int) set" where
  "fake_pin_ports = set TCA9555_ADDRS \<times> {0, 1}"

lemma port_dict_get:
  "port_dict d \<Longrightarrow> p \<in> {0, 1} \<Longrightarrow> \<exists>v. map_of d (JInt p) = Some v"
  by (auto simp: port_dict_def dom_map_of_conv_image_fst [symmetric] dom_def)

lemma fake_write_pin_eq:
  assumes "fake_inv s" "a \<in> set TCA9555_ADDRS" "p \<in> {0, 1}"
  shows "fake_tca_write_pin (JInt a) (JInt p) (JInt (int k)) (JBool v) s =
     (Inr JNull, s\<lparr>fk_op_count := fk_op_count s + 1,
        fk_tca_ports := (fk_tca_ports s)(a := alist_set (JInt p)
          (if v then fake_port s (a, p) OR push_bit k 1 else fake_port s (a, p) AND NOT (push_bit k 1))
          (fk_tca_ports s a))\<rparr>)"
proof -
  from assms have "port_dict (fk_tca_ports s a)" by (simp add: fake_inv_def)
  from port_dict_get [OF this assms(3)] obtain c where "map_of (fk_tca_ports s a) (JInt p) = Some c" ..
  with assms(2) show ?thesis
    by (simp add: fake_tca_write_pin_def ticked_def fake_tick_def check_tca_def check_addr_def bit_mask_def
        dict_get_def none_def set_port_def io_simps fake_port_def)
qed

lemma fake_port_write:
  assumes "fake_inv s" "a \<in> set TCA9555_ADDRS" "p \<in> {0, 1}"
  shows "fake_port (fake_write (a, p) k v s) i =
     (if i = (a, p) then if v then fake_port s i OR push_bit k 1 else fake_port s i AND NOT (push_bit k 1)
      else fake_port s i)"
  using assms by (cases i) (simp add: fake_write_def fake_write_pin_eq, simp add: fake_port_def)

interpretation fake_pins: pin_bank fake_port fake_write fake_inv fake_pin_ports
proof
  fix s i k v
  show "fake_inv s \<Longrightarrow> fake_inv (fake_write i k v s)"
    by (cases i) (simp add: fake_write_def keepsD [OF keeps_fake_tca(10)])
next
  fix s i i' v and k k' :: nat
  assume "fake_inv s" "i \<in> fake_pin_ports" "i' \<in> fake_pin_ports"
  then show "bit (fake_port (fake_write i k v s) i') k' =
      (if i' = i \<and> k' = k then v else bit (fake_port s i') k')"
    by (cases i) (auto simp: fake_port_write fake_pin_ports_def bit_simps)
qed

lemma fake_read_port_eq:
  assumes "fake_inv s" "a \<in> set TCA9555_ADDRS" "p \<in> {0, 1}"
  shows "fake_tca_read_port (JInt a) (JInt p) s =
     (Inr (JInt (fake_port s (a, p))), s\<lparr>fk_op_count := fk_op_count s + 1\<rparr>)"
proof -
  from assms have "port_dict (fk_tca_ports s a)" by (simp add: fake_inv_def)
  from port_dict_get [OF this assms(3)] obtain c where "map_of (fk_tca_ports s a) (JInt p) = Some c" ..
  with assms(2) show ?thesis
    by (simp add: fake_tca_read_port_def ticked_def fake_tick_def check_tca_def check_addr_def
        dict_get_def io_simps fake_port_def)
qed

text \<open>after any sequence of pin writes to the fake expanders, reading a port back gives, for each of
  its eight pins, the last value written to that pin, and the value it had before where none was
  written: no write disturbs another pin, port or expander.\<close>

theorem fake_pins_last_write:
  assumes "fake_inv s" "\<forall>((a, p), k, v)\<in>set ws. a \<in> set TCA9555_ADDRS \<and> p \<in> {0, 1} \<and> k < 8"
    and "a \<in> set TCA9555_ADDRS" "p \<in> {0, 1}" "k < 8"
  shows "\<exists>v s'. fake_tca_read_port (JInt a) (JInt p) (foldl (\<lambda>s (i, k, v). fake_write i k v s) s ws) =
             (Inr (JInt v), s') \<and>
           (bit v k \<longleftrightarrow> (case last_write ws (a, p) k of Some b \<Rightarrow> b | None \<Rightarrow> bit (fake_port s (a, p)) k))"
proof -
  have ws: "fake_pins.valid_writes ws"
    unfolding fake_pins.valid_writes_def using assms(2) by (fastforce simp: fake_pin_ports_def)
  have "(a, p) \<in> fake_pin_ports" using assms by (simp add: fake_pin_ports_def)
  from fake_pins.writes_bit [OF assms(1) ws this assms(5)]
    fake_read_port_eq [OF fake_pins.writes_ok [OF assms(1) ws] assms(3,4)]
  show ?thesis by (simp add: fake_pins.writes_def)
qed

theorem fake_pins_last_write_witness:
  "\<exists>v s'. fake_tca_read_port (JInt 0x21) (JInt 0)
     (foldl (\<lambda>s (i, k, v). fake_write i k v s) (fake_init 0)
        [((0x21, 0), 3, True), ((0x21, 0), 5, True), ((0x21, 0), 3, False)]) = (Inr (JInt v), s') \<and> \<not> bit v 3"
  using fake_pins_last_write [OF fake_init_inv, of "[((33, 0), 3, True), ((33, 0), 5, True), ((33, 0), 3, False)]" 33 0 3 0]
  by (simp add: TCA9555_ADDRS_def)

text \<open>a DAC channel set through the broker reads back the value it was set to, and setting it
  changes no other channel; negative indices count from the end, as in Python.\<close>

theorem fake_dac_readback:
  assumes "fake_inv s" "py_index (fk_dac s) i = Inr k" "py_index (fk_dac s ! k) c = Inr j"
    "as_float fl v = Inr r" "py_index (fk_dac s) i' = Inr k'" "py_index (fk_dac s ! k') c' = Inr j'"
  shows "fst (fake_dac_get_voltage i' c' (snd (fake_dac_set_voltage fl i c v s))) =
     Inr (JNum (if k' = k \<and> j' = j then r else fk_dac s ! k' ! j'))"
proof -
  let ?d = "(fk_dac s)[k := (fk_dac s ! k)[j := r]]"
  have lt: "k < length (fk_dac s)" "j < length (fk_dac s ! k)" "k' < length (fk_dac s)" "j' < length (fk_dac s ! k')"
    using assms by (auto dest: py_index_lt)
  have "py_index ?d i' = Inr k'" using assms(5) py_index_cong [of ?d "fk_dac s" i'] by simp
  moreover have "py_index (?d ! k') c' = Inr j'"
    using assms(6) py_index_cong [of "?d ! k'" "fk_dac s ! k'" c'] lt by (simp add: nth_list_update)
  ultimately have "fst (fake_dac_get_voltage i' c' (snd (fake_dac_set_voltage fl i c v s))) =
      Inr (JNum (?d ! k' ! j'))"
    using assms(2-4)
    by (simp add: fake_dac_get_voltage_def fake_dac_set_voltage_def ticked_def fake_tick_def none_def
        io_simps py_get_index)
  with lt show ?thesis by (auto simp: nth_list_update)
qed

theorem fake_dac_readback_witness:
  "fst (fake_dac_get_voltage (JInt 3) (JBool True)
     (snd (fake_dac_set_voltage (\<lambda>_. None) (JInt (- 1)) (JInt 1) (JNum (5 / 2)) (fake_init 0)))) =
   Inr (JNum (5 / 2))"
  using fake_dac_readback [OF fake_init_inv, of 0 "JInt (- 1)" 3 "JInt 1" 1 "\<lambda>_. None" "JNum (5 / 2)" "5 / 2"
      "JInt 3" 3 "JBool True" 1]
  by (simp add: fake_init_def py_index_def py_pos_def)

end
