(* ===== verification/Server.thy ===== *)
theory Server
  imports Rpc Fake_Bus "HOL-Library.Sublist"
begin

text \<open>
  \<^verbatim>\<open>broker/server.py\<close>: the handler of one connection, as a loop over the lines the client sent, and
  the synchronous \<open>BrokerClient\<close>. A connection is a program \<open>wr\<close> that writes one line and may raise;
  the state of a session pairs the backend's state with the connection's. The client talks to any
  transport \<open>xfer\<close> that takes a request line and returns the response line, None at end of file.
\<close>

section \<open>The connection handler\<close>

fun is_broken_pipe :: "exn \<Rightarrow> bool" where
  "is_broken_pipe (Exn c m) = (c = BrokenPipeError)"
| "is_broken_pipe (RpcErr c m) = False"

definition on_backend :: "('w, 'a) io \<Rightarrow> ('w \<times> 'c, 'a) io" where
  "on_backend = zoom fst (\<lambda>w s. (w, snd s))"

definition on_conn :: "('c, 'a) io \<Rightarrow> ('w \<times> 'c, 'a) io" where
  "on_conn = zoom snd (\<lambda>c s. (fst s, c))"

primrec handle_conn ::
  "(string \<times> 'w rpc_method) list \<Rightarrow> (wire_line \<Rightarrow> ('c, unit) io) \<Rightarrow> wire_line list \<Rightarrow> ('w \<times> 'c, unit) io"
where
  "handle_conn methods wr [] = ret ()"
| "handle_conn methods wr (line # lines) =
     (if line = Blank then handle_conn methods wr lines
      else bind (on_backend (handle_request methods line)) (\<lambda>resp.
        case resp of
          None \<Rightarrow> handle_conn methods wr lines
        | Some r \<Rightarrow>
            bind (try_except (bind (on_conn (wr r)) (\<lambda>_. ret True)) is_broken_pipe (\<lambda>_. ret False))
              (\<lambda>open. if open then handle_conn methods wr lines else ret ())))"

text \<open>A connection that stays open, recording what was written.\<close>

definition record_line :: "wire_line \<Rightarrow> (wire_line list, unit) io" where
  "record_line l out = (Inr (), out @ [l])"

section \<open>The client\<close>

definition broker_call ::
  "(wire_line \<Rightarrow> ('s, wire_line option) io) \<Rightarrow> string \<Rightarrow> (string \<times> json) list \<Rightarrow> ('s \<times> int, json) io"
where
  "broker_call xfer method params =
     bind (modify (\<lambda>(s, n). (s, n + 1))) (\<lambda>_.
     bind (reads snd) (\<lambda>n.
     bind (on_backend (xfer (request (JInt n) method params))) (\<lambda>line.
     case line of
       None \<Rightarrow> raise (Exn ConnectionError ''broker closed the connection'')
     | Some l \<Rightarrow>
         bind (of_res (loads l)) (\<lambda>resp.
         case resp of
           JObj kvs \<Rightarrow>
             (case map_of kvs ''error'' of
                Some (JObj err) \<Rightarrow>
                  raise (Exn RuntimeError (''['' @ py_str (get_or_none err ''code'') @ ''] ''
                    @ py_str (get_or_none err ''message'')))
              | Some _ \<Rightarrow> raise (Exn Exception ''AttributeError'')
              | None \<Rightarrow> ret (get_or_none kvs ''result''))
         | JList xs \<Rightarrow> (if JStr ''error'' \<in> set xs then raise (Exn TypeError ''list indices must be integers or slices'')
                      else raise (Exn Exception ''AttributeError''))
         | JStr t \<Rightarrow> (if sublist ''error'' t then raise (Exn TypeError ''string indices must be integers'')
                     else raise (Exn Exception ''AttributeError''))
         | _ \<Rightarrow> raise (Exn TypeError ''argument is not iterable'')))))"

text \<open>The transport of an open connection to the handler above: one line in, its answer out. It is ideal: the
  answer arrives whole and before the client's timeout, and no other connection runs in between.\<close>

definition broker_link :: "(string \<times> 'w rpc_method) list \<Rightarrow> wire_line \<Rightarrow> ('w, wire_line option) io" where
  "broker_link methods line w =
     (case handle_conn methods record_line [line] (w, []) of
        (Inl e, (w', out)) \<Rightarrow> (Inr None, w')
      | (Inr u, (w', out)) \<Rightarrow> (Inr (case out of [] \<Rightarrow> None | l # ls \<Rightarrow> Some l), w'))"

section \<open>Sessions keep what requests keep\<close>

context rpc_service
begin

lemma conn_keeps: "keeps (\<lambda>(w, c). inv w) (handle_conn methods wr lines)"
proof (induction lines)
  case (Cons line lines)
  have b: "keeps (\<lambda>(w, c). inv w) (on_backend (handle_request methods line))"
    using handle_keeps [of line]
    by (auto simp: keeps_def on_backend_def io_simps split: prod.splits)
  have c: "keeps (\<lambda>(w, c). inv w) (on_conn m)" for m :: "('b, 'c) io"
    by (auto simp: keeps_def on_conn_def io_simps split: prod.splits)
  have "keeps (\<lambda>(w, c). inv w) (case resp of None \<Rightarrow> handle_conn methods wr lines
      | Some r \<Rightarrow> bind (try_except (bind (on_conn (wr r)) (\<lambda>_. ret True)) is_broken_pipe (\<lambda>_. ret False))
              (\<lambda>open. if open then handle_conn methods wr lines else ret ()))" for resp
    using Cons by (cases resp) (auto intro!: keeps_intros c)
  then show ?case using Cons b by (auto intro: keeps_bind)
qed (simp add: keeps_ret)

lemma conn_inv: "inv w \<Longrightarrow> inv (fst (snd (handle_conn methods wr lines (w, c))))"
  using keepsD [OF conn_keeps, of "(w, c)" wr lines] by (auto split: prod.splits)

end

text \<open>On a connection that stays open, every line but the blank ones is dispatched in order.\<close>

primrec dispatch_all :: "(string \<times> 'w rpc_method) list \<Rightarrow> wire_line list \<Rightarrow> 'w \<Rightarrow> wire_line list \<times> 'w" where
  "dispatch_all methods [] w = ([], w)"
| "dispatch_all methods (l # ls) w =
     (case handle_request methods l w of (r, w') \<Rightarrow>
        (case dispatch_all methods ls w' of (rs, w'') \<Rightarrow>
           ((case r of Inr (Some resp) \<Rightarrow> resp # rs | _ \<Rightarrow> rs), w'')))"

lemma record_conn:
  assumes "no_exit methods"
  shows "handle_conn methods record_line lines (w, out) =
     (case dispatch_all methods (filter (\<lambda>l. l \<noteq> Blank) lines) w of (rs, w') \<Rightarrow> (Inr (), (w', out @ rs)))"
proof (induction lines arbitrary: w out)
  case (Cons line lines)
  obtain r w' where h: "handle_request methods line w = (Inr r, w')"
    using handle_request_total [OF assms, of line w] by blast
  have "on_conn (record_line x) (w', out) = (Inr (), (w', out @ [x]))" for x
    by (simp add: on_conn_def io_simps record_line_def)
  moreover have "on_backend (handle_request methods line) (w, out) = (Inr r, (w', out))"
    by (simp add: h on_backend_def io_simps)
  ultimately show ?case
    by (cases r) (simp_all add: Cons h io_simps split: prod.splits)
qed (simp add: io_simps)

section \<open>Properties\<close>

text \<open>a connection that stays open gets, in order, the answers of exactly its non-blank lines, each
  dispatched on the state its predecessors left, and no request, however malformed, ends the handler.\<close>

theorem session_in_order:
  assumes "no_exit methods"
  shows "handle_conn methods record_line lines (w, out) =
       (case dispatch_all methods (filter (\<lambda>l. l \<noteq> Blank) lines) w of (rs, w') \<Rightarrow> (Inr (), (w', out @ rs)))"
  by (rule record_conn [OF assms])

text \<open>C15: no sequence of lines, valid or not, on any connection, takes the fake backend out of its
  well-formed states (array shapes, port dictionaries with ports 0 and 1, direction bytes, power
  flags in step).\<close>

theorem fake_session_safe:
  assumes "fake_inv s"
  shows "fake_inv (fst (snd (handle_conn (build_method_table (fake_backend fl)) wr lines (s, c))))"
  by (rule fake_rpc.conn_inv [OF assms])

theorem fake_session_safe_witness:
  "fake_inv (fst (snd (handle_conn (build_method_table (fake_backend (\<lambda>_. None))) record_line
     [Garbage ''{'', request (JInt 1) ''tca.write_port'' [(''addr'', JInt 32), (''port'', JStr ''x''), (''value'', JInt 999)]]
     (fake_init 0, []))))"
  by (rule fake_session_safe [OF fake_init_inv])

text \<open>A broker of one method, for the witnesses.\<close>

definition echo_table :: "(string \<times> nat rpc_method) list" where
  "echo_table = [(''echo'', sig_of [''x''], call1 (\<lambda>x w. if truthy x then (Inr x, w + 1) else (Inl (Exn ValueError ''no''), w + 2)))]"

lemma echo_no_exit: "no_exit echo_table"
proof -
  have "is_exception e" if "fst (call1 (\<lambda>x w. if truthy x then (Inr x, w + 1)
      else (Inl (Exn ValueError ''no''), w + 2)) vs w) = Inl e" for vs e and w :: nat
    using that
    by (cases "(\<lambda>x w. if truthy x then (Inr x, w + 1) else (Inl (Exn ValueError ''no''), w + (2::nat)), vs)"
        rule: call1.cases) (auto simp: raise_def split: if_splits)
  then show ?thesis by (simp add: no_exit_def echo_table_def)
qed

theorem session_in_order_witness:
  "handle_conn echo_table record_line [Blank, request (JInt 1) ''echo'' [(''x'', JInt 5)]] (0, []) =
     (Inr (), (1, [result_line (JInt 1) (JInt 5)]))"
  using session_in_order [OF echo_no_exit, of "[Blank, request (JInt 1) ''echo'' [(''x'', JInt 5)]]" 0 "[]"]
  by (simp add: echo_table_def handle_request_known respond_cases apply_method_def bind_args_def sig_of_def io_simps
      request_def [symmetric] del: handle_conn.simps) (simp add: request_def)

lemma broker_link_request:
  assumes "no_exit methods"
  shows "broker_link methods (request i n kws) w =
     (case handle_request methods (request i n kws) w of (r, w') \<Rightarrow> (r, w'))"
proof -
  obtain r w' where h: "handle_request methods (request i n kws) w = (Inr r, w')"
    using handle_request_total [OF assms] by blast
  have "request i n kws \<noteq> Blank" by (simp add: request_def)
  with h show ?thesis
    by (cases r) (simp_all add: broker_link_def record_conn [OF assms] del: handle_conn.simps)
qed

definition err_text :: "string \<Rightarrow> string \<Rightarrow> string" where
  "err_text code msg = ''['' @ code @ ''] '' @ msg"

text \<open>The client's view of an exception raised in the broker.\<close>

fun client_exn :: "exn \<Rightarrow> exn" where
  "client_exn (RpcErr c m) = Exn RuntimeError (err_text c m)"
| "client_exn (Exn c m) =
     Exn RuntimeError (if c = TypeError then err_text ''invalid_params'' m
                       else err_text ''internal_error'' (exn_name c @ '': '' @ m))"

lemma broker_call_eq:
  assumes "no_exit methods" "map_of methods n = Some (sg, fn)" "bind_args sg kws = Inr vs"
  shows "broker_call (broker_link methods) n kws (w, k) =
     (case fn vs w of
        (Inr r, w') \<Rightarrow> (Inr r, (w', k + 1))
      | (Inl e, w') \<Rightarrow> (Inl (client_exn e), (w', k + 1)))"
proof -
  let ?i = "JInt (k + 1)"
  have h: "handle_request methods (request ?i n kws) w = respond ?i (fn vs) w"
    using assms by (simp add: handle_request_known apply_bound)
  obtain r w' where f: "fn vs w = (r, w')" by force
  have "\<forall>vs w e. fst (fn vs w) = Inl e \<longrightarrow> is_exception e"
    using bspec [OF assms(1) [unfolded no_exit_def] map_of_SomeD [OF assms(2)]] by simp
  with f have ex: "is_exception e" if "r = Inl e" for e
    using that by (metis fst_conv)
  show ?thesis
  proof (cases r)
    case (Inr x)
    with f h show ?thesis
      by (simp add: broker_call_def io_simps on_backend_def broker_link_request [OF assms(1)] respond_cases
          result_line_def get_or_none_def)
  next
    case (Inl e)
    with f h ex show ?thesis
      by (cases e)
        (simp_all add: broker_call_def io_simps on_backend_def broker_link_request [OF assms(1)] respond_cases
          error_line_def get_or_none_def err_text_def)
  qed
qed

text \<open>C14: a call through the client and the broker is the backend's method itself: the same effect on the
  backend, the same result, and a failure arrives as a \<open>RuntimeError\<close> naming the broker's error code;
  the client's request counter grows by one.\<close>

theorem broker_call_refines:
  assumes "no_exit methods" "map_of methods n = Some (sg, fn)" "bind_args sg kws = Inr vs"
  shows "broker_call (broker_link methods) n kws (w, k) =
     (case fn vs w of
        (Inr r, w') \<Rightarrow> (Inr r, (w', k + 1))
      | (Inl e, w') \<Rightarrow> (Inl (client_exn e), (w', k + 1)))"
  by (rule broker_call_eq [OF assms])

theorem broker_call_refines_witness:
  "broker_call (broker_link echo_table) ''echo'' [(''x'', JInt 0)] (0, 4) =
     (Inl (Exn RuntimeError ''[internal_error] ValueError: no''), (2, 5))"
  using broker_call_refines [OF echo_no_exit, of "''echo''" "sig_of [''x'']"
      "call1 (\<lambda>x w. if truthy x then (Inr x, w + 1) else (Inl (Exn ValueError ''no''), w + 2))"
      "[(''x'', JInt 0)]" "[JInt 0]" 0 4]
  by (simp add: echo_table_def bind_args_def sig_of_def err_text_def)

section \<open>The fake backend raises ordinary exceptions only\<close>

definition ordinary :: "'a res \<Rightarrow> bool" where
  "ordinary r \<longleftrightarrow> (\<forall>e. r = Inl e \<longrightarrow> is_exception e)"

definition ordinary_io :: "('w, 'a) io \<Rightarrow> bool" where
  "ordinary_io m \<longleftrightarrow> (\<forall>w. ordinary (fst (m w)))"

lemma ordinary_Inr: "ordinary (Inr x)"
  by (simp add: ordinary_def)

lemma ordinary_rbind: "ordinary r \<Longrightarrow> (\<And>x. ordinary (f x)) \<Longrightarrow> ordinary (rbind r f)"
  by (cases r) (auto simp: ordinary_def)

lemma ordinary_if: "ordinary r \<Longrightarrow> ordinary r' \<Longrightarrow> ordinary (if b then r else r')"
  by simp

lemma ordinary_py:
  "ordinary (as_int what v)" "ordinary (as_num v)" "ordinary (as_float fl v)" "ordinary (as_key v)"
  "ordinary (py_pos xs i)" "ordinary (py_nth xs i)" "ordinary (py_get xs v)" "ordinary (py_index xs v)"
  "ordinary (bit_mask v)" "ordinary (dict_get d v)" "ordinary (check_addr valid what' v)"
proof -
  have nf: "is_exception (not_found w v)" for w and v :: json by (cases v) (simp_all add: type_error_def)
  show int: "ordinary (as_int what v)" for what v by (cases v) (simp_all add: ordinary_def type_error_def)
  show "ordinary (as_num v)" by (cases v) (simp_all add: ordinary_def type_error_def)
  show "ordinary (as_float fl v)" by (cases v) (auto simp: ordinary_def type_error_def split: option.splits)
  show key: "ordinary (as_key v)" for v by (cases v) (simp_all add: ordinary_def type_error_def)
  show pos: "ordinary (py_pos xs i)" for xs :: "'z list" and i by (auto simp: py_pos_def ordinary_def Let_def)
  show "ordinary (py_nth xs i)" for xs :: "'y list"
    unfolding py_nth_def by (intro ordinary_rbind pos ordinary_Inr)
  then show "ordinary (py_get xs v)" for xs :: "'y list"
    unfolding py_get_def py_nth_def by (intro ordinary_rbind int pos ordinary_Inr)
  show "ordinary (py_index xs v)" unfolding py_index_def by (intro ordinary_rbind int pos)
  show "ordinary (bit_mask v)"
    unfolding bit_mask_def by (intro ordinary_rbind int) (simp add: ordinary_def)
  show "ordinary (dict_get d v)"
    unfolding dict_get_def by (intro ordinary_rbind key) (simp add: ordinary_def split: option.split)
  show "ordinary (check_addr valid what' v)"
    unfolding check_addr_def by (intro ordinary_rbind key) (auto simp: ordinary_def nf split: json.split)
qed

lemma ordinary_scan: "ordinary (scan_filter lo hi as)"
  by (induction as) (simp_all add: ordinary_Inr ordinary_rbind ordinary_py)

lemma ordinary_io_bind: "ordinary_io m \<Longrightarrow> (\<And>x. ordinary_io (f x)) \<Longrightarrow> ordinary_io (bind m f)"
  by (auto simp: ordinary_io_def io_simps ordinary_def split: prod.splits sum.splits) (metis fst_conv)

lemma ordinary_io_leaf:
  "ordinary_io (ret x)" "ordinary_io (reads f)" "ordinary_io (modify g)" "ordinary r \<Longrightarrow> ordinary_io (of_res r)"
  by (simp_all add: ordinary_io_def io_simps ordinary_def)

lemma ordinary_fake_parts:
  "ordinary_io fake_tick" "ordinary_io (set_can_mode idx m)" "ordinary_io (set_can_tec idx x)"
  "ordinary_io (set_can_rec idx x)" "ordinary_io (set_port a p x)" "ordinary_io (set_dir a p x)"
  "ordinary_io (check_ina v)" "ordinary_io (check_tca v)"
  unfolding fake_tick_def set_can_mode_def set_can_tec_def set_can_rec_def set_port_def set_dir_def
    check_ina_def check_tca_def
  by (intro ordinary_io_bind ordinary_io_leaf ordinary_py)+

lemmas ordinary_rules = ordinary_io_bind ordinary_io_leaf ordinary_fake_parts ordinary_py ordinary_scan
  ordinary_rbind ordinary_Inr ordinary_if

lemma ordinary_adc_dac:
  "ordinary_io (fake_adc_read a b)"
  "ordinary_io (fake_adc_read_all a)"
  "ordinary_io (fake_adc_read_voltage a b)"
  "ordinary_io (fake_dac_set_voltage fl a b c)"
  "ordinary_io (fake_dac_get_voltage a b)"
  "ordinary_io (fake_dac_read_device_id a)"
  "ordinary_io (fake_dac_reset a)"
  "ordinary_io (fake_dac_zero_all a)"
  unfolding fake_adc_read_def fake_adc_read_all_def fake_adc_read_voltage_def fake_dac_set_voltage_def fake_dac_get_voltage_def fake_dac_read_device_id_def fake_dac_reset_def fake_dac_zero_all_def ticked_def none_def
  by (intro ordinary_rules)+

lemma ordinary_can:
  "ordinary_io (fake_can_set_mode a b)"
  "ordinary_io (fake_can_get_mode a)"
  "ordinary_io (fake_can_read_error_counters a)"
  "ordinary_io (fake_can_status a)"
  "ordinary_io (fake_can_reset a)"
  "ordinary_io (fake_can_init a b)"
  "ordinary_io (fake_can_loopback_test a b c)"
  "ordinary_io (fake_can_int_level a)"
  unfolding fake_can_set_mode_def fake_can_get_mode_def fake_can_read_error_counters_def fake_can_status_def fake_can_reset_def fake_can_init_def fake_can_loopback_test_def fake_can_int_level_def ticked_def none_def
  by (intro ordinary_rules)+

lemma ordinary_ina:
  "ordinary_io (fake_ina_read a)"
  "ordinary_io (fake_ina_is_present a)"
  "ordinary_io (fake_ina_bus_voltage a)"
  "ordinary_io (fake_ina_shunt_voltage a)"
  "ordinary_io (fake_ina_current a)"
  "ordinary_io (fake_ina_power a)"
  "ordinary_io (fake_ina_read_manufacturer_id a)"
  "ordinary_io (fake_ina_read_die_id a)"
  unfolding fake_ina_read_def fake_ina_is_present_def fake_ina_bus_voltage_def fake_ina_shunt_voltage_def fake_ina_current_def fake_ina_power_def fake_ina_read_manufacturer_id_def fake_ina_read_die_id_def ticked_def none_def
  by (intro ordinary_rules)+

lemma ordinary_tca:
  "ordinary_io (fake_tca_read a)"
  "ordinary_io (fake_tca_is_present a)"
  "ordinary_io (fake_tca_read_port a b)"
  "ordinary_io (fake_tca_set_direction a b c)"
  "ordinary_io (fake_tca_get_direction a b)"
  "ordinary_io (fake_tca_set_all_inputs a)"
  "ordinary_io (fake_tca_set_all_outputs a)"
  "ordinary_io (fake_tca_write_port a b c)"
  "ordinary_io (fake_tca_write_all a b c)"
  "ordinary_io (fake_tca_write_pin a b c d)"
  unfolding fake_tca_read_def fake_tca_is_present_def fake_tca_read_port_def fake_tca_set_direction_def fake_tca_get_direction_def fake_tca_set_all_inputs_def fake_tca_set_all_outputs_def fake_tca_write_port_def fake_tca_write_all_def fake_tca_write_pin_def ticked_def none_def
  by (intro ordinary_rules)+

lemma ordinary_rest:
  "ordinary_io (fake_i2c_scan a b)"
  "ordinary_io (fake_nrf_is_present)"
  "ordinary_io (fake_psu_power a)"
  "ordinary_io (fake_psu_status)"
  "ordinary_io (fake_health)"
  unfolding fake_i2c_scan_def fake_nrf_is_present_def fake_psu_power_def fake_psu_status_def fake_health_def ticked_def none_def
  by (intro ordinary_rules)+

lemmas ordinary_fake = ordinary_adc_dac ordinary_can ordinary_ina ordinary_tca ordinary_rest

lemma ordinary_call0: "ordinary_io f \<Longrightarrow> ordinary_io (call0 f vs)"
  by (cases "(f, vs)" rule: call0.cases) (simp_all add: ordinary_io_def ordinary_def io_simps)

lemma ordinary_call1: "(\<And>a. ordinary_io (f a)) \<Longrightarrow> ordinary_io (call1 f vs)"
  by (cases "(f, vs)" rule: call1.cases) (simp_all add: ordinary_io_def ordinary_def io_simps)

lemma ordinary_call2: "(\<And>a b. ordinary_io (f a b)) \<Longrightarrow> ordinary_io (call2 f vs)"
  by (cases "(f, vs)" rule: call2.cases) (simp_all add: ordinary_io_def ordinary_def io_simps)

lemma ordinary_call3: "(\<And>a b c. ordinary_io (f a b c)) \<Longrightarrow> ordinary_io (call3 f vs)"
  by (cases "(f, vs)" rule: call3.cases) (simp_all add: ordinary_io_def ordinary_def io_simps)

lemma ordinary_call4: "(\<And>a b c d. ordinary_io (f a b c d)) \<Longrightarrow> ordinary_io (call4 f vs)"
  by (cases "(f, vs)" rule: call4.cases) (simp_all add: ordinary_io_def ordinary_def io_simps)

lemma fake_ordinary:
  "(n, m) \<in> set (build_method_table (fake_backend fl)) \<Longrightarrow> ordinary_io (snd m vs)"
  by (auto simp: build_method_table_def fake_backend_def
      intro!: ordinary_call0 ordinary_call1 ordinary_call2 ordinary_call3 ordinary_call4 ordinary_fake)

lemma fake_no_exit: "no_exit (build_method_table (fake_backend fl))"
  using fake_ordinary by (fastforce simp: no_exit_def ordinary_io_def ordinary_def)

end
