(* ===== verification/Hardware_Manager.thy ===== *)
theory Hardware_Manager
  imports I2c_Drivers Spi_Drivers Server
begin

text \<open>
  \<^verbatim>\<open>HardwareManager\<close> of \<^verbatim>\<open>broker/bus.py\<close>: the real backend. Its state keeps the operation counter, the
  lazily built DAC drivers, the CAN modes and open buses, and the world of the machine. The
  per-bus locks serialise the methods, which are therefore single steps here. The \<^verbatim>\<open>ip\<close> command, the
  \<^verbatim>\<open>python-can\<close> buses and the device nodes are the record \<open>can_env\<close>. Arguments are dynamically typed
  and coerced where the operators of the code do.
\<close>

record 'w can_env =
  ce_ip_down :: "string \<Rightarrow> ('w, unit) io"
  ce_ip_up :: "string \<Rightarrow> int \<Rightarrow> bool \<Rightarrow> ('w, unit) io"
  ce_ip_show :: "string \<Rightarrow> ('w, wire_line) io"
  ce_bus_open :: "string \<Rightarrow> ('w, nat) io"
  ce_bus_shutdown :: "nat \<Rightarrow> ('w, unit) io"
  ce_bus_send :: "nat \<Rightarrow> int \<Rightarrow> int list \<Rightarrow> ('w, unit) io"
  ce_bus_recv :: "nat \<Rightarrow> ('w, (int \<times> int list) option) io"
  ce_exists :: "string \<Rightarrow> bool"

record 'w hm_state =
  hm_world :: 'w
  hm_started_at :: rat
  hm_op_count :: nat
  hm_adcs :: "spi_dev list"
  hm_dacs :: "spi_dev list option"
  hm_nrf :: spi_dev
  hm_inas :: "(int \<times> ina226) list"
  hm_can_bitrate :: int
  hm_can_mode :: "int list"
  hm_can_buses :: "nat option list"

text \<open>The environment of a manager: hardware, CAN, fuel of the deadline loop, and how \<open>int(s)\<close> reads a
  string.\<close>

record 'w hm_env =
  he_hw :: "'w hw"
  he_can :: "'w can_env"
  he_fuel :: nat
  he_int :: "string \<Rightarrow> int option"

definition on_world :: "('w, 'a) io \<Rightarrow> ('w hm_state, 'a) io" where
  "on_world = zoom hm_world (\<lambda>w s. s\<lparr>hm_world := w\<rparr>)"

definition hm_tick :: "('w hm_state, unit) io" where
  "hm_tick = modify (\<lambda>s. s\<lparr>hm_op_count := hm_op_count s + 1\<rparr>)"

definition hm_none :: "('w hm_state, unit) io \<Rightarrow> ('w hm_state, json) io" where
  "hm_none m = bind m (\<lambda>_. ret JNull)"

definition jint :: "('w hm_state, int) io \<Rightarrow> ('w hm_state, json) io" where
  "jint m = bind m (\<lambda>v. ret (JInt v))"

definition jnum :: "('w hm_state, rat) io \<Rightarrow> ('w hm_state, json) io" where
  "jnum m = bind m (\<lambda>v. ret (JNum v))"

definition jbool :: "('w hm_state, bool) io \<Rightarrow> ('w hm_state, json) io" where
  "jbool m = bind m (\<lambda>v. ret (JBool v))"

section \<open>Construction\<close>

definition DAC_SPIDEV :: "nat list" where "DAC_SPIDEV = [4, 5, 6, 7]"

definition ADC_SPIDEV :: "nat list" where "ADC_SPIDEV = [8, 9, 10]"

definition NRF_SPIDEV :: nat where "NRF_SPIDEV = 11"

definition spidev_paths :: "nat list \<Rightarrow> string list" where
  "spidev_paths devs = map (\<lambda>d. ''/dev/spidev0.'' @ show_int (int d)) devs"

definition kernel_cs_available :: "'w can_env \<Rightarrow> nat list \<Rightarrow> bool" where
  "kernel_cs_available ce devs = list_all (ce_exists ce) (spidev_paths devs)"

definition user_cs_pins :: "'w can_env \<Rightarrow> int list" where
  "user_cs_pins ce =
     (if kernel_cs_available ce DAC_SPIDEV then [] else [22, 23, 24, 25]) @
     (if kernel_cs_available ce ADC_SPIDEV then [] else [19, 20, 21]) @
     (if kernel_cs_available ce [NRF_SPIDEV] then [] else [26])"

definition hm_setup_pins :: "'w hw \<Rightarrow> 'w can_env \<Rightarrow> ('w, unit) io" where
  "hm_setup_pins hw ce =
     bind (for_each (\<lambda>pin. bind (hw_gpio_setup hw pin Output) (\<lambda>_. hw_gpio_out hw pin True))
             (user_cs_pins ce @ [13])) (\<lambda>_.
     bind (hw_gpio_setup hw 12 InputPullUp) (\<lambda>_.
     bind (hw_gpio_setup hw 8 InputPullDown) (\<lambda>_.
     hw_gpio_setup hw 7 (OutputInit False))))"

text \<open>The shared \<^verbatim>\<open>spidev0.3\<close> has handle 3, the node \<^verbatim>\<open>spidev0.n\<close> handle \<open>n\<close>.\<close>

definition adc_devs :: "'w can_env \<Rightarrow> spi_dev list" where
  "adc_devs ce =
     (if kernel_cs_available ce ADC_SPIDEV
      then map (\<lambda>d. \<lparr>sd_handle = d, sd_cs = None\<rparr>) ADC_SPIDEV
      else map (\<lambda>cs. \<lparr>sd_handle = 3, sd_cs = Some cs\<rparr>) [19, 20, 21])"

definition dac_devs :: "'w can_env \<Rightarrow> spi_dev list" where
  "dac_devs ce =
     (if kernel_cs_available ce DAC_SPIDEV
      then map (\<lambda>d. \<lparr>sd_handle = d, sd_cs = None\<rparr>) DAC_SPIDEV
      else map (\<lambda>cs. \<lparr>sd_handle = 3, sd_cs = Some cs\<rparr>) [22, 23, 24, 25])"

definition nrf_dev :: "'w can_env \<Rightarrow> spi_dev" where
  "nrf_dev ce =
     (if kernel_cs_available ce [NRF_SPIDEV] then \<lparr>sd_handle = NRF_SPIDEV, sd_cs = None\<rparr>
      else \<lparr>sd_handle = 3, sd_cs = Some 26\<rparr>)"

definition hm_init :: "'w hm_env \<Rightarrow> ('w, 'w hm_state) io" where
  "hm_init env =
     (let hw = he_hw env; ce = he_can env
      in bind (hw_time hw) (\<lambda>t0.
         bind (hm_setup_pins hw ce) (\<lambda>_.
         bind (map_io (\<lambda>a. ina_new hw a INA226_SHUNT_OHM 3) INA226_ADDRS) (\<lambda>inas.
         bind (nrf_new hw (nrf_dev ce) 13) (\<lambda>nrf. \<lambda>w.
           (Inr \<lparr>hm_world = w, hm_started_at = t0, hm_op_count = 0, hm_adcs = adc_devs ce,
                 hm_dacs = None, hm_nrf = nrf, hm_inas = zip INA226_ADDRS inas,
                 hm_can_bitrate = CAN_BITRATE, hm_can_mode = [0x80, 0x80, 0x80],
                 hm_can_buses = [None, None, None]\<rparr>, w))))))"

definition hm_ensure_dacs :: "'w hm_env \<Rightarrow> ('w hm_state, spi_dev list) io" where
  "hm_ensure_dacs env =
     bind (reads hm_dacs) (\<lambda>d. case d of
        Some ds \<Rightarrow> ret ds
      | None \<Rightarrow>
          bind (on_world (map_io (dac_new (he_hw env)) (dac_devs (he_can env)))) (\<lambda>ds.
          bind (modify (\<lambda>s. s\<lparr>hm_dacs := Some ds\<rparr>)) (\<lambda>_. ret ds)))"

section \<open>ADC and DAC\<close>

text \<open>A channel argument: the drivers compare it before they use it as an integer.\<close>

definition channel_arg :: "int \<Rightarrow> json \<Rightarrow> int res" where
  "channel_arg hi v =
     rbind (as_num v) (\<lambda>r.
       if r < 0 \<or> of_int hi < r
       then Inl (Exn ValueError (''Channel must be 0-'' @ show_int hi)) else as_int ''unsupported operand type(s)'' v)"

definition hm_adc :: "json \<Rightarrow> ('w hm_state, spi_dev) io" where
  "hm_adc idx = bind hm_tick (\<lambda>_. bind (reads hm_adcs) (\<lambda>as. of_res (py_get as idx)))"

definition hm_adc_read :: "'w hm_env \<Rightarrow> json \<Rightarrow> json \<Rightarrow> ('w hm_state, json) io" where
  "hm_adc_read env idx channel =
     bind (hm_adc idx) (\<lambda>d. bind (of_res (channel_arg 7 channel)) (\<lambda>c.
       jint (on_world (mcp3208_read_raw (he_hw env) d c False))))"

definition hm_adc_read_all :: "'w hm_env \<Rightarrow> json \<Rightarrow> ('w hm_state, json) io" where
  "hm_adc_read_all env idx =
     bind (hm_adc idx) (\<lambda>d. bind (on_world (mcp3208_read_all (he_hw env) d)) (\<lambda>vs.
       ret (JList (map JInt vs))))"

definition hm_adc_read_voltage :: "'w hm_env \<Rightarrow> json \<Rightarrow> json \<Rightarrow> ('w hm_state, json) io" where
  "hm_adc_read_voltage env idx channel =
     bind (hm_adc idx) (\<lambda>d. bind (of_res (channel_arg 7 channel)) (\<lambda>c.
       jnum (on_world (mcp3208_read_voltage (he_hw env) d c))))"

definition hm_dac :: "'w hm_env \<Rightarrow> json \<Rightarrow> ('w hm_state, spi_dev) io" where
  "hm_dac env idx = bind (hm_ensure_dacs env) (\<lambda>ds. bind hm_tick (\<lambda>_. of_res (py_get ds idx)))"

definition hm_dac_set_voltage :: "'w hm_env \<Rightarrow> json \<Rightarrow> json \<Rightarrow> json \<Rightarrow> ('w hm_state, json) io" where
  "hm_dac_set_voltage env idx channel volts =
     bind (hm_dac env idx) (\<lambda>d. bind (of_res (channel_arg 3 channel)) (\<lambda>c.
     bind (of_res (as_num volts)) (\<lambda>v.
       hm_none (on_world (dac_set_voltage (he_hw env) d c v)))))"

definition hm_dac_get_voltage :: "'w hm_env \<Rightarrow> json \<Rightarrow> json \<Rightarrow> ('w hm_state, json) io" where
  "hm_dac_get_voltage env idx channel =
     bind (hm_dac env idx) (\<lambda>d. bind (of_res (channel_arg 3 channel)) (\<lambda>c.
       jnum (on_world (dac_get_voltage (he_hw env) d c))))"

definition hm_dac_read_device_id :: "'w hm_env \<Rightarrow> json \<Rightarrow> ('w hm_state, json) io" where
  "hm_dac_read_device_id env idx =
     bind (hm_dac env idx) (\<lambda>d. jint (on_world (dac_read_device_id (he_hw env) d)))"

definition hm_dac_reset :: "'w hm_env \<Rightarrow> json \<Rightarrow> ('w hm_state, json) io" where
  "hm_dac_reset env idx = bind (hm_dac env idx) (\<lambda>d. hm_none (on_world (dac_reset (he_hw env) d)))"

definition hm_dac_zero_all :: "'w hm_env \<Rightarrow> json \<Rightarrow> ('w hm_state, json) io" where
  "hm_dac_zero_all env idx =
     bind (hm_dac env idx) (\<lambda>d. hm_none (on_world (dac_zero_all (he_hw env) d)))"

section \<open>CAN over SocketCAN\<close>

definition MODE_CONFIG :: int where "MODE_CONFIG = 0x80"

definition MODE_NORMAL :: int where "MODE_NORMAL = 0x00"

definition MODE_LOOPBACK :: int where "MODE_LOOPBACK = 0x40"

definition can_name :: "json \<Rightarrow> string" where
  "can_name idx = ''can'' @ py_str idx"

text \<open>\<open>v == i\<close> for an integer \<open>i\<close>.\<close>

definition py_eq_int :: "json \<Rightarrow> int \<Rightarrow> bool" where
  "py_eq_int v i = (as_key v = Inr (JInt i))"

text \<open>\<open>_iproute_show\<close>: the command may fail, its output may be no JSON or an empty list.\<close>

definition iproute_show :: "'w hm_env \<Rightarrow> json \<Rightarrow> ('w hm_state, json) io" where
  "iproute_show env idx =
     bind (on_world (ce_ip_show (he_can env) (can_name idx))) (\<lambda>out.
     bind (of_res (loads out)) (\<lambda>data.
       if \<not> truthy data then raise (Exn RuntimeError (can_name idx @ '': ip link returned no data''))
       else case data of
         JList (x # xs) \<Rightarrow> ret x
       | JObj kvs \<Rightarrow> raise (Exn KeyError ''0'')
       | _ \<Rightarrow> raise (type_error ''object is not subscriptable'' data)))"

definition bus_close :: "'w hm_env \<Rightarrow> json \<Rightarrow> ('w hm_state, nat) io" where
  "bus_close env idx =
     bind (reads hm_can_buses) (\<lambda>bs. bind (of_res (py_index bs idx)) (\<lambda>i.
     case bs ! i of
       None \<Rightarrow> ret i
     | Some b \<Rightarrow>
         bind (try_except (on_world (ce_bus_shutdown (he_can env) b)) is_exception (\<lambda>_. ret ())) (\<lambda>_.
         bind (modify (\<lambda>s. s\<lparr>hm_can_buses := (hm_can_buses s)[i := None]\<rparr>)) (\<lambda>_. ret i))))"

definition ensure_bus :: "'w hm_env \<Rightarrow> json \<Rightarrow> nat \<Rightarrow> ('w hm_state, nat) io" where
  "ensure_bus env idx i =
     bind (reads hm_can_buses) (\<lambda>bs.
     case bs ! i of
       Some b \<Rightarrow> ret b
     | None \<Rightarrow>
         bind (on_world (ce_bus_open (he_can env) (can_name idx))) (\<lambda>b.
         bind (modify (\<lambda>s. s\<lparr>hm_can_buses := (hm_can_buses s)[i := Some b]\<rparr>)) (\<lambda>_. ret b)))"

definition put_mode :: "nat \<Rightarrow> int \<Rightarrow> ('w hm_state, unit) io" where
  "put_mode i m = modify (\<lambda>s. s\<lparr>hm_can_mode := (hm_can_mode s)[i := m]\<rparr>)"

definition ip_down :: "'w hm_env \<Rightarrow> json \<Rightarrow> ('w hm_state, unit) io" where
  "ip_down env idx = on_world (ce_ip_down (he_can env) (can_name idx))"

definition ip_up :: "'w hm_env \<Rightarrow> json \<Rightarrow> bool \<Rightarrow> ('w hm_state, unit) io" where
  "ip_up env idx loopback =
     bind (reads hm_can_bitrate) (\<lambda>br. on_world (ce_ip_up (he_can env) (can_name idx) br loopback))"

definition hm_can_set_mode :: "'w hm_env \<Rightarrow> json \<Rightarrow> json \<Rightarrow> ('w hm_state, json) io" where
  "hm_can_set_mode env idx mode =
     bind hm_tick (\<lambda>_.
       if py_eq_int mode MODE_CONFIG
       then bind (bus_close env idx) (\<lambda>i. bind (ip_down env idx) (\<lambda>_.
            bind (put_mode i MODE_CONFIG) (\<lambda>_. ret (JBool True))))
       else (let loopback = py_eq_int mode MODE_LOOPBACK
             in bind (bus_close env idx) (\<lambda>i. bind (ip_down env idx) (\<lambda>_.
                bind (ip_up env idx loopback) (\<lambda>_.
                bind (put_mode i (if loopback then MODE_LOOPBACK else MODE_NORMAL)) (\<lambda>_.
                ret (JBool True)))))))"

text \<open>\<open>info.get("operstate") == "DOWN"\<close> on what the command printed; anything but an object raises.\<close>

definition link_down :: "json \<Rightarrow> bool res" where
  "link_down info =
     (case info of JObj kvs \<Rightarrow> Inr (get_or_none kvs ''operstate'' = JStr ''DOWN'')
      | _ \<Rightarrow> Inl (Exn Exception ''AttributeError''))"

definition hm_can_get_mode :: "'w hm_env \<Rightarrow> json \<Rightarrow> ('w hm_state, json) io" where
  "hm_can_get_mode env idx =
     bind (try_except
             (bind (iproute_show env idx) (\<lambda>info. of_res (link_down info)))
             is_exception (\<lambda>_. ret True)) (\<lambda>down.
       if down then ret (JInt MODE_CONFIG)
       else bind (reads hm_can_mode) (\<lambda>ms. jint (of_res (py_get ms idx))))"

definition sub_obj :: "(string \<times> json) list \<Rightarrow> string \<Rightarrow> (string \<times> json) list option" where
  "sub_obj kvs k =
     (case map_of kvs k of None \<Rightarrow> Some [] | Some (JObj o') \<Rightarrow> Some o' | Some _ \<Rightarrow> None)"

text \<open>\<open>int(x)\<close>.\<close>

fun py_int :: "(string \<Rightarrow> int option) \<Rightarrow> json \<Rightarrow> int res" where
  "py_int rd (JInt i) = Inr i"
| "py_int rd (JBool b) = Inr (of_bool b)"
| "py_int rd (JNum r) = Inr (if r < 0 then \<lceil>r\<rceil> else \<lfloor>r\<rfloor>)"
| "py_int rd (JStr s) = (case rd s of Some i \<Rightarrow> Inr i
     | None \<Rightarrow> Inl (Exn ValueError (''invalid literal for int(): '' @ s)))"
| "py_int rd v = Inl (type_error ''int() argument must be a string or a number'' v)"

definition counter_of :: "'w hm_env \<Rightarrow> (string \<times> json) list option \<Rightarrow> string \<Rightarrow> int res" where
  "counter_of env berr k =
     (case berr of None \<Rightarrow> Inr 0
      | Some kvs \<Rightarrow> py_int (he_int env) (case map_of kvs k of Some v \<Rightarrow> v | None \<Rightarrow> JInt 0))"

definition hm_can_read_error_counters :: "'w hm_env \<Rightarrow> json \<Rightarrow> ('w hm_state, json) io" where
  "hm_can_read_error_counters env idx =
     bind (try_except (bind (iproute_show env idx) (\<lambda>i. ret (Some i))) is_exception (\<lambda>_. ret None)) (\<lambda>info.
     case info of
       None \<Rightarrow> ret (JList [JInt 0, JInt 0])
     | Some (JObj kvs) \<Rightarrow>
         (let data = (case sub_obj kvs ''linkinfo'' of Some li \<Rightarrow> sub_obj li ''info_data'' | None \<Rightarrow> Some []);
              berr = (case data of Some d \<Rightarrow> sub_obj d ''berr-counter'' | None \<Rightarrow> Some [])
          in bind (of_res (counter_of env berr ''tx'')) (\<lambda>tec.
             bind (of_res (counter_of env berr ''rx'')) (\<lambda>rec'. ret (JList [JInt tec, JInt rec']))))
     | Some _ \<Rightarrow> raise (Exn Exception ''AttributeError''))"

definition hm_can_status :: "'w hm_env \<Rightarrow> json \<Rightarrow> ('w hm_state, json) io" where
  "hm_can_status env idx =
     bind (hm_can_get_mode env idx) (\<lambda>mode.
     bind (hm_can_read_error_counters env idx) (\<lambda>cs.
     case cs of
       JList [tec, rec'] \<Rightarrow> ret (JObj [(''mode'', mode), (''tec'', tec), (''rec'', rec')])
     | _ \<Rightarrow> raise (Exn ValueError ''not enough values to unpack'')))"

definition hm_can_reset :: "'w hm_env \<Rightarrow> json \<Rightarrow> ('w hm_state, json) io" where
  "hm_can_reset env idx =
     bind hm_tick (\<lambda>_. bind (bus_close env idx) (\<lambda>i. bind (ip_down env idx) (\<lambda>_.
       hm_none (put_mode i MODE_CONFIG))))"

definition hm_can_init :: "'w hm_env \<Rightarrow> json \<Rightarrow> json \<Rightarrow> ('w hm_state, json) io" where
  "hm_can_init env idx bitrate =
     bind hm_tick (\<lambda>_. bind (of_res (py_int (he_int env) bitrate)) (\<lambda>br.
     bind (modify (\<lambda>s. s\<lparr>hm_can_bitrate := br\<rparr>)) (\<lambda>_.
     bind (bus_close env idx) (\<lambda>i. bind (ip_down env idx) (\<lambda>_.
     bind (put_mode i MODE_CONFIG) (\<lambda>_. ret (JBool True)))))))"

text \<open>\<open>base64.b64decode\<close>: characters outside the alphabet are dropped, the padding must fit.\<close>

definition b64_alphabet :: string where
  "b64_alphabet = ''ABCDEFGHIJKLMNOPQRSTUVWXYZabcdefghijklmnopqrstuvwxyz0123456789+/''"

definition b64_digit :: "char \<Rightarrow> int option" where
  "b64_digit c = map_of (zip b64_alphabet [0..63]) c"

fun b64_groups :: "int list \<Rightarrow> int list res" where
  "b64_groups (a # b # c # d # r) =
     rbind (b64_groups r) (\<lambda>bs. Inr ([a * 4 + b div 16, b mod 16 * 16 + c div 4, c mod 4 * 64 + d] @ bs))"
| "b64_groups [a, b, c] = Inr [a * 4 + b div 16, b mod 16 * 16 + c div 4]"
| "b64_groups [a, b] = Inr [a * 4 + b div 16]"
| "b64_groups [a] = Inl (Exn ValueError ''Invalid base64-encoded string'')"
| "b64_groups [] = Inr []"

definition b64decode :: "string \<Rightarrow> int list res" where
  "b64decode s =
     (let cs = filter (\<lambda>c. c \<in> set b64_alphabet \<or> c = CHR ''='') s;
          body = takeWhile (\<lambda>c. c \<noteq> CHR ''='') cs; pad = length (takeWhile (\<lambda>c. c = CHR ''='') (drop (length body) cs))
      in if length body mod 4 \<noteq> 0 \<and> length body mod 4 + pad < 4
         then Inl (Exn ValueError ''Incorrect padding'')
         else b64_groups (map (\<lambda>c. case b64_digit c of Some v \<Rightarrow> v | None \<Rightarrow> 0) body))"

definition b64_arg :: "json \<Rightarrow> int list res" where
  "b64_arg v = (case v of JStr s \<Rightarrow> b64decode s | _ \<Rightarrow> Inl (type_error ''argument should be a bytes-like object or ASCII string'' v))"

definition hm_can_loopback_test :: "'w hm_env \<Rightarrow> json \<Rightarrow> json \<Rightarrow> json \<Rightarrow> ('w hm_state, json) io" where
  "hm_can_loopback_test env idx can_id data_b64 =
     bind (of_res (b64_arg data_b64)) (\<lambda>data.
     bind hm_tick (\<lambda>_.
     bind (bus_close env idx) (\<lambda>i. bind (ip_down env idx) (\<lambda>_.
     bind (ip_up env idx True) (\<lambda>_. bind (put_mode i MODE_LOOPBACK) (\<lambda>_.
     bind (ensure_bus env idx i) (\<lambda>b.
     bind (of_res (as_int ''arbitration_id'' can_id)) (\<lambda>cid.
     bind (on_world (ce_bus_send (he_can env) b cid data)) (\<lambda>_.
     bind (on_world (ce_bus_recv (he_can env) b)) (\<lambda>rx.
     case rx of
       None \<Rightarrow> ret (JBool False)
     | Some (rid, rdata) \<Rightarrow> ret (JBool (rid = cid \<and> rdata = data))))))))))))"

definition hm_can_int_level :: "'w hm_env \<Rightarrow> json \<Rightarrow> ('w hm_state, json) io" where
  "hm_can_int_level env idx =
     bind (try_except (bind (iproute_show env idx) (\<lambda>i. ret (Some i))) is_exception (\<lambda>_. ret None)) (\<lambda>info.
     case info of
       None \<Rightarrow> ret (JInt 1)
     | Some i \<Rightarrow> bind (of_res (link_down i)) (\<lambda>down. ret (JInt (if down then 0 else 1))))"

section \<open>INA226 and TCA9555\<close>

text \<open>\<open>self._inas[addr]\<close> and \<open>self._tcas[addr]\<close>.\<close>

definition hm_ina :: "json \<Rightarrow> ('w hm_state, ina226) io" where
  "hm_ina addr =
     bind hm_tick (\<lambda>_. bind (reads hm_inas) (\<lambda>ds. of_res (rbind (as_key addr) (\<lambda>k.
       case k of
         JInt a \<Rightarrow> (case map_of ds a of Some d \<Rightarrow> Inr d | None \<Rightarrow> Inl (Exn KeyError (show_int a)))
       | _ \<Rightarrow> Inl (Exn KeyError (py_str k))))))"

definition hm_tca :: "json \<Rightarrow> ('w hm_state, int) io" where
  "hm_tca addr =
     bind hm_tick (\<lambda>_. of_res (rbind (as_key addr) (\<lambda>k.
       case k of
         JInt a \<Rightarrow> if a \<in> set TCA9555_ADDRS then Inr a else Inl (Exn KeyError (show_int a))
       | _ \<Rightarrow> Inl (Exn KeyError (py_str k)))))"

definition hm_ina_read :: "'w hm_env \<Rightarrow> json \<Rightarrow> ('w hm_state, json) io" where
  "hm_ina_read env addr =
     bind (hm_ina addr) (\<lambda>d. bind (on_world (ina_take_snapshot (he_hw env) d)) (\<lambda>s.
       ret (JObj [(''bus_voltage_V'', JNum (isn_bus_voltage_V s)),
                  (''shunt_voltage_V'', JNum (isn_shunt_voltage_V s)),
                  (''current_A'', JNum (isn_current_A s)), (''power_W'', JNum (isn_power_W s))])))"

definition hm_ina_is_present :: "'w hm_env \<Rightarrow> json \<Rightarrow> ('w hm_state, json) io" where
  "hm_ina_is_present env addr = bind (hm_ina addr) (\<lambda>d. jbool (on_world (ina_is_present (he_hw env) d)))"

definition hm_ina_bus_voltage :: "'w hm_env \<Rightarrow> json \<Rightarrow> ('w hm_state, json) io" where
  "hm_ina_bus_voltage env addr = bind (hm_ina addr) (\<lambda>d. jnum (on_world (ina_bus_voltage (he_hw env) d)))"

definition hm_ina_shunt_voltage :: "'w hm_env \<Rightarrow> json \<Rightarrow> ('w hm_state, json) io" where
  "hm_ina_shunt_voltage env addr = bind (hm_ina addr) (\<lambda>d. jnum (on_world (ina_shunt_voltage (he_hw env) d)))"

definition hm_ina_current :: "'w hm_env \<Rightarrow> json \<Rightarrow> ('w hm_state, json) io" where
  "hm_ina_current env addr = bind (hm_ina addr) (\<lambda>d. jnum (on_world (ina_current (he_hw env) d)))"

definition hm_ina_power :: "'w hm_env \<Rightarrow> json \<Rightarrow> ('w hm_state, json) io" where
  "hm_ina_power env addr = bind (hm_ina addr) (\<lambda>d. jnum (on_world (ina_power (he_hw env) d)))"

definition hm_ina_read_manufacturer_id :: "'w hm_env \<Rightarrow> json \<Rightarrow> ('w hm_state, json) io" where
  "hm_ina_read_manufacturer_id env addr =
     bind (hm_ina addr) (\<lambda>d. jint (on_world (ina_read_manufacturer_id (he_hw env) d)))"

definition hm_ina_read_die_id :: "'w hm_env \<Rightarrow> json \<Rightarrow> ('w hm_state, json) io" where
  "hm_ina_read_die_id env addr = bind (hm_ina addr) (\<lambda>d. jint (on_world (ina_read_die_id (he_hw env) d)))"

text \<open>A port argument is only compared with 0; the other arguments reach the bus through \<open>& 0xFF\<close>.\<close>

definition port_arg :: "json \<Rightarrow> int" where
  "port_arg v = (if py_eq_int v 0 then 0 else 1)"

definition byte_arg :: "json \<Rightarrow> ('w hm_state, int) io" where
  "byte_arg v = of_res (as_int ''unsupported operand type(s) for &'' v)"

definition hm_tca_read :: "'w hm_env \<Rightarrow> json \<Rightarrow> ('w hm_state, json) io" where
  "hm_tca_read env addr =
     bind (hm_tca addr) (\<lambda>a. bind (on_world (tca_read_all (he_hw env) a)) (\<lambda>s.
       ret (JObj [(''input_port0'', JInt (tsn_input_port0 s)), (''input_port1'', JInt (tsn_input_port1 s)),
                  (''output_port0'', JInt (tsn_output_port0 s)), (''output_port1'', JInt (tsn_output_port1 s)),
                  (''config_port0'', JInt (tsn_config_port0 s)), (''config_port1'', JInt (tsn_config_port1 s))])))"

definition hm_tca_is_present :: "'w hm_env \<Rightarrow> json \<Rightarrow> ('w hm_state, json) io" where
  "hm_tca_is_present env addr = bind (hm_tca addr) (\<lambda>a. jbool (on_world (tca_is_present (he_hw env) a)))"

definition hm_tca_read_port :: "'w hm_env \<Rightarrow> json \<Rightarrow> json \<Rightarrow> ('w hm_state, json) io" where
  "hm_tca_read_port env addr port =
     bind (hm_tca addr) (\<lambda>a. jint (on_world (tca_read_port (he_hw env) a (port_arg port))))"

definition hm_tca_set_direction :: "'w hm_env \<Rightarrow> json \<Rightarrow> json \<Rightarrow> json \<Rightarrow> ('w hm_state, json) io" where
  "hm_tca_set_direction env addr port msk =
     bind (hm_tca addr) (\<lambda>a. bind (byte_arg msk) (\<lambda>m.
       hm_none (on_world (tca_set_direction (he_hw env) a (port_arg port) m))))"

definition hm_tca_get_direction :: "'w hm_env \<Rightarrow> json \<Rightarrow> json \<Rightarrow> ('w hm_state, json) io" where
  "hm_tca_get_direction env addr port =
     bind (hm_tca addr) (\<lambda>a. jint (on_world (tca_get_direction (he_hw env) a (port_arg port))))"

definition hm_tca_set_all_inputs :: "'w hm_env \<Rightarrow> json \<Rightarrow> ('w hm_state, json) io" where
  "hm_tca_set_all_inputs env addr =
     bind (hm_tca addr) (\<lambda>a. hm_none (on_world (tca_set_all_inputs (he_hw env) a)))"

definition hm_tca_set_all_outputs :: "'w hm_env \<Rightarrow> json \<Rightarrow> ('w hm_state, json) io" where
  "hm_tca_set_all_outputs env addr =
     bind (hm_tca addr) (\<lambda>a. hm_none (on_world (tca_set_all_outputs (he_hw env) a)))"

definition hm_tca_write_port :: "'w hm_env \<Rightarrow> json \<Rightarrow> json \<Rightarrow> json \<Rightarrow> ('w hm_state, json) io" where
  "hm_tca_write_port env addr port val =
     bind (hm_tca addr) (\<lambda>a. bind (byte_arg val) (\<lambda>v.
       hm_none (on_world (tca_write_port (he_hw env) a (port_arg port) v))))"

text \<open>The first port is written before the second value is looked at.\<close>

definition hm_tca_write_all :: "'w hm_env \<Rightarrow> json \<Rightarrow> json \<Rightarrow> json \<Rightarrow> ('w hm_state, json) io" where
  "hm_tca_write_all env addr p0 p1 =
     bind (hm_tca addr) (\<lambda>a. bind (byte_arg p0) (\<lambda>v0.
     bind (on_world (tca_wr (he_hw env) a 0x02 v0)) (\<lambda>_.
     bind (byte_arg p1) (\<lambda>v1. hm_none (on_world (tca_wr (he_hw env) a 0x03 v1))))))"

text \<open>The latch is read before the pin number is looked at.\<close>

definition hm_tca_write_pin :: "'w hm_env \<Rightarrow> json \<Rightarrow> json \<Rightarrow> json \<Rightarrow> json \<Rightarrow> ('w hm_state, json) io" where
  "hm_tca_write_pin env addr port pin val =
     bind (hm_tca addr) (\<lambda>a.
     case as_int ''unsupported operand type(s) for <<'' pin of
       Inl e \<Rightarrow> bind (on_world (tca_rd (he_hw env) a (if port_arg port = 0 then 0x02 else 0x03))) (\<lambda>_. raise e)
     | Inr k \<Rightarrow> hm_none (on_world (tca_write_pin (he_hw env) a (port_arg port) k (truthy val))))"

section \<open>Scan, radio, power supply, health\<close>

primrec scan_from :: "'w hw \<Rightarrow> int list \<Rightarrow> ('w, int list) io" where
  "scan_from hw [] = ret []"
| "scan_from hw (a # as) =
     bind (try_except (bind (hw_i2c_probe hw a) (\<lambda>_. ret [a])) is_os_error (\<lambda>_. ret [])) (\<lambda>f.
     bind (scan_from hw as) (\<lambda>fs. ret (f @ fs)))"

definition hm_i2c_scan :: "'w hm_env \<Rightarrow> json \<Rightarrow> json \<Rightarrow> ('w hm_state, json) io" where
  "hm_i2c_scan env lo hi =
     bind hm_tick (\<lambda>_.
     bind (of_res (as_int ''cannot be interpreted as an integer'' lo)) (\<lambda>l.
     bind (of_res (as_int ''cannot be interpreted as an integer'' hi)) (\<lambda>h.
     bind (on_world (scan_from (he_hw env) [l..h - 1])) (\<lambda>found. ret (JList (map JInt found))))))"

definition hm_nrf_is_present :: "'w hm_env \<Rightarrow> ('w hm_state, json) io" where
  "hm_nrf_is_present env =
     bind hm_tick (\<lambda>_. bind (reads hm_nrf) (\<lambda>d. jbool (on_world (nrf_is_present (he_hw env) d))))"

definition psu_status_unlocked :: "'w hm_env \<Rightarrow> ('w hm_state, json) io" where
  "psu_status_unlocked env =
     bind (on_world (hw_gpio_in (he_hw env) 7)) (\<lambda>on. bind (on_world (hw_gpio_in (he_hw env) 8)) (\<lambda>ok.
       ret (JObj [(''ps_on'', JBool (\<not> on)), (''pwr_ok'', JBool ok)])))"

definition hm_psu_status :: "'w hm_env \<Rightarrow> ('w hm_state, json) io" where
  "hm_psu_status env = psu_status_unlocked env"

text \<open>The wait of at most five seconds for \<open>PWR_OK\<close>; running out of fuel raises, and
  \<open>psu_wait_returns\<close> shows when it cannot.\<close>

definition psu_wait :: "'w hw \<Rightarrow> nat \<Rightarrow> ('w, unit) io" where
  "psu_wait hw n =
     bind (hw_time hw) (\<lambda>t.
     bind (poll n (hw_time hw) (t + 5) (hw_gpio_in hw 8) (hw_sleep hw (5 / 100))) (\<lambda>r.
       if r = None then raise (Exn Exception ''out of fuel'') else ret ()))"

definition hm_psu_power :: "'w hm_env \<Rightarrow> json \<Rightarrow> ('w hm_state, json) io" where
  "hm_psu_power env on =
     bind hm_tick (\<lambda>_.
     bind (on_world (hw_gpio_out (he_hw env) 7 (\<not> truthy on))) (\<lambda>_.
     bind (whenever (truthy on) (on_world (psu_wait (he_hw env) (he_fuel env)))) (\<lambda>_.
     psu_status_unlocked env)))"

definition hm_health :: "'w hm_env \<Rightarrow> ('w hm_state, json) io" where
  "hm_health env =
     bind (on_world (hw_time (he_hw env))) (\<lambda>t. reads (\<lambda>s.
       JObj [(''uptime_s'', JNum (t - hm_started_at s)), (''op_count'', JInt (int (hm_op_count s))),
             (''last_error'', JNull)]))"

section \<open>As a backend\<close>

definition hm_backend :: "'w hm_env \<Rightarrow> 'w hm_state backend" where
  "hm_backend env =
     \<lparr>be_adc_read = hm_adc_read env,
      be_adc_read_all = hm_adc_read_all env,
      be_adc_read_voltage = hm_adc_read_voltage env,
      be_dac_set_voltage = hm_dac_set_voltage env,
      be_dac_get_voltage = hm_dac_get_voltage env,
      be_dac_read_device_id = hm_dac_read_device_id env,
      be_dac_reset = hm_dac_reset env,
      be_dac_zero_all = hm_dac_zero_all env,
      be_can_set_mode = hm_can_set_mode env,
      be_can_get_mode = hm_can_get_mode env,
      be_can_read_error_counters = hm_can_read_error_counters env,
      be_can_status = hm_can_status env,
      be_can_reset = hm_can_reset env,
      be_can_init = hm_can_init env,
      be_can_loopback_test = hm_can_loopback_test env,
      be_can_int_level = hm_can_int_level env,
      be_ina_read = hm_ina_read env,
      be_ina_is_present = hm_ina_is_present env,
      be_ina_bus_voltage = hm_ina_bus_voltage env,
      be_ina_shunt_voltage = hm_ina_shunt_voltage env,
      be_ina_current = hm_ina_current env,
      be_ina_power = hm_ina_power env,
      be_ina_read_manufacturer_id = hm_ina_read_manufacturer_id env,
      be_ina_read_die_id = hm_ina_read_die_id env,
      be_tca_read = hm_tca_read env,
      be_tca_is_present = hm_tca_is_present env,
      be_tca_read_port = hm_tca_read_port env,
      be_tca_set_direction = hm_tca_set_direction env,
      be_tca_get_direction = hm_tca_get_direction env,
      be_tca_set_all_inputs = hm_tca_set_all_inputs env,
      be_tca_set_all_outputs = hm_tca_set_all_outputs env,
      be_tca_write_port = hm_tca_write_port env,
      be_tca_write_all = hm_tca_write_all env,
      be_tca_write_pin = hm_tca_write_pin env,
      be_i2c_scan = hm_i2c_scan env,
      be_nrf_is_present = hm_nrf_is_present env,
      be_psu_power = hm_psu_power env,
      be_psu_status = hm_psu_status env,
      be_health = hm_health env\<rparr>"

section \<open>The invariant of the manager\<close>

definition can_modes :: "int set" where
  "can_modes = {MODE_CONFIG, MODE_NORMAL, MODE_LOOPBACK}"

definition hm_inv :: "'w hm_state \<Rightarrow> bool" where
  "hm_inv s \<longleftrightarrow> length (hm_can_mode s) = 3 \<and> set (hm_can_mode s) \<subseteq> can_modes \<and> length (hm_can_buses s) = 3"

lemma keeps_on_world [keeps_intros]: "keeps hm_inv (on_world m)"
  by (auto simp: keeps_def on_world_def io_simps hm_inv_def split: prod.splits)

lemma keeps_hm_updates [keeps_intros]:
  "keeps hm_inv hm_tick"
  "keeps hm_inv (modify (\<lambda>s. s\<lparr>hm_dacs := Some ds\<rparr>))"
  "keeps hm_inv (modify (\<lambda>s. s\<lparr>hm_can_bitrate := br\<rparr>))"
  "keeps hm_inv (modify (\<lambda>s. s\<lparr>hm_can_buses := (hm_can_buses s)[i := b]\<rparr>))"
  unfolding hm_tick_def by (rule keeps_modify; simp add: hm_inv_def)+

lemma keeps_put_mode: "m \<in> can_modes \<Longrightarrow> keeps hm_inv (put_mode i m)"
  unfolding put_mode_def
  by (rule keeps_modify) (auto simp: hm_inv_def dest: set_update_subset_insert [THEN subsetD])

lemma keeps_put_modes [keeps_intros]:
  "keeps hm_inv (put_mode i MODE_CONFIG)" "keeps hm_inv (put_mode i MODE_NORMAL)" "keeps hm_inv (put_mode i MODE_LOOPBACK)"
  "keeps hm_inv (put_mode i (if b then MODE_LOOPBACK else MODE_NORMAL))"
  by (rule keeps_put_mode; simp add: can_modes_def)+

lemma keeps_wraps [keeps_intros]:
  "keeps hm_inv u \<Longrightarrow> keeps hm_inv (hm_none u)" "keeps hm_inv i \<Longrightarrow> keeps hm_inv (jint i)"
  "keeps hm_inv r \<Longrightarrow> keeps hm_inv (jnum r)" "keeps hm_inv b \<Longrightarrow> keeps hm_inv (jbool b)"
  unfolding hm_none_def jint_def jnum_def jbool_def by (intro keeps_intros; assumption)+

lemma keeps_cases [keeps_intros]:
  "keeps I n \<Longrightarrow> (\<And>x. keeps I (f x)) \<Longrightarrow> keeps I (case v of None \<Rightarrow> n | Some x \<Rightarrow> f x)"
  "(\<And>x. keeps I (g x)) \<Longrightarrow> (\<And>y. keeps I (h y)) \<Longrightarrow> keeps I (case q of Inl x \<Rightarrow> g x | Inr y \<Rightarrow> h y)"
  "(\<And>a b. keeps I (p a b)) \<Longrightarrow> keeps I (case z of (a, b) \<Rightarrow> p a b)"
  by (simp_all split: option.split sum.split prod.split)

lemma keeps_hm_parts [keeps_intros]:
  "keeps hm_inv (hm_ensure_dacs env)" "keeps hm_inv (hm_adc idx)" "keeps hm_inv (hm_dac env idx)"
  "keeps hm_inv (iproute_show env idx)" "keeps hm_inv (bus_close env idx)"
  "keeps hm_inv (ensure_bus env idx i)" "keeps hm_inv (ip_down env idx)" "keeps hm_inv (ip_up env idx b)"
  "keeps hm_inv (hm_ina idx)" "keeps hm_inv (hm_tca idx)" "keeps hm_inv (byte_arg v)"
  "keeps hm_inv (psu_status_unlocked env)"
proof -
  show e: "keeps hm_inv (hm_ensure_dacs env)" unfolding hm_ensure_dacs_def by (intro keeps_intros)
  show "keeps hm_inv (hm_adc idx)" unfolding hm_adc_def by (intro keeps_intros)
  show "keeps hm_inv (hm_dac env idx)" unfolding hm_dac_def by (intro keeps_intros e)
  show "keeps hm_inv (iproute_show env idx)"
    unfolding iproute_show_def by (intro keeps_intros) (auto split: json.split list.split intro!: keeps_intros)
  show "keeps hm_inv (bus_close env idx)" unfolding bus_close_def by (intro keeps_intros)
  show "keeps hm_inv (ensure_bus env idx i)" unfolding ensure_bus_def by (intro keeps_intros)
  show "keeps hm_inv (ip_down env idx)" unfolding ip_down_def by (intro keeps_intros)
  show "keeps hm_inv (ip_up env idx b)" unfolding ip_up_def by (intro keeps_intros)
  show "keeps hm_inv (hm_ina idx)" unfolding hm_ina_def by (intro keeps_intros)
  show "keeps hm_inv (hm_tca idx)" unfolding hm_tca_def by (intro keeps_intros)
  show "keeps hm_inv (byte_arg v)" unfolding byte_arg_def by (intro keeps_intros)
  show "keeps hm_inv (psu_status_unlocked env)" unfolding psu_status_unlocked_def by (intro keeps_intros)
qed

lemma keeps_hm_adc_dac:
  "keeps hm_inv (hm_adc_read env a b)"
  "keeps hm_inv (hm_adc_read_all env a)"
  "keeps hm_inv (hm_adc_read_voltage env a b)"
  "keeps hm_inv (hm_dac_set_voltage env a b c)"
  "keeps hm_inv (hm_dac_get_voltage env a b)"
  "keeps hm_inv (hm_dac_read_device_id env a)"
  "keeps hm_inv (hm_dac_reset env a)"
  "keeps hm_inv (hm_dac_zero_all env a)"
  unfolding hm_adc_read_def hm_adc_read_all_def hm_adc_read_voltage_def hm_dac_set_voltage_def hm_dac_get_voltage_def hm_dac_read_device_id_def hm_dac_reset_def hm_dac_zero_all_def
  by (intro keeps_intros)+

lemma keeps_hm_ina:
  "keeps hm_inv (hm_ina_read env a)"
  "keeps hm_inv (hm_ina_is_present env a)"
  "keeps hm_inv (hm_ina_bus_voltage env a)"
  "keeps hm_inv (hm_ina_shunt_voltage env a)"
  "keeps hm_inv (hm_ina_current env a)"
  "keeps hm_inv (hm_ina_power env a)"
  "keeps hm_inv (hm_ina_read_manufacturer_id env a)"
  "keeps hm_inv (hm_ina_read_die_id env a)"
  unfolding hm_ina_read_def hm_ina_is_present_def hm_ina_bus_voltage_def hm_ina_shunt_voltage_def hm_ina_current_def hm_ina_power_def hm_ina_read_manufacturer_id_def hm_ina_read_die_id_def
  by (intro keeps_intros)+

lemma keeps_hm_tca:
  "keeps hm_inv (hm_tca_read env a)"
  "keeps hm_inv (hm_tca_is_present env a)"
  "keeps hm_inv (hm_tca_read_port env a b)"
  "keeps hm_inv (hm_tca_set_direction env a b c)"
  "keeps hm_inv (hm_tca_get_direction env a b)"
  "keeps hm_inv (hm_tca_set_all_inputs env a)"
  "keeps hm_inv (hm_tca_set_all_outputs env a)"
  "keeps hm_inv (hm_tca_write_port env a b c)"
  "keeps hm_inv (hm_tca_write_all env a b c)"
  "keeps hm_inv (hm_tca_write_pin env a b c d)"
  unfolding hm_tca_read_def hm_tca_is_present_def hm_tca_read_port_def hm_tca_set_direction_def hm_tca_get_direction_def hm_tca_set_all_inputs_def hm_tca_set_all_outputs_def hm_tca_write_port_def hm_tca_write_all_def hm_tca_write_pin_def
  by (intro keeps_intros)+

lemma keeps_hm_rest:
  "keeps hm_inv (hm_i2c_scan env a b)"
  "keeps hm_inv (hm_nrf_is_present env)"
  "keeps hm_inv (hm_psu_power env a)"
  "keeps hm_inv (hm_psu_status env)"
  "keeps hm_inv (hm_health env)"
  unfolding hm_i2c_scan_def hm_nrf_is_present_def hm_psu_power_def hm_psu_status_def hm_health_def
  by (intro keeps_intros)+

lemma keeps_hm_can:
  "keeps hm_inv (hm_can_set_mode env a b)"
  "keeps hm_inv (hm_can_get_mode env a)"
  "keeps hm_inv (hm_can_read_error_counters env a)"
  "keeps hm_inv (hm_can_reset env a)"
  "keeps hm_inv (hm_can_init env a b)"
  "keeps hm_inv (hm_can_loopback_test env a b c)"
  "keeps hm_inv (hm_can_int_level env a)"
  unfolding hm_can_set_mode_def hm_can_get_mode_def hm_can_read_error_counters_def hm_can_reset_def hm_can_init_def hm_can_loopback_test_def hm_can_int_level_def Let_def
  by (auto intro!: keeps_intros split: json.split)

lemma keeps_hm_can_status: "keeps hm_inv (hm_can_status env a)"
  unfolding hm_can_status_def
  by (auto intro!: keeps_bind keeps_hm_can keeps_ret keeps_raise split: json.split list.split)

interpretation hm_rpc: rpc_service "build_method_table (hm_backend env)" hm_inv for env
  by unfold_locales
    (auto simp: build_method_table_def hm_backend_def
      intro!: keeps_calls keeps_hm_adc_dac keeps_hm_can keeps_hm_can_status keeps_hm_ina keeps_hm_tca keeps_hm_rest)

lemma get_mode_range:
  assumes "hm_inv s" "fst (hm_can_get_mode env idx s) = Inr r"
  shows "\<exists>m\<in>can_modes. r = JInt m"
proof -
  let ?test = "try_except (bind (iproute_show env idx) (\<lambda>info. of_res (link_down info))) is_exception (\<lambda>_. ret True)"
  obtain d s1 where t: "?test s = (d, s1)" by force
  have "keeps hm_inv ?test" by (intro keeps_intros)
  with assms(1) t have inv: "hm_inv s1" by (metis keepsD snd_conv)
  have nth: "ms ! k \<in> can_modes" if "set ms \<subseteq> can_modes" "k < length ms" for ms k
    using that by auto
  have c: "MODE_CONFIG \<in> can_modes" by (simp add: can_modes_def)
  show ?thesis
    using assms(2) t inv c
    by (auto simp: hm_can_get_mode_def bind_def ret_def reads_def of_res_def jint_def py_get_index rbind_Inr_iff
        hm_inv_def dest!: py_index_lt split: sum.splits if_splits intro: nth)
qed

text \<open>through any session of requests the real backend keeps every CAN mode at one of configuration,
  normal and loopback, so a mode query that returns gives one of these three bytes, whatever value
  was asked for.\<close>

theorem hm_modes_normalised:
  assumes "hm_inv s" "handle_conn (build_method_table (hm_backend env)) wr lines (s, c) = (r, (s', c'))"
    and "fst (hm_can_get_mode env idx s') = Inr v"
  shows "v \<in> {JInt 0x80, JInt 0x00, JInt 0x40}"
proof -
  have "hm_inv s'" using hm_rpc.conn_inv [OF assms(1), of env wr lines c] assms(2) by simp
  from get_mode_range [OF this assms(3)] show ?thesis
    by (auto simp: can_modes_def MODE_CONFIG_def MODE_NORMAL_def MODE_LOOPBACK_def)
qed

text \<open>the fake backend differs there: it stores whatever mode value the request carries and reports it
  back unchanged.\<close>

theorem fake_modes_raw:
  assumes "fake_inv s" "i < 3"
  shows "fst (fake_can_get_mode (JInt (int i)) (snd (fake_can_set_mode (JInt (int i)) m s))) = Inr m"
proof -
  have "i < length (fk_can_mode s)" using assms by (simp add: fake_inv_def)
  then show ?thesis
    by (simp add: fake_can_get_mode_def fake_can_set_mode_def ticked_def fake_tick_def set_can_mode_def
        io_simps py_get_index)
qed

text \<open>writing a pin beyond the eighth leaves the real expander's latch alone, because the driver masks
  the byte, while the fake port takes the bit in.\<close>

theorem pin_beyond_port:
  assumes "tca_chip hw regs A" "a \<in> A" "8 \<le> k" "fake_inv s" "b \<in> set TCA9555_ADDRS" "p \<in> {0, 1}"
  shows "tca_latch regs (snd (tca_write_pin hw a p (int k) True w)) (a, p) = tca_latch regs w (a, p) \<and>
     bit (fake_port (fake_write (b, p) k True s) (b, p)) k"
proof
  have "is_byte (tca_latch regs w (a, p))"
    using assms(1,2) by (auto simp: tca_chip_def tca_latch_def)
  then have m: "tca_latch regs w (a, p) mod 256 = tca_latch regs w (a, p)" by (simp add: is_byte_def)
  have "(x OR push_bit k 1) AND 255 = x AND (255 :: int)" for x
  proof (rule bit_eqI)
    fix n show "bit ((x OR push_bit k 1) AND 255) n \<longleftrightarrow> bit (x AND 255) n"
    proof (cases "n = k")
      case True
      have "\<not> bit (255 :: int) k"
        using bit_take_bit_iff [of 8 "- 1 :: int" k] assms(3) by (simp add: take_bit_minus_one_eq_mask mask_eq_exp_minus_1)
      with True show ?thesis by (simp add: bit_simps)
    qed (simp add: bit_simps)
  qed
  with m show "tca_latch regs (snd (tca_write_pin hw a p (int k) True w)) (a, p) = tca_latch regs w (a, p)"
    using tca_write_pin_latch [OF assms(1,2,6,2,6), of k True w] by (simp add: and_mask_255)
  show "bit (fake_port (fake_write (b, p) k True s) (b, p)) k"
    using assms(4-6) by (simp add: fake_port_write bit_simps)
qed

lemma poll_no_raise:
  assumes "\<forall>w. \<exists>t. time w = (Inr t, w)" "\<forall>w. \<exists>b. fst (test w) = Inr b" "\<forall>w. fst (wait w) = Inr ()"
  shows "\<exists>r. fst (poll n time deadline test wait w) = Inr r"
proof (induction n arbitrary: w)
  case (Suc n)
  obtain t where t: "time w = (Inr t, w)" using assms(1) by blast
  obtain b w1 where b: "test w = (Inr b, w1)" using assms(2) by (metis prod.collapse)
  obtain w2 where w2: "wait w1 = (Inr (), w2)" using assms(3) by (metis prod.collapse)
  from Suc [of w2] t b w2 show ?case by (simp add: io_simps)
qed (simp add: io_simps)

text \<open>the wait for \<open>PWR_OK\<close> ends: if reading the pin and sleeping do not raise, the clock only moves
  forward and every wait advances it by at least 50 ms, 101 rounds of fuel cover the five seconds.\<close>

theorem psu_wait_returns:
  assumes "clock_ok clk (hw_time hw) (hw_gpio_in hw 8) (hw_sleep hw (5 / 100)) (5 / 100)" "101 \<le> n"
    and "\<forall>w. \<exists>b. fst (hw_gpio_in hw 8 w) = Inr b" "\<forall>w. fst (hw_sleep hw (5 / 100) w) = Inr ()"
  shows "fst (psu_wait hw n w) = Inr ()"
proof -
  have time: "\<forall>w. \<exists>t. hw_time hw w = (Inr t, w)" "hw_time hw w = (Inr (clk w), w)"
    using assms(1) by (auto simp: clock_ok_def)
  obtain m where m: "n = Suc m" "100 \<le> m" using assms(2) by (cases n) auto
  have "(clk w + 5) - clk w \<le> of_nat m * (5 / 100)"
    using m(2) by (simp add: field_simps)
  from poll_returns [OF assms(1) _ this]
  have "fst (poll n (hw_time hw) (clk w + 5) (hw_gpio_in hw 8) (hw_sleep hw (5 / 100)) w) \<noteq> Inr None"
    using m(1) by simp
  moreover obtain r where "fst (poll n (hw_time hw) (clk w + 5) (hw_gpio_in hw 8) (hw_sleep hw (5 / 100)) w) = Inr r"
    using poll_no_raise [OF time(1) assms(3,4)] by blast
  ultimately show ?thesis using time(2)
    by (cases "poll n (hw_time hw) (clk w + 5) (hw_gpio_in hw 8) (hw_sleep hw (5 / 100)) w")
       (auto simp: psu_wait_def io_simps)
qed

section \<open>Concrete inputs\<close>

definition null_can :: "'w can_env" where
  "null_can =
     \<lparr>ce_ip_down = (\<lambda>n. ret ()), ce_ip_up = (\<lambda>n b l. ret ()),
      ce_ip_show = (\<lambda>n. ret (Doc (JList [JObj [(''operstate'', JStr ''UP'')]]))),
      ce_bus_open = (\<lambda>n. ret 0), ce_bus_shutdown = (\<lambda>b. ret ()), ce_bus_send = (\<lambda>b i d. ret ()),
      ce_bus_recv = (\<lambda>b. ret None), ce_exists = (\<lambda>p. True)\<rparr>"

definition demo_env :: "unit hm_env" where
  "demo_env = \<lparr>he_hw = null_hw, he_can = null_can, he_fuel = 101, he_int = (\<lambda>s. None)\<rparr>"

definition demo_hm :: "unit hm_state" where
  "demo_hm = \<lparr>hm_world = (), hm_started_at = 0, hm_op_count = 0, hm_adcs = [], hm_dacs = None,
     hm_nrf = \<lparr>sd_handle = 11, sd_cs = None\<rparr>, hm_inas = [], hm_can_bitrate = 500000,
     hm_can_mode = [0x80, 0x80, 0x80], hm_can_buses = [None, None, None]\<rparr>"

lemma demo_hm_inv: "hm_inv demo_hm"
  by (simp add: hm_inv_def demo_hm_def can_modes_def MODE_CONFIG_def)

lemma demo_set_mode:
  "hm_can_set_mode demo_env (JInt 1) (JInt 0x60) demo_hm =
     (Inr (JBool True), demo_hm\<lparr>hm_op_count := 1, hm_can_mode := [0x80, 0x00, 0x80]\<rparr>)"
  by (simp add: hm_can_set_mode_def demo_env_def demo_hm_def null_can_def hm_tick_def py_eq_int_def MODE_CONFIG_def
      MODE_LOOPBACK_def MODE_NORMAL_def bus_close_def ip_down_def ip_up_def on_world_def put_mode_def io_simps
      py_index_def py_pos_def Let_def)

lemma demo_session:
  "handle_conn (build_method_table (hm_backend demo_env)) record_line
     [request (JInt 1) ''can.set_mode'' [(''idx'', JInt 1), (''mode'', JInt 0x60)]] (demo_hm, []) =
   (Inr (), (demo_hm\<lparr>hm_op_count := 1, hm_can_mode := [0x80, 0x00, 0x80]\<rparr>,
      [result_line (JInt 1) (JBool True)]))"
proof -
  have m: "map_of (build_method_table (hm_backend demo_env)) ''can.set_mode'' =
      Some (sig_of [''idx'', ''mode''], call2 (hm_can_set_mode demo_env))"
    by (simp add: build_method_table_def hm_backend_def)
  have b: "bind_args (sig_of [''idx'', ''mode'']) [(''idx'', JInt 1), (''mode'', JInt 0x60)] = Inr [JInt 1, JInt 0x60]"
    by (simp add: bind_args_def sig_of_def)
  have "request (JInt 1) ''can.set_mode'' [(''idx'', JInt 1), (''mode'', JInt 0x60)] \<noteq> Blank"
    by (simp add: request_def)
  then show ?thesis
    by (simp only: handle_conn.simps if_False on_backend_def zoom_def bind_def handle_request_known [OF m]
        apply_bound [OF b] respond_cases call2.simps fst_conv snd_conv demo_set_mode prod.case sum.case)
       (simp add: io_simps on_conn_def record_line_def)
qed

theorem hm_modes_normalised_witness:
  "fst (hm_can_get_mode demo_env (JInt 1) (demo_hm\<lparr>hm_op_count := 1, hm_can_mode := [0x80, 0x00, 0x80]\<rparr>)) =
     Inr (JInt 0) \<and> JInt 0 \<in> {JInt 0x80, JInt 0x00, JInt 0x40}"
proof -
  have g: "fst (hm_can_get_mode demo_env (JInt 1) (demo_hm\<lparr>hm_op_count := 1, hm_can_mode := [0x80, 0x00, 0x80]\<rparr>)) =
      Inr (JInt 0)"
    by (simp add: hm_can_get_mode_def iproute_show_def demo_env_def null_can_def demo_hm_def on_world_def
        link_down_def get_or_none_def jint_def py_get_def py_nth_def py_pos_def io_simps)
  from hm_modes_normalised [OF demo_hm_inv demo_session g] g show ?thesis by blast
qed

theorem fake_modes_raw_witness:
  "fst (fake_can_get_mode (JInt 2) (snd (fake_can_set_mode (JInt 2) (JStr ''weird'') (fake_init 0)))) =
     Inr (JStr ''weird'')"
  using fake_modes_raw [OF fake_init_inv, of 2] by simp

theorem pin_beyond_port_witness:
  "tca_latch (\<lambda>w a r. w a r mod 256) (snd (tca_write_pin sim_hw 32 0 8 True (\<lambda>_ _. 5))) (32, 0) = 5 \<and>
   bit (fake_port (fake_write (32, 0) 8 True (fake_init 0)) (32, 0)) 8"
  using pin_beyond_port [OF sim_chip [of "{32}"] _ _ fake_init_inv, of 32 8 32 0 "\<lambda>_ _. 5" 0]
  by (simp add: TCA9555_ADDRS_def tca_latch_def)

theorem psu_wait_returns_witness:
  "fst (psu_wait (null_hw\<lparr>hw_time := reads (\<lambda>t. t), hw_sleep := \<lambda>d. modify (\<lambda>t. t + d)\<rparr>) 101 0) = Inr ()"
  by (rule psu_wait_returns [where clk = "\<lambda>t. t"]) (auto simp: clock_ok_def null_hw_def io_simps)

section \<open>Pins claimed at start-up\<close>

definition pin_recorder :: "int list hw" where
  "pin_recorder = null_hw\<lparr>hw_gpio_setup := \<lambda>p m. modify (\<lambda>l. l @ [p]),
                          hw_gpio_out := \<lambda>p v. modify (\<lambda>l. l @ [p])\<rparr>"

lemma recorded_pins:
  "set (snd (hm_setup_pins pin_recorder ce l)) = set l \<union> set (user_cs_pins ce) \<union> {13, 12, 8, 7}"
proof -
  have "for_each (\<lambda>pin. bind (hw_gpio_setup pin_recorder pin Output) (\<lambda>_. hw_gpio_out pin_recorder pin True)) ps l =
      (Inr (), l @ concat (map (\<lambda>p. [p, p]) ps))" for ps l
    by (induction ps arbitrary: l) (simp_all add: io_simps pin_recorder_def)
  then show ?thesis by (auto simp: hm_setup_pins_def io_simps pin_recorder_def)
qed

text \<open>at start-up the manager sets up exactly the radio and power pins and the chip selects of those
  peripherals whose device nodes are missing; it never touches the chip selects or interrupt lines of
  the CAN controllers, and a driver toggles a chip select only if the manager claimed it.\<close>

theorem hm_pins_claimed:
  "set (snd (hm_setup_pins pin_recorder ce [])) = {13, 12, 8, 7} \<union>
     (if kernel_cs_available ce DAC_SPIDEV then {} else {22, 23, 24, 25}) \<union>
     (if kernel_cs_available ce ADC_SPIDEV then {} else {19, 20, 21}) \<union>
     (if kernel_cs_available ce [NRF_SPIDEV] then {} else {26}) \<and>
   set (snd (hm_setup_pins pin_recorder ce [])) \<inter> {27, 17, 18, 4, 5, 6} = {} \<and>
   (\<forall>d\<in>set (adc_devs ce @ dac_devs ce @ [nrf_dev ce]). \<forall>cs. sd_cs d = Some cs \<longrightarrow>
      cs \<in> set (user_cs_pins ce))"
proof (intro conjI)
  show "\<forall>d\<in>set (adc_devs ce @ dac_devs ce @ [nrf_dev ce]). \<forall>cs. sd_cs d = Some cs \<longrightarrow> cs \<in> set (user_cs_pins ce)"
    by (auto simp: adc_devs_def dac_devs_def nrf_dev_def user_cs_pins_def)
qed (auto simp: recorded_pins user_cs_pins_def)

theorem hm_pins_claimed_witness:
  "set (snd (hm_setup_pins pin_recorder (null_can :: int list can_env) [])) = {13, 12, 8, 7}"
  using hm_pins_claimed [of "null_can :: int list can_env"]
  by (simp add: kernel_cs_available_def null_can_def spidev_paths_def list_all_iff)

end
