(* ===== verification/Hil_Client.thy ===== *)
theory Hil_Client
  imports Hardware_Manager
begin

text \<open>
  \<^verbatim>\<open>tools/hil_client.py\<close>: the proxies with which everything outside the broker drives the rig. A thread
  caches one \<open>BrokerClient\<close> (\<open>tl_client\<close>: its connection and its request counter) over a transport that
  connects, exchanges one line for another and closes. \<open>_call\<close> drops the cached client on every
  disconnect-like error and re-raises. The proxy objects are their index or address.
\<close>

record 's transport =
  tr_connect :: "('s, nat) io"
  tr_exchange :: "nat \<Rightarrow> wire_line \<Rightarrow> ('s, wire_line option) io"
  tr_close :: "nat \<Rightarrow> ('s, unit) io"

record 's tls =
  tl_world :: 's
  tl_client :: "(nat \<times> int) option"

section \<open>The cached client\<close>

definition on_link :: "('s, 'a) io \<Rightarrow> ('s tls, 'a) io" where
  "on_link = zoom tl_world (\<lambda>w s. s\<lparr>tl_world := w\<rparr>)"

definition set_client :: "(nat \<times> int) option \<Rightarrow> ('s tls, unit) io" where
  "set_client c = modify (\<lambda>s. s\<lparr>tl_client := c\<rparr>)"

definition get_client :: "'s transport \<Rightarrow> ('s tls, nat) io" where
  "get_client tr =
     bind (reads tl_client) (\<lambda>c. case c of
        Some (h, n) \<Rightarrow> ret h
      | None \<Rightarrow> bind (on_link (tr_connect tr)) (\<lambda>h. bind (set_client (Some (h, 0))) (\<lambda>_. ret h)))"

definition close_client :: "'s transport \<Rightarrow> ('s tls, unit) io" where
  "close_client tr =
     bind (reads tl_client) (\<lambda>c. case c of
        Some (h, n) \<Rightarrow> bind (on_link (tr_close tr h)) (\<lambda>_. set_client None)
      | None \<Rightarrow> ret ())"

text \<open>\<open>BrokerClient.call\<close> on the client with connection \<open>h\<close>, whose counter it advances; the slot keeps the client
  it holds.\<close>

definition client_call :: "'s transport \<Rightarrow> nat \<Rightarrow> string \<Rightarrow> (string \<times> json) list \<Rightarrow> ('s tls, json) io" where
  "client_call tr h method params =
     zoom (\<lambda>s. (tl_world s, case tl_client s of Some (h', n) \<Rightarrow> n | None \<Rightarrow> 0))
       (\<lambda>(w, n) s. s\<lparr>tl_world := w, tl_client := map_option (\<lambda>_. (h, n)) (tl_client s)\<rparr>)
       (broker_call (tr_exchange tr h) method params)"

definition is_disconnect :: "exn \<Rightarrow> bool" where
  "is_disconnect e = (is_os_error e \<or> is_value_error e)"

text \<open>The handler: close what can be closed, empty the slot whatever happened, re-raise.\<close>

definition drop_cached :: "'s transport \<Rightarrow> exn \<Rightarrow> ('s tls, 'a) io" where
  "drop_cached tr e =
     bind (try_except (close_client tr) is_exception (\<lambda>_. ret ())) (\<lambda>_.
     bind (set_client None) (\<lambda>_. raise e))"

definition hil_call :: "'s transport \<Rightarrow> string \<Rightarrow> (string \<times> json) list \<Rightarrow> ('s tls, json) io" where
  "hil_call tr method params =
     try_except (bind (get_client tr) (\<lambda>h. client_call tr h method params)) is_disconnect (drop_cached tr)"

section \<open>The proxies\<close>

definition ADC_CS_TO_IDX :: "(int \<times> int) list" where
  "ADC_CS_TO_IDX = [(19, 0), (20, 1), (21, 2)]"

definition DAC_CS_TO_IDX :: "(int \<times> int) list" where
  "DAC_CS_TO_IDX = [(22, 0), (23, 1), (24, 2), (25, 3)]"

definition CAN_CS_TO_IDX :: "(int \<times> int) list" where
  "CAN_CS_TO_IDX = [(27, 0), (17, 1), (18, 2)]"

text \<open>The common constructor of the three SPI proxies.\<close>

definition proxy_idx :: "string \<Rightarrow> (int \<times> int) list \<Rightarrow> int option \<Rightarrow> int option \<Rightarrow> int res" where
  "proxy_idx cls tbl cs_pin idx =
     (case idx of Some i \<Rightarrow> Inr i
      | None \<Rightarrow>
          (case cs_pin of
             None \<Rightarrow> Inl (Exn TypeError (cls @ '' requires cs_pin or idx''))
           | Some p \<Rightarrow> (case map_of tbl p of Some i \<Rightarrow> Inr i | None \<Rightarrow> Inl (Exn KeyError (show_int p)))))"

definition adc_proxy :: "int option \<Rightarrow> int option \<Rightarrow> int res" where
  "adc_proxy = proxy_idx ''MCP3208'' ADC_CS_TO_IDX"

definition dac_proxy :: "int option \<Rightarrow> int option \<Rightarrow> int res" where
  "dac_proxy = proxy_idx ''DAC80504'' DAC_CS_TO_IDX"

definition can_proxy :: "int option \<Rightarrow> int option \<Rightarrow> int res" where
  "can_proxy = proxy_idx ''MCP2515'' CAN_CS_TO_IDX"

definition hil_unit :: "('s tls, json) io \<Rightarrow> ('s tls, unit) io" where
  "hil_unit m = bind m (\<lambda>_. ret ())"

definition hil_adc_read_raw :: "'s transport \<Rightarrow> int \<Rightarrow> int \<Rightarrow> bool \<Rightarrow> ('s tls, json) io" where
  "hil_adc_read_raw tr i channel differential =
     hil_call tr ''adc.read'' [(''idx'', JInt i), (''channel'', JInt channel)]"

definition hil_adc_read_voltage :: "'s transport \<Rightarrow> int \<Rightarrow> int \<Rightarrow> ('s tls, json) io" where
  "hil_adc_read_voltage tr i channel =
     hil_call tr ''adc.read_voltage'' [(''idx'', JInt i), (''channel'', JInt channel)]"

definition hil_adc_read_all :: "'s transport \<Rightarrow> int \<Rightarrow> ('s tls, json) io" where
  "hil_adc_read_all tr i = hil_call tr ''adc.read_all'' [(''idx'', JInt i)]"

definition hil_dac_set_voltage :: "'s transport \<Rightarrow> int \<Rightarrow> int \<Rightarrow> rat \<Rightarrow> ('s tls, unit) io" where
  "hil_dac_set_voltage tr i channel voltage =
     hil_unit (hil_call tr ''dac.set_voltage''
       [(''idx'', JInt i), (''channel'', JInt channel), (''volts'', JNum voltage)])"

definition hil_dac_get_voltage :: "'s transport \<Rightarrow> int \<Rightarrow> int \<Rightarrow> ('s tls, json) io" where
  "hil_dac_get_voltage tr i channel =
     hil_call tr ''dac.get_voltage'' [(''idx'', JInt i), (''channel'', JInt channel)]"

definition hil_dac_read_device_id :: "'s transport \<Rightarrow> int \<Rightarrow> ('s tls, json) io" where
  "hil_dac_read_device_id tr i = hil_call tr ''dac.read_device_id'' [(''idx'', JInt i)]"

definition hil_dac_reset :: "'s transport \<Rightarrow> int \<Rightarrow> ('s tls, unit) io" where
  "hil_dac_reset tr i = hil_unit (hil_call tr ''dac.reset'' [(''idx'', JInt i)])"

definition hil_dac_zero_all :: "'s transport \<Rightarrow> int \<Rightarrow> ('s tls, unit) io" where
  "hil_dac_zero_all tr i = hil_unit (hil_call tr ''dac.zero_all'' [(''idx'', JInt i)])"

definition hil_dac_set_all :: "'s transport \<Rightarrow> int \<Rightarrow> rat \<Rightarrow> ('s tls, unit) io" where
  "hil_dac_set_all tr i voltage = for_each (\<lambda>ch. hil_dac_set_voltage tr i ch voltage) [0..3]"

definition hil_can_set_mode :: "'s transport \<Rightarrow> int \<Rightarrow> int \<Rightarrow> ('s tls, json) io" where
  "hil_can_set_mode tr i mode = hil_call tr ''can.set_mode'' [(''idx'', JInt i), (''mode'', JInt mode)]"

definition hil_can_get_mode :: "'s transport \<Rightarrow> int \<Rightarrow> ('s tls, json) io" where
  "hil_can_get_mode tr i = hil_call tr ''can.get_mode'' [(''idx'', JInt i)]"

text \<open>Unpacking a response into two values; a string and an object iterate over characters and keys.\<close>

fun unpack_two :: "json \<Rightarrow> (json \<times> json) res" where
  "unpack_two (JList [a, b]) = Inr (a, b)"
| "unpack_two (JStr [a, b]) = Inr (JStr [a], JStr [b])"
| "unpack_two (JObj [(a, v), (b, w)]) = Inr (JStr a, JStr b)"
| "unpack_two (JList xs) = Inl (Exn ValueError ''wrong number of values to unpack'')"
| "unpack_two (JStr s) = Inl (Exn ValueError ''wrong number of values to unpack'')"
| "unpack_two (JObj kvs) = Inl (Exn ValueError ''wrong number of values to unpack'')"
| "unpack_two v = Inl (type_error ''cannot unpack non-iterable'' v)"

definition hil_can_read_error_counters :: "'s transport \<Rightarrow> int \<Rightarrow> ('s tls, json \<times> json) io" where
  "hil_can_read_error_counters tr i =
     bind (hil_call tr ''can.read_error_counters'' [(''idx'', JInt i)]) (\<lambda>v. of_res (unpack_two v))"

definition hil_can_reset :: "'s transport \<Rightarrow> int \<Rightarrow> ('s tls, unit) io" where
  "hil_can_reset tr i = hil_unit (hil_call tr ''can.reset'' [(''idx'', JInt i)])"

definition hil_can_init :: "'s transport \<Rightarrow> int \<Rightarrow> int \<Rightarrow> ('s tls, json) io" where
  "hil_can_init tr i bitrate = hil_call tr ''can.init'' [(''idx'', JInt i), (''bitrate'', JInt bitrate)]"

text \<open>\<open>base64.b64encode\<close>.\<close>

fun b64_digits :: "int list \<Rightarrow> int list" where
  "b64_digits (a # b # c # r) =
     [a div 4, a mod 4 * 16 + b div 16, b mod 16 * 4 + c div 64, c mod 64] @ b64_digits r"
| "b64_digits [a, b] = [a div 4, a mod 4 * 16 + b div 16, b mod 16 * 4]"
| "b64_digits [a] = [a div 4, a mod 4 * 16]"
| "b64_digits [] = []"

definition b64encode :: "int list \<Rightarrow> string" where
  "b64encode bs =
     map (\<lambda>d. b64_alphabet ! nat d) (b64_digits bs) @ replicate ((3 - length bs mod 3) mod 3) (CHR ''='')"

definition hil_can_loopback_test :: "'s transport \<Rightarrow> int \<Rightarrow> int \<Rightarrow> int list \<Rightarrow> ('s tls, json) io" where
  "hil_can_loopback_test tr i can_id data =
     hil_call tr ''can.loopback_test''
       [(''idx'', JInt i), (''can_id'', JInt can_id), (''data_b64'', JStr (b64encode data))]"

definition hil_can_int_level :: "'s transport \<Rightarrow> int \<Rightarrow> ('s tls, json) io" where
  "hil_can_int_level tr i = hil_call tr ''can.int_level'' [(''idx'', JInt i)]"

text \<open>The eight queries of the INA226 proxy are one call each with the address.\<close>

definition hil_ina :: "string \<Rightarrow> 's transport \<Rightarrow> int \<Rightarrow> ('s tls, json) io" where
  "hil_ina query tr addr = hil_call tr (''ina.'' @ query) [(''addr'', JInt addr)]"

definition hil_ina_is_present :: "'s transport \<Rightarrow> int \<Rightarrow> ('s tls, json) io" where
  "hil_ina_is_present = hil_ina ''is_present''"

definition hil_ina_bus_voltage :: "'s transport \<Rightarrow> int \<Rightarrow> ('s tls, json) io" where
  "hil_ina_bus_voltage = hil_ina ''bus_voltage''"

definition hil_ina_shunt_voltage :: "'s transport \<Rightarrow> int \<Rightarrow> ('s tls, json) io" where
  "hil_ina_shunt_voltage = hil_ina ''shunt_voltage''"

definition hil_ina_current :: "'s transport \<Rightarrow> int \<Rightarrow> ('s tls, json) io" where
  "hil_ina_current = hil_ina ''current''"

definition hil_ina_power :: "'s transport \<Rightarrow> int \<Rightarrow> ('s tls, json) io" where
  "hil_ina_power = hil_ina ''power''"

definition hil_ina_snapshot :: "'s transport \<Rightarrow> int \<Rightarrow> ('s tls, json) io" where
  "hil_ina_snapshot = hil_ina ''read''"

definition hil_ina_read_manufacturer_id :: "'s transport \<Rightarrow> int \<Rightarrow> ('s tls, json) io" where
  "hil_ina_read_manufacturer_id = hil_ina ''read_manufacturer_id''"

definition hil_ina_read_die_id :: "'s transport \<Rightarrow> int \<Rightarrow> ('s tls, json) io" where
  "hil_ina_read_die_id = hil_ina ''read_die_id''"

definition hil_tca_is_present :: "'s transport \<Rightarrow> int \<Rightarrow> ('s tls, json) io" where
  "hil_tca_is_present tr addr = hil_call tr ''tca.is_present'' [(''addr'', JInt addr)]"

definition hil_tca_set_direction :: "'s transport \<Rightarrow> int \<Rightarrow> int \<Rightarrow> int \<Rightarrow> ('s tls, unit) io" where
  "hil_tca_set_direction tr addr port msk =
     hil_unit (hil_call tr ''tca.set_direction'' [(''addr'', JInt addr), (''port'', JInt port), (''mask'', JInt msk)])"

definition hil_tca_get_direction :: "'s transport \<Rightarrow> int \<Rightarrow> int \<Rightarrow> ('s tls, json) io" where
  "hil_tca_get_direction tr addr port =
     hil_call tr ''tca.get_direction'' [(''addr'', JInt addr), (''port'', JInt port)]"

definition hil_tca_set_all_inputs :: "'s transport \<Rightarrow> int \<Rightarrow> ('s tls, unit) io" where
  "hil_tca_set_all_inputs tr addr = hil_unit (hil_call tr ''tca.set_all_inputs'' [(''addr'', JInt addr)])"

definition hil_tca_set_all_outputs :: "'s transport \<Rightarrow> int \<Rightarrow> ('s tls, unit) io" where
  "hil_tca_set_all_outputs tr addr = hil_unit (hil_call tr ''tca.set_all_outputs'' [(''addr'', JInt addr)])"

definition hil_tca_write_port :: "'s transport \<Rightarrow> int \<Rightarrow> int \<Rightarrow> int \<Rightarrow> ('s tls, unit) io" where
  "hil_tca_write_port tr addr port val =
     hil_unit (hil_call tr ''tca.write_port'' [(''addr'', JInt addr), (''port'', JInt port), (''value'', JInt val)])"

definition hil_tca_write_all :: "'s transport \<Rightarrow> int \<Rightarrow> int \<Rightarrow> int \<Rightarrow> ('s tls, unit) io" where
  "hil_tca_write_all tr addr p0 p1 =
     hil_unit (hil_call tr ''tca.write_all'' [(''addr'', JInt addr), (''p0'', JInt p0), (''p1'', JInt p1)])"

definition hil_tca_write_pin :: "'s transport \<Rightarrow> int \<Rightarrow> int \<Rightarrow> int \<Rightarrow> bool \<Rightarrow> ('s tls, unit) io" where
  "hil_tca_write_pin tr addr port pin state =
     hil_unit (hil_call tr ''tca.write_pin''
       [(''addr'', JInt addr), (''port'', JInt port), (''pin'', JInt pin), (''value'', JBool state)])"

definition hil_tca_read_port :: "'s transport \<Rightarrow> int \<Rightarrow> int \<Rightarrow> ('s tls, json) io" where
  "hil_tca_read_port tr addr port = hil_call tr ''tca.read_port'' [(''addr'', JInt addr), (''port'', JInt port)]"

definition hil_tca_read_pin :: "'s transport \<Rightarrow> int \<Rightarrow> int \<Rightarrow> int \<Rightarrow> ('s tls, bool) io" where
  "hil_tca_read_pin tr addr port pin =
     bind (hil_tca_read_port tr addr port) (\<lambda>v. bind (of_res (shift_one pin)) (\<lambda>m.
     bind (of_res (as_int ''unsupported operand type(s) for &'' v)) (\<lambda>i. ret (i AND m \<noteq> 0))))"

definition hil_tca_read_all :: "'s transport \<Rightarrow> int \<Rightarrow> ('s tls, json) io" where
  "hil_tca_read_all tr addr = hil_call tr ''tca.read'' [(''addr'', JInt addr)]"

definition hil_nrf_is_present :: "'s transport \<Rightarrow> ('s tls, json) io" where
  "hil_nrf_is_present tr = hil_call tr ''nrf.is_present'' []"

definition hil_psu_power :: "'s transport \<Rightarrow> bool \<Rightarrow> ('s tls, json) io" where
  "hil_psu_power tr on = hil_call tr ''psu.power'' [(''on'', JBool on)]"

definition hil_psu_status :: "'s transport \<Rightarrow> ('s tls, json) io" where
  "hil_psu_status tr = hil_call tr ''psu.status'' []"

definition hil_i2c_scan :: "'s transport \<Rightarrow> int \<Rightarrow> int \<Rightarrow> ('s tls, json) io" where
  "hil_i2c_scan tr lo hi = hil_call tr ''i2c.scan'' [(''start'', JInt lo), (''end'', JInt hi)]"

section \<open>The client on a live broker\<close>

text \<open>Every connection reaches the handler of \<open>Server\<close>.\<close>

definition broker_tr :: "(string \<times> 'w rpc_method) list \<Rightarrow> 'w transport" where
  "broker_tr methods =
     \<lparr>tr_connect = ret 0, tr_exchange = \<lambda>h. broker_link methods, tr_close = \<lambda>h. ret ()\<rparr>"

definition tls_conn :: "'s tls \<Rightarrow> nat \<times> int" where
  "tls_conn s = (case tl_client s of Some p \<Rightarrow> p | None \<Rightarrow> (0, 0))"

definition tls_next :: "'w \<Rightarrow> 'w tls \<Rightarrow> 'w tls" where
  "tls_next w s = s\<lparr>tl_world := w, tl_client := Some (fst (tls_conn s), snd (tls_conn s) + 1)\<rparr>"

lemma tl_world_next [simp]: "tl_world (tls_next w s) = w"
  by (simp add: tls_next_def)

lemma client_exn_keeps: "\<not> is_disconnect (client_exn e)"
  by (cases e) (simp_all add: is_disconnect_def)

lemma hil_call_live:
  assumes "no_exit methods" "map_of methods n = Some (sg, fn)" "bind_args sg kws = Inr vs"
  shows "hil_call (broker_tr methods) n kws s =
     (case fn vs (tl_world s) of
        (Inr r, w') \<Rightarrow> (Inr r, tls_next w' s)
      | (Inl e, w') \<Rightarrow> (Inl (client_exn e), tls_next w' s))"
  using client_exn_keeps
  by (cases "tl_client s")
    (auto simp: hil_call_def get_client_def client_call_def broker_tr_def on_link_def set_client_def
      broker_call_eq [OF assms] tls_next_def tls_conn_def io_simps
      split: prod.splits sum.splits)

section \<open>Pins through the client, the broker and the fake backend\<close>

abbreviation fake_table :: "(string \<Rightarrow> rat option) \<Rightarrow> (string \<times> fake_state rpc_method) list" where
  "fake_table fl \<equiv> build_method_table (fake_backend fl)"

lemma hil_fake_write_pin:
  "hil_tca_write_pin (broker_tr (fake_table fl)) a p k v s =
     (case fake_tca_write_pin (JInt a) (JInt p) (JInt k) (JBool v) (tl_world s) of
        (Inr r, w') \<Rightarrow> (Inr (), tls_next w' s)
      | (Inl e, w') \<Rightarrow> (Inl (client_exn e), tls_next w' s))"
proof -
  have "map_of (fake_table fl) ''tca.write_pin'' =
      Some (sig_of [''addr'', ''port'', ''pin'', ''value''], call4 fake_tca_write_pin)"
    by (simp add: build_method_table_def fake_backend_def)
  from hil_call_live [OF fake_no_exit this, of "[(''addr'', JInt a), (''port'', JInt p), (''pin'', JInt k), (''value'', JBool v)]"
      "[JInt a, JInt p, JInt k, JBool v]" s]
  show ?thesis
    by (simp add: hil_tca_write_pin_def hil_unit_def bind_args_def sig_of_def io_simps split: prod.split sum.split)
qed

lemma hil_fake_read_port:
  "hil_tca_read_port (broker_tr (fake_table fl)) a p s =
     (case fake_tca_read_port (JInt a) (JInt p) (tl_world s) of
        (Inr r, w') \<Rightarrow> (Inr r, tls_next w' s)
      | (Inl e, w') \<Rightarrow> (Inl (client_exn e), tls_next w' s))"
proof -
  have "map_of (fake_table fl) ''tca.read_port'' = Some (sig_of [''addr'', ''port''], call2 fake_tca_read_port)"
    by (simp add: build_method_table_def fake_backend_def)
  from hil_call_live [OF fake_no_exit this, of "[(''addr'', JInt a), (''port'', JInt p)]" "[JInt a, JInt p]" s]
  show ?thesis by (simp add: hil_tca_read_port_def bind_args_def sig_of_def)
qed

definition drive_pins :: "'s transport \<Rightarrow> (int \<times> int) pin_write list \<Rightarrow> ('s tls, unit) io" where
  "drive_pins tr = for_each (\<lambda>((a, p), k, v). hil_tca_write_pin tr a p (int k) v)"

lemma drive_pins_world:
  assumes "fake_inv (tl_world s)" "fake_pins.valid_writes ws"
  shows "\<exists>s'. drive_pins (broker_tr (fake_table fl)) ws s = (Inr (), s') \<and> tl_world s' = fake_pins.writes ws (tl_world s)"
  using assms
proof (induction ws arbitrary: s)
  case (Cons w ws)
  obtain a p k v where w: "w = ((a, p), k, v)" by (cases w) auto
  have ap: "a \<in> set TCA9555_ADDRS" "p \<in> {0, 1}" and k: "k < 8" and ws: "fake_pins.valid_writes ws"
    using Cons.prems(2) w unfolding fake_pins.valid_writes_def by (auto simp: fake_pin_ports_def)
  let ?t = "tls_next (fake_write (a, p) k v (tl_world s)) s"
  have 1: "hil_tca_write_pin (broker_tr (fake_table fl)) a p (int k) v s = (Inr (), ?t)"
    using fake_write_pin_eq [OF Cons.prems(1) ap, of k v] by (simp add: hil_fake_write_pin fake_write_def)
  have "fake_inv (tl_world ?t)"
    using fake_pins.wr_ok [OF Cons.prems(1), of "(a, p)" k v] ap k by (simp add: fake_pin_ports_def)
  from Cons.IH [OF this ws] obtain s' where
    "drive_pins (broker_tr (fake_table fl)) ws ?t = (Inr (), s')" "tl_world s' = fake_pins.writes ws (tl_world ?t)"
    by blast
  with 1 w show ?case by (simp add: drive_pins_def fake_pins.writes_def io_simps)
qed (simp add: drive_pins_def fake_pins.writes_def io_simps)

lemma hil_pins_fake:
  assumes "fake_inv (tl_world s)" "\<forall>((a, p), k, v)\<in>set ws. a \<in> set TCA9555_ADDRS \<and> p \<in> {0, 1} \<and> k < 8"
    and "a \<in> set TCA9555_ADDRS" "p \<in> {0, 1}" "k < 8"
  shows "fst (bind (drive_pins (broker_tr (fake_table fl)) ws)
             (\<lambda>_. hil_tca_read_pin (broker_tr (fake_table fl)) a p (int k)) s) =
     Inr (case last_write ws (a, p) k of Some b \<Rightarrow> b | None \<Rightarrow> bit (fake_port (tl_world s) (a, p)) k)"
proof -
  have ws: "fake_pins.valid_writes ws"
    unfolding fake_pins.valid_writes_def using assms(2) by (fastforce simp: fake_pin_ports_def)
  obtain s' where s': "drive_pins (broker_tr (fake_table fl)) ws s = (Inr (), s')"
      "tl_world s' = fake_pins.writes ws (tl_world s)"
    using drive_pins_world [OF assms(1) ws] by blast
  have inv: "fake_inv (tl_world s')" using fake_pins.writes_ok [OF assms(1) ws] s'(2) by simp
  have "(x AND push_bit k 1 \<noteq> 0) = bit x k" for x :: int
    by (simp add: and_exp_eq_0_iff_not_bit push_bit_eq_mult)
  with s' fake_read_port_eq [OF inv assms(3,4)] fake_pins.writes_bit [OF assms(1) ws, of "(a, p)" k] assms(3-5)
  show ?thesis
    by (simp add: hil_tca_read_pin_def hil_fake_read_port shift_one_def io_simps fake_pin_ports_def)
qed

section \<open>Pins through the client, the broker and the hardware\<close>

abbreviation hm_table :: "'w hm_env \<Rightarrow> (string \<times> 'w hm_state rpc_method) list" where
  "hm_table env \<equiv> build_method_table (hm_backend env)"

text \<open>A call that succeeds in the backend succeeds in the client, whatever other methods of the table may raise.\<close>

lemma hil_call_ok:
  assumes "map_of methods n = Some (sg, fn)" "bind_args sg kws = Inr vs" "fn vs (tl_world s) = (Inr r, w')"
  shows "hil_call (broker_tr methods) n kws s = (Inr r, tls_next w' s)"
proof -
  have h: "handle_request methods (request (JInt i) n kws) (tl_world s) = (Inr (Some (result_line (JInt i) r)), w')" for i
    using assms by (simp add: handle_request_known apply_bound respond_cases)
  have l: "broker_link methods (request (JInt i) n kws) (tl_world s) = (Inr (Some (result_line (JInt i) r)), w')" for i
    using h [of i] by (simp add: broker_link_def request_def on_backend_def on_conn_def record_line_def io_simps)
  have c: "broker_call (broker_link methods) n kws (tl_world s, m) = (Inr r, (w', m + 1))" for m
    by (simp add: broker_call_def on_backend_def l io_simps result_line_def get_or_none_def)
  show ?thesis
    by (cases "tl_client s")
      (auto simp: hil_call_def get_client_def client_call_def broker_tr_def on_link_def set_client_def c tls_next_def
        tls_conn_def io_simps)
qed

text \<open>The documented behaviour of the expanders: the latches of \<open>tca_chip\<close>, and input registers that follow the
  latch where the pin is an output (its configuration bit is 0) and the level outside where it is an input.\<close>

definition pin_chip :: "'w hw \<Rightarrow> ('w \<Rightarrow> int \<Rightarrow> int \<Rightarrow> int) \<Rightarrow> (int \<Rightarrow> int \<Rightarrow> nat \<Rightarrow> bool) \<Rightarrow> bool" where
  "pin_chip hw regs outside \<longleftrightarrow> tca_chip hw regs (set TCA9555_ADDRS) \<and>
     (\<forall>w. \<forall>a\<in>set TCA9555_ADDRS. \<forall>p\<in>{0, 1}. \<exists>x. hw_i2c_read hw a p w = (Inr x, w) \<and>
        (\<forall>k<8. bit x k = (if bit (regs w a (6 + p)) k then outside a p k else bit (regs w a (2 + p)) k)))"

lemma hil_hm_write_pin:
  assumes "tca_chip (he_hw env) regs (set TCA9555_ADDRS)" "a \<in> set TCA9555_ADDRS" "p \<in> {0, 1}"
  shows "\<exists>s'. hil_tca_write_pin (broker_tr (hm_table env)) a p (int k) v s = (Inr (), s') \<and>
     hm_world (tl_world s') = snd (tca_write_pin (he_hw env) a p (int k) v (hm_world (tl_world s)))"
proof -
  have m: "map_of (hm_table env) ''tca.write_pin'' =
      Some (sig_of [''addr'', ''port'', ''pin'', ''value''], call4 (hm_tca_write_pin env))"
    by (simp add: build_method_table_def hm_backend_def)
  obtain w where w: "tca_write_pin (he_hw env) a p (int k) v (hm_world (tl_world s)) = (Inr (), w)"
    using tca_write_pin_latch [OF assms assms(2,3), of k v "hm_world (tl_world s)"] by (metis prod.collapse)
  have "call4 (hm_tca_write_pin env) [JInt a, JInt p, JInt (int k), JBool v] (tl_world s) =
      (Inr JNull, (tl_world s)\<lparr>hm_op_count := hm_op_count (tl_world s) + 1, hm_world := w\<rparr>)"
    using assms(2,3) w by (auto simp: hm_tca_write_pin_def hm_tca_def hm_tick_def hm_none_def on_world_def port_arg_def
        py_eq_int_def io_simps)
  from hil_call_ok [OF m _ this, of "[(''addr'', JInt a), (''port'', JInt p), (''pin'', JInt (int k)), (''value'', JBool v)]"] w
  show ?thesis
    by (simp add: hil_tca_write_pin_def hil_unit_def bind_args_def sig_of_def io_simps)
qed

lemma hil_hm_read_port:
  assumes "a \<in> set TCA9555_ADDRS" "p \<in> {0, 1}" "hw_i2c_read (he_hw env) a p (hm_world (tl_world s)) = (Inr x, w)"
  shows "\<exists>s'. hil_tca_read_port (broker_tr (hm_table env)) a p s = (Inr (JInt x), s')"
proof -
  have m: "map_of (hm_table env) ''tca.read_port'' = Some (sig_of [''addr'', ''port''], call2 (hm_tca_read_port env))"
    by (simp add: build_method_table_def hm_backend_def)
  have "call2 (hm_tca_read_port env) [JInt a, JInt p] (tl_world s) =
      (Inr (JInt x), (tl_world s)\<lparr>hm_op_count := hm_op_count (tl_world s) + 1, hm_world := w\<rparr>)"
    using assms by (auto simp: hm_tca_read_port_def hm_tca_def hm_tick_def jint_def on_world_def port_arg_def py_eq_int_def
        tca_read_port_def tca_rd_def io_simps)
  from hil_call_ok [OF m _ this, of "[(''addr'', JInt a), (''port'', JInt p)]"]
  show ?thesis by (simp add: hil_tca_read_port_def bind_args_def sig_of_def)
qed

lemma drive_pins_hm:
  assumes "tca_chip (he_hw env) regs (set TCA9555_ADDRS)" "\<forall>((a, p), k, v)\<in>set ws. a \<in> set TCA9555_ADDRS \<and> p \<in> {0, 1} \<and> k < 8"
  shows "\<exists>s'. drive_pins (broker_tr (hm_table env)) ws s = (Inr (), s') \<and> hm_world (tl_world s') =
     foldl (\<lambda>w ((a, p), k, v). snd (tca_write_pin (he_hw env) a p (int k) v w)) (hm_world (tl_world s)) ws"
  using assms(2)
proof (induction ws arbitrary: s)
  case (Cons w ws)
  obtain a p k v where w: "w = ((a, p), k, v)" by (cases w) auto
  have ap: "a \<in> set TCA9555_ADDRS" "p \<in> {0, 1}" and ws: "\<forall>((a, p), k, v)\<in>set ws. a \<in> set TCA9555_ADDRS \<and> p \<in> {0, 1} \<and> k < 8"
    using Cons.prems w by auto
  from hil_hm_write_pin [OF assms(1) ap] obtain t where
    t: "hil_tca_write_pin (broker_tr (hm_table env)) a p (int k) v s = (Inr (), t)"
      "hm_world (tl_world t) = snd (tca_write_pin (he_hw env) a p (int k) v (hm_world (tl_world s)))" by blast
  from Cons.IH [OF ws, of t] t w show ?case by (auto simp: drive_pins_def io_simps)
qed (simp add: drive_pins_def io_simps)

lemma writes_keep_direction:
  assumes "tca_chip hw regs A" "\<forall>((a, p), k, v)\<in>set ws. a \<in> A \<and> p \<in> {0, 1} \<and> k < (8::nat)" "a \<in> A" "r \<in> {6, 7}"
  shows "regs (foldl (\<lambda>w ((a, p), k, v). snd (tca_write_pin hw a p (int k) v w)) w ws) a r = regs w a r"
  using assms(2)
proof (induction ws arbitrary: w)
  case (Cons x ws)
  obtain b p k v where x: "x = ((b, p), k, v)" by (cases x) auto
  then have bp: "b \<in> A" "p \<in> {0, 1}" using Cons.prems by auto
  have "is_byte ((if v then tca_latch regs w (b, p) OR push_bit k 1 else tca_latch regs w (b, p) AND NOT (push_bit k 1)) AND 255)"
    by (simp add: and_mask_255)
  then have "regs (snd (tca_write_pin hw b p (int k) v w)) a r = regs w a r"
    using assms(1,3,4) bp(1) unfolding tca_write_pin_run [OF assms(1) bp] by (auto simp: tca_chip_def)
  with Cons x show ?case by simp
qed simp

lemma hil_pins_hm:
  assumes "pin_chip (he_hw env) regs outside"
    and "\<forall>((a, p), k, v)\<in>set ws. a \<in> set TCA9555_ADDRS \<and> p \<in> {0, 1} \<and> k < 8"
    and "a \<in> set TCA9555_ADDRS" "p \<in> {0, 1}" "k < 8" and w: "w = hm_world (tl_world s)"
  shows "fst (bind (drive_pins (broker_tr (hm_table env)) ws)
             (\<lambda>_. hil_tca_read_pin (broker_tr (hm_table env)) a p (int k)) s) =
     Inr (if bit (regs w a (6 + p)) k then outside a p k
          else case last_write ws (a, p) k of Some b \<Rightarrow> b | None \<Rightarrow> bit (regs w a (2 + p)) k)"
proof -
  have chip: "tca_chip (he_hw env) regs (set TCA9555_ADDRS)" using assms(1) by (simp add: pin_chip_def)
  let ?w = "foldl (\<lambda>w ((a, p), k, v). snd (tca_write_pin (he_hw env) a p (int k) v w)) w ws"
  obtain s' where s': "drive_pins (broker_tr (hm_table env)) ws s = (Inr (), s')" "hm_world (tl_world s') = ?w"
    using drive_pins_hm [OF chip assms(2), of s] w by blast
  obtain x where x: "hw_i2c_read (he_hw env) a p ?w = (Inr x, ?w)"
    "bit x k = (if bit (regs ?w a (6 + p)) k then outside a p k else bit (regs ?w a (2 + p)) k)"
    using assms(1,3-5) unfolding pin_chip_def by blast
  obtain s'' where r: "hil_tca_read_port (broker_tr (hm_table env)) a p s' = (Inr (JInt x), s'')"
    using hil_hm_read_port [OF assms(3,4)] x(1) s'(2) by metis
  have "6 + p \<in> {6, 7}" using assms(4) by auto
  then have d: "regs ?w a (6 + p) = regs w a (6 + p)" by (rule writes_keep_direction [OF chip assms(2,3)])
  have l: "tca_latch regs v (a, p) = regs v a (2 + p)" for v using assms(4) by (auto simp: tca_latch_def)
  have "bit (regs ?w a (2 + p)) k = (case last_write ws (a, p) k of Some b \<Rightarrow> b | None \<Rightarrow> bit (regs w a (2 + p)) k)"
    using tca_pins_last_write [OF chip assms(2-5), of w] by (simp only: l)
  moreover have "(y AND push_bit k 1 \<noteq> 0) = bit y k" for y :: int
    by (simp add: and_exp_eq_0_iff_not_bit push_bit_eq_mult)
  ultimately show ?thesis using s' r x(2) d by (simp add: hil_tca_read_pin_def shift_one_def io_simps)
qed

text \<open>C16: driving a sequence of pins with the client proxies over the broker, and then asking the proxy for any
  pin of the expanders. On the hardware, with expanders that behave as documented, a pin configured as an
  output reads as the last value written to it, or as the latch it had; a pin configured as an input reads
  as the level outside, so that writing it changes nothing that can be seen. The fake backend returns the
  last value written, or the value the pin had. The calls connect by themselves when no client is cached.\<close>

theorem hil_pins_last_write:
  assumes "pin_chip (he_hw env) regs outside" "w = hm_world (tl_world s)" "fake_inv (tl_world t)"
    and "\<forall>((a, p), k, v)\<in>set ws. a \<in> set TCA9555_ADDRS \<and> p \<in> {0, 1} \<and> k < 8"
    and "a \<in> set TCA9555_ADDRS" "p \<in> {0, 1}" "k < 8"
  shows "fst (bind (drive_pins (broker_tr (hm_table env)) ws)
             (\<lambda>_. hil_tca_read_pin (broker_tr (hm_table env)) a p (int k)) s) =
     Inr (if bit (regs w a (6 + p)) k then outside a p k
          else case last_write ws (a, p) k of Some b \<Rightarrow> b | None \<Rightarrow> bit (regs w a (2 + p)) k)
    \<and> fst (bind (drive_pins (broker_tr (fake_table fl)) ws)
             (\<lambda>_. hil_tca_read_pin (broker_tr (fake_table fl)) a p (int k)) t) =
     Inr (case last_write ws (a, p) k of Some b \<Rightarrow> b | None \<Rightarrow> bit (fake_port (tl_world t) (a, p)) k)"
  using hil_pins_hm [OF assms(1,4-7,2)] hil_pins_fake [OF assms(3-7)] by blast

text \<open>An expander whose registers are a function; outside, every pin is held high.\<close>

definition sim_pins :: "(int \<Rightarrow> int \<Rightarrow> int) hw" where
  "sim_pins = null_hw\<lparr>hw_i2c_read := \<lambda>a r w. (Inr ((if r \<in> {0, 1} then w a (2 + r) OR w a (6 + r) else w a r) mod 256), w),
                      hw_i2c_write := \<lambda>a r v. modify (\<lambda>w. w(a := (w a)(r := v)))\<rparr>"

lemma sim_pins_chip: "pin_chip sim_pins (\<lambda>w a r. w a r mod 256) (\<lambda>a p k. True)"
proof -
  have b: "bit (y mod 256) k = bit y k" if "k < 8" for y :: int and k
    using bit_byte_and [OF that] by (simp add: and_mask_255)
  show ?thesis
    by (auto simp: pin_chip_def tca_chip_def sim_pins_def io_simps is_byte_def b bit_or_iff)
qed

text \<open>Pin 3 of expander 33 is an output, pin 5 an input.\<close>

definition sim_manager :: "(int \<Rightarrow> int \<Rightarrow> int) hm_state" where
  "sim_manager = \<lparr>hm_world = \<lambda>a r. if r = 6 then 0x20 else 0, hm_started_at = 0, hm_op_count = 0, hm_adcs = [], hm_dacs = None,
     hm_nrf = \<lparr>sd_handle = 3, sd_cs = None\<rparr>, hm_inas = [], hm_can_bitrate = 500000, hm_can_mode = [], hm_can_buses = []\<rparr>"

definition sim_env :: "(int \<Rightarrow> int \<Rightarrow> int) hm_env" where
  "sim_env = \<lparr>he_hw = sim_pins, he_can = null_can, he_fuel = 1, he_int = (\<lambda>s. None)\<rparr>"

theorem hil_pins_last_write_witness:
  "fst (bind (drive_pins (broker_tr (hm_table sim_env)) [((33, 0), 3, True), ((33, 0), 5, False)])
     (\<lambda>_. hil_tca_read_pin (broker_tr (hm_table sim_env)) 33 0 (int 5)) \<lparr>tl_world = sim_manager, tl_client = None\<rparr>) = Inr True
   \<and> fst (bind (drive_pins (broker_tr (fake_table (\<lambda>_. None))) [((33, 0), 3, True), ((33, 0), 5, False)])
     (\<lambda>_. hil_tca_read_pin (broker_tr (fake_table (\<lambda>_. None))) 33 0 (int 5)) \<lparr>tl_world = fake_init 0, tl_client = None\<rparr>) = Inr False"
proof -
  have "pin_chip (he_hw sim_env) (\<lambda>w a r. w a r mod 256) (\<lambda>a p k. True)" by (simp add: sim_env_def sim_pins_chip)
  from hil_pins_last_write [OF this refl, of "\<lparr>tl_world = fake_init 0, tl_client = None\<rparr>"
      "[((33, 0), 3, True), ((33, 0), 5, False)]" 33 0 5 "\<lparr>tl_world = sim_manager, tl_client = None\<rparr>" "\<lambda>_. None"]
  show ?thesis by (simp add: TCA9555_ADDRS_def fake_init_inv sim_manager_def)
qed

section \<open>Recovery from a broken connection\<close>

lemma get_client_cases:
  assumes "get_client tr s = (r, t)"
  obtains h n where "r = Inr h" "tl_client t = Some (h, n)"
  | e where "r = Inl e" "tl_client t = None" "fst (tr_connect tr (tl_world s)) = Inl e"
  using assms
  by (cases "tl_client s"; cases "tr_connect tr (tl_world s)"; cases "fst (tr_connect tr (tl_world s))")
    (auto simp: get_client_def on_link_def set_client_def io_simps)

lemma client_call_cached:
  "tl_client s = Some c \<Longrightarrow> \<exists>n. tl_client (snd (client_call tr h m ps s)) = Some (h, n)"
  by (auto simp: client_call_def io_simps split: prod.split)

lemma drop_client:
  assumes "\<forall>h w e. fst (tr_close tr h w) = Inl e \<longrightarrow> is_exception e"
  shows "\<exists>t. drop_cached tr e s = (Inl e, t) \<and> tl_client t = None"
proof (cases "tl_client s")
  case (Some p)
  obtain h n where p: "p = (h, n)" by force
  obtain r w where c: "tr_close tr h (tl_world s) = (r, w)" by force
  then have "r = Inl a \<Longrightarrow> is_exception a" for a using assms by (metis fst_conv)
  with c Some p show ?thesis
    by (cases r) (auto simp: drop_cached_def close_client_def on_link_def set_client_def io_simps)
qed (simp add: drop_cached_def close_client_def set_client_def io_simps)

lemma hil_call_dropped:
  assumes "\<forall>w e. fst (tr_connect tr w) = Inl e \<longrightarrow> is_os_error e"
    and "\<forall>h w e. fst (tr_close tr h w) = Inl e \<longrightarrow> is_exception e"
  shows "tl_client (snd (hil_call tr n kws s)) = None \<longleftrightarrow>
     (\<exists>e. fst (hil_call tr n kws s) = Inl e \<and> is_disconnect e)"
proof -
  obtain r t where g: "get_client tr s = (r, t)" by force
  then show ?thesis
  proof (cases rule: get_client_cases)
    case (1 h k)
    obtain r' t' where c: "client_call tr h n kws t = (r', t')" by force
    then obtain k' where k: "tl_client t' = Some (h, k')"
      using client_call_cached [OF 1(2), of tr h n kws] by auto
    show ?thesis
    proof (cases r')
      case (Inl e)
      obtain u where "drop_cached tr e t' = (Inl e :: exn + json, u)" "tl_client u = None"
        using drop_client [OF assms(2)] by blast
      with Inl 1 g c k show ?thesis
        by (cases "is_disconnect e") (auto simp: hil_call_def io_simps)
    qed (use 1 g c k in \<open>simp add: hil_call_def io_simps\<close>)
  next
    case (2 e)
    then have "is_disconnect e" using assms(1) by (simp add: is_disconnect_def)
    moreover obtain u where "drop_cached tr e t = (Inl e :: exn + json, u)" "tl_client u = None"
      using drop_client [OF assms(2)] by blast
    ultimately show ?thesis using 2 g by (simp add: hil_call_def io_simps)
  qed
qed

text \<open>C17: whatever the transport does, a call leaves the thread without a cached client exactly when it
  ended in a disconnect-like error; on any other outcome, a broker error included, a client stays cached. A
  call without a cached client opens one connection first and is then the call with that connection, newly
  cached with its request counter at 0, so after a disconnect the next call connects anew, and the one after
  it uses the connection the next one made, until it fails too; with a cached client no connection is opened. Connecting
  raises only \<open>OSError\<close>s, and closing raises no \<open>SystemExit\<close> and no \<open>KeyboardInterrupt\<close>.\<close>

theorem client_dropped_on_disconnect:
  assumes "\<forall>w e. fst (tr_connect tr w) = Inl e \<longrightarrow> is_os_error e"
    and "\<forall>h w e. fst (tr_close tr h w) = Inl e \<longrightarrow> is_exception e"
    and "hil_call tr n kws s = (r, t)"
  shows "(tl_client t = None \<longleftrightarrow> (\<exists>e. r = Inl e \<and> is_disconnect e))
    \<and> (tl_client t = None \<longrightarrow> (case tr_connect tr (tl_world t) of
         (Inr h, w) \<Rightarrow> hil_call tr n' kws' t = hil_call tr n' kws' (t\<lparr>tl_world := w, tl_client := Some (h, 0)\<rparr>)
       | (Inl e, w) \<Rightarrow> hil_call tr n' kws' t = (Inl e, t\<lparr>tl_world := w\<rparr>)))
    \<and> (\<forall>h k. tl_client t = Some (h, k) \<longrightarrow>
         hil_call tr n' kws' t = try_except (client_call tr h n' kws') is_disconnect (drop_cached tr) t)"
proof (intro conjI impI allI)
  show "tl_client t = None \<longleftrightarrow> (\<exists>e. r = Inl e \<and> is_disconnect e)"
    using hil_call_dropped [OF assms(1,2), of n kws s] assms(3) by simp
next
  assume none: "tl_client t = None"
  obtain x w where c: "tr_connect tr (tl_world t) = (x, w)" by force
  show "case tr_connect tr (tl_world t) of
         (Inr h, w) \<Rightarrow> hil_call tr n' kws' t = hil_call tr n' kws' (t\<lparr>tl_world := w, tl_client := Some (h, 0)\<rparr>)
       | (Inl e, w) \<Rightarrow> hil_call tr n' kws' t = (Inl e, t\<lparr>tl_world := w\<rparr>)"
  proof (cases x)
    case (Inr h)
    with none c show ?thesis by (simp add: hil_call_def get_client_def on_link_def set_client_def io_simps)
  next
    case (Inl e)
    with c assms(1) have "is_disconnect e" by (metis fst_conv is_disconnect_def)
    with Inl none c show ?thesis
      by (simp add: hil_call_def get_client_def on_link_def drop_cached_def close_client_def set_client_def io_simps)
  qed
next
  fix h k
  assume "tl_client t = Some (h, k)"
  then show "hil_call tr n' kws' t = try_except (client_call tr h n' kws') is_disconnect (drop_cached tr) t"
    by (simp add: hil_call_def get_client_def io_simps)
qed

text \<open>A broker that has just gone away: it accepts, closes at once, and closing the socket fails. The world counts
  the connections made.\<close>

definition dead_tr :: "nat transport" where
  "dead_tr = \<lparr>tr_connect = (\<lambda>w. (Inr w, Suc w)), tr_exchange = \<lambda>h l. ret None, tr_close = \<lambda>h. raise (Exn OSError [])\<rparr>"

theorem client_dropped_on_disconnect_witness:
  "\<exists>e t. hil_call dead_tr ''psu.status'' [] \<lparr>tl_world = 0, tl_client = None\<rparr> = (Inl e, t) \<and> tl_client t = None \<and>
     hil_call dead_tr ''psu.status'' [] t = hil_call dead_tr ''psu.status'' [] (t\<lparr>tl_world := 2, tl_client := Some (1, 0)\<rparr>)"
proof -
  obtain e t where c: "hil_call dead_tr ''psu.status'' [] \<lparr>tl_world = 0, tl_client = None\<rparr> = (Inl e, t)"
      "is_disconnect e" "tl_world t = 1"
    by (simp add: hil_call_def get_client_def on_link_def set_client_def client_call_def broker_call_def
        drop_cached_def close_client_def dead_tr_def on_backend_def is_disconnect_def io_simps)
  have tr: "\<forall>w e. fst (tr_connect dead_tr w) = Inl e \<longrightarrow> is_os_error e"
    "\<forall>h w e. fst (tr_close dead_tr h w) = Inl e \<longrightarrow> is_exception e"
    by (simp_all add: dead_tr_def io_simps)
  have "tr_connect dead_tr (tl_world t) = (Inr 1, 2)" by (simp add: dead_tr_def c(3))
  with client_dropped_on_disconnect [OF tr c(1), of "''psu.status''" "[]"] c(2) have
    "tl_client t = None \<and>
     hil_call dead_tr ''psu.status'' [] t = hil_call dead_tr ''psu.status'' [] (t\<lparr>tl_world := 2, tl_client := Some (1, 0)\<rparr>)"
    by auto
  with c(1) show ?thesis by blast
qed

section \<open>The loopback self test, from the proxy to the bus and back\<close>

lemma b64_alphabet_facts: "length b64_alphabet = 64" "distinct b64_alphabet" "CHR ''='' \<notin> set b64_alphabet"
  by (simp_all add: b64_alphabet_def)

lemma b64_digit_char: "n < 64 \<Longrightarrow> b64_digit (b64_alphabet ! n) = Some (int n)"
  unfolding b64_digit_def by (subst map_of_zip_nth) (simp_all add: b64_alphabet_facts)

lemma byte_parts:
  assumes "is_byte x"
  shows "0 \<le> x div 4" "x div 4 < 64" "0 \<le> x div 16" "x div 16 < 16" "0 \<le> x div 64" "x div 64 < 4"
  using assms unfolding is_byte_def by linarith+

lemma hi_lo: "0 \<le> q \<Longrightarrow> q < m \<Longrightarrow> (p * m + q) div m = p \<and> (p * m + q) mod m = (q::int)"
  by simp

lemma pair_range: "0 \<le> p \<Longrightarrow> p < 4 \<Longrightarrow> 0 \<le> q \<Longrightarrow> q < 16 \<Longrightarrow> 0 \<le> p * 16 + q \<and> p * 16 + q < (64::int)"
  and pair_range': "0 \<le> p \<Longrightarrow> p < 16 \<Longrightarrow> 0 \<le> q \<Longrightarrow> q < 4 \<Longrightarrow> 0 \<le> p * 4 + q \<and> p * 4 + q < (64::int)"
  by simp_all

lemma mod_ranges: "0 \<le> (x::int) mod 4" "x mod 4 < 4" "0 \<le> x mod 16" "x mod 16 < 16" "0 \<le> x mod 64" "x mod 64 < 64"
  by simp_all

lemma digit_ranges:
  assumes "is_byte a" "is_byte b" "is_byte c"
  shows "0 \<le> a div 4 \<and> a div 4 < 64" "0 \<le> a mod 4 * 16 + b div 16 \<and> a mod 4 * 16 + b div 16 < 64"
    "0 \<le> b mod 16 * 4 + c div 64 \<and> b mod 16 * 4 + c div 64 < 64" "0 \<le> c mod 64 \<and> c mod 64 < 64"
    "0 \<le> a mod 4 * 16 \<and> a mod 4 * 16 < 64" "0 \<le> b mod 16 * 4 \<and> b mod 16 * 4 < 64"
  by (rule conjI [OF byte_parts(1,2) [OF assms(1)]],
      rule pair_range [OF mod_ranges(1,2) byte_parts(3,4) [OF assms(2)]],
      rule pair_range' [OF mod_ranges(3,4) byte_parts(5,6) [OF assms(3)]],
      rule conjI [OF mod_ranges(5,6)],
      use pair_range [OF mod_ranges(1,2), of 0] in simp, use pair_range' [OF mod_ranges(3,4), of 0] in simp)

lemma b64_digits_range: "is_bytes bs \<Longrightarrow> list_all (\<lambda>d. 0 \<le> d \<and> d < 64) (b64_digits bs)"
proof (induction bs rule: b64_digits.induct)
  case (1 a b c r)
  then have "is_byte a" "is_byte b" "is_byte c" by simp_all
  from digit_ranges [OF this] 1 show ?case
    by (simp only: b64_digits.simps append.simps list.pred_inject is_bytes_simps simp_thms)
next
  case (2 a b)
  then have "is_byte a" "is_byte b" by simp_all
  from digit_ranges [OF this this(2)] show ?case
    by (simp only: b64_digits.simps list.pred_inject simp_thms)
next
  case (3 a)
  then have "is_byte a" by simp
  from digit_ranges [OF this this this] show ?case
    by (simp only: b64_digits.simps list.pred_inject simp_thms)
qed simp

lemma regroup:
  assumes "is_byte b" "is_byte c"
  shows "a div 4 * 4 + (a mod 4 * 16 + b div 16) div 16 = a"
    "(a mod 4 * 16 + b div 16) mod 16 * 16 + (b mod 16 * 4 + c div 64) div 4 = b"
    "(b mod 16 * 4 + c div 64) mod 4 * 64 + c mod 64 = c"
    "(a mod 4 * 16) div 16 = a mod 4" "(a mod 4 * 16 + b div 16) mod 16 * 16 + (b mod 16 * 4) div 4 = b"
proof -
  have 1: "(a mod 4 * 16 + b div 16) div 16 = a mod 4" "(a mod 4 * 16 + b div 16) mod 16 = b div 16"
    using hi_lo [OF byte_parts(3,4) [OF assms(1)]] by blast+
  have 2: "(b mod 16 * 4 + c div 64) div 4 = b mod 16" "(b mod 16 * 4 + c div 64) mod 4 = c div 64"
    using hi_lo [OF byte_parts(5,6) [OF assms(2)]] by blast+
  have 3: "(b mod 16 * 4) div 4 = b mod 16" by simp
  show "a div 4 * 4 + (a mod 4 * 16 + b div 16) div 16 = a" by (simp only: 1 div_mult_mod_eq)
  show "(a mod 4 * 16 + b div 16) mod 16 * 16 + (b mod 16 * 4 + c div 64) div 4 = b" by (simp only: 1 2 div_mult_mod_eq)
  show "(b mod 16 * 4 + c div 64) mod 4 * 64 + c mod 64 = c" by (simp only: 2 div_mult_mod_eq)
  show "(a mod 4 * 16) div 16 = a mod 4" by simp
  show "(a mod 4 * 16 + b div 16) mod 16 * 16 + (b mod 16 * 4) div 4 = b" by (simp only: 1 3 div_mult_mod_eq)
qed

lemma b64_groups_digits: "is_bytes bs \<Longrightarrow> b64_groups (b64_digits bs) = Inr bs"
proof (induction bs rule: b64_digits.induct)
  case (1 a b c r)
  then have b: "is_byte b" "is_byte c" and r: "b64_groups (b64_digits r) = Inr r" by simp_all
  from regroup(1,2) [OF b, of a] regroup(3) [OF b] r show ?case
    by (simp only: b64_digits.simps append.simps b64_groups.simps rbind_simps)
next
  case (2 a b)
  then have b: "is_byte b" by simp
  from regroup(1) [OF b b, of a] regroup(5) [OF b b, of a] show ?case
    by (simp only: b64_digits.simps b64_groups.simps)
qed simp_all

lemma length_b64_digits: "length (b64_digits bs) mod 4 = (if length bs mod 3 = 0 then 0 else length bs mod 3 + 1)"
proof (induction bs rule: b64_digits.induct)
  case (1 a b c r)
  have "Suc (Suc (Suc (length r))) mod 3 = length r mod 3" by presburger
  moreover have "Suc (Suc (Suc (Suc n))) mod 4 = n mod 4" for n :: nat by presburger
  ultimately show ?case using 1 by simp
qed simp_all

lemma b64_roundtrip:
  assumes "is_bytes bs"
  shows "b64decode (b64encode bs) = Inr bs"
proof -
  let ?ch = "\<lambda>d. b64_alphabet ! nat d"
  define pad where "pad = (3 - length bs mod 3) mod 3"
  have rng: "0 \<le> d \<and> d < 64" if "d \<in> set (b64_digits bs)" for d using b64_digits_range [OF assms] that by (auto simp: list_all_iff)
  have dc: "b64_digit (?ch d) = Some d" if "d \<in> set (b64_digits bs)" for d
    using rng [OF that] b64_digit_char [of "nat d"] by (simp add: nat_less_iff)
  have mem: "?ch d \<in> set b64_alphabet" if "d \<in> set (b64_digits bs)" for d
    using rng [OF that] b64_alphabet_facts(1) by (intro nth_mem) auto
  then have ne: "?ch d \<noteq> CHR ''=''" if "d \<in> set (b64_digits bs)" for d
    using b64_alphabet_facts(3) that by metis
  have f: "filter (\<lambda>c. c \<in> set b64_alphabet \<or> c = CHR ''='') (b64encode bs) = b64encode bs"
    using mem by (auto simp: b64encode_def filter_id_conv)
  have body: "takeWhile (\<lambda>c. c \<noteq> CHR ''='') (b64encode bs) = map ?ch (b64_digits bs)"
    using ne by (auto simp: b64encode_def takeWhile_append takeWhile_replicate)
  have "drop (length (map ?ch (b64_digits bs))) (b64encode bs) = replicate pad (CHR ''='')"
    by (simp add: b64encode_def pad_def)
  then have pad: "length (takeWhile (\<lambda>c. c = CHR ''='') (drop (length (map ?ch (b64_digits bs))) (b64encode bs))) = pad"
    by (simp add: takeWhile_replicate)
  have "\<not> (length (b64_digits bs) mod 4 \<noteq> 0 \<and> length (b64_digits bs) mod 4 + pad < 4)"
  proof -
    have "length bs mod 3 < 3" by simp
    then consider "length bs mod 3 = 0" | "length bs mod 3 = 1" | "length bs mod 3 = 2" by linarith
    then show ?thesis unfolding length_b64_digits pad_def by cases simp_all
  qed
  then have len: "(length (map ?ch (b64_digits bs)) mod 4 \<noteq> 0 \<and> length (map ?ch (b64_digits bs)) mod 4 + pad < 4) = False"
    by (simp only: length_map not_False_eq_True simp_thms)
  have "map ((\<lambda>c. case b64_digit c of Some v \<Rightarrow> v | None \<Rightarrow> 0) \<circ> ?ch) (b64_digits bs) = b64_digits bs"
    using dc by (intro map_idI) simp
  then have m: "map (\<lambda>c. case b64_digit c of Some v \<Rightarrow> v | None \<Rightarrow> 0) (map ?ch (b64_digits bs)) = b64_digits bs"
    by (simp only: map_map)
  show ?thesis
    by (simp only: b64decode_def Let_def f body pad len m if_False b64_groups_digits [OF assms])
qed

text \<open>A controller in loopback: the link commands succeed, and what is sent on a bus is received on it.\<close>

definition echo_bus :: "'w can_env \<Rightarrow> bool" where
  "echo_bus ce \<longleftrightarrow>
     (\<forall>nm w. fst (ce_ip_down ce nm w) = Inr ()) \<and> (\<forall>nm br lo w. fst (ce_ip_up ce nm br lo w) = Inr ()) \<and>
     (\<forall>nm w. \<exists>b. fst (ce_bus_open ce nm w) = Inr b) \<and>
     (\<forall>b w e. fst (ce_bus_shutdown ce b w) = Inl e \<longrightarrow> is_exception e) \<and>
     (\<forall>b cid d w. \<exists>w'. ce_bus_send ce b cid d w = (Inr (), w') \<and> fst (ce_bus_recv ce b w') = Inr (Some (cid, d)))"

lemma bus_close_ok:
  assumes "echo_bus (he_can env)" "hm_inv s" "i < 3"
  shows "\<exists>t. bus_close env (JInt (int i)) s = (Inr i, t) \<and> hm_can_buses t ! i = None \<and> length (hm_can_buses t) = 3"
proof -
  have l: "length (hm_can_buses s) = 3" using assms(2) by (simp add: hm_inv_def)
  with assms(3) have ix: "py_index (hm_can_buses s) (JInt (int i)) = Inr i" by simp
  show ?thesis
  proof (cases "hm_can_buses s ! i")
    case (Some b)
    obtain r w where sh: "ce_bus_shutdown (he_can env) b (hm_world s) = (r, w)" by force
    then have "r = Inl e \<Longrightarrow> is_exception e" for e using assms(1) unfolding echo_bus_def by (metis fst_conv)
    with Some sh ix l assms(3) show ?thesis
      by (cases r) (auto simp: bus_close_def on_world_def io_simps)
  qed (use ix l in \<open>simp add: bus_close_def io_simps\<close>)
qed

lemma link_cmds_ok:
  assumes "echo_bus (he_can env)"
  shows "\<exists>t. ip_down env v s = (Inr (), t) \<and> hm_can_buses t = hm_can_buses s"
    "\<exists>t. ip_up env v lo s = (Inr (), t) \<and> hm_can_buses t = hm_can_buses s"
proof -
  obtain r w where "ce_ip_down (he_can env) (can_name v) (hm_world s) = (r, w)" by force
  moreover from this have "r = Inr ()" using assms unfolding echo_bus_def by (metis fst_conv)
  ultimately show "\<exists>t. ip_down env v s = (Inr (), t) \<and> hm_can_buses t = hm_can_buses s"
    by (simp add: ip_down_def on_world_def io_simps)
  obtain r w where "ce_ip_up (he_can env) (can_name v) (hm_can_bitrate s) lo (hm_world s) = (r, w)" by force
  moreover from this have "r = Inr ()" using assms unfolding echo_bus_def by (metis fst_conv)
  ultimately show "\<exists>t. ip_up env v lo s = (Inr (), t) \<and> hm_can_buses t = hm_can_buses s"
    by (simp add: ip_up_def on_world_def io_simps)
qed

text \<open>the loopback self test passes on a healthy controller: for every identifier and every payload, the
  bytes the proxy encodes in base64 are the bytes the manager sends and compares with the frame it
  receives, whichever bus was open before.\<close>

theorem loopback_self_test:
  assumes "echo_bus (he_can env)" "hm_inv s" "i < 3" "is_bytes data"
  shows "fst (hm_can_loopback_test env (JInt (int i)) (JInt cid) (JStr (b64encode data)) s) = Inr (JBool True)"
proof -
  let ?v = "JInt (int i)"
  let ?s0 = "s\<lparr>hm_op_count := Suc (hm_op_count s)\<rparr>"
  have "hm_inv ?s0" using assms(2) by (simp add: hm_inv_def)
  from bus_close_ok [OF assms(1) this assms(3)] obtain s1 where
    1: "bus_close env ?v ?s0 = (Inr i, s1)" "hm_can_buses s1 ! i = None" "length (hm_can_buses s1) = 3" by blast
  obtain s2 where 2: "ip_down env ?v s1 = (Inr (), s2)" "hm_can_buses s2 = hm_can_buses s1"
    using link_cmds_ok(1) [OF assms(1)] by blast
  obtain s3 where 3: "ip_up env ?v True s2 = (Inr (), s3)" "hm_can_buses s3 = hm_can_buses s2"
    using link_cmds_ok(2) [OF assms(1)] by blast
  obtain b w4 where 4: "ce_bus_open (he_can env) (can_name ?v) (hm_world s3) = (Inr b, w4)"
    using assms(1) unfolding echo_bus_def by (metis prod.collapse)
  obtain w5 r w6 where 5: "ce_bus_send (he_can env) b cid data w4 = (Inr (), w5)"
      "ce_bus_recv (he_can env) b w5 = (Inr (Some (cid, data)), w6)"
    using assms(1) unfolding echo_bus_def by (metis prod.collapse)
  show ?thesis
    by (simp add: hm_can_loopback_test_def b64_arg_def b64_roundtrip [OF assms(4)] hm_tick_def 1 2 3 put_mode_def
        ensure_bus_def on_world_def 4 5 io_simps)
qed

text \<open>A bus that keeps the last frame sent.\<close>

definition echo_env :: "(int \<times> int list) option hm_env" where
  "echo_env = \<lparr>he_hw = null_hw,
     he_can = null_can\<lparr>ce_ip_down := \<lambda>nm. ret (), ce_ip_up := \<lambda>nm br lo. ret (), ce_bus_open := \<lambda>nm. ret 7,
       ce_bus_shutdown := \<lambda>b. ret (), ce_bus_send := \<lambda>b cid d. modify (\<lambda>w. Some (cid, d)),
       ce_bus_recv := \<lambda>b. reads (\<lambda>w. w)\<rparr>,
     he_fuel = 101, he_int = (\<lambda>s. None)\<rparr>"

theorem loopback_self_test_witness:
  "fst (hm_can_loopback_test echo_env (JInt (int 2)) (JInt 0x123) (JStr (b64encode [0xDE, 0xAD, 0xBE, 0xEF]))
     \<lparr>hm_world = None, hm_started_at = 0, hm_op_count = 0, hm_adcs = [], hm_dacs = None,
      hm_nrf = \<lparr>sd_handle = 3, sd_cs = None\<rparr>, hm_inas = [], hm_can_bitrate = 500000,
      hm_can_mode = [0x80, 0x80, 0x80], hm_can_buses = [None, None, Some 4]\<rparr>) = Inr (JBool True)"
proof (rule loopback_self_test)
  show "echo_bus (he_can echo_env)" by (simp add: echo_bus_def echo_env_def null_can_def io_simps)
qed (simp_all add: hm_inv_def can_modes_def MODE_CONFIG_def is_byte_def)

end
