(* ===== verification/Trace.thy ===== *)
theory Trace
  imports Prelude
begin

text \<open>
  Programs that keep a trace of events beside their world, oldest first, and a calculus for what such a program
  emits. The CAN flasher and the DUT flasher are verified against the events of their run.
\<close>

definition on_fst :: "('w, 'a) io \<Rightarrow> ('w \<times> 't, 'a) io" where
  "on_fst = zoom fst (\<lambda>w s. (w, snd s))"

text \<open>\<open>m\<close>, with the event of its outcome.\<close>

definition logged :: "('w, 'a) io \<Rightarrow> ('a res \<Rightarrow> 't list) \<Rightarrow> ('w \<times> 't list, 'a) io" where
  "logged m note = (\<lambda>(w, tr). case m w of (r, w') \<Rightarrow> (r, (w', tr @ note r)))"

text \<open>Every run of \<open>m\<close> with outcome \<open>r\<close> appends events \<open>ts\<close> such that \<open>P r ts\<close>.\<close>

definition emits :: "('w \<times> 't list, 'a) io \<Rightarrow> ('a res \<Rightarrow> 't list \<Rightarrow> bool) \<Rightarrow> bool" where
  "emits m P \<longleftrightarrow> (\<forall>w tr. \<exists>ts. snd (snd (m (w, tr))) = tr @ ts \<and> P (fst (m (w, tr))) ts)"

lemma emitsD:
  assumes "emits m P" "m (w, tr) = (r, (w', tr'))"
  obtains ts where "tr' = tr @ ts" "P r ts"
  using assms unfolding emits_def by (metis fst_conv snd_conv)

lemma emits_weaken: "emits m P \<Longrightarrow> (\<And>r ts. P r ts \<Longrightarrow> Q r ts) \<Longrightarrow> emits m Q"
  unfolding emits_def by blast

lemma emits_ret: "P (Inr x) [] \<Longrightarrow> emits (ret x) P"
  by (simp add: emits_def io_simps)

lemma emits_raise: "P (Inl e) [] \<Longrightarrow> emits (raise e) P"
  by (simp add: emits_def io_simps)

lemma emits_of_res: "P r [] \<Longrightarrow> emits (of_res r) P"
  by (simp add: emits_def io_simps)

lemma emits_bind:
  assumes "emits m P" "\<And>x. emits (f x) (Q x)"
    and "\<And>e ts. P (Inl e) ts \<Longrightarrow> R (Inl e) ts"
    and "\<And>x r ts ts'. P (Inr x) ts \<Longrightarrow> Q x r ts' \<Longrightarrow> R r (ts @ ts')"
  shows "emits (bind m f) R"
  unfolding emits_def
proof (intro allI)
  fix w tr
  obtain r w' tr' where m: "m (w, tr) = (r, (w', tr'))" by (metis prod.collapse)
  then obtain ts where ts: "tr' = tr @ ts" "P r ts" using emitsD [OF assms(1)] by blast
  show "\<exists>ts. snd (snd (bind m f (w, tr))) = tr @ ts \<and> R (fst (bind m f (w, tr))) ts"
  proof (cases r)
    case (Inl e)
    with m ts assms(3) show ?thesis by (simp add: io_simps)
  next
    case (Inr x)
    obtain r2 w2 tr2 where f: "f x (w', tr') = (r2, (w2, tr2))" by (metis prod.collapse)
    then obtain ts2 where "tr2 = tr' @ ts2" "Q x r2 ts2" using emitsD [OF assms(2)] by blast
    with Inr m f ts assms(4) show ?thesis by (simp add: io_simps)
  qed
qed

lemma emits_try_finally:
  assumes "emits m P" "emits f (\<lambda>r ts. ts = [])" "\<And>r ts. P r ts \<Longrightarrow> R r ts" "\<And>r ts e. P r ts \<Longrightarrow> R (Inl e) ts"
  shows "emits (try_finally m f) R"
  unfolding emits_def
proof (intro allI)
  fix w tr
  obtain r w' tr' where m: "m (w, tr) = (r, (w', tr'))" by (metis prod.collapse)
  then obtain ts where ts: "tr' = tr @ ts" "P r ts" using emitsD [OF assms(1)] by blast
  obtain u w2 tr2 where f: "f (w', tr') = (u, (w2, tr2))" by (metis prod.collapse)
  with emitsD [OF assms(2)] have "tr2 = tr'" by (metis append_Nil2)
  with m f ts assms(3,4) show "\<exists>ts. snd (snd (try_finally m f (w, tr))) = tr @ ts \<and> R (fst (try_finally m f (w, tr))) ts"
    by (cases u) (auto simp: io_simps)
qed

lemma emits_silent: "(\<And>r. P r []) \<Longrightarrow> emits (on_fst m) P"
  by (auto simp: emits_def on_fst_def io_simps split: prod.split)

lemma emits_if: "(b \<Longrightarrow> emits m P) \<Longrightarrow> (\<not> b \<Longrightarrow> emits n P) \<Longrightarrow> emits (if b then m else n) P"
  by simp

lemma emits_try_except:
  assumes "emits m P" "\<And>e. emits (h e) (Q e)"
    and "\<And>x ts. P (Inr x) ts \<Longrightarrow> R (Inr x) ts"
    and "\<And>e ts. P (Inl e) ts \<Longrightarrow> \<not> C e \<Longrightarrow> R (Inl e) ts"
    and "\<And>e r ts ts'. P (Inl e) ts \<Longrightarrow> Q e r ts' \<Longrightarrow> R r (ts @ ts')"
  shows "emits (try_except m C h) R"
  unfolding emits_def
proof (intro allI)
  fix w tr
  obtain r w' tr' where m: "m (w, tr) = (r, (w', tr'))" by (metis prod.collapse)
  then obtain ts where ts: "tr' = tr @ ts" "P r ts" using emitsD [OF assms(1)] by blast
  show "\<exists>ts. snd (snd (try_except m C h (w, tr))) = tr @ ts \<and> R (fst (try_except m C h (w, tr))) ts"
  proof (cases r)
    case (Inr x)
    with m ts assms(3) show ?thesis by (simp add: io_simps)
  next
    case (Inl e)
    obtain r2 w2 tr2 where h: "h e (w', tr') = (r2, (w2, tr2))" by (metis prod.collapse)
    then obtain ts2 where "tr2 = tr' @ ts2" "Q e r2 ts2" using emitsD [OF assms(2)] by blast
    with Inl m h ts assms(4,5) show ?thesis by (auto simp: io_simps)
  qed
qed

lemma emits_logged: "(\<And>r. P r (note r)) \<Longrightarrow> emits (logged m note) P"
  by (auto simp: emits_def logged_def split: prod.split)

text \<open>One property of every event.\<close>

lemma emits_all_bind:
  "emits m (\<lambda>r. list_all E) \<Longrightarrow> (\<And>x. emits (f x) (\<lambda>r. list_all E)) \<Longrightarrow> emits (bind m f) (\<lambda>r. list_all E)"
  by (rule emits_bind [where P = "\<lambda>r. list_all E" and Q = "\<lambda>x r. list_all E"]) auto

lemma emits_of_res_bind:
  "(\<And>x. r = Inr x \<Longrightarrow> emits (f x) R) \<Longrightarrow> (\<And>e. r = Inl e \<Longrightarrow> R (Inl e) []) \<Longrightarrow> emits (bind (of_res r) f) R"
  by (cases r) (auto simp: emits_def io_simps)

lemma emits_finally:
  assumes "emits m P" "emits f Q" "\<And>r u ts ts'. P r ts \<Longrightarrow> Q (Inr u) ts' \<Longrightarrow> R r (ts @ ts')"
    "\<And>r e ts ts'. P r ts \<Longrightarrow> Q (Inl e) ts' \<Longrightarrow> R (Inl e) (ts @ ts')"
  shows "emits (try_finally m f) R"
  unfolding emits_def
proof (intro allI)
  fix w tr
  obtain r w' tr' where m: "m (w, tr) = (r, (w', tr'))" by (metis prod.collapse)
  then obtain ts where ts: "tr' = tr @ ts" "P r ts" using emitsD [OF assms(1)] by blast
  obtain u w2 tr2 where f: "f (w', tr') = (u, (w2, tr2))" by (metis prod.collapse)
  then obtain ts2 where "tr2 = tr' @ ts2" "Q u ts2" using emitsD [OF assms(2)] by blast
  with m f ts assms(3,4) show "\<exists>ts. snd (snd (try_finally m f (w, tr))) = tr @ ts \<and> R (fst (try_finally m f (w, tr))) ts"
    by (cases u) (auto simp: io_simps)
qed

end
