(* ===== verification/Can_Link.thy ===== *)
theory Can_Link
  imports Trace
begin

text \<open>
  The \<^verbatim>\<open>python-can\<close> bus of the flashing tools, as a record of programs over an arbitrary world:
  sending and receiving frames (identifier and data), the monotonic clock, sleeping and the shutdown of
  the bus. The library is not part of the repository, so the tools take the record as an argument.

  A loop that receives until a deadline is \<open>recv_until\<close>, with fuel; running out of it raises
  \<open>no_fuel\<close>, and \<open>recv_until_fuel\<close> gives an amount that is enough on a bus where a received frame
  takes time. The second half records what passes over a bus as a list of events, with rules to reason
  about the events a program makes.
\<close>

record 'w can_bus =
  cb_send :: "int \<Rightarrow> int list \<Rightarrow> ('w, unit) io"
  cb_recv :: "rat \<Rightarrow> ('w, (int \<times> int list) option) io"
  cb_time :: "('w, rat) io"
  cb_sleep :: "rat \<Rightarrow> ('w, unit) io"
  cb_shutdown :: "('w, unit) io"

definition no_fuel :: exn where
  "no_fuel = Exn Exception ''out of fuel''"

text \<open>\<open>while time.monotonic() < deadline: msg = bus.recv(...); if msg is None: break; ...\<close>; \<open>match\<close> is what
  the body makes of a frame, None where it goes on with the next one.\<close>

primrec recv_until ::
  "nat \<Rightarrow> 'w can_bus \<Rightarrow> rat \<Rightarrow> (int \<times> int list \<Rightarrow> 'a option) \<Rightarrow> ('w, 'a option) io"
where
  "recv_until 0 bus deadline match = raise no_fuel"
| "recv_until (Suc n) bus deadline match =
     bind (cb_time bus) (\<lambda>t.
       if t < deadline
       then bind (cb_time bus) (\<lambda>now.
            bind (cb_recv bus (max (deadline - now) 0)) (\<lambda>msg.
            case msg of
              None \<Rightarrow> ret None
            | Some m \<Rightarrow> (case match m of Some x \<Rightarrow> ret (Some x) | None \<Rightarrow> recv_until n bus deadline match)))
       else ret None)"

section \<open>Fuel\<close>

text \<open>A bus whose clock does not go back and on which every received frame takes at least \<open>eps\<close>; its
  operations do not raise \<open>no_fuel\<close>.\<close>

definition bus_clock :: "('w \<Rightarrow> rat) \<Rightarrow> 'w can_bus \<Rightarrow> rat \<Rightarrow> bool" where
  "bus_clock clk bus eps \<longleftrightarrow>
     0 < eps \<and> (\<forall>w. cb_time bus w = (Inr (clk w), w)) \<and>
     (\<forall>t w. \<forall>m w'. cb_recv bus t w = (Inr (Some m), w') \<longrightarrow> clk w + eps \<le> clk w') \<and>
     (\<forall>t w. clk w \<le> clk (snd (cb_recv bus t w))) \<and>
     (\<forall>i d w. clk w \<le> clk (snd (cb_send bus i d w))) \<and>
     (\<forall>t w. clk w + t \<le> clk (snd (cb_sleep bus t w)))"

definition enough_fuel :: "('w, 'a) io \<Rightarrow> bool" where
  "enough_fuel m \<longleftrightarrow> (\<forall>w. fst (m w) \<noteq> Inl no_fuel)"

definition bus_raises :: "'w can_bus \<Rightarrow> bool" where
  "bus_raises bus \<longleftrightarrow>
     (\<forall>i d. enough_fuel (cb_send bus i d)) \<and> (\<forall>t. enough_fuel (cb_recv bus t)) \<and>
     (\<forall>t. enough_fuel (cb_sleep bus t)) \<and> enough_fuel (cb_shutdown bus)"

named_theorems fuel_intros "programs that do not run out of fuel"

lemma fuel_basic [fuel_intros]:
  "enough_fuel (ret x)" "enough_fuel (reads f)" "enough_fuel (modify g)"
  "e \<noteq> no_fuel \<Longrightarrow> enough_fuel (raise e)" "r \<noteq> Inl no_fuel \<Longrightarrow> enough_fuel (of_res r)"
  by (simp_all add: enough_fuel_def io_simps)

lemma fuel_bind [fuel_intros]: "enough_fuel m \<Longrightarrow> (\<And>x. enough_fuel (f x)) \<Longrightarrow> enough_fuel (bind m f)"
  unfolding enough_fuel_def io_simps by (auto split: prod.split sum.split) (metis fst_conv)

lemma fuel_try_finally [fuel_intros]: "enough_fuel m \<Longrightarrow> enough_fuel f \<Longrightarrow> enough_fuel (try_finally m f)"
  unfolding enough_fuel_def io_simps by (auto split: prod.split sum.split) (metis fst_conv)+

lemma fuel_if [fuel_intros]: "(b \<Longrightarrow> enough_fuel m) \<Longrightarrow> (\<not> b \<Longrightarrow> enough_fuel n) \<Longrightarrow> enough_fuel (if b then m else n)"
  by simp

lemma fuel_option [fuel_intros]:
  "enough_fuel m \<Longrightarrow> (\<And>x. enough_fuel (f x)) \<Longrightarrow> enough_fuel (case v of None \<Rightarrow> m | Some x \<Rightarrow> f x)"
  by (simp split: option.split)

lemma bus_raisesD:
  assumes "bus_raises bus"
  shows "enough_fuel (cb_send bus i d)" "enough_fuel (cb_recv bus t)" "enough_fuel (cb_sleep bus t)"
    "enough_fuel (cb_shutdown bus)"
  using assms by (simp_all add: bus_raises_def)

lemma bus_clock_time: "bus_clock clk bus eps \<Longrightarrow> cb_time bus w = (Inr (clk w), w)"
  by (simp add: bus_clock_def)

lemma recv_until_fuel:
  assumes "bus_clock clk bus eps" "bus_raises bus" "deadline - clk w \<le> of_nat n * eps"
  shows "fst (recv_until (Suc n) bus deadline match w) \<noteq> Inl no_fuel"
  using assms(3)
proof (induction n arbitrary: w)
  case 0
  with bus_clock_time [OF assms(1)] show ?case by (simp add: io_simps no_fuel_def)
next
  case (Suc n)
  note time = bus_clock_time [OF assms(1)]
  show ?case
  proof (cases "clk w < deadline")
    case True
    then have mx: "max (deadline - clk w) 0 = deadline - clk w" by simp
    obtain r w1 where rx: "cb_recv bus (deadline - clk w) w = (r, w1)" by force
    have r: "r \<noteq> Inl no_fuel" using bus_raisesD(2) [OF assms(2)] rx unfolding enough_fuel_def by (metis fst_conv)
    have "fst (recv_until (Suc n) bus deadline match w1) \<noteq> Inl no_fuel" if m: "r = Inr (Some m)" for m
    proof -
      have "clk w + eps \<le> clk w1" using assms(1) rx m unfolding bus_clock_def by blast
      with Suc.prems have "deadline - clk w1 \<le> of_nat n * eps" by (simp add: algebra_simps)
      from Suc.IH [OF this] show ?thesis .
    qed
    with r rx True mx time show ?thesis
      by (subst recv_until.simps(2)) (auto simp: io_simps simp del: recv_until.simps split: sum.split option.split)
  qed (use time in \<open>simp add: io_simps\<close>)
qed

section \<open>What passes over the bus\<close>

datatype can_event = Tx int "int list" | Rx int "int list"

text \<open>The same bus, with the frames it carried.\<close>

definition recorded :: "'w can_bus \<Rightarrow> ('w \<times> can_event list) can_bus" where
  "recorded bus =
     \<lparr>cb_send = \<lambda>i d. bind (on_fst (cb_send bus i d)) (\<lambda>_. modify (\<lambda>(w, tr). (w, tr @ [Tx i d]))),
      cb_recv = \<lambda>t. bind (on_fst (cb_recv bus t)) (\<lambda>m. bind (modify (\<lambda>(w, tr). (w,
        (case m of None \<Rightarrow> tr | Some (i, d) \<Rightarrow> tr @ [Rx i d])))) (\<lambda>_. ret m)),
      cb_time = on_fst (cb_time bus), cb_sleep = \<lambda>t. on_fst (cb_sleep bus t),
      cb_shutdown = on_fst (cb_shutdown bus)\<rparr>"

lemma recorded_quiet:
  "emits (cb_time (recorded bus)) (\<lambda>r ts. ts = [])"
  "emits (cb_sleep (recorded bus) t) (\<lambda>r ts. ts = [])"
  "emits (cb_shutdown (recorded bus)) (\<lambda>r ts. ts = [])"
  by (simp_all add: recorded_def emits_silent)

lemma recorded_send:
  "emits (cb_send (recorded bus) i d) (\<lambda>r ts. ts = (case r of Inl e \<Rightarrow> [] | Inr u \<Rightarrow> [Tx i d]))"
  by (auto simp: recorded_def emits_def on_fst_def io_simps split: prod.split sum.split)

lemma recorded_recv:
  "emits (cb_recv (recorded bus) t)
     (\<lambda>r ts. ts = (case r of Inr (Some (i, d)) \<Rightarrow> [Rx i d] | _ \<Rightarrow> []))"
  by (auto simp: recorded_def emits_def on_fst_def io_simps split: prod.split sum.split option.split)

fun is_rx :: "can_event \<Rightarrow> bool" where
  "is_rx (Rx i d) = True"
| "is_rx (Tx i d) = False"

text \<open>The loop receives frames only; a result comes from the last of them, and no frame before it matched.\<close>

definition unmatched :: "(int \<times> int list \<Rightarrow> 'a option) \<Rightarrow> can_event list \<Rightarrow> bool" where
  "unmatched match evs \<longleftrightarrow> (\<forall>i d. Rx i d \<in> set evs \<longrightarrow> match (i, d) = None)"

definition received :: "(int \<times> int list \<Rightarrow> 'a option) \<Rightarrow> 'a option \<Rightarrow> can_event list \<Rightarrow> bool" where
  "received match x evs \<longleftrightarrow> list_all is_rx evs \<and> (case x of
     None \<Rightarrow> unmatched match evs
   | Some y \<Rightarrow> \<exists>evs' i d. evs = evs' @ [Rx i d] \<and> match (i, d) = Some y \<and> unmatched match evs')"

lemma received_rx: "received match x evs \<Longrightarrow> list_all is_rx evs"
  by (simp add: received_def)

lemma received_Cons:
  assumes "match (i, d) = None" "received match x evs"
  shows "received match x (Rx i d # evs)"
proof (cases x)
  case (Some y)
  with assms(2) obtain evs' j e where "evs = evs' @ [Rx j e]" "match (j, e) = Some y" "unmatched match evs'"
    by (auto simp: received_def)
  with assms Some show ?thesis by (auto simp: received_def unmatched_def intro!: exI [of _ "Rx i d # evs'"])
qed (use assms in \<open>auto simp: received_def unmatched_def\<close>)

lemma received_basic:
  "received match None []" "match (i, d) = Some y \<Longrightarrow> received match (Some y) [Rx i d]"
  by (simp_all add: received_def unmatched_def)

lemma recv_until_received:
  "emits (recv_until n (recorded bus) deadline match)
     (\<lambda>r ts. list_all is_rx ts \<and> (\<forall>x. r = Inr x \<longrightarrow> received match x ts))"
proof (induction n)
  case 0
  show ?case by (simp add: emits_raise)
next
  case (Suc n)
  let ?P = "\<lambda>r ts. list_all is_rx ts \<and> (\<forall>x. r = Inr x \<longrightarrow> received match x ts)"
  let ?k = "\<lambda>msg. case msg of None \<Rightarrow> ret None | Some m \<Rightarrow>
        (case match m of Some x \<Rightarrow> ret (Some x) | None \<Rightarrow> recv_until n (recorded bus) deadline match)"
  have tail: "emits (?k msg) (\<lambda>r ts. case msg of None \<Rightarrow> r = Inr None \<and> ts = [] | Some m \<Rightarrow>
      (case match m of Some x \<Rightarrow> r = Inr (Some x) \<and> ts = [] | None \<Rightarrow> ?P r ts))" for msg
    using Suc by (auto split: option.split intro!: emits_ret)
  have recv: "emits (bind (cb_recv (recorded bus) t) ?k) ?P" for t
  proof (rule emits_bind [OF recorded_recv tail], goal_cases)
    case (2 msg r ts ts')
    then show ?case
      by (cases msg) (auto simp: received_basic received_Cons split: option.splits)
  qed simp
  show ?case
    unfolding recv_until.simps
    by (rule emits_bind [OF recorded_quiet(1)], rule emits_if, rule emits_bind [OF recorded_quiet(1) recv])
      (auto intro: emits_ret simp: received_basic)
qed

end
