(* ===== verification/Can_Flash.thy ===== *)
theory Can_Flash
  imports Can_Link Crc "HOL-Library.Sublist"
begin

text \<open>
  \<^verbatim>\<open>tools/flash.py\<close>: flashing an STM32 through its CAN bootloader (commands on 0x21, answers on 0x22).
  Every operation takes the fuel of the receive loops and the bus. The firmware file is the result of
  opening it, None when it is no file; \<^verbatim>\<open>can.Bus(...)\<close> is the program \<open>opn\<close>. \<open>flash_script\<close> is the
  reference: the commands a complete flash consists of.
\<close>

section \<open>CRC-32\<close>

text \<open>\<open>zlib.crc32\<close>: the reflected polynomial 0xEDB88320.\<close>

definition crc32_shift :: "int \<Rightarrow> int" where
  "crc32_shift c = drop_bit 1 c XOR (if odd c then 0xEDB88320 else 0)"

definition crc32_step :: "int \<Rightarrow> int \<Rightarrow> int" where
  "crc32_step c b = (crc32_shift ^^ 8) (c XOR b)"

definition crc32 :: "int list \<Rightarrow> int" where
  "crc32 bs = foldl crc32_step 0xFFFFFFFF bs XOR 0xFFFFFFFF"

section \<open>Commands\<close>

definition send_boot :: "'w can_bus \<Rightarrow> int list \<Rightarrow> ('w, unit) io" where
  "send_boot bus data = cb_send bus 0x21 data"

definition ack_match :: "int \<Rightarrow> int \<times> int list \<Rightarrow> int option" where
  "ack_match expected = (\<lambda>(i, d).
     if i \<noteq> 0x22 then None else if length d < 2 then None
     else if d ! 0 = expected then Some (d ! 1) else None)"

definition wait_ack :: "nat \<Rightarrow> 'w can_bus \<Rightarrow> int \<Rightarrow> rat \<Rightarrow> ('w, int option) io" where
  "wait_ack n bus expected timeout =
     bind (cb_time bus) (\<lambda>t. recv_until n bus (t + timeout) (ack_match expected))"

definition simple_cmd :: "nat \<Rightarrow> 'w can_bus \<Rightarrow> int \<Rightarrow> rat \<Rightarrow> ('w, int option) io" where
  "simple_cmd n bus cmd timeout =
     bind (send_boot bus (cmd # replicate 7 0)) (\<lambda>_. wait_ack n bus cmd timeout)"

definition bl_ping :: "nat \<Rightarrow> 'w can_bus \<Rightarrow> rat \<Rightarrow> ('w, bool) io" where
  "bl_ping n bus timeout =
     bind (send_boot bus (0x01 # replicate 7 0)) (\<lambda>_.
     bind (wait_ack n bus 0x01 timeout) (\<lambda>st. ret (st \<noteq> None)))"

text \<open>The status, the size and the version of the application, the last two where they are sent.\<close>

definition info_match :: "int \<times> int list \<Rightarrow> (int \<times> int \<times> int) option" where
  "info_match = (\<lambda>(i, d).
     if i \<noteq> 0x22 then None else if length d < 2 \<or> d ! 0 \<noteq> 0x40 then None
     else Some (d ! 1,
       (if d ! 1 = 0 \<and> 6 \<le> length d then from_le (slice 2 6 d) else 0),
       (if d ! 1 = 0 \<and> 8 \<le> length d then from_le (slice 6 8 d) else 0)))"

definition bl_get_info :: "nat \<Rightarrow> 'w can_bus \<Rightarrow> ('w, int option \<times> int \<times> int) io" where
  "bl_get_info n bus =
     bind (send_boot bus (0x40 # replicate 7 0)) (\<lambda>_.
     bind (cb_time bus) (\<lambda>t.
     bind (recv_until n bus (t + 1) info_match) (\<lambda>r. ret (case r of
       Some (st, sz, ver) \<Rightarrow> (Some st, sz, ver)
     | None \<Rightarrow> (None, 0, 0)))))"

definition bl_erase :: "nat \<Rightarrow> 'w can_bus \<Rightarrow> ('w, bool) io" where
  "bl_erase n bus = bind (simple_cmd n bus 0x10 30) (\<lambda>st. ret (st = Some 0))"

primrec set_values :: "nat \<Rightarrow> 'w can_bus \<Rightarrow> (int \<times> int) list \<Rightarrow> ('w, bool) io" where
  "set_values n bus [] = ret True"
| "set_values n bus (cv # cvs) =
     bind (of_res (to_bytes_le 4 (snd cv))) (\<lambda>bs.
     bind (send_boot bus (fst cv # bs @ [0, 0, 0])) (\<lambda>_.
     bind (wait_ack n bus (fst cv) 1) (\<lambda>st.
       if st = Some 0 then set_values n bus cvs else ret False)))"

definition bl_set_metadata :: "nat \<Rightarrow> 'w can_bus \<Rightarrow> int list \<Rightarrow> int \<Rightarrow> ('w, bool) io" where
  "bl_set_metadata n bus fw version =
     set_values n bus [(0x30, int (length fw)), (0x31, crc32 fw AND 0xFFFFFFFF), (0x32, version)]"

text \<open>The 7-byte chunks of the image, the last one padded with 0xFF.\<close>

function chunks7 :: "int list \<Rightarrow> int list list" where
  "chunks7 fw =
     (if fw = [] then []
      else (let chunk = take 7 fw in chunk @ replicate (7 - length chunk) 0xFF) # chunks7 (drop 7 fw))"
  by pat_completeness auto
termination by (relation "measure length") auto

declare chunks7.simps [simp del]

primrec write_chunks :: "nat \<Rightarrow> 'w can_bus \<Rightarrow> int list list \<Rightarrow> ('w, bool) io" where
  "write_chunks n bus [] = ret True"
| "write_chunks n bus (c # cs) =
     bind (send_boot bus (0x20 # c)) (\<lambda>_.
     bind (wait_ack n bus 0x20 1) (\<lambda>st.
       if st = Some 0 then write_chunks n bus cs else ret False))"

definition bl_write_data :: "nat \<Rightarrow> 'w can_bus \<Rightarrow> int list \<Rightarrow> ('w, bool) io" where
  "bl_write_data n bus fw = write_chunks n bus (chunks7 fw)"

definition bl_write_finish :: "nat \<Rightarrow> 'w can_bus \<Rightarrow> ('w, bool) io" where
  "bl_write_finish n bus = bind (simple_cmd n bus 0x21 30) (\<lambda>st. ret (st = Some 0))"

definition bl_jump :: "nat \<Rightarrow> 'w can_bus \<Rightarrow> ('w, bool) io" where
  "bl_jump n bus = bind (simple_cmd n bus 0x02 2) (\<lambda>st. ret (st = None \<or> st = Some 0))"

section \<open>Entering the bootloader\<close>

definition app_match :: "int \<times> int list \<Rightarrow> unit option" where
  "app_match = (\<lambda>(i, d). if i = 0x32 \<and> 2 \<le> length d \<and> d ! 0 = 0x01 then Some () else None)"

primrec ping_until :: "nat \<Rightarrow> nat \<Rightarrow> 'w can_bus \<Rightarrow> rat \<Rightarrow> ('w, bool) io" where
  "ping_until n 0 bus deadline = raise no_fuel"
| "ping_until n (Suc k) bus deadline =
     bind (cb_time bus) (\<lambda>t.
       if t < deadline
       then bind (bl_ping n bus (15 / 100)) (\<lambda>up.
            if up then ret True
            else bind (cb_sleep bus (5 / 100)) (\<lambda>_. ping_until n k bus deadline))
       else ret False)"

definition bl_remote_enter :: "nat \<Rightarrow> 'w can_bus \<Rightarrow> rat \<Rightarrow> ('w, bool) io" where
  "bl_remote_enter n bus boot_timeout =
     bind (cb_send bus 0x31 (0x01 # replicate 7 0)) (\<lambda>_.
     bind (cb_time bus) (\<lambda>t.
     bind (recv_until n bus (t + 5 / 10) app_match) (\<lambda>_.
     bind (cb_time bus) (\<lambda>t'. ping_until n n bus (t' + boot_timeout)))))"

section \<open>The flash\<close>

text \<open>\<open>if not step: return False\<close>.\<close>

definition and_then :: "('w, bool) io \<Rightarrow> ('w, bool) io \<Rightarrow> ('w, bool) io" where
  "and_then m k = bind m (\<lambda>ok. if ok then k else ret False)"

definition flash_write :: "nat \<Rightarrow> 'w can_bus \<Rightarrow> int list \<Rightarrow> int \<Rightarrow> ('w, bool) io" where
  "flash_write n bus fw version =
     and_then (bl_erase n bus)
       (and_then (bl_set_metadata n bus fw version)
         (and_then (bl_write_data n bus fw)
           (and_then (bl_write_finish n bus)
             (bind (bl_get_info n bus) (\<lambda>(st, sz, ver).
                if st \<noteq> Some 0 then ret False else bl_jump n bus)))))"

definition flash_session :: "nat \<Rightarrow> 'w can_bus \<Rightarrow> int list \<Rightarrow> int \<Rightarrow> bool \<Rightarrow> ('w, bool) io" where
  "flash_session n bus fw version force =
     bind (bl_ping n bus (5 / 10)) (\<lambda>up.
     and_then (if up then ret True else bl_remote_enter n bus 3)
       (if force then flash_write n bus fw version
        else bind (bl_get_info n bus) (\<lambda>(st, sz, ver).
          if st = Some 0 \<and> ver \<noteq> 0 \<and> ver = version then ret True
          else flash_write n bus fw version)))"

definition flash :: "nat \<Rightarrow> ('w, unit) io \<Rightarrow> 'w can_bus \<Rightarrow> int list option \<Rightarrow> int \<Rightarrow> bool \<Rightarrow> ('w, bool) io" where
  "flash n opn bus img version force =
     (case img of
        None \<Rightarrow> ret False
      | Some fw \<Rightarrow>
          if fw = [] then ret False
          else bind opn (\<lambda>_. try_finally (flash_session n bus fw version force) (cb_shutdown bus)))"

text \<open>The command line: the version is built from its two halves, the exit status from the result.\<close>

definition flash_main ::
  "nat \<Rightarrow> ('w, unit) io \<Rightarrow> 'w can_bus \<Rightarrow> int list option \<Rightarrow> int \<Rightarrow> int \<Rightarrow> bool \<Rightarrow> ('w, int) io"
where
  "flash_main n opn bus img major minor force =
     (if \<not> (0 \<le> major \<and> major \<le> 255) \<or> \<not> (0 \<le> minor \<and> minor \<le> 255) then ret 1
      else bind (flash n opn bus img (push_bit 8 major OR minor) force) (\<lambda>ok. ret (if ok then 0 else 1)))"

section \<open>What a flash sends\<close>

text \<open>The commands sent to the bootloader, pings apart.\<close>

fun is_cmd :: "can_event \<Rightarrow> bool" where
  "is_cmd (Tx i d) = (i = 0x21 \<and> d \<noteq> 0x01 # replicate 7 0)"
| "is_cmd (Rx i d) = False"

fun ev_data :: "can_event \<Rightarrow> int list" where
  "ev_data (Tx i d) = d"
| "ev_data (Rx i d) = d"

definition boot_cmds :: "can_event list \<Rightarrow> int list list" where
  "boot_cmds tr = map ev_data (filter is_cmd tr)"

text \<open>The reference: the commands of a complete flash, in order.\<close>

definition write_script :: "int list \<Rightarrow> int \<Rightarrow> int list list" where
  "write_script fw version =
     [0x10 # replicate 7 0,
      0x30 # le_bytes 4 (int (length fw)) @ [0, 0, 0],
      0x31 # le_bytes 4 (crc32 fw AND 0xFFFFFFFF) @ [0, 0, 0],
      0x32 # le_bytes 4 version @ [0, 0, 0]] @
     map (\<lambda>c. 0x20 # c) (chunks7 fw) @
     [0x21 # replicate 7 0, 0x40 # replicate 7 0]"

definition flash_script :: "int list \<Rightarrow> int \<Rightarrow> bool \<Rightarrow> int list list" where
  "flash_script fw version force =
     (if force then [] else [0x40 # replicate 7 0]) @ write_script fw version @ [0x02 # replicate 7 0]"

text \<open>A run of commands, each answered with status 0 before the next is sent.\<close>

primrec acked_run :: "int list list \<Rightarrow> can_event list \<Rightarrow> bool" where
  "acked_run [] evs \<longleftrightarrow> evs = []"
| "acked_run (c # cs) evs \<longleftrightarrow>
     (\<exists>rxs a evs'. evs = Tx 0x21 c # rxs @ Rx 0x22 a # evs' \<and> list_all is_rx rxs \<and>
        2 \<le> length a \<and> a ! 0 = c ! 0 \<and> a ! 1 = 0 \<and> acked_run cs evs')"

text \<open>A run through the commands as far as it got: a command follows the acknowledgement, with status 0, of
  the one before it; the last one sent need not be answered.\<close>

primrec in_turn :: "int list list \<Rightarrow> can_event list \<Rightarrow> bool" where
  "in_turn [] evs \<longleftrightarrow> evs = []"
| "in_turn (c # cs) evs \<longleftrightarrow>
     evs = [] \<or> (\<exists>rxs. evs = Tx 0x21 c # rxs \<and> list_all is_rx rxs) \<or>
     (\<exists>rxs a evs'. evs = Tx 0x21 c # rxs @ Rx 0x22 a # evs' \<and> list_all is_rx rxs \<and>
        2 \<le> length a \<and> a ! 0 = c ! 0 \<and> a ! 1 = 0 \<and> in_turn cs evs')"

text \<open>The first answer to an information request reports a valid application of this version.\<close>

definition installed :: "int \<Rightarrow> can_event list \<Rightarrow> bool" where
  "installed version evs \<longleftrightarrow>
     (\<exists>rxs a. evs = Tx 0x21 (0x40 # replicate 7 0) # rxs @ [Rx 0x22 a] \<and> list_all is_rx rxs \<and>
        (\<forall>d. Rx 0x22 d \<in> set rxs \<longrightarrow> \<not> (2 \<le> length d \<and> d ! 0 = 0x40)) \<and>
        8 \<le> length a \<and> a ! 0 = 0x40 \<and> a ! 1 = 0 \<and> version \<noteq> 0 \<and> from_le (slice 6 8 a) = version)"

text \<open>The jump was sent and not refused: every answer to it that came has status 0.\<close>

definition jump_sent :: "can_event list \<Rightarrow> bool" where
  "jump_sent evs \<longleftrightarrow>
     (\<exists>rxs. evs = Tx 0x21 (0x02 # replicate 7 0) # rxs \<and> list_all is_rx rxs \<and>
        (\<forall>a. Rx 0x22 a \<in> set rxs \<and> 2 \<le> length a \<and> a ! 0 = 0x02 \<longrightarrow> a ! 1 = 0))"

lemma boot_cmds_simps [simp]:
  "boot_cmds [] = []"
  "boot_cmds (Rx i d # tr) = boot_cmds tr"
  "boot_cmds (Tx i d # tr) = (if i = 0x21 \<and> d \<noteq> 0x01 # replicate 7 0 then d # boot_cmds tr else boot_cmds tr)"
  "boot_cmds (tr @ tr') = boot_cmds tr @ boot_cmds tr'"
  by (simp_all add: boot_cmds_def)

lemma boot_cmds_rx: "list_all is_rx tr \<Longrightarrow> boot_cmds tr = []"
  by (induction tr) (auto elim!: is_rx.elims)

lemma acked_Cons:
  "list_all is_rx rxs \<Longrightarrow> 2 \<le> length a \<Longrightarrow> a ! 0 = c ! 0 \<Longrightarrow> a ! 1 = 0 \<Longrightarrow> acked_run cs evs \<Longrightarrow>
   acked_run (c # cs) (Tx 0x21 c # rxs @ Rx 0x22 a # evs)"
  by (simp only: acked_run.simps) blast

lemma acked_append: "acked_run cs evs \<Longrightarrow> acked_run cs' evs' \<Longrightarrow> acked_run (cs @ cs') (evs @ evs')"
proof (induction cs arbitrary: evs)
  case (Cons c cs)
  then obtain rxs a e where e: "evs = Tx 0x21 c # rxs @ Rx 0x22 a # e" "list_all is_rx rxs"
      "2 \<le> length a" "a ! 0 = c ! 0" "a ! 1 = 0" "acked_run cs e" by auto
  from acked_Cons [OF e(2-5) Cons.IH [OF e(6) Cons.prems(2)]] e(1) show ?case by simp
qed simp

lemma acked_cmds:
  "acked_run cs evs \<Longrightarrow> list_all (\<lambda>c. c \<noteq> 0x01 # replicate 7 0) cs \<Longrightarrow> boot_cmds evs = cs"
  by (induction cs arbitrary: evs) (auto simp: boot_cmds_rx)

lemma in_turn_Nil [simp]: "in_turn cs []"
  by (cases cs) simp_all

lemma in_turn_one: "list_all is_rx rxs \<Longrightarrow> in_turn (c # cs) (Tx 0x21 c # rxs)"
  by simp

lemma in_turn_Cons:
  "list_all is_rx rxs \<Longrightarrow> 2 \<le> length a \<Longrightarrow> a ! 0 = c ! 0 \<Longrightarrow> a ! 1 = 0 \<Longrightarrow> in_turn cs evs \<Longrightarrow>
   in_turn (c # cs) (Tx 0x21 c # rxs @ Rx 0x22 a # evs)"
  by (simp only: in_turn.simps) blast

lemma acked_in_turn: "acked_run cs evs \<Longrightarrow> in_turn cs' evs' \<Longrightarrow> in_turn (cs @ cs') (evs @ evs')"
proof (induction cs arbitrary: evs)
  case (Cons c cs)
  then obtain rxs a e where e: "evs = Tx 0x21 c # rxs @ Rx 0x22 a # e" "list_all is_rx rxs"
      "2 \<le> length a" "a ! 0 = c ! 0" "a ! 1 = 0" "acked_run cs e" by auto
  from in_turn_Cons [OF e(2-5) Cons.IH [OF e(6) Cons.prems(2)]] e(1) show ?case by simp
qed simp

lemma in_turn_more: "in_turn cs evs \<Longrightarrow> in_turn (cs @ cs') evs"
proof (induction cs arbitrary: evs)
  case (Cons c cs)
  from Cons.prems have "evs = [] \<or> (\<exists>rxs. evs = Tx 0x21 c # rxs \<and> list_all is_rx rxs) \<or>
     (\<exists>rxs a evs'. evs = Tx 0x21 c # rxs @ Rx 0x22 a # evs' \<and> list_all is_rx rxs \<and>
        2 \<le> length a \<and> a ! 0 = c ! 0 \<and> a ! 1 = 0 \<and> in_turn (cs @ cs') evs')"
    unfolding in_turn.simps using Cons.IH by blast
  then show ?case by simp
qed simp

lemma in_turn_cmds:
  "in_turn cs evs \<Longrightarrow> list_all (\<lambda>c. c \<noteq> 0x01 # replicate 7 0) cs \<Longrightarrow> prefix (boot_cmds evs) cs"
  by (induction cs arbitrary: evs) (auto simp: boot_cmds_rx)

declare in_turn.simps(2) [simp del] acked_run.simps(2) [simp del]

text \<open>A program that works through the commands \<open>cs\<close>: it sends them in turn, and when its result
  is good (\<open>ok\<close>) all of them were acknowledged.\<close>

definition phase :: "('a \<Rightarrow> bool) \<Rightarrow> ('w \<times> can_event list, 'a) io \<Rightarrow> int list list \<Rightarrow> bool" where
  "phase ok m cs \<longleftrightarrow>
     emits m (\<lambda>r ts. in_turn cs ts \<and> (\<forall>x. r = Inr x \<and> ok x \<longrightarrow> acked_run cs ts))"

lemma phase_ret: "phase ok (ret x) []" "\<not> ok y \<Longrightarrow> phase ok (ret y) cs"
  by (auto simp: phase_def intro!: emits_ret)

lemma phase_bind:
  assumes "phase ok m cs" "\<And>x. ok x \<Longrightarrow> phase ok' (f x) cs'" "\<And>x. \<not> ok x \<Longrightarrow> phase ok' (f x) []"
    and "\<And>x y w. \<not> ok x \<Longrightarrow> fst (f x w) = Inr y \<Longrightarrow> \<not> ok' y"
  shows "phase ok' (bind m f) (cs @ cs')"
  unfolding phase_def
proof (rule emits_bind [OF assms(1) [unfolded phase_def]])
  fix x
  show "emits (f x) (\<lambda>r ts. (\<forall>y. \<not> ok x \<longrightarrow> r = Inr y \<longrightarrow> \<not> ok' y) \<and>
      (if ok x then in_turn cs' ts \<and> (\<forall>y. r = Inr y \<and> ok' y \<longrightarrow> acked_run cs' ts) else ts = []))"
  proof (cases "ok x")
    case True
    with assms(2) [of x] show ?thesis by (simp add: phase_def)
  next
    case False
    have "emits (f x) (\<lambda>r ts. ts = [])"
      using assms(3) [OF False] unfolding phase_def by (rule emits_weaken) simp
    with assms(4) [OF False] False show ?thesis unfolding emits_def by simp
  qed
next
  fix x r ts ts'
  assume 1: "in_turn cs ts \<and> (\<forall>x'. Inr x = Inr x' \<and> ok x' \<longrightarrow> acked_run cs ts)"
    and 2: "(\<forall>y. \<not> ok x \<longrightarrow> r = Inr y \<longrightarrow> \<not> ok' y) \<and>
      (if ok x then in_turn cs' ts' \<and> (\<forall>y. r = Inr y \<and> ok' y \<longrightarrow> acked_run cs' ts') else ts' = [])"
  show "in_turn (cs @ cs') (ts @ ts') \<and> (\<forall>y. r = Inr y \<and> ok' y \<longrightarrow> acked_run (cs @ cs') (ts @ ts'))"
    using 1 2 by (cases "ok x") (auto intro: acked_append acked_in_turn in_turn_more)
qed (auto intro: in_turn_more)

section \<open>Every operation is a phase\<close>

lemma exchange_emits:
  "emits (bind (send_boot (recorded bus) c) (\<lambda>_. bind (cb_time (recorded bus)) (\<lambda>t.
       recv_until n (recorded bus) (t + timeout) match)))
     (\<lambda>r ts. (\<exists>e. r = Inl e \<and> ts = []) \<or> (\<exists>rxs. ts = Tx 0x21 c # rxs \<and> list_all is_rx rxs \<and>
        (\<forall>x. r = Inr x \<longrightarrow> received match x rxs)))"
  unfolding send_boot_def
  by (rule emits_bind [OF recorded_send], rule emits_bind [OF recorded_quiet(1) recv_until_received]) auto

lemma acked_one:
  "list_all is_rx rxs \<Longrightarrow> \<not> length a < 2 \<Longrightarrow> a ! 0 = c ! 0 \<Longrightarrow> a ! Suc 0 = 0 \<Longrightarrow>
   acked_run [c] (Tx 0x21 c # rxs @ [Rx 0x22 a])"
  using acked_Cons [of rxs a c "[]" "[]"] by simp

lemma simple_exchange:
  assumes "c ! 0 = cmd"
  shows "phase (\<lambda>st. st = Some 0)
     (bind (send_boot (recorded bus) c) (\<lambda>_. wait_ack n (recorded bus) cmd timeout)) [c]"
  unfolding phase_def wait_ack_def
  by (rule emits_weaken [OF exchange_emits])
    (use assms in \<open>auto simp: received_def ack_match_def in_turn_one split: if_splits intro!: acked_one\<close>)

lemma phase_weaken: "phase ok m cs \<Longrightarrow> (\<And>x. ok' x \<Longrightarrow> ok x) \<Longrightarrow> phase ok' m cs"
  unfolding phase_def by (erule emits_weaken) auto

lemma phase_map:
  assumes "phase ok m cs" "\<And>x. ok' (g x) \<Longrightarrow> ok x"
  shows "phase ok' (bind m (\<lambda>x. ret (g x))) cs"
  unfolding phase_def
proof (rule emits_bind [OF assms(1) [unfolded phase_def]])
  show "emits (ret (g x)) (\<lambda>r ts. r = Inr (g x) \<and> ts = [])" for x by (simp add: emits_ret)
qed (use assms(2) in auto)

text \<open>Sequencing of steps that return whether to go on.\<close>

lemma phase_and_then:
  assumes "phase (\<lambda>b. b) m cs" "phase (\<lambda>b. b) k cs'"
  shows "phase (\<lambda>b. b) (and_then m k) (cs @ cs')"
  unfolding and_then_def
  by (rule phase_bind [OF assms(1)]) (use assms(2) in \<open>auto simp: phase_ret io_simps\<close>)

lemma phase_cmd:
  "(\<And>st. ok (g st) \<Longrightarrow> st = Some 0) \<Longrightarrow>
   phase ok (bind (simple_cmd n (recorded bus) cmd timeout) (\<lambda>st. ret (g st))) [cmd # replicate 7 0]"
  unfolding simple_cmd_def by (rule phase_map [OF simple_exchange]) auto

text \<open>The information request: what its answer says, when it says that the application is valid.\<close>

definition info_events :: "int option \<times> int \<times> int \<Rightarrow> can_event list \<Rightarrow> bool" where
  "info_events x ts \<longleftrightarrow> (\<exists>rxs. ts = Tx 0x21 (0x40 # replicate 7 0) # rxs \<and> list_all is_rx rxs) \<and>
     (fst x = Some 0 \<longrightarrow> acked_run [0x40 # replicate 7 0] ts \<and>
        (snd (snd x) \<noteq> 0 \<longrightarrow> installed (snd (snd x)) ts))"

lemma info_received:
  assumes "received info_match (Some (0, sz, ver)) rxs"
  shows "info_events (Some 0, sz, ver) (Tx 0x21 (0x40 # replicate 7 0) # rxs)"
proof -
  obtain rs i a where rs: "rxs = rs @ [Rx i a]" "list_all is_rx rs" "unmatched info_match rs"
      "info_match (i, a) = Some (0, sz, ver)"
    using assms by (auto simp: received_def)
  then have a: "i = 0x22" "\<not> length a < 2" "a ! 0 = 0x40" "a ! 1 = 0"
      "ver = (if 8 \<le> length a then from_le (slice 6 8 a) else 0)"
    by (auto simp: info_match_def split: if_splits)
  have "\<not> (2 \<le> length d \<and> d ! 0 = 0x40)" if "Rx 0x22 d \<in> set rs" for d
    using rs(3) that unfolding unmatched_def info_match_def by fastforce
  with rs a show ?thesis
    unfolding info_events_def installed_def by (auto intro!: acked_one)
qed

lemma get_info_emits:
  "emits (bl_get_info n (recorded bus)) (\<lambda>r ts. case r of
     Inl e \<Rightarrow> in_turn [0x40 # replicate 7 0] ts | Inr x \<Rightarrow> info_events x ts)"
proof -
  have "bl_get_info n (recorded bus) = bind (bind (send_boot (recorded bus) (0x40 # replicate 7 0)) (\<lambda>_.
      bind (cb_time (recorded bus)) (\<lambda>t. recv_until n (recorded bus) (t + 1) info_match)))
      (\<lambda>r. ret (case r of Some (st, sz, ver) \<Rightarrow> (Some st, sz, ver) | None \<Rightarrow> (None, 0, 0)))"
    by (simp add: bl_get_info_def bind_assoc)
  moreover have "emits \<dots> (\<lambda>r ts. case r of
     Inl e \<Rightarrow> in_turn [0x40 # replicate 7 0] ts | Inr x \<Rightarrow> info_events x ts)"
  proof (rule emits_bind [OF exchange_emits, where Q = "\<lambda>x r ts. ts = [] \<and> r = Inr (case x of
      Some (st, sz, ver) \<Rightarrow> (Some st, sz, ver) | None \<Rightarrow> (None, 0, 0))"], goal_cases)
    case (3 x r ts ts')
    then obtain rxs where rxs: "ts = Tx 0x21 (0x40 # replicate 7 0) # rxs" "list_all is_rx rxs" "received info_match x rxs"
      by auto
    show ?case
    proof (cases "\<exists>sz ver. x = Some (0, sz, ver)")
      case True
      with rxs 3(2) show ?thesis by (auto dest: info_received)
    next
      case False
      with rxs 3(2) show ?thesis by (auto simp: info_events_def split: option.splits)
    qed
  qed (auto intro: emits_ret in_turn_one)
  ultimately show ?thesis by simp
qed

lemma phase_get_info:
  "phase (\<lambda>(st, sz, ver). st = Some 0) (bl_get_info n (recorded bus)) [0x40 # replicate 7 0]"
  unfolding phase_def
  by (rule emits_weaken [OF get_info_emits])
    (auto simp: info_events_def in_turn_one split: sum.splits prod.splits)

lemma phase_set_values:
  "phase (\<lambda>b. b) (set_values n (recorded bus) cvs) (map (\<lambda>(c, v). c # le_bytes 4 v @ [0, 0, 0]) cvs)"
proof (induction cvs)
  case (Cons cv cvs)
  obtain c v where cv: "cv = (c, v)" by force
  let ?f = "c # le_bytes 4 v @ [0, 0, 0]"
  have c: "?f ! 0 = c" by simp
  have "phase (\<lambda>b. b) (bind (bind (send_boot (recorded bus) ?f) (\<lambda>_. wait_ack n (recorded bus) c 1))
      (\<lambda>st. if st = Some 0 then set_values n (recorded bus) cvs else ret False)) ([?f] @ map (\<lambda>(c, v). c # le_bytes 4 v @ [0, 0, 0]) cvs)"
    by (rule phase_bind [OF simple_exchange [OF c]]) (use Cons in \<open>auto simp: phase_ret io_simps\<close>)
  then show ?case
    by (cases "to_bytes_le 4 v")
      (auto simp: cv bind_assoc to_bytes_le_def phase_def io_simps emits_def split: if_splits)
qed (simp add: phase_ret)

lemma phase_write_chunks:
  "phase (\<lambda>b. b) (write_chunks n (recorded bus) cs) (map (\<lambda>c. 0x20 # c) cs)"
proof (induction cs)
  case (Cons c cs)
  have "phase (\<lambda>b. b) (bind (bind (send_boot (recorded bus) (0x20 # c)) (\<lambda>_. wait_ack n (recorded bus) 0x20 1))
      (\<lambda>st. if st = Some 0 then write_chunks n (recorded bus) cs else ret False)) ([0x20 # c] @ map (\<lambda>c. 0x20 # c) cs)"
    by (rule phase_bind [OF simple_exchange]) (use Cons in \<open>auto simp: phase_ret io_simps\<close>)
  then show ?case by (simp add: bind_assoc)
qed (simp add: phase_ret)

lemma not_ping: "list_all (\<lambda>c. c \<noteq> 0x01 # replicate 7 0) (write_script fw version)"
  by (simp add: write_script_def list_all_iff)

section \<open>The whole flash\<close>

text \<open>The commands \<open>cs\<close> in turn and then the jump, all of them acknowledged and the jump not refused when
  the result is True.\<close>

definition delivered :: "int list list \<Rightarrow> bool res \<Rightarrow> can_event list \<Rightarrow> bool" where
  "delivered cs r ts \<longleftrightarrow> in_turn (cs @ [0x02 # replicate 7 0]) ts \<and>
     (r = Inr True \<longrightarrow> (\<exists>core post. ts = core @ post \<and> acked_run cs core \<and> jump_sent post))"

definition delivers :: "('w \<times> can_event list, bool) io \<Rightarrow> int list list \<Rightarrow> bool" where
  "delivers m cs \<longleftrightarrow> emits m (delivered cs)"

lemma jump_received:
  "received (ack_match 0x02) x rxs \<Longrightarrow> x = None \<or> x = Some 0 \<Longrightarrow> jump_sent (Tx 0x21 (0x02 # replicate 7 0) # rxs)"
  unfolding jump_sent_def received_def unmatched_def ack_match_def
  by (intro exI [of _ rxs] conjI refl allI impI) (fastforce split: if_splits option.splits)+

lemma delivers_jump: "delivers (bl_jump n (recorded bus)) []"
proof -
  have "emits (bind (send_boot (recorded bus) (0x02 # replicate 7 0)) (\<lambda>_. bind (cb_time (recorded bus)) (\<lambda>t.
       recv_until n (recorded bus) (t + 2) (ack_match 0x02))))
     (\<lambda>r ts. in_turn [0x02 # replicate 7 0] ts \<and> (\<forall>x. r = Inr x \<and> (x = None \<or> x = Some 0) \<longrightarrow> jump_sent ts))"
    by (rule emits_weaken [OF exchange_emits]) (auto simp: in_turn_one jump_received)
  then show ?thesis
    unfolding delivers_def bl_jump_def simple_cmd_def wait_ack_def bind_assoc [symmetric]
    by (rule emits_bind [where Q = "\<lambda>x r ts. ts = [] \<and> r = Inr (x = None \<or> x = Some 0)"])
      (auto intro: emits_ret simp: delivered_def)
qed

lemma delivered_after: "acked_run cs ts \<Longrightarrow> delivered cs' r ts' \<Longrightarrow> delivered (cs @ cs') r (ts @ ts')"
  unfolding delivered_def
proof (intro conjI impI; elim conjE)
  assume "acked_run cs ts" "in_turn (cs' @ [0x02 # replicate 7 0]) ts'"
  then show "in_turn ((cs @ cs') @ [0x02 # replicate 7 0]) (ts @ ts')" by (simp add: acked_in_turn)
next
  assume a: "acked_run cs ts" "r = Inr True"
    "r = Inr True \<longrightarrow> (\<exists>core post. ts' = core @ post \<and> acked_run cs' core \<and> jump_sent post)"
  then obtain core post where "ts' = core @ post" "acked_run cs' core" "jump_sent post" by blast
  with acked_append [OF a(1)] show "\<exists>core post. ts @ ts' = core @ post \<and> acked_run (cs @ cs') core \<and> jump_sent post"
    by (intro exI [of _ "ts @ core"] exI [of _ post]) simp
qed

lemma delivers_after:
  assumes "phase ok m cs" "\<And>x. ok x \<Longrightarrow> delivers (f x) cs'" "\<And>x. \<not> ok x \<Longrightarrow> f x = ret False"
  shows "delivers (bind m f) (cs @ cs')"
  unfolding delivers_def
proof (rule emits_bind [OF assms(1) [unfolded phase_def],
    where Q = "\<lambda>x r ts. if ok x then delivered cs' r ts else r = Inr False \<and> ts = []"], goal_cases)
  case (1 x)
  show ?case by (cases "ok x") (use assms(2) [of x] in \<open>simp_all add: delivers_def assms(3) emits_ret\<close>)
next
  case (3 x r ts ts')
  then show ?case
    by (cases "ok x") (auto simp: delivered_after, simp add: delivered_def in_turn_more)
qed (simp add: delivered_def in_turn_more)

lemma delivers_and_then:
  "phase (\<lambda>b. b) m cs \<Longrightarrow> delivers k cs' \<Longrightarrow> delivers (and_then m k) (cs @ cs')"
  unfolding and_then_def by (rule delivers_after [where ok = "\<lambda>b. b"]) auto

lemma delivers_write: "delivers (flash_write n (recorded bus) fw version) (write_script fw version)"
proof -
  let ?gi = "bind (bl_get_info n (recorded bus))
      (\<lambda>(st, sz, ver). if st \<noteq> Some 0 then ret False else bl_jump n (recorded bus))"
  have "delivers ?gi ([0x40 # replicate 7 0] @ [])"
    by (rule delivers_after [OF phase_get_info]) (auto simp: delivers_jump)
  then have 1: "delivers (and_then (bl_write_finish n (recorded bus)) ?gi) ([0x21 # replicate 7 0] @ [0x40 # replicate 7 0])"
    unfolding bl_write_finish_def by (intro delivers_and_then phase_cmd) simp_all
  have 2: "delivers (and_then (bl_write_data n (recorded bus) fw) (and_then (bl_write_finish n (recorded bus)) ?gi))
      (map (\<lambda>c. 0x20 # c) (chunks7 fw) @ [0x21 # replicate 7 0] @ [0x40 # replicate 7 0])"
    unfolding bl_write_data_def by (rule delivers_and_then [OF phase_write_chunks 1])
  let ?md = "[(0x30, int (length fw)), (0x31, crc32 fw AND 0xFFFFFFFF), (0x32, version)]"
  have 3: "delivers (and_then (bl_set_metadata n (recorded bus) fw version)
        (and_then (bl_write_data n (recorded bus) fw) (and_then (bl_write_finish n (recorded bus)) ?gi)))
      (map (\<lambda>(c, v). c # le_bytes 4 v @ [0, 0, 0]) ?md @
       map (\<lambda>c. 0x20 # c) (chunks7 fw) @ [0x21 # replicate 7 0] @ [0x40 # replicate 7 0])"
    unfolding bl_set_metadata_def by (rule delivers_and_then [OF phase_set_values 2])
  have "delivers (flash_write n (recorded bus) fw version) ([0x10 # replicate 7 0] @
      map (\<lambda>(c, v). c # le_bytes 4 v @ [0, 0, 0]) ?md @
       map (\<lambda>c. 0x20 # c) (chunks7 fw) @ [0x21 # replicate 7 0] @ [0x40 # replicate 7 0])"
    unfolding flash_write_def bl_erase_def by (rule delivers_and_then [OF phase_cmd 3]) simp_all
  then show ?thesis by (simp add: write_script_def)
qed

text \<open>Programs that send no command but pings and the request to the application.\<close>

abbreviation quiet :: "('w \<times> can_event list, 'a) io \<Rightarrow> bool" where
  "quiet m \<equiv> emits m (\<lambda>r ts. boot_cmds ts = [])"

lemma quiet_bind: "quiet m \<Longrightarrow> (\<And>x. quiet (f x)) \<Longrightarrow> quiet (bind m f)"
  by (erule emits_bind) auto

lemma quiet_basic:
  "quiet (ret x)" "quiet (raise e)" "quiet (cb_time (recorded bus))" "quiet (cb_sleep (recorded bus) t)"
  "i \<noteq> 0x21 \<Longrightarrow> quiet (cb_send (recorded bus) i d)" "quiet (recv_until n (recorded bus) dl match)"
  by (auto intro: emits_ret emits_raise emits_weaken [OF recorded_quiet(1)] emits_weaken [OF recorded_quiet(2)]
      intro!: emits_weaken [OF recorded_send] emits_weaken [OF recv_until_received] simp: boot_cmds_rx split: sum.split)

lemma quiet_ping: "quiet (bl_ping n (recorded bus) t)"
proof -
  have "quiet (send_boot (recorded bus) (0x01 # replicate 7 0))"
    unfolding send_boot_def by (rule emits_weaken [OF recorded_send]) (auto split: sum.split)
  then show ?thesis
    unfolding bl_ping_def wait_ack_def by (intro quiet_bind quiet_basic) auto
qed

lemma quiet_ping_until: "quiet (ping_until n k (recorded bus) dl)"
  by (induction k) (auto intro!: quiet_bind quiet_basic quiet_ping)

lemma quiet_remote_enter: "quiet (bl_remote_enter n (recorded bus) t)"
  unfolding bl_remote_enter_def by (intro quiet_bind quiet_basic quiet_ping_until) simp

text \<open>The outcome of a session in terms of its events: \<open>asked\<close> are those of the information request,
  \<open>rest\<close> those of the erase and what follows it.\<close>

definition session_parts :: "int list \<Rightarrow> int \<Rightarrow> bool \<Rightarrow> bool res \<Rightarrow> can_event list \<Rightarrow> can_event list \<Rightarrow> bool" where
  "session_parts fw version force r asked rest \<longleftrightarrow>
     (if force then asked = [] else in_turn [0x40 # replicate 7 0] asked \<and> (asked = [] \<longrightarrow> rest = [])) \<and>
     in_turn (write_script fw version @ [0x02 # replicate 7 0]) rest \<and>
     (r = Inr True \<longrightarrow>
        (\<not> force \<and> installed version asked \<and> rest = []) \<or>
        (\<exists>core post. rest = core @ post \<and> acked_run (write_script fw version) core \<and> jump_sent post))"

definition session_events :: "int list \<Rightarrow> int \<Rightarrow> bool \<Rightarrow> bool res \<Rightarrow> can_event list \<Rightarrow> bool" where
  "session_events fw version force r ts \<longleftrightarrow>
     (\<exists>pre asked rest. ts = pre @ asked @ rest \<and> boot_cmds pre = [] \<and> session_parts fw version force r asked rest)"

lemma session_eventsI:
  "session_parts fw version force r asked rest \<Longrightarrow> session_events fw version force r (asked @ rest)"
  unfolding session_events_def by (intro exI [of _ "[]"] exI [of _ asked] exI [of _ rest]) simp

lemma session_pre:
  assumes "boot_cmds ts = []" "session_events fw version force r ts'"
  shows "session_events fw version force r (ts @ ts')"
proof -
  obtain pre asked rest where "ts' = pre @ asked @ rest" "boot_cmds pre = []" "session_parts fw version force r asked rest"
    using assms(2) unfolding session_events_def by blast
  with assms(1) show ?thesis
    unfolding session_events_def by (intro exI [of _ "ts @ pre"] exI [of _ asked] exI [of _ rest]) simp
qed

lemma session_quiet:
  assumes "boot_cmds ts = []" "r \<noteq> Inr True"
  shows "session_events fw version force r ts"
proof -
  have "session_events fw version force r ([] @ [])"
    by (rule session_eventsI) (use assms(2) in \<open>simp add: session_parts_def\<close>)
  from session_pre [OF assms(1) this] show ?thesis by simp
qed

lemma session_failed:
  assumes "session_events fw version force r ts"
  shows "session_events fw version force (Inl e) ts"
proof -
  obtain pre asked rest where ts: "ts = pre @ asked @ rest" "boot_cmds pre = []"
    and p: "session_parts fw version force r asked rest"
    using assms unfolding session_events_def by blast
  from p have "session_parts fw version force (Inl e) asked rest" by (simp add: session_parts_def)
  with ts show ?thesis unfolding session_events_def by blast
qed

lemma session_body:
  "emits (if force then flash_write n (recorded bus) fw version
     else bind (bl_get_info n (recorded bus)) (\<lambda>(st, sz, ver).
       if st = Some 0 \<and> ver \<noteq> 0 \<and> ver = version then ret True else flash_write n (recorded bus) fw version))
   (session_events fw version force)"
proof (cases force)
  case True
  have "emits (flash_write n (recorded bus) fw version) (session_events fw version True)"
    using delivers_write [of n bus fw version] unfolding delivers_def delivered_def
    by (rule emits_weaken) (use session_eventsI [of fw version True _ "[]"] in \<open>auto simp: session_parts_def\<close>)
  with True show ?thesis by simp
next
  case False
  have tail: "emits (case x of (st, sz, ver) \<Rightarrow> if st = Some 0 \<and> ver \<noteq> 0 \<and> ver = version then ret True
        else flash_write n (recorded bus) fw version)
      (\<lambda>r ts. (fst x = Some 0 \<and> snd (snd x) = version \<and> version \<noteq> 0 \<and> ts = []) \<or>
         delivered (write_script fw version) r ts)" for x
    using delivers_write [of n bus fw version, unfolded delivers_def]
    by (auto split: prod.split intro!: emits_ret elim!: emits_weaken)
  have "emits (bind (bl_get_info n (recorded bus)) (\<lambda>x. case x of (st, sz, ver) \<Rightarrow>
      if st = Some 0 \<and> ver \<noteq> 0 \<and> ver = version then ret True else flash_write n (recorded bus) fw version))
      (session_events fw version False)"
  proof (rule emits_bind [OF get_info_emits tail], goal_cases)
    case (1 e ts)
    with session_eventsI [of fw version False "Inl e" ts "[]"] show ?case by (simp add: session_parts_def)
  next
    case (2 x r ts ts')
    then have i: "info_events x ts" by simp
    then have "in_turn [0x40 # replicate 7 0] ts" "ts \<noteq> []" by (auto simp: info_events_def in_turn_one)
    with 2(2) i show ?case by (intro session_eventsI) (auto simp: session_parts_def delivered_def info_events_def)
  qed
  with False show ?thesis by simp
qed

text \<open>The bus is opened and shut down around the session.\<close>

lemma flash_emits:
  "emits (flash n (on_fst opn) (recorded bus) (Some fw) version force)
     (\<lambda>r ts. (fw = [] \<and> r = Inr False \<and> ts = []) \<or> (fw \<noteq> [] \<and> session_events fw version force r ts))"
proof -
  have pre: "quiet (if up then ret True else bl_remote_enter n (recorded bus) 3)" for up
    by (auto intro: quiet_basic quiet_remote_enter)
  have body: "emits (and_then (if up then ret True else bl_remote_enter n (recorded bus) 3)
      (if force then flash_write n (recorded bus) fw version
       else bind (bl_get_info n (recorded bus)) (\<lambda>(st, sz, ver).
         if st = Some 0 \<and> ver \<noteq> 0 \<and> ver = version then ret True else flash_write n (recorded bus) fw version)))
      (session_events fw version force)" for up
    unfolding and_then_def
  proof (rule emits_bind [OF pre, where Q = "\<lambda>ok r ts. if ok then session_events fw version force r ts
          else r = Inr False \<and> ts = []"], goal_cases)
    case (1 ok)
    show ?case
    proof (cases ok)
      case True
      then show ?thesis using session_body [of force n bus fw version] by (simp only: if_True)
    qed (simp add: emits_ret)
  qed (auto intro: session_quiet session_pre split: if_splits)
  have "emits (flash_session n (recorded bus) fw version force) (session_events fw version force)"
    unfolding flash_session_def by (rule emits_bind [OF quiet_ping body]) (auto intro: session_quiet session_pre)
  then have fin: "emits (try_finally (flash_session n (recorded bus) fw version force) (cb_shutdown (recorded bus)))
      (session_events fw version force)"
    by (rule emits_try_finally [OF _ recorded_quiet(3)]) (auto intro: session_failed)
  have op: "emits (on_fst opn) (\<lambda>r ts. ts = [])" by (simp add: emits_silent)
  have "emits (bind (on_fst opn) (\<lambda>_. try_finally (flash_session n (recorded bus) fw version force)
      (cb_shutdown (recorded bus)))) (session_events fw version force)"
    by (rule emits_bind [OF op fin]) (auto intro: session_quiet)
  then show ?thesis
    by (cases "fw = []") (auto simp: flash_def intro: emits_ret elim: emits_weaken)
qed

lemma flash_parts:
  assumes "flash n (on_fst opn) (recorded bus) (Some fw) version force (w, []) = (r, (w', tr))"
  shows "(fw = [] \<and> r = Inr False \<and> tr = []) \<or> (fw \<noteq> [] \<and> session_events fw version force r tr)"
  using emitsD [OF flash_emits assms] by auto

lemma write_script_no_ping: "list_all (\<lambda>c. c \<noteq> 0x01 # replicate 7 0) (write_script fw version @ [0x02 # replicate 7 0])"
  by (simp add: write_script_def list_all_iff)

lemma in_turn_asked:
  "in_turn [c] asked \<Longrightarrow> asked = [] \<or> (\<exists>rxs. asked = Tx 0x21 c # rxs \<and> list_all is_rx rxs)"
  unfolding in_turn.simps by auto

text \<open>C4: whatever the bootloader answers and wherever the session ends, the commands sent (pings apart) are
  a prefix of the script of a flash: information, erase, size, CRC, version, the image in order, finish,
  information, jump. From the erase on every command waits for the acknowledgement, with status 0, of
  the one before it; only the information request before the erase may fail or stay unanswered, and a
  forced flash does not send it. Nothing at all is sent without an image.\<close>

theorem flash_sends_in_order:
  assumes "flash n (on_fst opn) (recorded bus) img version force (w, []) = (r, (w', tr))"
  shows "case img of None \<Rightarrow> tr = [] | Some fw \<Rightarrow>
     prefix (boot_cmds tr) (flash_script fw version force) \<and>
     (\<exists>pre asked rest. tr = pre @ asked @ rest \<and> boot_cmds pre = [] \<and>
        (if force then asked = [] else asked = [] \<and> rest = [] \<or>
           (\<exists>rxs. asked = Tx 0x21 (0x40 # replicate 7 0) # rxs \<and> list_all is_rx rxs)) \<and>
        in_turn (write_script fw version @ [0x02 # replicate 7 0]) rest)"
proof (cases img)
  case None
  with assms show ?thesis by (simp add: flash_def io_simps)
next
  case (Some fw)
  have "session_events fw version force r tr \<or> tr = []" using flash_parts [OF assms [unfolded Some]] by blast
  then show ?thesis
  proof
    assume "tr = []"
    with Some show ?thesis by simp
  next
    assume "session_events fw version force r tr"
    then obtain pre asked rest where tr: "tr = pre @ asked @ rest" "boot_cmds pre = []"
      and p: "session_parts fw version force r asked rest"
      unfolding session_events_def by blast
    from p have rest: "in_turn (write_script fw version @ [0x02 # replicate 7 0]) rest"
      by (simp add: session_parts_def)
    from p have asked: "if force then asked = [] else asked = [] \<and> rest = [] \<or>
           (\<exists>rxs. asked = Tx 0x21 (0x40 # replicate 7 0) # rxs \<and> list_all is_rx rxs)"
      using in_turn_asked [of "0x40 # replicate 7 0" asked] by (auto simp: session_parts_def)
    with tr(2) have "boot_cmds (pre @ asked) = (if force then [] else [0x40 # replicate 7 0]) \<or> boot_cmds tr = []"
      using tr(1) by (auto simp: boot_cmds_rx split: if_splits)
    then have "prefix (boot_cmds tr) (flash_script fw version force)"
      using in_turn_cmds [OF rest write_script_no_ping] unfolding tr(1) flash_script_def
      by (elim disjE) (simp_all flip: append_assoc)
    then show ?thesis
      unfolding Some option.case using tr asked rest by blast
  qed
qed

lemma flash_true_parts:
  assumes "flash n (on_fst opn) (recorded bus) img version force (w, []) = (Inr True, (w', tr))"
  obtains fw pre asked rest where "img = Some fw" "fw \<noteq> []" "tr = pre @ asked @ rest" "boot_cmds pre = []"
    "session_parts fw version force (Inr True) asked rest"
proof -
  obtain fw where f: "img = Some fw" using assms by (cases img) (auto simp: flash_def io_simps)
  have "fw \<noteq> []" "session_events fw version force (Inr True) tr" using flash_parts [OF assms [unfolded f]] by auto
  with f that show thesis unfolding session_events_def by blast
qed

text \<open>C5: a flash that returns True either skipped, because the first answer to its information request
  reports a valid application of the requested version (and the image was not forced), or had every
  command of the script up to the jump acknowledged with status 0 before it sent the next one, and then
  sent the jump, which no answer refused (it may stay unanswered).\<close>

theorem flash_true_acked:
  assumes "flash n (on_fst opn) (recorded bus) img version force (w, []) = (Inr True, (w', tr))"
  shows "\<exists>fw pre asked rest. img = Some fw \<and> fw \<noteq> [] \<and> tr = pre @ asked @ rest \<and> boot_cmds pre = [] \<and>
     (if force then asked = [] else \<exists>rxs. asked = Tx 0x21 (0x40 # replicate 7 0) # rxs \<and> list_all is_rx rxs) \<and>
     ((\<not> force \<and> installed version asked \<and> rest = []) \<or>
      (\<exists>core post. rest = core @ post \<and> acked_run (write_script fw version) core \<and> jump_sent post))"
proof -
  obtain fw pre asked rest where f: "img = Some fw" "fw \<noteq> []" "tr = pre @ asked @ rest" "boot_cmds pre = []"
    and p: "session_parts fw version force (Inr True) asked rest" by (rule flash_true_parts [OF assms])
  have "asked \<noteq> []" if "\<not> force"
  proof
    assume "asked = []"
    with p that have "rest = []" "installed version [] \<or> jump_sent [] \<or> acked_run (write_script fw version) []"
      by (auto simp: session_parts_def)
    then show False by (auto simp: installed_def jump_sent_def write_script_def acked_run.simps(2))
  qed
  with p have "if force then asked = [] else \<exists>rxs. asked = Tx 0x21 (0x40 # replicate 7 0) # rxs \<and> list_all is_rx rxs"
    using in_turn_asked [of "0x40 # replicate 7 0" asked] by (auto simp: session_parts_def)
  with f p show ?thesis unfolding session_parts_def by blast
qed

text \<open>A bootloader that acknowledges every command at once: the world is the queue of frames to receive.\<close>

definition ack_all :: "(int \<times> int list) list can_bus" where
  "ack_all =
     \<lparr>cb_send = \<lambda>i d. modify (\<lambda>q. if i = 0x21 then q @ [(0x22, [d ! 0, 0])] else q),
      cb_recv = \<lambda>t q. (case q of [] \<Rightarrow> (Inr None, []) | m # q' \<Rightarrow> (Inr (Some m), q')),
      cb_time = ret 0, cb_sleep = \<lambda>t. ret (), cb_shutdown = ret ()\<rparr>"

lemma mod32: "\<not> 4294967296 \<le> x mod (4294967296 :: int)" "\<not> x mod (4294967296 :: int) < 0"
  by (simp_all add: not_le not_less)

lemma ack_all_run:
  "flash 2 (on_fst (ret ())) (recorded ack_all) (Some [1, 2, 3]) 256 True ([], []) =
     (Inr True, ([], snd (snd (flash 2 (on_fst (ret ())) (recorded ack_all) (Some [1, 2, 3]) 256 True ([], [])))))"
  by (simp add: flash_def flash_session_def flash_write_def and_then_def bl_ping_def bl_erase_def simple_cmd_def
      bl_set_metadata_def to_bytes_le_def bl_write_data_def chunks7.simps [of "[1, 2, 3]"] chunks7.simps [of "[]"]
      bl_write_finish_def bl_get_info_def bl_jump_def send_boot_def wait_ack_def ack_match_def info_match_def
      recorded_def ack_all_def on_fst_def io_simps numeral_2_eq_2 and_mask_4294967295 mod32)


lemma ack_all_witness: "\<exists>w' tr. flash 2 (on_fst (ret ())) (recorded ack_all) (Some [1, 2, 3]) 256 True ([], []) = (Inr True, (w', tr))"
  using ack_all_run by (intro exI)

theorem flash_sends_in_order_witness:
  "\<exists>pre rest. snd (snd (flash 2 (on_fst (ret ())) (recorded ack_all) (Some [1, 2, 3]) 256 True ([], []))) = pre @ rest \<and>
     boot_cmds pre = [] \<and> in_turn (write_script [1, 2, 3] 256 @ [0x02 # replicate 7 0]) rest"
proof -
  obtain w' tr where r: "flash 2 (on_fst (ret ())) (recorded ack_all) (Some [1, 2, 3]) 256 True ([], []) = (Inr True, (w', tr))"
    using ack_all_witness by blast
  have tr: "snd (snd (flash 2 (on_fst (ret ())) (recorded ack_all) (Some [1, 2, 3]) 256 True ([], []))) = tr"
    by (simp only: r snd_conv)
  from flash_sends_in_order [OF r] show ?thesis unfolding tr option.case if_True by (elim conjE exE) auto
qed

theorem flash_true_acked_witness:
  "\<exists>pre core post. snd (snd (flash 2 (on_fst (ret ())) (recorded ack_all) (Some [1, 2, 3]) 256 True ([], []))) = pre @ core @ post \<and>
     acked_run (write_script [1, 2, 3] 256) core \<and> jump_sent post"
proof -
  obtain w' tr where r: "flash 2 (on_fst (ret ())) (recorded ack_all) (Some [1, 2, 3]) 256 True ([], []) = (Inr True, (w', tr))"
    using ack_all_witness by blast
  have tr: "snd (snd (flash 2 (on_fst (ret ())) (recorded ack_all) (Some [1, 2, 3]) 256 True ([], []))) = tr"
    by (simp only: r snd_conv)
  from flash_true_acked [OF r] show ?thesis unfolding tr if_True by auto
qed

section \<open>The image the bootloader receives\<close>

text \<open>What the commands say: the little-endian value of a setting, the bytes of all data commands.\<close>

definition cmd_value :: "int \<Rightarrow> int list list \<Rightarrow> int" where
  "cmd_value c cs = (case filter (\<lambda>d. hd d = c) cs of [] \<Rightarrow> 0 | d # ds \<Rightarrow> from_le (slice 1 5 d))"

definition cmd_data :: "int list list \<Rightarrow> int list" where
  "cmd_data cs = concat (map tl (filter (\<lambda>d. hd d = 0x20) cs))"

lemma concat_chunks7: "\<exists>k<7. concat (chunks7 fw) = fw @ replicate k 0xFF"
proof (induction fw rule: chunks7.induct)
  case (1 fw)
  show ?case
  proof (cases "length fw \<le> 7")
    case True
    then have "chunks7 (drop 7 fw) = []" by (simp add: chunks7.simps [of "[]"])
    with True show ?thesis
      by (cases "fw = []") (auto simp: chunks7.simps [of fw] Let_def intro!: exI [of _ "7 - length fw"])
  next
    case False
    then have ne: "fw \<noteq> []" by auto
    from 1 [OF ne] obtain k where "k < 7" "concat (chunks7 (drop 7 fw)) = drop 7 fw @ replicate k 0xFF" by blast
    with False ne show ?thesis
      by (intro exI [of _ k]) (simp add: chunks7.simps [of fw] Let_def append_assoc [symmetric] del: append_assoc)
  qed
qed

lemma le_value: "from_le (slice (Suc 0) 5 (c # le_bytes 4 v @ [0, 0, 0])) = v mod 4294967296"
  using from_le_le_bytes [of 4 v] by (simp add: slice_def)

lemma script_values:
  assumes "pre = [] \<or> pre = [0x40 # replicate 7 0]"
  shows "cmd_value 0x30 (pre @ write_script fw version @ [0x02 # replicate 7 0]) = int (length fw) mod 2 ^ 32"
    "cmd_value 0x31 (pre @ write_script fw version @ [0x02 # replicate 7 0]) = crc32 fw mod 2 ^ 32"
    "cmd_value 0x32 (pre @ write_script fw version @ [0x02 # replicate 7 0]) = version mod 2 ^ 32"
    "cmd_data (pre @ write_script fw version @ [0x02 # replicate 7 0]) = concat (chunks7 fw)"
proof -
  have f: "filter (\<lambda>d. hd d = c) (map ((#) 0x20) xs) = []" if "c \<noteq> 0x20" for c :: int and xs
    using that by (simp add: filter_empty_conv)
  show "cmd_value 0x30 (pre @ write_script fw version @ [0x02 # replicate 7 0]) = int (length fw) mod 2 ^ 32"
    "cmd_value 0x31 (pre @ write_script fw version @ [0x02 # replicate 7 0]) = crc32 fw mod 2 ^ 32"
    "cmd_value 0x32 (pre @ write_script fw version @ [0x02 # replicate 7 0]) = version mod 2 ^ 32"
    using assms by (auto simp: cmd_value_def write_script_def f le_value and_mask_4294967295 simp del: le_bytes.simps)
  have "map tl (filter (\<lambda>d. hd d = 0x20) (map ((#) 0x20) xs)) = xs" for xs :: "int list list"
    by (induction xs) simp_all
  with assms show "cmd_data (pre @ write_script fw version @ [0x02 # replicate 7 0]) = concat (chunks7 fw)"
    by (auto simp: cmd_data_def write_script_def)
qed

text \<open>A successful flash that got as far as the erase sent the whole script.\<close>

lemma flash_true_script:
  assumes "flash n (on_fst opn) (recorded bus) img version force (w, []) = (Inr True, (w', tr))"
    and "0x10 # replicate 7 0 \<in> set (boot_cmds tr)"
  obtains fw where "img = Some fw" "fw \<noteq> []"
    "boot_cmds tr = (if force then [] else [0x40 # replicate 7 0]) @ write_script fw version @ [0x02 # replicate 7 0]"
proof -
  obtain fw pre asked rest where f: "img = Some fw" "fw \<noteq> []" "tr = pre @ asked @ rest" "boot_cmds pre = []"
    and p: "session_parts fw version force (Inr True) asked rest" by (rule flash_true_parts [OF assms(1)])
  have a: "boot_cmds asked = (if asked = [] then [] else [0x40 # replicate 7 0])" "force \<longleftrightarrow> asked = [] \<or> rest = [] \<and> force"
    using p in_turn_asked [of "0x40 # replicate 7 0" asked]
    by (auto simp: session_parts_def boot_cmds_rx installed_def jump_sent_def split: if_splits)
  have "rest \<noteq> []" using f(3,4) a(1) assms(2) by (auto split: if_splits)
  with p obtain core post where "rest = core @ post" "acked_run (write_script fw version) core" "jump_sent post"
    by (auto simp: session_parts_def)
  moreover from \<open>jump_sent post\<close> have "boot_cmds post = [0x02 # replicate 7 0]"
    by (auto simp: jump_sent_def boot_cmds_rx)
  ultimately have "boot_cmds rest = write_script fw version @ [0x02 # replicate 7 0]"
    using acked_cmds [OF _ not_ping] by auto
  with f a \<open>rest \<noteq> []\<close> show thesis by (intro that [of fw]) auto
qed

text \<open>C3: when a flash that got as far as the erase returns True, what it sent is the image: the announced
  size and CRC are the image's, and the data commands carry the image's bytes in order, followed by
  fewer than seven bytes 0xFF.\<close>

theorem flash_delivers_image:
  assumes "flash n (on_fst opn) (recorded bus) img version force (w, []) = (Inr True, (w', tr))"
    and "0x10 # replicate 7 0 \<in> set (boot_cmds tr)"
  shows "\<exists>fw k. img = Some fw \<and> cmd_value 0x30 (boot_cmds tr) = int (length fw) mod 2 ^ 32 \<and>
     cmd_value 0x31 (boot_cmds tr) = crc32 fw mod 2 ^ 32 \<and> cmd_value 0x32 (boot_cmds tr) = version mod 2 ^ 32 \<and>
     cmd_data (boot_cmds tr) = fw @ replicate k 0xFF \<and> k < 7"
proof -
  obtain fw where f: "img = Some fw"
    and cs: "boot_cmds tr = (if force then [] else [0x40 # replicate 7 0]) @ write_script fw version @ [0x02 # replicate 7 0]"
    by (rule flash_true_script [OF assms])
  obtain k where "k < 7" "concat (chunks7 fw) = fw @ replicate k 0xFF" using concat_chunks7 by blast
  with f script_values [of "if force then [] else [0x40 # replicate 7 0]" fw version] show ?thesis unfolding cs
    by (intro exI [of _ fw] exI [of _ k]) simp
qed

lemma ack_all_erases:
  assumes "flash 2 (on_fst (ret ())) (recorded ack_all) (Some [1, 2, 3]) 256 True ([], []) = (Inr True, (w', tr))"
  shows "0x10 # replicate 7 0 \<in> set (boot_cmds tr)"
proof -
  obtain fw pre asked rest where f: "Some [1, 2, 3] = Some fw" "tr = pre @ asked @ rest"
    and p: "session_parts fw 256 True (Inr True) asked rest" by (rule flash_true_parts [OF assms])
  then obtain core post where "rest = core @ post" "acked_run (write_script fw 256) core"
    by (auto simp: session_parts_def)
  with f acked_cmds [OF _ not_ping, of fw 256 core] show ?thesis by (simp add: write_script_def)
qed

theorem flash_delivers_image_witness:
  "\<exists>k. cmd_data (boot_cmds (snd (snd (flash 2 (on_fst (ret ())) (recorded ack_all) (Some [1, 2, 3]) 256 True ([], []))))) =
     [1, 2, 3] @ replicate k 0xFF \<and> k < 7"
proof -
  obtain w' tr where r: "flash 2 (on_fst (ret ())) (recorded ack_all) (Some [1, 2, 3]) 256 True ([], []) = (Inr True, (w', tr))"
    using ack_all_witness by blast
  have tr: "snd (snd (flash 2 (on_fst (ret ())) (recorded ack_all) (Some [1, 2, 3]) 256 True ([], []))) = tr"
    by (simp only: r snd_conv)
  have "0x10 # replicate 7 0 \<in> set (boot_cmds tr)" by (rule ack_all_erases [OF r])
  from flash_delivers_image [OF r this] show ?thesis unfolding tr by blast
qed

section \<open>The CRC detects every single corrupted byte\<close>

definition reg32 :: "int \<Rightarrow> bool" where
  "reg32 c \<longleftrightarrow> take_bit 32 c = c"

lemma reg32_bit: "reg32 c \<Longrightarrow> 32 \<le> n \<Longrightarrow> \<not> bit c n"
  unfolding reg32_def by (metis bit_take_bit_iff not_le)

lemma reg32I: "(\<And>n. 32 \<le> n \<Longrightarrow> \<not> bit c n) \<Longrightarrow> reg32 c"
  unfolding reg32_def by (rule bit_eqI) (auto simp: bit_take_bit_iff not_le [symmetric])

lemma poly_bits: "reg32 0xEDB88320" "bit (0xEDB88320 :: int) 31"
  by (simp_all add: reg32_def)

lemma crc32_shift_reg: "reg32 c \<Longrightarrow> reg32 (crc32_shift c)"
  using reg32_bit [OF poly_bits(1)] by (intro reg32I) (auto simp: crc32_shift_def bit_xor_iff bit_drop_bit_eq reg32_bit)

lemma crc32_shift_top: "reg32 c \<Longrightarrow> bit (crc32_shift c) 31 = odd c"
  using reg32_bit [of c 32] poly_bits(2) by (simp add: crc32_shift_def bit_xor_iff bit_drop_bit_eq)

lemma crc32_shift_inj: "reg32 c \<Longrightarrow> reg32 c' \<Longrightarrow> crc32_shift c = crc32_shift c' \<Longrightarrow> c = c'"
proof -
  assume r: "reg32 c" "reg32 c'" and eq: "crc32_shift c = crc32_shift c'"
  from crc32_shift_top r eq have odd: "odd c = odd c'" by metis
  let ?m = "if odd c then 0xEDB88320 else (0 :: int)"
  from eq odd have "?m XOR drop_bit 1 c = ?m XOR drop_bit 1 c'"
    by (simp only: crc32_shift_def xor.commute [of "drop_bit 1 _"])
  then have "c div 2 = c' div 2" using xor_cancel by (auto simp: drop_bit_eq_div)
  with odd show "c = c'" by (metis dvd_eq_mod_eq_0 div_mult_mod_eq not_mod_2_eq_1_eq_0 odd_iff_mod_2_eq_one)
qed

lemma crc32_iter_reg: "reg32 c \<Longrightarrow> reg32 ((crc32_shift ^^ n) c)"
  by (induction n) (simp_all add: crc32_shift_reg)

lemma crc32_iter_inj: "reg32 c \<Longrightarrow> reg32 c' \<Longrightarrow> (crc32_shift ^^ n) c = (crc32_shift ^^ n) c' \<Longrightarrow> c = c'"
  by (induction n) (auto dest: crc32_shift_inj [OF crc32_iter_reg crc32_iter_reg, rotated 2])

lemma reg32_xor: "reg32 a \<Longrightarrow> reg32 b \<Longrightarrow> reg32 (a XOR b)"
  by (simp add: reg32_def)

lemma reg32_byte: "is_byte b \<Longrightarrow> reg32 b"
  by (simp add: reg32_def is_byte_def take_bit_int_eq_self_iff)

lemma crc32_step_inj:
  assumes "reg32 c" "is_byte b" "reg32 c'" "is_byte b'" "crc32_step c b = crc32_step c' b'"
  shows "c XOR b = c' XOR b'"
  using assms(5) unfolding crc32_step_def
  by (rule crc32_iter_inj [rotated 2]) (use assms reg32_xor reg32_byte in auto)

interpretation crc32: crc crc32_step reg32
proof
  fix c c' b b' :: int
  show "reg32 c \<Longrightarrow> is_byte b \<Longrightarrow> reg32 (crc32_step c b)"
    by (simp add: crc32_step_def crc32_iter_reg reg32_xor reg32_byte del: funpow.simps)
  show "c = c'" if "reg32 c" "reg32 c'" "is_byte b" "crc32_step c b = crc32_step c' b"
    using crc32_step_inj [of c b c' b] that xor_cancel [of b c c'] by (simp add: xor.commute)
  show "b = b'" if "reg32 c" "is_byte b" "is_byte b'" "crc32_step c b = crc32_step c b'"
    using crc32_step_inj [of c b c b'] that xor_cancel [of c b b'] by simp
qed

lemma crc32_masked:
  assumes "is_bytes bs"
  shows "crc32 bs mod 2 ^ 32 = crc32 bs"
proof -
  have "reg32 0xFFFFFFFF" by (simp add: reg32_def)
  with assms have "reg32 (crc32 bs)" unfolding crc32_def by (intro reg32_xor crc32.fold_reg)
  then show ?thesis by (simp add: reg32_def take_bit_eq_mod)
qed

lemma crc32_update:
  assumes "is_bytes bs" "i < length bs" "is_byte v" "v \<noteq> bs ! i"
  shows "crc32 (bs[i := v]) \<noteq> crc32 bs"
proof -
  have "reg32 0xFFFFFFFF" by (simp add: reg32_def)
  from crc32.update_detected [OF this assms] show ?thesis
    unfolding crc32_def using xor_cancel by (metis xor.commute)
qed

text \<open>C7: a bootloader can check what it received against what was announced. In a successful flash of
  an image below 4 GiB that got as far as the erase, the checksum of as many data bytes as the announced size says
  is the announced checksum, and with any one of these bytes replaced it is not.\<close>

theorem image_corruption_detected:
  assumes "flash n (on_fst opn) (recorded bus) img version force (w, []) = (Inr True, (w', tr))"
    and "0x10 # replicate 7 0 \<in> set (boot_cmds tr)"
    and "img = Some fw" "is_bytes fw" "int (length fw) < 2 ^ 32"
    and "sent = take (nat (cmd_value 0x30 (boot_cmds tr))) (cmd_data (boot_cmds tr))"
  shows "crc32 sent = cmd_value 0x31 (boot_cmds tr) \<and>
     (\<forall>i v. i < length sent \<and> is_byte v \<and> v \<noteq> sent ! i \<longrightarrow> crc32 (sent[i := v]) \<noteq> cmd_value 0x31 (boot_cmds tr))"
proof -
  obtain k where k: "concat (chunks7 fw) = fw @ replicate k 0xFF" using concat_chunks7 by blast
  obtain fw' where "img = Some fw'"
    and cs: "boot_cmds tr = (if force then [] else [0x40 # replicate 7 0]) @ write_script fw' version @ [0x02 # replicate 7 0]"
    by (rule flash_true_script [OF assms(1,2)])
  with assms(3) have "fw' = fw" by simp
  note vals = script_values [of "if force then [] else [0x40 # replicate 7 0]" fw version, simplified, folded cs [unfolded \<open>fw' = fw\<close>]]
  have "sent = fw" using assms(5) vals k by (simp add: assms(6) cs \<open>fw' = fw\<close>)
  moreover have "cmd_value 0x31 (boot_cmds tr) = crc32 fw"
    using vals crc32_masked [OF assms(4)] by (simp add: cs \<open>fw' = fw\<close>)
  ultimately show ?thesis using crc32_update [OF assms(4)] by simp
qed

theorem image_corruption_detected_witness:
  "\<exists>tr sent. flash 2 (on_fst (ret ())) (recorded ack_all) (Some [1, 2, 3]) 256 True ([], []) = (Inr True, ([], tr)) \<and>
     sent = take (nat (cmd_value 0x30 (boot_cmds tr))) (cmd_data (boot_cmds tr)) \<and>
     crc32 sent = cmd_value 0x31 (boot_cmds tr)"
proof -
  obtain tr where r: "flash 2 (on_fst (ret ())) (recorded ack_all) (Some [1, 2, 3]) 256 True ([], []) = (Inr True, ([], tr))"
    using ack_all_run by blast
  from image_corruption_detected [OF r ack_all_erases [OF r] refl _ _ refl]
  have "crc32 (take (nat (cmd_value 0x30 (boot_cmds tr))) (cmd_data (boot_cmds tr))) = cmd_value 0x31 (boot_cmds tr)"
    by (simp add: is_byte_def)
  with r show ?thesis by blast
qed

section \<open>The flash returns\<close>

definition clock_mono :: "('w \<Rightarrow> rat) \<Rightarrow> ('w, 'a) io \<Rightarrow> bool" where
  "clock_mono clk m \<longleftrightarrow> (\<forall>w. clk w \<le> clk (snd (m w)))"

lemma clock_mono_bind: "clock_mono clk m \<Longrightarrow> (\<And>x. clock_mono clk (f x)) \<Longrightarrow> clock_mono clk (bind m f)"
  unfolding clock_mono_def io_simps by (auto split: prod.split sum.split) (metis order_trans snd_conv)+

lemma clock_mono_basic:
  "clock_mono clk (ret x)" "clock_mono clk (raise e)"
  "bus_clock clk bus eps \<Longrightarrow> clock_mono clk (cb_time bus)"
  "bus_clock clk bus eps \<Longrightarrow> clock_mono clk (cb_recv bus t)"
  "bus_clock clk bus eps \<Longrightarrow> clock_mono clk (cb_send bus i d)"
  by (simp_all add: clock_mono_def bus_clock_def io_simps)

lemma clock_mono_recv_until: "bus_clock clk bus eps \<Longrightarrow> clock_mono clk (recv_until n bus dl match)"
  by (induction n) (auto intro!: clock_mono_bind clock_mono_basic split: option.split)

lemma clock_mono_ping: "bus_clock clk bus eps \<Longrightarrow> clock_mono clk (bl_ping n bus t)"
  unfolding bl_ping_def send_boot_def wait_ack_def
  by (intro clock_mono_bind clock_mono_basic clock_mono_recv_until)

text \<open>Fuel \<open>Suc m\<close> covers the longest wait, 30 s, and the 60 rounds of pinging in 3 s.\<close>

definition fuel_covers :: "('w \<Rightarrow> rat) \<Rightarrow> 'w can_bus \<Rightarrow> rat \<Rightarrow> nat \<Rightarrow> bool" where
  "fuel_covers clk bus eps m \<longleftrightarrow> bus_clock clk bus eps \<and> bus_raises bus \<and> 30 \<le> of_nat m * eps \<and> 60 \<le> m"

lemma recv_within:
  assumes "fuel_covers clk bus eps m" "timeout \<le> 30"
  shows "enough_fuel (bind (cb_time bus) (\<lambda>t. recv_until (Suc m) bus (t + timeout) match))"
proof -
  have c: "bus_clock clk bus eps" "bus_raises bus" and b: "timeout \<le> of_nat m * eps"
    using assms by (auto simp: fuel_covers_def)
  have "fst (recv_until (Suc m) bus (clk w + timeout) match w) \<noteq> Inl no_fuel" for w
    using recv_until_fuel [OF c, of "clk w + timeout" w m match] b by simp
  then show ?thesis
    by (simp add: enough_fuel_def bus_clock_time [OF c(1)] io_simps del: recv_until.simps)
qed

lemma fuel_bus:
  assumes "fuel_covers clk bus eps m"
  shows "enough_fuel (cb_send bus i d)" "enough_fuel (cb_sleep bus t)" "enough_fuel (cb_shutdown bus)"
    "enough_fuel (cb_time bus)"
proof -
  have c: "bus_clock clk bus eps" and r: "bus_raises bus" using assms by (simp_all add: fuel_covers_def)
  show "enough_fuel (cb_send bus i d)" "enough_fuel (cb_sleep bus t)" "enough_fuel (cb_shutdown bus)"
    using bus_raisesD [OF r] by simp_all
  show "enough_fuel (cb_time bus)" by (simp add: enough_fuel_def bus_clock_time [OF c])
qed

lemma wait_within: "fuel_covers clk bus eps m \<Longrightarrow> timeout \<le> 30 \<Longrightarrow> enough_fuel (wait_ack (Suc m) bus cmd timeout)"
  unfolding wait_ack_def by (rule recv_within)

lemma ping_within: "fuel_covers clk bus eps m \<Longrightarrow> timeout \<le> 30 \<Longrightarrow> enough_fuel (bl_ping (Suc m) bus timeout)"
  unfolding bl_ping_def send_boot_def by (intro fuel_intros fuel_bus wait_within)

lemma cmd_within: "fuel_covers clk bus eps m \<Longrightarrow> timeout \<le> 30 \<Longrightarrow> enough_fuel (simple_cmd (Suc m) bus cmd timeout)"
  unfolding simple_cmd_def send_boot_def by (intro fuel_intros fuel_bus wait_within)

lemma ping_until_within:
  assumes f: "fuel_covers clk bus eps m" and "dl - clk w \<le> of_nat k * (5 / 100)"
  shows "fst (ping_until (Suc m) (Suc k) bus dl w) \<noteq> Inl no_fuel"
  using assms(2)
proof (induction k arbitrary: w)
  case 0
  have "bus_clock clk bus eps" using f by (simp add: fuel_covers_def)
  with 0 show ?case by (simp add: bus_clock_time io_simps no_fuel_def)
next
  case (Suc k)
  have c: "bus_clock clk bus eps" using f by (simp add: fuel_covers_def)
  obtain r w1 where p: "bl_ping (Suc m) bus (15 / 100) w = (r, w1)" by force
  have "enough_fuel (bl_ping (Suc m) bus (15 / 100))" by (rule ping_within [OF f]) simp
  with p have r: "r \<noteq> Inl no_fuel" unfolding enough_fuel_def by (metis fst_conv)
  have w1: "clk w \<le> clk w1" using clock_mono_ping [OF c, of "Suc m" "15 / 100"] p unfolding clock_mono_def by (metis snd_conv)
  obtain u w2 where s: "cb_sleep bus (5 / 100) w1 = (u, w2)" by force
  have u: "u \<noteq> Inl no_fuel" using fuel_bus(2) [OF f, of "5 / 100"] s unfolding enough_fuel_def by (metis fst_conv)
  have "clk w1 + 5 / 100 \<le> clk w2" using c s unfolding bus_clock_def by (metis snd_conv)
  with w1 Suc.prems have "dl - clk w2 \<le> of_nat k * (5 / 100)" by (simp add: algebra_simps)
  from Suc.IH [OF this] r u p s show ?case
    by (subst ping_until.simps(2)) (auto simp: bus_clock_time [OF c] io_simps simp del: ping_until.simps split: sum.split)
qed

lemma remote_enter_within:
  assumes f: "fuel_covers clk bus eps m"
  shows "enough_fuel (bl_remote_enter (Suc m) bus 3)"
proof -
  have c: "bus_clock clk bus eps" and m: "60 \<le> m" using f by (simp_all add: fuel_covers_def)
  have "(60 :: rat) \<le> of_nat m" using m by (metis of_nat_le_iff of_nat_numeral)
  then have "fst (ping_until (Suc m) (Suc m) bus (clk w + 3) w) \<noteq> Inl no_fuel" for w
    by (intro ping_until_within [OF f]) (simp add: algebra_simps)
  then have p: "enough_fuel (bind (cb_time bus) (\<lambda>t'. ping_until (Suc m) (Suc m) bus (t' + 3)))"
    by (simp add: enough_fuel_def bus_clock_time [OF c] io_simps del: ping_until.simps)
  have b: "enough_fuel (bind (bind (cb_time bus) (\<lambda>t. recv_until (Suc m) bus (t + 5 / 10) app_match))
      (\<lambda>_. bind (cb_time bus) (\<lambda>t'. ping_until (Suc m) (Suc m) bus (t' + 3))))"
    by (rule fuel_bind [OF recv_within [OF f] p]) simp
  show ?thesis
    unfolding bl_remote_enter_def by (rule fuel_bind [OF fuel_bus(1) [OF f]], rule b [unfolded bind_assoc])
qed

lemma set_values_within:
  "fuel_covers clk bus eps m \<Longrightarrow> enough_fuel (set_values (Suc m) bus cvs)"
  by (induction cvs)
    (auto intro!: fuel_intros fuel_bus wait_within simp: send_boot_def to_bytes_le_def no_fuel_def)

lemma write_chunks_within: "fuel_covers clk bus eps m \<Longrightarrow> enough_fuel (write_chunks (Suc m) bus cs)"
  by (induction cs) (auto intro!: fuel_intros fuel_bus wait_within simp: send_boot_def)

lemma get_info_within:
  assumes f: "fuel_covers clk bus eps m"
  shows "enough_fuel (bl_get_info (Suc m) bus)"
proof -
  have b: "enough_fuel (bind (bind (cb_time bus) (\<lambda>t. recv_until (Suc m) bus (t + 1) info_match))
      (\<lambda>r. ret (case r of Some (st, sz, ver) \<Rightarrow> (Some st, sz, ver) | None \<Rightarrow> (None, 0, 0))))"
    by (rule fuel_bind [OF recv_within [OF f] fuel_basic(1)]) simp
  show ?thesis
    unfolding bl_get_info_def send_boot_def by (rule fuel_bind [OF fuel_bus(1) [OF f]], rule b [unfolded bind_assoc])
qed

lemma flash_write_within:
  assumes f: "fuel_covers clk bus eps m"
  shows "enough_fuel (flash_write (Suc m) bus fw version)"
proof -
  note steps = cmd_within [OF f] set_values_within [OF f] write_chunks_within [OF f] get_info_within [OF f]
  show ?thesis
    unfolding flash_write_def and_then_def bl_erase_def bl_set_metadata_def bl_write_data_def bl_write_finish_def bl_jump_def
    by (auto intro!: fuel_intros steps split: prod.split)
qed

text \<open>C6: a flash returns: on a bus where every received frame takes at least \<open>eps\<close> seconds and sleeping
  takes its time, fuel for 30 seconds of frames (and at least 61) is never used up, whatever is received
  and wherever the bus raises.\<close>

theorem flash_terminates:
  assumes "bus_clock clk bus eps" "bus_raises bus" "enough_fuel opn" "30 \<le> of_nat m * eps" "60 \<le> m"
  shows "fst (flash (Suc m) opn bus img version force w) \<noteq> Inl no_fuel"
proof -
  have f: "fuel_covers clk bus eps m" using assms by (simp add: fuel_covers_def)
  note steps = ping_within [OF f] remote_enter_within [OF f] flash_write_within [OF f] get_info_within [OF f]
    fuel_bus(3) [OF f] assms(3)
  have "enough_fuel (flash (Suc m) opn bus img version force)"
    unfolding flash_def flash_session_def and_then_def
    by (auto intro!: fuel_intros steps split: prod.split)
  then show ?thesis by (simp add: enough_fuel_def)
qed

text \<open>A clocked bus on which nothing answers: receiving waits out its timeout.\<close>

definition dead_bus :: "rat can_bus" where
  "dead_bus =
     \<lparr>cb_send = \<lambda>i d. ret (), cb_recv = \<lambda>t. bind (modify (\<lambda>w. w + max t 0)) (\<lambda>_. ret None),
      cb_time = reads (\<lambda>w. w), cb_sleep = \<lambda>t. modify (\<lambda>w. w + t), cb_shutdown = ret ()\<rparr>"

theorem flash_terminates_witness:
  "fst (flash (Suc 60) (ret ()) dead_bus (Some [1, 2, 3]) 256 False 0) \<noteq> Inl no_fuel"
  by (rule flash_terminates [where clk = "\<lambda>w. w" and eps = 1])
    (auto simp: bus_clock_def bus_raises_def enough_fuel_def dead_bus_def io_simps)

end
