(* ===== verification/Bench_Config.thy ===== *)
theory Bench_Config
  imports Prelude "HOL-Library.List_Lexorder" "HOL-Library.Char_ord"
begin

text \<open>
  The offline half of \<^verbatim>\<open>tools/bench.py\<close>: bench descriptors and what is resolved from them. A descriptor
  is a record of the fields that \<^verbatim>\<open>configs/benches/schema.json\<close> admits and the code reads; a field the
  code reads with a default is the default when it is missing. A YAML file is given as its name and the
  descriptor in it, None when it holds none; slot keys are strings, as \<open>_normalise\<close> makes them.
\<close>

record slot_spec =
  sl_dut :: "string option"
  sl_ina :: "int option"

record can_role =
  cr_dev :: "string option"
  cr_bitrate :: "int option"
  cr_sample_point :: "rat option"

record expect_block =
  ex_ina :: "int list"
  ex_tca :: "int list"
  ex_dac :: "int list"
  ex_nrf24 :: "bool option"

record bench_desc =
  bd_id :: string
  bd_capabilities :: "string list"
  bd_base_labels :: "string list option"
  bd_slots :: "(string \<times> slot_spec) list"
  bd_can :: "(string \<times> can_role) list"
  bd_routing :: "(string \<times> (string \<times> int) list) list"
  bd_expect :: "expect_block option"

type_synonym bench_files = "(string \<times> bench_desc option) list"
type_synonym benches = "(string \<times> string \<times> bench_desc) list"

section \<open>Strings\<close>

definition is_space :: "char \<Rightarrow> bool" where
  "is_space c \<longleftrightarrow> c \<in> {CHR '' '', CHR 0x09, CHR 0x0A, CHR 0x0B, CHR 0x0C, CHR 0x0D}"

definition py_strip :: "string \<Rightarrow> string" where
  "py_strip s = rev (dropWhile is_space (rev (dropWhile is_space s)))"

text \<open>\<open>s.split(sep)\<close> for a one-character separator, the lines of \<open>s\<close>, and \<open>s.split()\<close>.\<close>

fun split_on :: "char \<Rightarrow> string \<Rightarrow> string list" where
  "split_on sep [] = [[]]"
| "split_on sep (c # cs) =
     (if c = sep then [] # split_on sep cs
      else (case split_on sep cs of [] \<Rightarrow> [[c]] | w # ws \<Rightarrow> (c # w) # ws))"

definition split_lines :: "string \<Rightarrow> string list" where
  "split_lines s = (let ls = split_on (CHR 0x0A) s in if last ls = [] then butlast ls else ls)"

abbreviation no_newline :: "char \<Rightarrow> bool" where "no_newline c \<equiv> c \<noteq> CHR 0x0A"

text \<open>The lines of a text.\<close>

lemma split_on_line: "list_all (\<lambda>c. c \<noteq> sep) l \<Longrightarrow> split_on sep (l @ sep # rest) = l # split_on sep rest"
  by (induction l) auto

lemma split_on_nonempty: "split_on sep s \<noteq> []"
  by (cases s) (auto split: list.splits)

lemma split_lines_concat:
  assumes "list_all (list_all no_newline) ls"
  shows "split_lines (concat (map (\<lambda>l. l @ [CHR 0x0A]) ls)) = ls"
proof -
  have "split_on (CHR 0x0A) (concat (map (\<lambda>l. l @ [CHR 0x0A]) ls)) = ls @ [[]]"
    using assms by (induction ls) (simp_all add: split_on_line)
  then show ?thesis by (simp add: split_lines_def)
qed

definition split_words :: "string \<Rightarrow> string list" where
  "split_words s = filter (\<lambda>w. w \<noteq> []) (split_on (CHR '' '') (map (\<lambda>c. if is_space c then CHR '' '' else c) s))"

text \<open>\<open>sub in s\<close>.\<close>

fun starts_with :: "string \<Rightarrow> string \<Rightarrow> bool" where
  "starts_with [] s = True"
| "starts_with (p # ps) [] = False"
| "starts_with (p # ps) (c # cs) = (p = c \<and> starts_with ps cs)"

fun contains :: "string \<Rightarrow> string \<Rightarrow> bool" where
  "contains sub [] = (sub = [])"
| "contains sub (c # cs) = (starts_with sub (c # cs) \<or> contains sub cs)"

definition is_digit :: "char \<Rightarrow> bool" where
  "is_digit c \<longleftrightarrow> of_char c \<in> {48..57 :: nat}"

definition digits_value :: "string \<Rightarrow> nat" where
  "digits_value s = foldl (\<lambda>n c. n * 10 + (of_char c - 48)) 0 s"

text \<open>\<open>int(s)\<close> of a string of digits.\<close>

definition int_of_digits :: "string \<Rightarrow> int res" where
  "int_of_digits s =
     (if s \<noteq> [] \<and> list_all is_digit s then Inr (int (digits_value s))
      else Inl (Exn ValueError (''invalid literal for int() with base 10: '' @ s)))"

section \<open>Descriptors\<close>

primrec load_descriptors :: "bench_files \<Rightarrow> benches res" where
  "load_descriptors [] = Inr []"
| "load_descriptors (f # fs) =
     (case snd f of
        None \<Rightarrow> Inl (Exn SystemExit (fst f @ '': not a bench descriptor (no `id`)''))
      | Some d \<Rightarrow> rbind (load_descriptors fs) (\<lambda>bs. Inr (if bd_id d \<in> fst ` set bs then bs else (bd_id d, fst f, d) # bs)))"

definition get_descriptor :: "bench_files \<Rightarrow> string \<Rightarrow> bench_desc res" where
  "get_descriptor files bench_id =
     rbind (load_descriptors files) (\<lambda>bs.
       case map_of bs bench_id of
         None \<Rightarrow> Inl (Exn SystemExit (''unknown bench '' @ bench_id))
       | Some (path, d) \<Rightarrow> Inr d)"

text \<open>\<open>bench_id or os.environ.get("HIL_BENCH")\<close>: an empty string counts as unset.\<close>

definition or_else :: "string option \<Rightarrow> string option \<Rightarrow> string option" where
  "or_else a b = (case a of Some s \<Rightarrow> if s = [] then b else a | None \<Rightarrow> b)"

definition load_bench :: "bench_files \<Rightarrow> string option \<Rightarrow> string option \<Rightarrow> bench_desc res" where
  "load_bench files env bench_id =
     rbind (load_descriptors files) (\<lambda>bs.
       case or_else (or_else bench_id env) None of
         Some i \<Rightarrow>
           (case map_of bs i of
              None \<Rightarrow> Inl (Exn KeyError (''unknown bench '' @ i))
            | Some (path, d) \<Rightarrow> Inr d)
       | None \<Rightarrow>
           (case bs of
              [(i, path, d)] \<Rightarrow> Inr d
            | _ \<Rightarrow> Inl (Exn RuntimeError ''several benches are described; set $HIL_BENCH'')))"

definition slot_for_dut :: "bench_desc \<Rightarrow> string \<Rightarrow> int res" where
  "slot_for_dut d dut =
     (case find (\<lambda>(slot, spec). sl_dut spec = Some dut) (sort_key fst (bd_slots d)) of
        Some (slot, spec) \<Rightarrow> int_of_digits slot
      | None \<Rightarrow> Inl (Exn KeyError (bd_id d @ '' declares no slot with dut: '' @ dut)))"

definition runner_labels :: "bench_desc \<Rightarrow> string list" where
  "runner_labels d =
     (case bd_base_labels d of Some ls \<Rightarrow> ls | None \<Rightarrow> [''self-hosted'', ''hil-bench''])
     @ [bd_id d] @ sort (bd_capabilities d)"

section \<open>Resolving a capability set\<close>

text \<open>The outcome of \<open>cmd_resolve\<close>: the printed payload, or the reason for exit status 1.\<close>

record resolution =
  rs_bench :: string
  rs_labels :: "string list"
  rs_candidates :: "string list"

datatype resolve_result = Resolved resolution | UnknownBench | Lacks "string list" | NothingAsked | NoMatch

definition required_caps :: "string \<Rightarrow> string list" where
  "required_caps s = remdups (filter (\<lambda>c. c \<noteq> []) (map py_strip (split_on (CHR '','') s)))"

definition satisfies :: "string list \<Rightarrow> bench_desc \<Rightarrow> bool" where
  "satisfies req d \<longleftrightarrow> set req \<subseteq> set (bd_capabilities d)"

definition resolve_matches :: "string list \<Rightarrow> benches \<Rightarrow> (string \<times> bench_desc) list" where
  "resolve_matches req bs =
     map (\<lambda>(i, path, d). (i, d)) (filter (\<lambda>(i, path, d). satisfies req d) (sort_key fst bs))"

definition resolved :: "(string \<times> bench_desc) list \<Rightarrow> resolve_result" where
  "resolved ms =
     (case ms of
        [] \<Rightarrow> NoMatch
      | (i, d) # _ \<Rightarrow> Resolved \<lparr>rs_bench = i, rs_labels = runner_labels d, rs_candidates = map fst ms\<rparr>)"

definition cmd_resolve :: "bench_files \<Rightarrow> string option \<Rightarrow> string \<Rightarrow> resolve_result res" where
  "cmd_resolve files bench caps =
     rbind (load_descriptors files) (\<lambda>bs.
       let req = required_caps caps
       in case or_else bench None of
            Some b \<Rightarrow>
              (case map_of bs b of
                 None \<Rightarrow> Inr UnknownBench
               | Some (path, d) \<Rightarrow>
                   (case filter (\<lambda>c. c \<notin> set (bd_capabilities d)) req of
                      [] \<Rightarrow> Inr (resolved [(b, d)])
                    | missing \<Rightarrow> Inr (Lacks missing)))
          | None \<Rightarrow> if req = [] then Inr NothingAsked else Inr (resolved (resolve_matches req bs)))"

definition resolve_status :: "resolve_result \<Rightarrow> int" where
  "resolve_status r = (case r of Resolved p \<Rightarrow> 0 | _ \<Rightarrow> 1)"

definition cmd_labels :: "bench_files \<Rightarrow> string \<Rightarrow> string list res" where
  "cmd_labels files bench = rbind (get_descriptor files bench) (\<lambda>d. Inr (runner_labels d))"

text \<open>\<open>cmd_validate\<close>: \<open>schema_ok\<close> is the \<^verbatim>\<open>jsonschema\<close> validator; the file must be named after the bench.\<close>

definition cmd_validate :: "(bench_desc \<Rightarrow> bool) \<Rightarrow> bench_files \<Rightarrow> int res" where
  "cmd_validate schema_ok files =
     rbind (load_descriptors files) (\<lambda>bs.
       if bs = [] then Inl (Exn SystemExit ''no descriptors found'')
       else Inr (if list_all (\<lambda>(i, path, d). schema_ok d \<and> path = i @ ''.yaml'') bs then 0 else 1))"

section \<open>Named suites\<close>

type_synonym suites = "(string \<times> (string \<times> string list) list) list"

definition resolve_suite :: "suites \<Rightarrow> string \<Rightarrow> string \<Rightarrow> string list res" where
  "resolve_suite suites dut spec =
     (let spec = py_strip spec;
          known = (case map_of suites dut of Some s \<Rightarrow> s | None \<Rightarrow> [])
      in if spec \<noteq> [] \<and> (contains ''/'' spec \<or> contains ''::'' spec) then Inr (split_words spec)
         else (let name = (if spec = [] then ''smoke'' else spec)
               in case map_of known name of
                    Some targets \<Rightarrow> Inr targets
                  | None \<Rightarrow> Inl (Exn SystemExit (''unknown suite '' @ name @ '' for dut '' @ dut))))"

section \<open>Properties\<close>

lemma load_descriptors_distinct: "load_descriptors fs = Inr bs \<Longrightarrow> distinct (map fst bs)"
  by (induction fs arbitrary: bs) (auto simp: rbind_Inr_iff split: option.splits if_splits)

lemma map_of_loaded:
  "load_descriptors fs = Inr bs \<Longrightarrow> map_of bs i = Some (p, d) \<longleftrightarrow> (i, p, d) \<in> set bs"
  by (simp add: load_descriptors_distinct)

lemma labels_carry_caps: "set (bd_capabilities d) \<subseteq> set (runner_labels d)"
  by (auto simp: runner_labels_def)

lemma resolve_matches_set:
  "(i, d) \<in> set (resolve_matches req bs) \<longleftrightarrow> (\<exists>p. (i, p, d) \<in> set bs \<and> satisfies req d)"
  by (force simp: resolve_matches_def)

lemma resolved_facts:
  "resolve_status (resolved ms) = 1 \<longleftrightarrow> ms = []"
  "resolved ms = Resolved p \<Longrightarrow> rs_candidates p = map fst ms \<and> rs_bench p = hd (map fst ms)"
  by (auto simp: resolved_def resolve_status_def split: list.splits)

text \<open>a resolution that succeeds names a described bench that declares every capability asked for, its
  labels carry all of them, and a bench that was asked for by name is the one that is chosen.\<close>

theorem resolve_sound:
  assumes "cmd_resolve files bench caps = Inr (Resolved p)"
  shows "\<exists>bs path d. load_descriptors files = Inr bs \<and> (rs_bench p, path, d) \<in> set bs \<and>
     set (required_caps caps) \<subseteq> set (bd_capabilities d) \<and> set (required_caps caps) \<subseteq> set (rs_labels p) \<and>
     (\<forall>b. or_else bench None = Some b \<longrightarrow> rs_bench p = b)"
proof -
  obtain bs where bs: "load_descriptors files = Inr bs"
    using assms by (auto simp: cmd_resolve_def rbind_Inr_iff)
  show ?thesis
  proof (cases "or_else bench None")
    case None
    with assms bs have "resolved (resolve_matches (required_caps caps) bs) = Resolved p"
      by (auto simp: cmd_resolve_def Let_def split: if_splits)
    then obtain d ms where m: "resolve_matches (required_caps caps) bs = (rs_bench p, d) # ms" "rs_labels p = runner_labels d"
      by (auto simp: resolved_def split: list.splits)
    then obtain path where "(rs_bench p, path, d) \<in> set bs" "satisfies (required_caps caps) d"
      using resolve_matches_set [of "rs_bench p" d "required_caps caps" bs] by auto
    with bs None m labels_carry_caps [of d] show ?thesis by (auto simp: satisfies_def)
  next
    case (Some b)
    with assms bs obtain path d where d: "map_of bs b = Some (path, d)"
        "filter (\<lambda>c. c \<notin> set (bd_capabilities d)) (required_caps caps) = []" "resolved [(b, d)] = Resolved p"
      by (auto simp: cmd_resolve_def Let_def split: option.splits list.splits)
    then have "set (required_caps caps) \<subseteq> set (bd_capabilities d)" by (auto simp: filter_empty_conv)
    moreover have "rs_bench p = b" "rs_labels p = runner_labels d" using d(3) by (auto simp: resolved_def)
    moreover have "(b, path, d) \<in> set bs" using d(1) map_of_loaded [OF bs] by simp
    ultimately show ?thesis using bs Some labels_carry_caps [of d]
      by (intro exI [of _ bs] exI [of _ path] exI [of _ d]) auto
  qed
qed

text \<open>without a bench by name, resolving fails exactly when no described bench declares the capabilities,
  and otherwise lists all that do, in the order of their ids, choosing the first.\<close>

theorem resolve_finds:
  assumes "load_descriptors files = Inr bs" "or_else bench None = None" "required_caps caps \<noteq> []"
    and "cmd_resolve files bench caps = Inr r"
  shows "(resolve_status r = 1 \<longleftrightarrow> (\<forall>(i, p, d)\<in>set bs. \<not> satisfies (required_caps caps) d)) \<and>
     (\<forall>p. r = Resolved p \<longrightarrow> sorted (rs_candidates p) \<and> rs_bench p = hd (rs_candidates p) \<and>
        set (rs_candidates p) = {i. \<exists>path d. (i, path, d) \<in> set bs \<and> satisfies (required_caps caps) d})"
proof -
  let ?ms = "resolve_matches (required_caps caps) bs"
  have r: "r = resolved ?ms" using assms by (simp add: cmd_resolve_def)
  have s: "map fst ?ms = map fst (filter (\<lambda>(i, path, d). satisfies (required_caps caps) d) (sort_key fst bs))"
    by (simp add: resolve_matches_def case_prod_beta)
  have 1: "sorted (map fst ?ms)" unfolding s by (rule sorted_filter) simp
  have 2: "set (map fst ?ms) = {i. \<exists>path d. (i, path, d) \<in> set bs \<and> satisfies (required_caps caps) d}"
    using resolve_matches_set [of _ _ "required_caps caps" bs] by force
  have 3: "?ms = [] \<longleftrightarrow> (\<forall>(i, p, d)\<in>set bs. \<not> satisfies (required_caps caps) d)"
    by (auto simp: resolve_matches_def filter_empty_conv)
  show ?thesis
    unfolding r resolved_facts(1) 3
  proof (intro conjI refl allI impI)
    fix p assume "resolved ?ms = Resolved p"
    from resolved_facts(2) [OF this] 1 2 show "sorted (rs_candidates p)" "rs_bench p = hd (rs_candidates p)"
      "set (rs_candidates p) = {i. \<exists>path d. (i, path, d) \<in> set bs \<and> satisfies (required_caps caps) d}" by simp_all
  qed
qed

text \<open>Two benches for the witnesses.\<close>

definition demo_bench :: "string \<Rightarrow> string list \<Rightarrow> bench_desc" where
  "demo_bench i caps = \<lparr>bd_id = i, bd_capabilities = caps, bd_base_labels = None,
     bd_slots = [(''4'', \<lparr>sl_dut = Some ''ecu'', sl_ina = Some 0x45\<rparr>), (''2'', \<lparr>sl_dut = Some ''ams'', sl_ina = Some 0x41\<rparr>)],
     bd_can = [], bd_routing = [], bd_expect = None\<rparr>"

definition demo_files :: bench_files where
  "demo_files = [(''bench-01.yaml'', Some (demo_bench ''bench-01'' [''dut-ams'', ''dut-ecu''])),
                 (''bench-02.yaml'', Some (demo_bench ''bench-02'' [''dut-ecu'']))]"

lemma demo_load: "load_descriptors demo_files =
    Inr [(''bench-01'', ''bench-01.yaml'', demo_bench ''bench-01'' [''dut-ams'', ''dut-ecu'']),
         (''bench-02'', ''bench-02.yaml'', demo_bench ''bench-02'' [''dut-ecu''])]"
  by (simp add: demo_files_def demo_bench_def)

lemma demo_caps: "required_caps ''dut-ecu, dut-ams'' = [''dut-ecu'', ''dut-ams'']"
  by (simp add: required_caps_def py_strip_def is_space_def)

theorem resolve_sound_witness:
  "\<exists>p. cmd_resolve demo_files (Some ''bench-01'') ''dut-ecu, dut-ams'' = Inr (Resolved p) \<and> rs_bench p = ''bench-01'' \<and>
     set [''dut-ecu'', ''dut-ams''] \<subseteq> set (rs_labels p)"
proof -
  obtain p where p: "cmd_resolve demo_files (Some ''bench-01'') ''dut-ecu, dut-ams'' = Inr (Resolved p)"
    by (simp add: cmd_resolve_def demo_load demo_caps or_else_def demo_bench_def resolved_def)
  from resolve_sound [OF p] p show ?thesis by (auto simp: demo_caps or_else_def)
qed

theorem resolve_finds_witness:
  "\<exists>r. cmd_resolve demo_files None ''dut-ecu, dut-ams'' = Inr r \<and> resolve_status r \<noteq> 1"
proof -
  have ne: "required_caps ''dut-ecu, dut-ams'' \<noteq> []" by (simp add: demo_caps)
  then obtain r where r: "cmd_resolve demo_files None ''dut-ecu, dut-ams'' = Inr r"
    by (auto simp: cmd_resolve_def demo_load or_else_def)
  from resolve_finds [OF demo_load _ ne r] have "resolve_status r \<noteq> 1"
    by (simp add: or_else_def demo_caps satisfies_def demo_bench_def)
  with r show ?thesis by blast
qed

end
