(* ===== verification/Bench_Ops.thy ===== *)
theory Bench_Ops
  imports Bench_Config Hil_Client
begin

text \<open>
  The online half of \<^verbatim>\<open>tools/bench.py\<close>: probing a live bench, comparing it with its descriptor, checking
  the host, and the recovery ladder with its watchdog. What they reach is the record \<open>bench_env\<close>: broker
  calls, subprocesses (exit status, standard output and error), sleeping, the bench lock
  \<^verbatim>\<open>/tmp/hil-bench.lock\<close>, the evidence log, and facts of the host. Printed text is not modelled.
\<close>

record 'w bench_env =
  bn_client :: "('w, unit) io"
  bn_connect :: "('w, unit) io"
  bn_call :: "string \<Rightarrow> (string \<times> json) list \<Rightarrow> ('w, json) io"
  bn_run :: "string \<Rightarrow> ('w, int \<times> string \<times> string) io"
  bn_sleep :: "rat \<Rightarrow> ('w, unit) io"
  bn_lock :: "('w, unit) io"
  bn_trylock :: "('w, bool) io"
  bn_unlock :: "('w, unit) io"
  bn_log :: "json \<Rightarrow> ('w, unit) io"
  bn_files :: bench_files
  bn_bench :: "string option"
  bn_kernel :: string
  bn_float :: "string \<Rightarrow> rat option"

section \<open>Probing\<close>

definition INA_CANDIDATES :: "int list" where "INA_CANDIDATES = [0x40, 0x41, 0x44, 0x45]"

definition TCA_CANDIDATES :: "int list" where "TCA_CANDIDATES = [0x20, 0x21, 0x22]"

definition DAC_CANDIDATES :: "int list" where "DAC_CANDIDATES = [0, 1, 2, 3]"

definition DAC_DEVID_EXPECTED :: int where "DAC_DEVID_EXPECTED = 0x0417"

definition DAC_DEVID_RETRIES :: nat where "DAC_DEVID_RETRIES = 3"

definition SAMPLE_POINT_TOL :: rat where "SAMPLE_POINT_TOL = 5 / 1000"

text \<open>\<open>_try\<close>: an exception is the result None, as a null answer is.\<close>

definition try_call :: "'w bench_env \<Rightarrow> string \<Rightarrow> (string \<times> json) list \<Rightarrow> ('w, json) io" where
  "try_call env method params = try_except (bn_call env method params) is_exception (\<lambda>_. ret JNull)"

record can_link =
  cl_up :: bool
  cl_bitrate :: "int option"
  cl_sample_point :: "rat option"

record dac_retry =
  dr_attempts :: nat
  dr_seen :: "int list"
  dr_recovered :: bool

datatype probe_warning = PsuOff | NeededRetry "(int \<times> dac_retry) list" | BadDevid "int list"

record slot_reading =
  sr_current_A :: "rat option"
  sr_populated :: bool

record probe_result =
  pr_broker :: json
  pr_psu_ok :: "bool option"
  pr_ina :: "int list"
  pr_tca :: "int list"
  pr_dac :: "int list"
  pr_dac_devid :: "(int \<times> int) list"
  pr_dac_bad :: "int list"
  pr_dac_retries :: "(int \<times> dac_retry) list"
  pr_nrf24 :: bool
  pr_can :: "(string \<times> can_link) list"
  pr_slots :: "(string \<times> slot_reading) list option"
  pr_warnings :: "probe_warning list"

text \<open>\<open>re.search(prefix + "([chars]+)", s)\<close>.\<close>

fun find_field :: "string \<Rightarrow> (char \<Rightarrow> bool) \<Rightarrow> string \<Rightarrow> string option" where
  "find_field p ok [] = None"
| "find_field p ok (c # cs) =
     (if starts_with p (c # cs) \<and> takeWhile ok (drop (length p) (c # cs)) \<noteq> []
      then Some (takeWhile ok (drop (length p) (c # cs)))
      else find_field p ok cs)"

definition parse_link :: "(string \<Rightarrow> rat option) \<Rightarrow> string \<Rightarrow> can_link res" where
  "parse_link fl out =
     (let up = contains '' state UP '' out \<or> \<not> contains ''<NO-CARRIER'' out;
          br = map_option (\<lambda>s. int (digits_value s)) (find_field ''bitrate '' is_digit out)
      in case find_field ''sample-point '' (\<lambda>c. is_digit c \<or> c = CHR ''.'') out of
           None \<Rightarrow> Inr \<lparr>cl_up = up, cl_bitrate = br, cl_sample_point = None\<rparr>
         | Some s \<Rightarrow>
             (case fl s of
                Some sp \<Rightarrow> Inr \<lparr>cl_up = up, cl_bitrate = br, cl_sample_point = Some sp\<rparr>
              | None \<Rightarrow> Inl (Exn ValueError (''could not convert string to float: '' @ s))))"

fun no_iproute :: "exn \<Rightarrow> bool" where
  "no_iproute (Exn c m) = (c \<in> {FileNotFoundError, CalledProcessError, TimeoutExpired})"
| "no_iproute (RpcErr c m) = False"

primrec probe_can_devs :: "'w bench_env \<Rightarrow> string list \<Rightarrow> ('w, (string \<times> can_link) list) io" where
  "probe_can_devs env [] = ret []"
| "probe_can_devs env (dev # devs) =
     bind (try_except (bind (bn_run env (''ip -details link show '' @ dev)) (\<lambda>r. ret (Some r))) no_iproute (\<lambda>_. ret None)) (\<lambda>r.
     case r of
       None \<Rightarrow> ret []
     | Some (rc, out, err) \<Rightarrow>
         if rc \<noteq> 0 then probe_can_devs env devs
         else bind (of_res (parse_link (bn_float env) out)) (\<lambda>l.
              bind (probe_can_devs env devs) (\<lambda>ls. ret ((dev, l) # ls))))"

definition probe_can :: "'w bench_env \<Rightarrow> ('w, (string \<times> can_link) list) io" where
  "probe_can env = probe_can_devs env [''can0'', ''can1'', ''can2'']"

text \<open>The candidates for which a method answers something true.\<close>

primrec present :: "'w bench_env \<Rightarrow> string \<Rightarrow> int list \<Rightarrow> ('w, int list) io" where
  "present env method [] = ret []"
| "present env method (a # as) =
     bind (try_call env method [(''addr'', JInt a)]) (\<lambda>v.
     bind (present env method as) (\<lambda>rest. ret (if truthy v then a # rest else rest)))"

text \<open>The retry of a device id, with the number of attempts left; the values seen are kept.\<close>

primrec devid_retry ::
  "'w bench_env \<Rightarrow> int \<Rightarrow> nat \<Rightarrow> json \<Rightarrow> json list \<Rightarrow> ('w, json \<times> nat \<times> json list) io"
where
  "devid_retry env idx 0 dev seen = ret (dev, 0, seen)"
| "devid_retry env idx (Suc k) dev seen =
     (if py_eq_int dev DAC_DEVID_EXPECTED then ret (dev, Suc k, seen)
      else bind (bn_sleep env (5 / 100)) (\<lambda>_.
           bind (try_call env ''dac.read_device_id'' [(''idx'', JInt idx)]) (\<lambda>again.
           if again = JNull then devid_retry env idx k dev seen
           else devid_retry env idx k again (seen @ [again]))))"

definition devid_int :: "json \<Rightarrow> int res" where
  "devid_int v = as_int ''unsupported format string'' v"

text \<open>What one DAC contributes: its index, its id, and its retries when there were any.\<close>

definition probe_dac :: "'w bench_env \<Rightarrow> int \<Rightarrow> ('w, (int \<times> dac_retry) option) io" where
  "probe_dac env idx =
     bind (try_call env ''dac.read_device_id'' [(''idx'', JInt idx)]) (\<lambda>dev.
       if dev = JNull then ret None
       else bind (devid_retry env idx (DAC_DEVID_RETRIES - 1) dev [dev]) (\<lambda>(last, left, seen).
            bind (of_res (devid_int last)) (\<lambda>i.
            bind (of_res (rmap devid_int seen)) (\<lambda>is.
              ret (Some (i, \<lparr>dr_attempts = DAC_DEVID_RETRIES - left, dr_seen = is,
                             dr_recovered = (i = DAC_DEVID_EXPECTED)\<rparr>))))))"

primrec probe_dacs :: "'w bench_env \<Rightarrow> int list \<Rightarrow> ('w, (int \<times> int \<times> dac_retry) list) io" where
  "probe_dacs env [] = ret []"
| "probe_dacs env (idx # is) =
     bind (probe_dac env idx) (\<lambda>d. bind (probe_dacs env is) (\<lambda>ds.
       ret (case d of None \<Rightarrow> ds | Some x \<Rightarrow> (idx, x) # ds)))"

text \<open>\<open>_probe_slots\<close>: closes each carrier relay, reads its monitor, and puts the port back.\<close>

definition probe_slot :: "'w bench_env \<Rightarrow> int \<times> int \<Rightarrow> ('w, string \<times> slot_reading) io" where
  "probe_slot env = (\<lambda>(slot, ina).
     bind (try_call env ''tca.set_direction'' [(''addr'', JInt 0x20), (''port'', JInt 0), (''mask'', JInt 0x00)]) (\<lambda>_.
     bind (try_call env ''tca.write_pin''
       [(''addr'', JInt 0x20), (''port'', JInt 0), (''pin'', JInt (slot - 1)), (''value'', JBool True)]) (\<lambda>_.
     bind (try_call env ''ina.current'' [(''addr'', JInt ina)]) (\<lambda>c.
       if c = JNull then ret (show_int slot, \<lparr>sr_current_A = None, sr_populated = False\<rparr>)
       else bind (of_res (as_num c)) (\<lambda>r.
         ret (show_int slot, \<lparr>sr_current_A = Some r, sr_populated = (r > 10 / 1000)\<rparr>))))))"

definition probe_slots :: "'w bench_env \<Rightarrow> ('w, (string \<times> slot_reading) list) io" where
  "probe_slots env =
     bind (try_call env ''tca.read_port'' [(''addr'', JInt 0x20), (''port'', JInt 0)]) (\<lambda>before.
     bind (map_io (probe_slot env) (zip [1, 2, 3, 4] INA_CANDIDATES)) (\<lambda>found.
     bind (whenever (before \<noteq> JNull) (bind (try_call env ''tca.write_port''
             [(''addr'', JInt 0x20), (''port'', JInt 0), (''value'', before)]) (\<lambda>_. ret ()))) (\<lambda>_.
       ret found)))"

definition psu_answer :: "json \<Rightarrow> bool option" where
  "psu_answer psu = (case psu of JObj kvs \<Rightarrow> Some (truthy (get_or_none kvs ''pwr_ok'')) | _ \<Rightarrow> None)"

definition probe_warnings :: "bool option \<Rightarrow> (int \<times> int \<times> dac_retry) list \<Rightarrow> probe_warning list" where
  "probe_warnings psu dacs =
     (let recovered = [(i, r). (i, d, r) \<leftarrow> dacs, dr_attempts r > 1 \<and> dr_recovered r];
          bad = [i. (i, d, r) \<leftarrow> dacs, d \<noteq> DAC_DEVID_EXPECTED]
      in (if psu = Some False then [PsuOff] else [])
         @ (if recovered = [] then [] else [NeededRetry recovered])
         @ (if bad = [] then [] else [BadDevid bad]))"

definition probe :: "'w bench_env \<Rightarrow> bool \<Rightarrow> ('w, probe_result) io" where
  "probe env deep =
     bind (bn_client env) (\<lambda>_.
     bind (try_call env ''broker.health'' []) (\<lambda>broker.
     bind (try_call env ''psu.status'' []) (\<lambda>psu.
     bind (present env ''ina.is_present'' INA_CANDIDATES) (\<lambda>ina.
     bind (present env ''tca.is_present'' TCA_CANDIDATES) (\<lambda>tca.
     bind (probe_dacs env DAC_CANDIDATES) (\<lambda>dacs.
     bind (try_call env ''nrf.is_present'' []) (\<lambda>nrf.
     bind (probe_can env) (\<lambda>can.
     bind (if deep then bind (probe_slots env) (\<lambda>s. ret (Some s)) else ret None) (\<lambda>slots.
       ret \<lparr>pr_broker = broker, pr_psu_ok = psu_answer psu, pr_ina = ina, pr_tca = tca,
            pr_dac = map fst dacs, pr_dac_devid = map (\<lambda>(i, d, r). (i, d)) dacs,
            pr_dac_bad = [i. (i, d, r) \<leftarrow> dacs, d \<noteq> DAC_DEVID_EXPECTED],
            pr_dac_retries = [(i, r). (i, d, r) \<leftarrow> dacs, dr_attempts r > 1],
            pr_nrf24 = truthy nrf, pr_can = can, pr_slots = slots,
            pr_warnings = probe_warnings (psu_answer psu) dacs\<rparr>)))))))))"

section \<open>Comparing a bench with its descriptor\<close>

datatype problem =
    Missing string "int list" | Undeclared string "int list" | NrfDiffers bool bool
  | DacDead int "string list" | PackCurrentDead "int list" | RadioSilent
  | CanAbsent string | BitrateDiffers string int int | SamplePointDiffers string rat rat

definition diff_problems :: "string \<Rightarrow> int list \<Rightarrow> int list \<Rightarrow> problem list" where
  "diff_problems key want got =
     (let missing = sort (remdups (filter (\<lambda>x. x \<notin> set got) want));
          extra = sort (remdups (filter (\<lambda>x. x \<notin> set want) got))
      in (if missing = [] then [] else [Missing key missing]) @ (if extra = [] then [] else [Undeclared key extra]))"

text \<open>What \<open>routing\<close> drives with a DAC.\<close>

definition dac_users :: "bench_desc \<Rightarrow> int \<Rightarrow> string list" where
  "dac_users d idx = sort (map fst (filter (\<lambda>(r, spec). map_of spec ''dac'' = Some idx) (bd_routing d)))"

definition dac_problems :: "bench_desc \<Rightarrow> probe_result \<Rightarrow> problem list" where
  "dac_problems d found =
     (let bad = sort (remdups (pr_dac_bad found));
          pack = remdups [i. (r, spec) \<leftarrow> bd_routing d, r \<in> {''pack_current'', ''current_heartbeat''},
                             i \<leftarrow> (case map_of spec ''dac'' of Some i \<Rightarrow> [i] | None \<Rightarrow> [])];
          dead = sort (filter (\<lambda>i. i \<in> set bad) pack)
      in if bad = [] then []
         else map (\<lambda>i. DacDead i (dac_users d i)) bad
              @ (if ''stim-pack-current'' \<in> set (bd_capabilities d) \<and> dead \<noteq> [] then [PackCurrentDead dead] else []))"

definition can_problems :: "probe_result \<Rightarrow> string \<times> can_role \<Rightarrow> problem list" where
  "can_problems found = (\<lambda>(role, spec).
     case (case cr_dev spec of Some dev \<Rightarrow> map_of (pr_can found) dev | None \<Rightarrow> None) of
       None \<Rightarrow> [CanAbsent role]
     | Some live \<Rightarrow>
         (case (cr_bitrate spec, cl_bitrate live) of
            (Some b, Some b') \<Rightarrow> if b \<noteq> b' then [BitrateDiffers role b b'] else []
          | _ \<Rightarrow> [])
         @ (case (cr_sample_point spec, cl_sample_point live) of
              (Some s, Some s') \<Rightarrow> if \<bar>s - s'\<bar> > SAMPLE_POINT_TOL then [SamplePointDiffers role s s'] else []
            | _ \<Rightarrow> []))"

definition verify_problems :: "bench_desc \<Rightarrow> expect_block \<Rightarrow> probe_result \<Rightarrow> problem list" where
  "verify_problems d ex found =
     diff_problems ''ina'' (ex_ina ex) (pr_ina found)
     @ diff_problems ''tca'' (ex_tca ex) (pr_tca found)
     @ diff_problems ''dac'' (ex_dac ex) (pr_dac found)
     @ (case ex_nrf24 ex of Some b \<Rightarrow> if b \<noteq> pr_nrf24 found then [NrfDiffers b (pr_nrf24 found)] else [] | None \<Rightarrow> [])
     @ dac_problems d found
     @ (if ''radio-nrf24'' \<in> set (bd_capabilities d) \<and> \<not> pr_nrf24 found then [RadioSilent] else [])
     @ concat (map (can_problems found) (bd_can d))"

definition cmd_verify :: "'w bench_env \<Rightarrow> string \<Rightarrow> ('w, int) io" where
  "cmd_verify env bench_id =
     bind (of_res (get_descriptor (bn_files env) bench_id)) (\<lambda>d.
     case bd_expect d of
       None \<Rightarrow> ret 1
     | Some ex \<Rightarrow> bind (probe env False) (\<lambda>found. ret (if verify_problems d ex found = [] then 0 else 1)))"

section \<open>The host checks\<close>

definition sh :: "'w bench_env \<Rightarrow> string \<Rightarrow> ('w, int \<times> string) io" where
  "sh env cmd =
     try_except (bind (bn_run env cmd) (\<lambda>(rc, out, err). ret (rc, py_strip (out @ err)))) is_exception
       (\<lambda>e. ret (1, case e of Exn c m \<Rightarrow> m | RpcErr c m \<Rightarrow> m))"

text \<open>A word in single quotes.\<close>

definition quoted :: "string \<Rightarrow> string" where "quoted s = CHR 0x27 # s @ [CHR 0x27]"

definition runner_units :: "'w bench_env \<Rightarrow> ('w, string list) io" where
  "runner_units env =
     bind (sh env (''systemctl list-unit-files '' @ quoted ''actions.runner.*.service'' @ '' --no-legend 2>/dev/null | awk ''
                @ quoted ''{print $1}'')) (\<lambda>(rc, out). ret (split_words out))"

definition runner_state :: "'w bench_env \<Rightarrow> string \<Rightarrow> ('w, string \<times> string \<times> string) io" where
  "runner_state env unit =
     bind (sh env (''systemctl is-enabled '' @ unit @ '' 2>/dev/null'')) (\<lambda>(_, en).
     bind (sh env (''systemctl is-active '' @ unit @ '' 2>/dev/null'')) (\<lambda>(_, ac).
     bind (sh env (''systemctl show -p Restart --value '' @ unit @ '' 2>/dev/null'')) (\<lambda>(_, rs). ret (en, ac, rs))))"

text \<open>A check: the section of the guide, its name, and whether it passed.\<close>

type_synonym check = "string \<times> string \<times> bool"

definition REQUIRED_GROUPS :: "string list" where
  "REQUIRED_GROUPS = [''spi'', ''i2c'', ''gpio'', ''dialout'', ''netdev'']"

definition CONFIG_LINES :: "string list" where
  "CONFIG_LINES = [''dtoverlay=mcp2515-triple'', ''gpio=7=op,dl'', ''gpio=8=ip,pd'']"

definition UNITS :: "string list" where
  "UNITS = [''hil-psu-on'', ''hil-can-up'', ''hil-broker'', ''hil-dashboard'']"

definition APT_PACKAGES :: "string list" where
  "APT_PACKAGES = [''python3-can'', ''can-utils'', ''device-tree-compiler'', ''xz-utils'',
     ''libudev-dev'', ''pkg-config'', ''git'', ''curl'']"

definition unit_check :: "'w bench_env \<Rightarrow> string \<Rightarrow> ('w, check) io" where
  "unit_check env unit =
     bind (sh env (''systemctl is-enabled '' @ unit @ '' 2>/dev/null'')) (\<lambda>(_, en).
     bind (sh env (''systemctl is-active '' @ unit @ '' 2>/dev/null'')) (\<lambda>(_, ac).
       ret (''7'', unit, en = ''enabled'' \<and> ac = ''active'')))"

definition exists_check :: "'w bench_env \<Rightarrow> string \<Rightarrow> ('w, check) io" where
  "exists_check env dev = bind (sh env (''test -e '' @ dev)) (\<lambda>(rc, _). ret (''8'', dev, rc = 0))"

text \<open>The lines of \<^verbatim>\<open>pinctrl\<close>, by pin.\<close>

definition pin_lines :: "string \<Rightarrow> (string \<times> string) list" where
  "pin_lines out =
     foldl (\<lambda>d l. let l = py_strip l in
        if contains '':'' l then alist_set (py_strip (takeWhile (\<lambda>c. c \<noteq> CHR '':'') l)) l d else d)
       [] (split_on (CHR 0x0A) out)"

definition pin_line :: "(string \<times> string) list \<Rightarrow> string \<Rightarrow> string" where
  "pin_line d pin = (case map_of d pin of Some l \<Rightarrow> l | None \<Rightarrow> [])"

definition mod_file :: "'w bench_env \<Rightarrow> string" where
  "mod_file env = ''/lib/modules/'' @ bn_kernel env @ ''/kernel/drivers/net/can/spi/mcp251x.ko.xz''"

definition host_checks :: "'w bench_env \<Rightarrow> ('w, check list) io" where
  "host_checks env =
     bind (sh env (''dpkg -s'' @ concat (map (\<lambda>p. '' '' @ p) APT_PACKAGES) @ '' >/dev/null 2>&1'')) (\<lambda>(apt, _).
     bind (sh env ''id -nG'') (\<lambda>(_, groups).
     bind (sh env ''test -f /boot/firmware/overlays/mcp2515-triple.dtbo'') (\<lambda>(ov, _).
     bind (sh env ''cat /boot/firmware/config.txt 2>/dev/null'') (\<lambda>(_, cfg).
     bind (sh env (''md5sum '' @ mod_file env @ '' 2>/dev/null | cut -d'' @ quoted '' '' @ '' -f1'')) (\<lambda>(rc_a, a).
     bind (sh env (''md5sum '' @ mod_file env @ ''.orig 2>/dev/null | cut -d'' @ quoted '' '' @ '' -f1'')) (\<lambda>(rc_b, b).
     bind (sh env (''dmesg 2>/dev/null | grep -c '' @ quoted ''MCP2515 successfully initialized'')) (\<lambda>(_, dm).
     bind (sh env ''sudo -n -l 2>/dev/null'') (\<lambda>(_, sudo_l).
     bind (map_io (unit_check env) UNITS) (\<lambda>us.
     bind (map_io (exists_check env) [''/dev/spidev0.3'', ''/dev/i2c-1'']) (\<lambda>devs.
     bind (sh env ''pinctrl get 7,8 2>/dev/null'') (\<lambda>(_, pins).
     bind (sh env ''test -S /run/hil-broker/broker.sock'') (\<lambda>(sock, _).
     bind (sh env (''curl -s -o /dev/null -w '' @ quoted ''%{http_code}'' @ '' http://localhost:8080/api/status'')) (\<lambda>(_, code).
     bind (sh env ''can-flasher --version 2>/dev/null'') (\<lambda>(fl, _).
       let g7 = pin_line (pin_lines pins) ''7''; g8 = pin_line (pin_lines pins) ''8''
       in ret ([(''2'', ''apt packages'', apt = 0),
                (''1'', ''user groups'', list_all (\<lambda>g. g \<in> set (split_words groups)) REQUIRED_GROUPS),
                (''4'', ''device-tree overlay'', ov = 0),
                (''4'', ''config.txt entries'', list_all (\<lambda>l. contains l cfg) CONFIG_LINES),
                (''5'', ''patched mcp251x'', \<not> (rc_b \<noteq> 0 \<or> b = []) \<and> a \<noteq> b),
                (''5'', ''all three MCP2515 bound'', dm \<noteq> [] \<and> list_all is_digit dm \<and> digits_value dm \<ge> 3),
                (''6'', ''sudoers drop-in'', contains ''ip link set can'' sudo_l)] @ us @ devs @
               [(''8'', ''GPIO7 PS_ON# low'', contains ''op'' g7 \<and> contains ''lo'' g7),
                (''8'', ''GPIO8 PWR_OK high'', contains ''ip'' g8 \<and> contains ''hi'' g8),
                (''8'', ''broker socket'', sock = 0),
                (''9'', ''dashboard :8080'', code = ''200''),
                (''10'', ''can-flasher'', fl = 0)])))))))))))))))"

text \<open>\<open>s.replace(p, "")\<close>.\<close>

fun remove_sub :: "string \<Rightarrow> string \<Rightarrow> string" where
  "remove_sub p [] = []"
| "remove_sub p (c # cs) =
     (if p \<noteq> [] \<and> starts_with p (c # cs) then remove_sub p (drop (length p) (c # cs)) else c # remove_sub p cs)"

definition runner_check :: "'w bench_env \<Rightarrow> string \<Rightarrow> ('w, check list) io" where
  "runner_check env unit =
     bind (runner_state env unit) (\<lambda>(en, ac, rs).
       ret [(''14'', remove_sub ''.service'' unit, en = ''enabled'' \<and> ac = ''active''), (''14'', ''runner restart policy'', rs = ''always'')])"

definition runner_checks :: "'w bench_env \<Rightarrow> ('w, check list) io" where
  "runner_checks env =
     bind (runner_units env) (\<lambda>units.
     bind (sh env (''test -f '' @ [CHR 0x22] @ ''$HOME/actions-runner/.runner'' @ [CHR 0x22])) (\<lambda>(cfg, _).
       if units \<noteq> [] then bind (map_io (runner_check env) units) (\<lambda>cs. ret (concat cs))
       else if cfg = 0 then ret [(''14'', ''runner service'', False)] else ret []))"

definition doctor_checks :: "'w bench_env \<Rightarrow> bool \<Rightarrow> ('w, check list) io" where
  "doctor_checks env include_runner =
     bind (host_checks env) (\<lambda>cs.
       if include_runner then bind (runner_checks env) (\<lambda>rs. ret (cs @ rs)) else ret cs)"

definition cmd_doctor :: "'w bench_env \<Rightarrow> bool \<Rightarrow> bool \<Rightarrow> ('w, int) io" where
  "cmd_doctor env linux host_only =
     (if \<not> linux then raise (Exn SystemExit ''doctor inspects the bench host'')
      else bind (doctor_checks env (\<not> host_only)) (\<lambda>cs. ret (if list_all (\<lambda>(_, _, ok). ok) cs then 0 else 1)))"

section \<open>Recovery\<close>

definition bench_step :: "'w bench_env \<Rightarrow> string \<Rightarrow> ('w, bool) io" where
  "bench_step env cmd = bind (bn_run env cmd) (\<lambda>(rc, out, err). ret (rc = 0))"

definition psu_cycle :: "'w bench_env \<Rightarrow> ('w, bool) io" where
  "psu_cycle env =
     bind (try_except (bind (bn_connect env) (\<lambda>_. ret True)) is_exception (\<lambda>_. ret False)) (\<lambda>up.
       if \<not> up then ret False
       else try_except
         (bind (bn_call env ''psu.power'' [(''on'', JBool False)]) (\<lambda>_. bind (bn_sleep env 5) (\<lambda>_.
          bind (bn_call env ''psu.power'' [(''on'', JBool True)]) (\<lambda>_. bind (bn_sleep env 6) (\<lambda>_.
          ret True)))))
         is_exception (\<lambda>_. ret False))"

definition recover :: "'w bench_env \<Rightarrow> int \<Rightarrow> ('w, unit) io" where
  "recover env level =
     (let step = (\<lambda>cmd t. bind (bench_step env cmd) (\<lambda>_. bn_sleep env t))
      in if level \<le> 1 then step ''sudo systemctl restart hil-broker'' 6
         else bind (psu_cycle env) (\<lambda>_.
              bind (step ''sudo modprobe -r mcp251x'' 2) (\<lambda>_.
              bind (step ''sudo modprobe mcp251x'' 3) (\<lambda>_.
              bind (step ''sudo systemctl restart hil-can-up'' 3) (\<lambda>_.
              step ''sudo systemctl restart hil-broker'' 6)))))"

definition cmd_recover :: "'w bench_env \<Rightarrow> int \<Rightarrow> ('w, int) io" where
  "cmd_recover env level =
     bind (try_finally (bind (bn_lock env) (\<lambda>_. recover env level)) (bn_unlock env)) (\<lambda>_. ret 0)"

text \<open>\<open>_verify_quiet\<close>: an exit with a message is a failure, one without is success.\<close>

definition verify_quiet :: "'w bench_env \<Rightarrow> string \<Rightarrow> ('w, bool) io" where
  "verify_quiet env bench_id =
     try_except (bind (cmd_verify env bench_id) (\<lambda>rc. ret (rc = 0))) (\<lambda>_. True)
       (\<lambda>e. ret (case e of Exn c m \<Rightarrow> c = SystemExit \<and> m = [] | RpcErr c m \<Rightarrow> False))"

definition capture_row :: "'w bench_env \<Rightarrow> ('w, json) io" where
  "capture_row env =
     bind (map_io (\<lambda>idx.
       bind (try_call env ''dac.read_device_id'' [(''idx'', JInt idx)]) (\<lambda>v.
         if v = JNull then ret (show_int idx, JNull)
         else bind (of_res (devid_int v)) (\<lambda>i. ret (show_int idx, JStr (''0x'' @ hexX 4 i))))) DAC_CANDIDATES)
       (\<lambda>row. bind (bn_sleep env (15 / 100)) (\<lambda>_. ret (JObj row)))"

text \<open>
  The evidence of a wedge, appended to the log before the recovery destroys it. The time stamp is left out, and
  the reason, the printed output of the failed comparison, is an argument.
\<close>

definition capture_wedge_evidence :: "'w bench_env \<Rightarrow> string \<Rightarrow> string \<Rightarrow> ('w, unit) io" where
  "capture_wedge_evidence env bench_id reason =
     bind (try_except (bind (bn_client env) (\<lambda>_. ret None)) (\<lambda>_. True)
             (\<lambda>e. ret (Some (case e of Exn c m \<Rightarrow> m | RpcErr c m \<Rightarrow> m)))) (\<lambda>failed.
     bind (if failed = None then bind (map_io (\<lambda>_. capture_row env) [0..5]) (\<lambda>rows.
                      bind (try_call env ''psu.status'' []) (\<lambda>psu.
                        ret [(''dac_devid_samples'', JList rows), (''psu'', psu)]))
           else ret [(''dac_devid_samples'', JList []), (''error'', JStr (''no broker: '' @ the failed))]) (\<lambda>ev.
     bind (bn_run env (''ip -brief link show 2>/dev/null | grep -E '' @ quoted ''^can'')) (\<lambda>(rc, out, err).
       try_except
         (bn_log env (JObj ([(''bench'', JStr bench_id), (''reason'', JStr reason), (''expected_devid'', JStr (''0x'' @ hexX 4 DAC_DEVID_EXPECTED))]
                       @ ev @ [(''can_links'', JList (map JStr (split_lines (py_strip out))))])))
         is_exception (\<lambda>_. ret ()))))"

text \<open>The rungs of the ladder, up to the first after which the bench matches.\<close>

primrec recovery_ladder :: "'w bench_env \<Rightarrow> string \<Rightarrow> int \<Rightarrow> int list \<Rightarrow> ('w, int) io" where
  "recovery_ladder env bench_id clean [] = ret 1"
| "recovery_ladder env bench_id clean (level # ls) =
     bind (recover env level) (\<lambda>_.
     bind (verify_quiet env bench_id) (\<lambda>ok. if ok then ret clean else recovery_ladder env bench_id clean ls))"

definition watchdog_locked :: "'w bench_env \<Rightarrow> string \<Rightarrow> int \<Rightarrow> ('w, int) io" where
  "watchdog_locked env bench_id clean =
     bind (bn_trylock env) (\<lambda>got.
       if \<not> got then ret clean
       else bind (verify_quiet env bench_id) (\<lambda>ok.
            if ok then ret clean
            else bind (try_except (capture_wedge_evidence env bench_id ''fails its descriptor'') (\<lambda>_. True) (\<lambda>_. ret ())) (\<lambda>_.
                 recovery_ladder env bench_id clean [1, 2])))"

definition watchdog_bench :: "'w bench_env \<Rightarrow> string option \<Rightarrow> string res" where
  "watchdog_bench env arg =
     (case or_else (or_else arg (bn_bench env)) None of
        Some b \<Rightarrow> Inr b
      | None \<Rightarrow> rbind (load_descriptors (bn_files env)) (\<lambda>bs. case bs of
          [(i, path, d)] \<Rightarrow> Inr i
        | _ \<Rightarrow> Inl (Exn SystemExit ''several benches are described; pass --bench or set $HIL_BENCH'')))"

definition runners_down :: "'w bench_env \<Rightarrow> ('w, string list) io" where
  "runners_down env =
     bind (runner_units env) (\<lambda>us.
     bind (map_io (\<lambda>u. bind (runner_state env u) (\<lambda>(en, ac, rs). ret (u, ac))) us) (\<lambda>states.
       ret (map fst (filter (\<lambda>(u, ac). ac \<noteq> ''active'') states))))"

definition cmd_watchdog :: "'w bench_env \<Rightarrow> string option \<Rightarrow> ('w, int) io" where
  "cmd_watchdog env arg =
     bind (of_res (watchdog_bench env arg)) (\<lambda>bench_id.
     bind (runners_down env) (\<lambda>down.
     let clean = (if down = [] then 0 else 1)
     in bind (verify_quiet env bench_id) (\<lambda>ok.
          if ok then ret clean
          else try_finally (watchdog_locked env bench_id clean) (bn_unlock env))))"

section \<open>What reaches the bench, and when\<close>

text \<open>
  The same operations over an environment that keeps a trace, newest first, of the broker methods, the commands
  and the changes of the lock.
\<close>

datatype act = Called string | Ran string | Locked | Unlocked

definition noting :: "('w, 'a) io \<Rightarrow> ('a \<Rightarrow> act list) \<Rightarrow> ('w \<times> act list, 'a) io" where
  "noting m note = (\<lambda>(w, ts). case m w of
     (Inl e, w') \<Rightarrow> (Inl e, (w', ts))
   | (Inr x, w') \<Rightarrow> (Inr x, (w', note x @ ts)))"

definition always_noting :: "('w, 'a) io \<Rightarrow> act \<Rightarrow> ('w \<times> act list, 'a) io" where
  "always_noting m a = (\<lambda>(w, ts). case m w of (r, w') \<Rightarrow> (r, (w', a # ts)))"

definition watched :: "'w bench_env \<Rightarrow> ('w \<times> act list) bench_env" where
  "watched env =
     \<lparr>bn_client = noting (bn_client env) (\<lambda>_. []),
      bn_connect = noting (bn_connect env) (\<lambda>_. []),
      bn_call = (\<lambda>m ps. always_noting (bn_call env m ps) (Called m)),
      bn_run = (\<lambda>cmd. always_noting (bn_run env cmd) (Ran cmd)),
      bn_sleep = (\<lambda>t. noting (bn_sleep env t) (\<lambda>_. [])),
      bn_lock = noting (bn_lock env) (\<lambda>_. [Locked]),
      bn_trylock = noting (bn_trylock env) (\<lambda>got. if got then [Locked] else []),
      bn_unlock = always_noting (bn_unlock env) Unlocked,
      bn_log = (\<lambda>j. noting (bn_log env j) (\<lambda>_. [])),
      bn_files = bn_files env, bn_bench = bn_bench env, bn_kernel = bn_kernel env, bn_float = bn_float env\<rparr>"

primrec lock_held :: "act list \<Rightarrow> bool" where
  "lock_held [] = False"
| "lock_held (a # ts) = (case a of Locked \<Rightarrow> True | Unlocked \<Rightarrow> False | _ \<Rightarrow> lock_held ts)"

text \<open>What disturbs a bench: switching the supply, moving an output, and any command run as root.\<close>

fun disturbing :: "act \<Rightarrow> bool" where
  "disturbing (Called m) = (m \<notin> {''broker.health'', ''psu.status'', ''ina.is_present'', ''tca.is_present'',
     ''dac.read_device_id'', ''nrf.is_present''})"
| "disturbing (Ran cmd) = starts_with ''sudo '' cmd"
| "disturbing _ = False"

primrec lock_disciplined :: "act list \<Rightarrow> bool" where
  "lock_disciplined [] = True"
| "lock_disciplined (a # ts) = ((disturbing a \<longrightarrow> lock_held ts) \<and> lock_disciplined ts)"

text \<open>\<open>disciplined b\<close>: the trace is disciplined, and \<open>b\<close> says whether the lock is held.\<close>

definition disciplined :: "bool \<Rightarrow> 'w \<times> act list \<Rightarrow> bool" where
  "disciplined b = (\<lambda>(w, ts). lock_disciplined ts \<and> (lock_held ts = b))"

lemma disciplined_quiet [keeps_intros]: "keeps (disciplined b) (noting m (\<lambda>_. []))"
  by (auto simp: keeps_def disciplined_def noting_def split: prod.splits sum.splits)

lemma disciplined_note:
  "(disturbing a \<Longrightarrow> b) \<Longrightarrow> a \<noteq> Locked \<Longrightarrow> a \<noteq> Unlocked \<Longrightarrow> keeps (disciplined b) (always_noting m a)"
  by (auto simp: keeps_def disciplined_def always_noting_def split: prod.splits sum.splits act.splits)

lemma watched_simps [simp]:
  "bn_client (watched env) = noting (bn_client env) (\<lambda>_. [])"
  "bn_connect (watched env) = noting (bn_connect env) (\<lambda>_. [])"
  "bn_call (watched env) m ps = always_noting (bn_call env m ps) (Called m)"
  "bn_run (watched env) cmd = always_noting (bn_run env cmd) (Ran cmd)"
  "bn_sleep (watched env) t = noting (bn_sleep env t) (\<lambda>_. [])"
  "bn_lock (watched env) = noting (bn_lock env) (\<lambda>_. [Locked])"
  "bn_trylock (watched env) = noting (bn_trylock env) (\<lambda>got. if got then [Locked] else [])"
  "bn_unlock (watched env) = always_noting (bn_unlock env) Unlocked"
  "bn_log (watched env) j = noting (bn_log env j) (\<lambda>_. [])"
  "bn_files (watched env) = bn_files env" "bn_bench (watched env) = bn_bench env"
  "bn_kernel (watched env) = bn_kernel env" "bn_float (watched env) = bn_float env"
  by (auto simp: watched_def)

lemma try_call_disciplined:
  "(disturbing (Called m) \<Longrightarrow> b) \<Longrightarrow> keeps (disciplined b) (try_call (watched env) m ps)"
  by (auto simp: try_call_def intro!: keeps_intros disciplined_note)

lemma devid_retry_disciplined [keeps_intros]:
  "keeps (disciplined b) (devid_retry (watched env) idx k dev seen)"
  by (induction k arbitrary: dev seen) (auto intro!: keeps_intros try_call_disciplined)

lemma probe_dac_disciplined [keeps_intros]: "keeps (disciplined b) (probe_dac (watched env) idx)"
  by (auto simp: probe_dac_def intro!: keeps_intros try_call_disciplined split: prod.splits)

lemma probe_dacs_disciplined [keeps_intros]: "keeps (disciplined b) (probe_dacs (watched env) is)"
  by (induction "is") (auto intro!: keeps_intros)

lemma present_disciplined [keeps_intros]:
  "m \<in> {''ina.is_present'', ''tca.is_present''} \<Longrightarrow> keeps (disciplined b) (present (watched env) m as)"
  by (induction as) (auto intro!: keeps_intros try_call_disciplined)

lemma probe_can_disciplined [keeps_intros]: "keeps (disciplined b) (probe_can_devs (watched env) devs)"
  by (induction devs) (auto intro!: keeps_intros disciplined_note split: option.splits prod.splits)

lemma probe_links_disciplined [keeps_intros]: "keeps (disciplined b) (probe_can (watched env))"
  by (simp only: probe_can_def probe_can_disciplined)

lemma probe_disciplined [keeps_intros]: "keeps (disciplined b) (probe (watched env) False)"
  by (auto simp: probe_def intro!: keeps_intros try_call_disciplined)

lemma verify_disciplined [keeps_intros]:
  "keeps (disciplined b) (cmd_verify (watched env) i)" "keeps (disciplined b) (verify_quiet (watched env) i)"
  by (auto simp: cmd_verify_def verify_quiet_def intro!: keeps_intros split: option.splits)

lemma sh_disciplined: "\<not> disturbing (Ran cmd) \<Longrightarrow> keeps (disciplined b) (sh (watched env) cmd)"
  by (auto simp: sh_def intro!: keeps_intros disciplined_note split: prod.splits)

lemma runners_disciplined [keeps_intros]: "keeps (disciplined b) (runners_down (watched env))"
  by (auto simp: runners_down_def runner_units_def runner_state_def intro!: keeps_intros sh_disciplined
      split: prod.splits)

lemma evidence_disciplined [keeps_intros]:
  "keeps (disciplined b) (capture_wedge_evidence (watched env) i r)"
  by (auto simp: capture_wedge_evidence_def capture_row_def intro!: keeps_intros try_call_disciplined disciplined_note
      split: prod.splits)

lemma recover_disciplined [keeps_intros]: "keeps (disciplined True) (recover (watched env) level)"
  by (auto simp: recover_def psu_cycle_def bench_step_def intro!: keeps_intros disciplined_note split: prod.splits)

lemma ladder_disciplined [keeps_intros]:
  "keeps (disciplined True) (recovery_ladder (watched env) i clean ls)"
  by (induction ls) (auto intro!: keeps_intros)


lemma locked_watchdog_disciplined:
  assumes "disciplined False s"
  shows "disciplined False (snd (try_finally (watchdog_locked (watched env) i clean) (bn_unlock (watched env)) s))"
proof -
  let ?m = "watchdog_locked (watched env) i clean"
  have held: "keeps (disciplined True) (bind (verify_quiet (watched env) i) (\<lambda>ok.
      if ok then ret clean
      else bind (try_except (capture_wedge_evidence (watched env) i ''fails its descriptor'') (\<lambda>_. True) (\<lambda>_. ret ()))
        (\<lambda>_. recovery_ladder (watched env) i clean [1, 2])))"
    by (auto intro!: keeps_intros simp del: recovery_ladder.simps)
  have "\<exists>b. disciplined b (snd (?m s))"
  proof -
    obtain r s' where got: "noting (bn_trylock env) (\<lambda>got. if got then [Locked] else []) s = (r, s')" by (rule prod.exhaust)
    with assms have s': "disciplined (r = Inr True) s'"
      by (auto simp: noting_def disciplined_def split: prod.splits sum.splits if_splits)
    show ?thesis
    proof (cases "r = Inr True")
      case True
      with s' have "disciplined True s'" by simp
      from keepsD [OF held this] True show ?thesis by (auto simp: watchdog_locked_def bind_def [of "noting _ _"] got)
    next
      case False
      then show ?thesis
        using s' got by (cases r) (auto simp: watchdog_locked_def bind_def ret_def)
    qed
  qed
  then show ?thesis
    by (auto simp: try_finally_def always_noting_def disciplined_def split: prod.splits sum.splits)
qed


lemma watchdog_disciplined: "disciplined False (snd (cmd_watchdog (watched env) arg (w, [])))"
proof -
  have locked: "keeps (disciplined False) (try_finally (watchdog_locked (watched env) i clean) (bn_unlock (watched env)))"
    for i clean by (rule keepsI) (rule locked_watchdog_disciplined)
  have "keeps (disciplined False) (cmd_watchdog (watched env) arg)"
    unfolding cmd_watchdog_def Let_def by (intro keeps_intros locked)
  then show ?thesis by (rule keepsD) (simp add: disciplined_def)
qed

lemma recover_command_disciplined: "disciplined False (snd (cmd_recover (watched env) level (w, [])))"
proof -
  let ?m = "bind (bn_lock (watched env)) (\<lambda>_. recover (watched env) level)"
  obtain r s where got: "noting (bn_lock env) (\<lambda>_. [Locked]) (w, []) = (r, s)" by (rule prod.exhaust)
  then have "disciplined (\<exists>x. r = Inr x) s"
    by (auto simp: noting_def disciplined_def split: prod.splits sum.splits)
  moreover have kept: "disciplined True s \<Longrightarrow> disciplined True (snd (recover (watched env) level s))"
    by (rule keepsD [OF recover_disciplined])
  ultimately have "\<exists>b. disciplined b (snd (?m (w, [])))"
    using kept by (cases r) (auto simp: bind_def got)
  then have "disciplined False (snd (try_finally ?m (bn_unlock (watched env)) (w, [])))"
    by (auto simp: try_finally_def always_noting_def disciplined_def split: prod.splits sum.splits)
  then show ?thesis by (auto simp: cmd_recover_def bind_def ret_def split: prod.splits sum.splits)
qed

text \<open>C8: whatever the bench does, the watchdog and \<open>bench recover\<close> switch the supply and run commands as
  root only while they hold the bench lock, and never keep the lock when they return.\<close>

theorem recovery_under_lock:
  "disciplined False (snd (cmd_watchdog (watched env) arg (w, [])))
   \<and> disciplined False (snd (cmd_recover (watched env) level (w, [])))"
  by (simp add: watchdog_disciplined recover_command_disciplined)

section \<open>The verdict on a DAC and on a bench\<close>

lemma devid_retry_spec:
  "devid_retry env idx k dev seen w = (Inr (final, left, seen'), w') \<Longrightarrow> seen \<noteq> [] \<Longrightarrow> last seen = dev \<Longrightarrow>
   \<forall>v \<in> set (butlast seen). \<not> py_eq_int v DAC_DEVID_EXPECTED \<Longrightarrow>
   left \<le> k \<and> seen' \<noteq> [] \<and> last seen' = final \<and> length seen' + left \<le> length seen + k
   \<and> (\<forall>v \<in> set (butlast seen'). \<not> py_eq_int v DAC_DEVID_EXPECTED) \<and> (left = 0 \<or> py_eq_int final DAC_DEVID_EXPECTED)"
proof (induction k arbitrary: dev seen w)
  case 0
  then show ?case by (auto simp: ret_def)
next
  case (Suc k)
  show ?case
  proof (cases "py_eq_int dev DAC_DEVID_EXPECTED")
    case True
    with Suc.prems show ?thesis by (auto simp: ret_def)
  next
    case False
    then obtain again w1 where step:
      "devid_retry env idx k (if again = JNull then dev else again) (if again = JNull then seen else seen @ [again]) w1
         = (Inr (final, left, seen'), w')"
      using Suc.prems(1) by (auto simp: bind_def split: prod.splits sum.splits if_splits)
        (use that [of JNull] that in \<open>fastforce+\<close>)
    have "seen = butlast seen @ [dev]"
      using append_butlast_last_id [OF Suc.prems(2)] Suc.prems(3) by simp
    from arg_cong [OF this, of set] have seen: "set seen = insert dev (set (butlast seen))" by simp
    have "\<forall>v \<in> set (butlast (seen @ [again])). \<not> py_eq_int v DAC_DEVID_EXPECTED"
      using Suc.prems(4) False seen by (simp add: ball_simps)
    then have "left \<le> k \<and> seen' \<noteq> [] \<and> last seen' = final
        \<and> length seen' + left \<le> length (if again = JNull then seen else seen @ [again]) + k
        \<and> (\<forall>v \<in> set (butlast seen'). \<not> py_eq_int v DAC_DEVID_EXPECTED)
        \<and> (left = 0 \<or> py_eq_int final DAC_DEVID_EXPECTED)"
      using Suc.prems(2-4) by (intro Suc.IH [OF step]) simp_all
    moreover have "length (if again = JNull then seen else seen @ [again]) \<le> length seen + 1" by simp
    ultimately show ?thesis by linarith
  qed
qed

lemma rmap_spec: "rmap f xs = Inr ys \<Longrightarrow> length ys = length xs \<and> (\<forall>j < length xs. f (xs ! j) = Inr (ys ! j))"
  by (induction xs arbitrary: ys) (auto simp: rbind_Inr_iff nth_Cons split: nat.splits)

lemma devid_int_eq: "devid_int v = Inr i \<Longrightarrow> py_eq_int v n \<longleftrightarrow> i = n"
  by (cases v) (auto simp: devid_int_def py_eq_int_def)

text \<open>a DAC whose device id is wrong is reported so only after three reads of which none gave the expected
  id; a right id is accepted at once, and the record of the reads ends with the id that counts.\<close>

theorem devid_verdict:
  assumes "probe_dac env idx w = (Inr (Some (i, r)), w')"
  shows "dr_attempts r \<in> {1..3} \<and> length (dr_seen r) \<le> dr_attempts r \<and> dr_seen r \<noteq> [] \<and> last (dr_seen r) = i
    \<and> dr_recovered r = (i = 0x0417) \<and> 0x0417 \<notin> set (butlast (dr_seen r)) \<and> (i = 0x0417 \<or> dr_attempts r = 3)"
proof -
  from assms obtain dev w1 final left seen w2 "is" where
    run: "devid_retry env idx 2 dev [dev] w1 = (Inr (final, left, seen), w2)"
    and i: "devid_int final = Inr i" and "is": "rmap devid_int seen = Inr is"
    and r: "r = \<lparr>dr_attempts = 3 - left, dr_seen = is, dr_recovered = (i = DAC_DEVID_EXPECTED)\<rparr>"
    by (auto simp: probe_dac_def bind_def ret_def of_res_def DAC_DEVID_RETRIES_def
        split: prod.splits sum.splits if_splits)
  from devid_retry_spec [OF run] have seen: "left \<le> 2" "seen \<noteq> []" "last seen = final" "length seen + left \<le> 3"
    "\<And>v. v \<in> set (butlast seen) \<Longrightarrow> \<not> py_eq_int v DAC_DEVID_EXPECTED"
    and final: "left = 0 \<or> py_eq_int final DAC_DEVID_EXPECTED" by auto
  from rmap_spec [OF "is"] have l: "length is = length seen"
    and nth: "\<And>j. j < length seen \<Longrightarrow> devid_int (seen ! j) = Inr (is ! j)" by auto
  have "last is = i"
    using nth [of "length seen - 1"] seen(2,3) l i by (cases "is = []") (auto simp: last_conv_nth)
  moreover have "0x0417 \<notin> set (butlast is)"
  proof
    assume "0x0417 \<in> set (butlast is)"
    then obtain j where j: "j < length seen - 1" "is ! j = 0x0417"
      using l by (auto simp: in_set_conv_nth nth_butlast)
    then have "seen ! j \<in> set (butlast seen)"
      by (metis length_butlast nth_butlast nth_mem)
    from seen(5) [OF this] devid_int_eq [OF nth, of j] j show False by (auto simp: DAC_DEVID_EXPECTED_def)
  qed
  moreover have "i = 0x0417 \<or> left = 0"
    using final devid_int_eq [OF i, of DAC_DEVID_EXPECTED] by (auto simp: DAC_DEVID_EXPECTED_def)
  moreover have "is \<noteq> []" "length is \<le> 3 - left" "3 - left \<in> {1..3}" using seen(1,2,4) l by auto
  ultimately show ?thesis by (simp add: r DAC_DEVID_EXPECTED_def) linarith
qed

text \<open>The same set of declared and detected devices, and links that agree with their roles.\<close>

definition can_agrees :: "probe_result \<Rightarrow> can_role \<Rightarrow> bool" where
  "can_agrees found spec =
     (case cr_dev spec of
        None \<Rightarrow> False
      | Some dev \<Rightarrow> (case map_of (pr_can found) dev of
          None \<Rightarrow> False
        | Some live \<Rightarrow>
            \<not> (\<exists>b b'. cr_bitrate spec = Some b \<and> cl_bitrate live = Some b' \<and> b \<noteq> b')
            \<and> \<not> (\<exists>s s'. cr_sample_point spec = Some s \<and> cl_sample_point live = Some s' \<and> \<bar>s - s'\<bar> > 5 / 1000)))"

definition bench_agrees :: "bench_desc \<Rightarrow> expect_block \<Rightarrow> probe_result \<Rightarrow> bool" where
  "bench_agrees d ex found \<longleftrightarrow>
     set (ex_ina ex) = set (pr_ina found) \<and> set (ex_tca ex) = set (pr_tca found) \<and> set (ex_dac ex) = set (pr_dac found)
     \<and> ex_nrf24 ex \<in> {None, Some (pr_nrf24 found)}
     \<and> pr_dac_bad found = []
     \<and> \<not> (''radio-nrf24'' \<in> set (bd_capabilities d) \<and> \<not> pr_nrf24 found)
     \<and> list_all (can_agrees found) (map snd (bd_can d))"

lemma diff_problems_empty: "diff_problems key want got = [] \<longleftrightarrow> set want = set got"
proof -
  have "sort xs = [] \<longleftrightarrow> xs = []" for xs :: "int list" by (metis length_0_conv length_sort)
  then show ?thesis by (auto simp: diff_problems_def Let_def filter_empty_conv)
qed

lemma dac_problems_empty: "dac_problems d found = [] \<longleftrightarrow> pr_dac_bad found = []"
proof -
  have "sort xs = [] \<longleftrightarrow> xs = []" for xs :: "int list" by (metis length_0_conv length_sort)
  then show ?thesis by (auto simp: dac_problems_def Let_def)
qed

lemma can_problems_empty: "can_problems found (role, spec) = [] \<longleftrightarrow> can_agrees found spec"
  by (auto simp: can_problems_def can_agrees_def SAMPLE_POINT_TOL_def split: option.splits if_splits)

lemma verify_problems_empty: "verify_problems d ex found = [] \<longleftrightarrow> bench_agrees d ex found"
  by (auto simp: verify_problems_def bench_agrees_def diff_problems_empty dac_problems_empty can_problems_empty
      list_all_iff split: option.splits)


text \<open>A bench for examples: every call is answered by the world, a list of answers; nothing else fails.\<close>

definition scripted_env :: "bench_files \<Rightarrow> json list bench_env" where
  "scripted_env files =
     \<lparr>bn_client = ret (), bn_connect = ret (),
      bn_call = (\<lambda>m ps vs. case vs of [] \<Rightarrow> (Inr JNull, []) | v # vs \<Rightarrow> (Inr v, vs)),
      bn_run = (\<lambda>cmd. ret (1, [], [])), bn_sleep = (\<lambda>t. ret ()), bn_lock = ret (), bn_trylock = ret True,
      bn_unlock = ret (), bn_log = (\<lambda>j. ret ()), bn_files = files, bn_bench = None, bn_kernel = [],
      bn_float = (\<lambda>s. None)\<rparr>"

theorem devid_verdict_witness:
  "probe_dac (scripted_env []) 0 [JInt 0xFFFF, JNull, JInt 0x0417]
     = (Inr (Some (0x0417, \<lparr>dr_attempts = 3, dr_seen = [0xFFFF, 0x0417], dr_recovered = True\<rparr>)), [])
   \<and> last [0xFFFF, 0x0417] = (0x0417 :: int)"
proof -
  have run: "probe_dac (scripted_env []) 0 [JInt 0xFFFF, JNull, JInt 0x0417]
     = (Inr (Some (0x0417, \<lparr>dr_attempts = 3, dr_seen = [0xFFFF, 0x0417], dr_recovered = True\<rparr>)), [])"
    by code_simp
  from devid_verdict [OF run] run show ?thesis by simp
qed

text \<open>C37: \<open>bench verify\<close> exits 0 exactly when the probed devices, device ids, radio and links agree with
  the descriptor, and 1 otherwise; verifying has no other effect than probing.\<close>

theorem verify_exact:
  assumes "get_descriptor (bn_files env) i = Inr d" and "bd_expect d = Some ex"
    and "probe env False w = (Inr found, w')"
  shows "cmd_verify env i w = (Inr (if bench_agrees d ex found then 0 else 1), w')"
  using assms by (simp add: cmd_verify_def bind_def ret_def of_res_def verify_problems_empty)

definition lone_bench :: bench_desc where
  "lone_bench = \<lparr>bd_id = ''b'', bd_capabilities = [], bd_base_labels = None, bd_slots = [], bd_can = [],
     bd_routing = [], bd_expect = Some \<lparr>ex_ina = [0x44], ex_tca = [], ex_dac = [], ex_nrf24 = None\<rparr>\<rparr>"

theorem verify_exact_witness:
  "cmd_verify (scripted_env [(''b.yaml'', Some lone_bench)]) ''b''
     [JNull, JNull, JBool False, JBool False, JBool True] = (Inr 0, [])"
proof -
  let ?env = "scripted_env [(''b.yaml'', Some lone_bench)]"
  have d: "get_descriptor (bn_files ?env) ''b'' = Inr lone_bench" by code_simp
  have ex: "bd_expect lone_bench = Some \<lparr>ex_ina = [0x44], ex_tca = [], ex_dac = [], ex_nrf24 = None\<rparr>"
    by (simp add: lone_bench_def)
  have p: "probe ?env False [JNull, JNull, JBool False, JBool False, JBool True]
     = (Inr \<lparr>pr_broker = JNull, pr_psu_ok = None, pr_ina = [0x44], pr_tca = [], pr_dac = [], pr_dac_devid = [],
          pr_dac_bad = [], pr_dac_retries = [], pr_nrf24 = False, pr_can = [], pr_slots = None, pr_warnings = []\<rparr>, [])"
    by code_simp
  from verify_exact [OF d ex p] show ?thesis by (simp add: bench_agrees_def lone_bench_def)
qed

section \<open>The watchdog repairs what a power cycle repairs\<close>

text \<open>C9: when the checks and the recovery steps return and a power cycle of the second rung repairs the bench, every
  run of the watchdog that gets the lock ends with a healthy bench, whatever the evidence capture does and whether
  or not a runner is down: the exit status is 0 when every runner was up and 1 when one was down.\<close>

theorem watchdog_repairs:
  assumes bench: "watchdog_bench env arg = Inr i" and runners: "runners_down env w = (Inr down, w0)"
    and checks: "\<forall>w. \<exists>w'. verify_quiet env i w = (Inr (H w), w') \<and> H w' = H w"
    and lock: "\<forall>w. \<exists>w'. bn_trylock env w = (Inr True, w')"
    and unlock: "\<forall>w. \<exists>w'. bn_unlock env w = (Inr (), w') \<and> H w' = H w"
    and ladder: "\<forall>level w. \<exists>w'. recover env level w = (Inr (), w') \<and> (level = 2 \<longrightarrow> H w')"
  shows "\<exists>w'. cmd_watchdog env arg w = (Inr (if down = [] then 0 else 1), w') \<and> H w'"
proof -
  let ?evidence = "try_except (capture_wedge_evidence env i ''fails its descriptor'') (\<lambda>_. True) (\<lambda>_. ret ())"
  have evidence: "\<exists>v'. ?evidence v = (Inr (), v')" for v
    by (cases "capture_wedge_evidence env i ''fails its descriptor'' v") (auto simp: try_except_def ret_def split: sum.splits)
  have rungs: "\<exists>v'. recovery_ladder env i clean [1, 2] v = (Inr clean, v') \<and> H v'" for clean v
  proof -
    from ladder obtain v1 where v1: "recover env 1 v = (Inr (), v1)" by blast
    from checks obtain v2 where v2: "verify_quiet env i v1 = (Inr (H v1), v2)" "H v2 = H v1" by blast
    from ladder obtain v3 where v3: "recover env 2 v2 = (Inr (), v3)" "H v3" by blast
    from checks obtain v4 where v4: "verify_quiet env i v3 = (Inr (H v3), v4)" "H v4 = H v3" by blast
    show ?thesis using v1 v2 v3 v4 by (auto simp: bind_def ret_def)
  qed
  have locked: "\<exists>v'. watchdog_locked env i clean v = (Inr clean, v') \<and> H v'" for clean v
  proof -
    from lock obtain v1 where v1: "bn_trylock env v = (Inr True, v1)" by blast
    from checks obtain v2 where v2: "verify_quiet env i v1 = (Inr (H v1), v2)" "H v2 = H v1" by blast
    from evidence obtain v3 where v3: "?evidence v2 = (Inr (), v3)" by blast
    from rungs obtain v4 where "recovery_ladder env i clean [1, 2] v3 = (Inr clean, v4)" "H v4" by blast
    with v1 v2 v3 show ?thesis
      by (cases "H v1") (auto simp: watchdog_locked_def bind_def ret_def simp del: recovery_ladder.simps)
  qed
  from checks obtain w1 where w1: "verify_quiet env i w0 = (Inr (H w0), w1)" "H w1 = H w0" by blast
  let ?clean = "if down = [] then 0 else 1"
  from locked obtain w2 where w2: "watchdog_locked env i ?clean w1 = (Inr ?clean, w2)" "H w2" by blast
  from unlock obtain w3 where w3: "bn_unlock env w2 = (Inr (), w3)" "H w3 = H w2" by blast
  show ?thesis
    using w1 w2 w3 by (cases "H w0") (auto simp: cmd_watchdog_def bench of_res_def bind_def ret_def runners try_finally_def)
qed

text \<open>A bench whose monitor answers only while it is healthy, and which reloading the driver repairs.\<close>

definition wedged_env :: "string \<Rightarrow> bool bench_env" where
  "wedged_env answer =
     \<lparr>bn_client = ret (), bn_connect = ret (),
      bn_call = (\<lambda>m ps h. (Inr (if m = ''ina.is_present'' then JBool (h \<and> ps = [(''addr'', JInt 0x44)]) else JNull), h)),
      bn_run = (\<lambda>cmd h. (Inr (0, answer, []), h \<or> cmd = ''sudo modprobe mcp251x'')), bn_sleep = (\<lambda>t. ret ()), bn_lock = ret (),
      bn_trylock = ret True, bn_unlock = ret (), bn_log = (\<lambda>j. ret ()), bn_files = [(''b.yaml'', Some lone_bench)],
      bn_bench = None, bn_kernel = [], bn_float = (\<lambda>s. None)\<rparr>"

text \<open>Its only runner is \<open>r\<close>, and asked for its state it says \<open>r\<close>, which is not active.\<close>

theorem watchdog_repairs_witness:
  "\<exists>w'. cmd_watchdog (wedged_env ''r'') None False = (Inr 1, w') \<and> w'"
proof -
  let ?env = "wedged_env ''r''"
  have bench: "watchdog_bench ?env None = Inr ''b''" by code_simp
  have runners: "runners_down ?env False = (Inr [''r''], False)" by code_simp
  have "verify_quiet ?env ''b'' True = (Inr True, True)" "verify_quiet ?env ''b'' False = (Inr False, False)"
    by code_simp+
  then have check: "verify_quiet ?env ''b'' h = (Inr h, h)" for h by (cases h) simp_all
  have lock: "bn_trylock ?env h = (Inr True, h)" "bn_unlock ?env h = (Inr (), h)" for h
    by (simp_all add: wedged_env_def ret_def)
  have "recover ?env 2 True = (Inr (), True)" "recover ?env 2 False = (Inr (), True)" by code_simp+
  then have "recover ?env 2 h = (Inr (), True)" for h by (cases h) simp_all
  moreover have "\<exists>h'. recover ?env level h = (Inr (), h')" for level h
    by (simp add: recover_def psu_cycle_def bench_step_def wedged_env_def io_simps) blast
  ultimately have ladder: "\<exists>h'. recover ?env level h = (Inr (), h') \<and> (level = 2 \<longrightarrow> h')" for level h
    by (cases "level = 2") auto
  have "\<exists>w'. cmd_watchdog ?env None False = (Inr (if [''r''] = [] then 0 else 1), w') \<and> w'"
    by (rule watchdog_repairs [where H = "\<lambda>h. h", OF bench runners]) (use check lock ladder in auto)
  then show ?thesis by simp
qed

end
