(* ===== verification/Flash_Dut.thy ===== *)
theory Flash_Dut
  imports Bench_Config Trace Pin_Bank Py_Value "HOL-Library.Product_Lexorder"
begin

text \<open>
  \<^verbatim>\<open>tools/flash_dut.py\<close>: flashing one DUT of a bench with the \<^verbatim>\<open>can-flasher\<close> command, after powering
  its carrier and no other. What it reaches is the record \<open>dut_env\<close>: the broker (\<open>_client\<close> and its calls),
  subprocesses (argument list and timeout; exit status, standard output and error), sleeping, the bench
  descriptors, the DUT profiles, and the digest of an image file. A profile is a record of the fields the code
  reads. Printed text is not modelled, and the texts of errors are abbreviated. An image is named by the path that
  \<open>Path.resolve\<close> gives: resolving it and taking its last component, which only the \<open>image\<close> entry of the result and
  the printed text show, are the identity here.
\<close>

datatype flash_addr = AddrInt int | AddrText string

record dut_profile =
  pf_bl_node_id :: "int option"
  pf_boot_settle_s :: "rat option"
  pf_boot_current_mA :: "rat option"
  pf_app_wake_timeout_s :: "rat option"
  pf_trigger_id :: "int option"
  pf_trigger_payload :: "string option"
  pf_discover_timeout_ms :: "int option"
  pf_product :: "string option"
  pf_app_address :: "flash_addr option"
  pf_per_frame_timeout_ms :: "int option"
  pf_flash_timeout_s :: "int option"

record 'w dut_env =
  fd_connect :: "('w, unit) io"
  fd_call :: "string \<Rightarrow> (string \<times> json) list \<Rightarrow> ('w, json) io"
  fd_run :: "string list \<Rightarrow> rat \<Rightarrow> ('w, int \<times> string \<times> string) io"
  fd_sleep :: "rat \<Rightarrow> ('w, unit) io"
  fd_files :: bench_files
  fd_bench :: "string option"
  fd_profile :: "string \<Rightarrow> dut_profile res"
  fd_sha256 :: "string \<Rightarrow> string option"

record dut_result =
  fr_bench :: string
  fr_dut :: string
  fr_slot :: int
  fr_image :: string
  fr_sha256 :: string
  fr_flashed :: bool

definition flash_error :: "string \<Rightarrow> exn" where "flash_error m = Exn FlashError m"

text \<open>\<open>d[k]\<close> of a field that may be missing, and \<open>d.get(k, v)\<close>.\<close>

definition field :: "string \<Rightarrow> 'a option \<Rightarrow> 'a res" where
  "field k v = (case v of Some x \<Rightarrow> Inr x | None \<Rightarrow> Inl (Exn KeyError k))"

definition default :: "'a \<Rightarrow> 'a option \<Rightarrow> 'a" where
  "default x v = (case v of Some y \<Rightarrow> y | None \<Rightarrow> x)"

section \<open>The version of the flasher\<close>

definition MIN_FLASHER :: "nat \<times> nat \<times> nat" where "MIN_FLASHER = (2, 8, 0)"

text \<open>A match of \<open>(\\d+)\\.(\\d+)\\.(\\d+)\<close> at the start of a string, and the first match in it.\<close>

definition version_at :: "string \<Rightarrow> (nat \<times> nat \<times> nat) option" where
  "version_at s =
     (let a = takeWhile is_digit s; s1 = dropWhile is_digit s;
          b = takeWhile is_digit (tl s1); s2 = dropWhile is_digit (tl s1);
          c = takeWhile is_digit (tl s2)
      in if a \<noteq> [] \<and> s1 \<noteq> [] \<and> hd s1 = CHR ''.'' \<and> b \<noteq> [] \<and> s2 \<noteq> [] \<and> hd s2 = CHR ''.'' \<and> c \<noteq> []
         then Some (digits_value a, digits_value b, digits_value c) else None)"

primrec find_version :: "string \<Rightarrow> (nat \<times> nat \<times> nat) option" where
  "find_version [] = None"
| "find_version (x # xs) = (case version_at (x # xs) of Some v \<Rightarrow> Some v | None \<Rightarrow> find_version xs)"

definition assert_flasher_recent :: "'w dut_env \<Rightarrow> ('w, nat \<times> nat \<times> nat) io" where
  "assert_flasher_recent env =
     bind (try_except
       (bind (fd_run env [''can-flasher'', ''--version''] 10) (\<lambda>(rc, out, err).
          case find_version out of
            None \<Rightarrow> raise (Exn Exception ''no version'')
          | Some v \<Rightarrow> ret v))
       is_exception (\<lambda>e. raise (flash_error ''cannot determine the can-flasher version''))) (\<lambda>got.
     if got < MIN_FLASHER then raise (flash_error ''can-flasher is too old'') else ret got)"

section \<open>Resolving the target\<close>

definition INA_FOR_SLOT :: "(int \<times> int) list" where
  "INA_FOR_SLOT = [(1, 0x40), (2, 0x41), (3, 0x44), (4, 0x45)]"

definition PROFILE_FOR_DUT :: "(string \<times> string) list" where
  "PROFILE_FOR_DUT = [(''ams'', ''tests/hil/ams/ams_profile.yaml''), (''ecu'', ''tests/hil/vcu/vcu_profile.yaml'')]"

definition resolve_dut :: "'w dut_env \<Rightarrow> string \<Rightarrow> string option \<Rightarrow> (bench_desc \<times> dut_profile \<times> int) res" where
  "resolve_dut env dut bench_id =
     rbind (load_bench (fd_files env) (fd_bench env) bench_id) (\<lambda>d.
       if (''dut-'' @ dut) \<notin> set (bd_capabilities d) then Inl (flash_error ''the bench does not declare the DUT'')
       else (case map_of PROFILE_FOR_DUT dut of
               None \<Rightarrow> Inl (flash_error ''no DUT profile known'')
             | Some path \<Rightarrow>
                 rbind (fd_profile env path) (\<lambda>prof.
                 rbind (slot_for_dut d dut) (\<lambda>slot. Inr (d, prof, slot)))))"

definition carrier_power :: "bench_desc \<Rightarrow> int \<times> int" where
  "carrier_power d =
     (let r = default [] (map_of (bd_routing d) ''carrier_power'')
      in (default 0x20 (map_of r ''tca''), default 0 (map_of r ''port'')))"

primrec seated_elsewhere :: "int \<Rightarrow> (string \<times> slot_spec) list \<Rightarrow> (int \<times> string) list res" where
  "seated_elsewhere target [] = Inr []"
| "seated_elsewhere target (p # ps) =
     rbind (int_of_digits (fst p)) (\<lambda>s.
     rbind (seated_elsewhere target ps) (\<lambda>rest.
       Inr (case sl_dut (snd p) of
              Some dut \<Rightarrow> if s \<noteq> target \<and> dut \<noteq> ''none'' then (s, dut) # rest else rest
            | None \<Rightarrow> rest)))"

definition other_dut_slots :: "bench_desc \<Rightarrow> int \<Rightarrow> (int \<times> string) list res" where
  "other_dut_slots d target = rbind (seated_elsewhere target (bd_slots d)) (\<lambda>xs. Inr (sort xs))"

text \<open>The bus of the bootloader. The default of \<open>get\<close> is evaluated first, so the role \<open>acu\<close> must exist.\<close>

definition acu_role :: "bench_desc \<Rightarrow> can_role res" where
  "acu_role d = field ''acu'' (map_of (bd_can d) ''acu'')"

definition bootloader_bus :: "bench_desc \<Rightarrow> string res" where
  "bootloader_bus d = rbind (acu_role d) (\<lambda>acu. field ''dev'' (cr_dev (default acu (map_of (bd_can d) ''bms_bl''))))"

definition slot_ina :: "bench_desc \<Rightarrow> int \<Rightarrow> int res" where
  "slot_ina d slot =
     (case Option.bind (map_of (bd_slots d) (show_int slot)) sl_ina of
        Some a \<Rightarrow> if a \<noteq> 0 then Inr a else field (show_int slot) (map_of INA_FOR_SLOT slot)
      | None \<Rightarrow> field (show_int slot) (map_of INA_FOR_SLOT slot))"

section \<open>The steps of a flash\<close>

definition dut_run :: "'w dut_env \<Rightarrow> bool \<Rightarrow> string list \<Rightarrow> rat \<Rightarrow> ('w, int \<times> string \<times> string) io" where
  "dut_run env dry cmd timeout = (if dry then ret (0, [], []) else fd_run env cmd timeout)"

definition dut_call :: "'w dut_env \<Rightarrow> string \<Rightarrow> (string \<times> json) list \<Rightarrow> ('w, unit) io" where
  "dut_call env m ps = bind (fd_call env m ps) (\<lambda>_. ret ())"

definition power_pin :: "'w dut_env \<Rightarrow> int \<times> int \<Rightarrow> int \<Rightarrow> bool \<Rightarrow> ('w, unit) io" where
  "power_pin env tp slot on =
     dut_call env ''tca.write_pin'' [(''addr'', JInt (fst tp)), (''port'', JInt (snd tp)),
       (''pin'', JInt (slot - 1)), (''value'', JBool on)]"

text \<open>An answer times 1000, formatted as a float.\<close>

fun milliamps :: "json \<Rightarrow> rat res" where
  "milliamps (JStr s) = Inl (Exn ValueError ''Unknown format code'')"
| "milliamps v = rbind (as_num v) (\<lambda>r. Inr (r * 1000))"

definition dut_power :: "'w dut_env \<Rightarrow> bool \<Rightarrow> dut_profile \<Rightarrow> int \<times> int \<Rightarrow> int \<Rightarrow> int \<Rightarrow> (int \<times> string) list \<Rightarrow> ('w, unit) io" where
  "dut_power env dry prof tp slot ina others =
     bind (whenever (\<not> dry) (dut_call env ''tca.set_direction''
             [(''addr'', JInt (fst tp)), (''port'', JInt (snd tp)), (''mask'', JInt 0)])) (\<lambda>_.
     bind (for_each (\<lambda>(s, other). whenever (\<not> dry) (power_pin env tp s False)) others) (\<lambda>_.
     bind (whenever (others \<noteq> [] \<and> \<not> dry) (fd_sleep env (3 / 10))) (\<lambda>_.
     whenever (\<not> dry)
       (bind (power_pin env tp slot True) (\<lambda>_.
        bind (fd_sleep env (default (1 / 2) (pf_boot_settle_s prof))) (\<lambda>_.
        bind (fd_call env ''ina.current'' [(''addr'', JInt ina)]) (\<lambda>c.
        bind (of_res (milliamps c)) (\<lambda>mA.
          if mA < default 100 (pf_boot_current_mA prof)
          then raise (flash_error ''carrier not seated, or fuse blown'') else ret ()))))))))"

definition wait_for_carrier :: "'w dut_env \<Rightarrow> string \<Rightarrow> rat \<Rightarrow> ('w, bool) io" where
  "wait_for_carrier env bus timeout_s =
     try_except (bind (fd_run env [''candump'', ''-T'', show_int \<lfloor>timeout_s * 1000\<rfloor>, ''-n'', ''1'', bus] (timeout_s + 5))
       (\<lambda>(rc, out, err). ret (py_strip out \<noteq> []))) is_exception (\<lambda>_. ret False)"

definition dut_trigger :: "'w dut_env \<Rightarrow> bool \<Rightarrow> dut_profile \<Rightarrow> string \<Rightarrow> ('w, unit) io" where
  "dut_trigger env dry prof bus =
     bind (whenever (\<not> dry) (bind (wait_for_carrier env bus (default 10 (pf_app_wake_timeout_s prof))) (\<lambda>_. ret ()))) (\<lambda>_.
     bind (of_res (field ''bl_trigger_payload'' (pf_trigger_payload prof))) (\<lambda>payload.
     bind (dut_run env dry [''cansend'', bus, hexX 3 (default 2 (pf_trigger_id prof)) @ ''#'' @ payload] 5) (\<lambda>_.
     whenever (\<not> dry) (fd_sleep env 1))))"

text \<open>\<open>hex\<close>.\<close>

definition py_hex :: "int \<Rightarrow> string" where
  "py_hex i = (if i < 0 then ''-0x'' else ''0x'') @ py_lower (digits 16 (nat \<bar>i\<bar>))"

definition flasher_args :: "bench_desc \<Rightarrow> string \<Rightarrow> int \<Rightarrow> int \<Rightarrow> string list res" where
  "flasher_args d bus node timeout_ms =
     rbind (acu_role d) (\<lambda>acu. rbind (field ''bitrate'' (cr_bitrate acu)) (\<lambda>rate.
       Inr [''can-flasher'', ''--interface'', ''socketcan'', ''--channel'', bus, ''--bitrate'', show_int rate,
            ''--node-id'', py_hex node, ''--timeout'', show_int timeout_ms]))"

definition discovered :: "string \<Rightarrow> string list" where
  "discovered out = map py_strip (filter (\<lambda>l. starts_with ''0x'' (py_lower (dropWhile is_space l))) (split_lines out))"

text \<open>The identity gate: one node, and the product it names unless it has no app.\<close>

definition identity_gate :: "dut_profile \<Rightarrow> string list \<Rightarrow> unit res" where
  "identity_gate prof found =
     (case found of
        [] \<Rightarrow> Inl (flash_error ''no bootloader answered'')
      | [row] \<Rightarrow>
          (case or_else (pf_product prof) None of
             None \<Rightarrow> Inr ()
           | Some want \<Rightarrow>
               if contains ''no app installed'' (py_lower row) then Inr ()
               else if \<not> contains want row then Inl (flash_error ''the bootloader that answered is another product'')
               else Inr ())
      | _ \<Rightarrow> Inl (flash_error ''several nodes answered discover''))"

definition dut_discover :: "'w dut_env \<Rightarrow> bool \<Rightarrow> bench_desc \<Rightarrow> dut_profile \<Rightarrow> string \<Rightarrow> int \<Rightarrow> ('w, unit) io" where
  "dut_discover env dry d prof bus node =
     bind (of_res (flasher_args d bus node (default 3000 (pf_discover_timeout_ms prof)))) (\<lambda>args.
     bind (dut_run env dry (args @ [''discover'']) 30) (\<lambda>(rc, out, err).
       if dry then ret () else of_res (identity_gate prof (discovered out))))"

definition dut_write :: "'w dut_env \<Rightarrow> bool \<Rightarrow> bench_desc \<Rightarrow> dut_profile \<Rightarrow> string \<Rightarrow> int \<Rightarrow> string \<Rightarrow> ('w, bool) io" where
  "dut_write env dry d prof bus node img =
     bind (of_res (field ''app_flash_address'' (pf_app_address prof))) (\<lambda>addr.
     bind (of_res (flasher_args d bus node (default 30000 (pf_per_frame_timeout_ms prof)))) (\<lambda>args.
     bind (dut_run env dry (args @ [''flash'', img, ''--address'',
              (case addr of AddrInt a \<Rightarrow> ''0x'' @ hexX 8 a | AddrText s \<Rightarrow> s), ''--verify-after'', ''--yes'', ''--jump''])
            (of_int (default 60 (pf_flash_timeout_s prof) + 120))) (\<lambda>(rc, out, err).
       if dry then ret False else if rc \<noteq> 0 then raise (flash_error ''can-flasher failed'') else ret True)))"

definition restore_port :: "'w dut_env \<Rightarrow> bool \<Rightarrow> int \<times> int \<Rightarrow> json \<Rightarrow> ('w, unit) io" where
  "restore_port env restore_relays tp before =
     whenever (before \<noteq> JNull \<and> restore_relays)
       (try_except (dut_call env ''tca.write_port''
          [(''addr'', JInt (fst tp)), (''port'', JInt (snd tp)), (''value'', before)]) is_exception (\<lambda>_. ret ()))"

definition dut_session ::
  "'w dut_env \<Rightarrow> bool \<Rightarrow> bool \<Rightarrow> bench_desc \<Rightarrow> dut_profile \<Rightarrow> int \<Rightarrow> string \<Rightarrow> int \<Rightarrow> int \<Rightarrow> (int \<times> string) list \<Rightarrow> string \<Rightarrow> ('w, bool) io"
where
  "dut_session env dry restore_relays d prof slot bus ina node others img =
     (let tp = carrier_power d
      in bind (if dry then ret JNull
               else fd_call env ''tca.read_port'' [(''addr'', JInt (fst tp)), (''port'', JInt (snd tp))]) (\<lambda>before.
         try_finally
           (bind (dut_power env dry prof tp slot ina others) (\<lambda>_.
            bind (dut_trigger env dry prof bus) (\<lambda>_.
            bind (dut_discover env dry d prof bus node) (\<lambda>_.
            dut_write env dry d prof bus node img))))
           (restore_port env restore_relays tp before)))"

definition flash_dut ::
  "'w dut_env \<Rightarrow> string \<Rightarrow> string \<Rightarrow> string option \<Rightarrow> bool \<Rightarrow> string option \<Rightarrow> bool \<Rightarrow> ('w, dut_result) io"
where
  "flash_dut env dut img bench_id dry expect_sha restore_relays =
     (case fd_sha256 env img of
        None \<Rightarrow> raise (flash_error ''image not found'')
      | Some actual \<Rightarrow>
          if (case or_else expect_sha None of Some sha \<Rightarrow> actual \<noteq> sha | None \<Rightarrow> False)
          then raise (flash_error ''image sha256 mismatch'')
          else
            bind (of_res (resolve_dut env dut bench_id)) (\<lambda>(d, prof, slot).
            bind (of_res (bootloader_bus d)) (\<lambda>bus.
            bind (of_res (slot_ina d slot)) (\<lambda>ina.
            bind (of_res (field ''bl_node_id'' (pf_bl_node_id prof))) (\<lambda>node.
            bind (of_res (other_dut_slots d slot)) (\<lambda>others.
            bind (whenever (\<not> dry) (bind (assert_flasher_recent env) (\<lambda>_. fd_connect env))) (\<lambda>_.
            bind (dut_session env dry restore_relays d prof slot bus ina node others img) (\<lambda>flashed.
              ret \<lparr>fr_bench = bd_id d, fr_dut = dut, fr_slot = slot, fr_image = img, fr_sha256 = actual,
                   fr_flashed = flashed\<rparr>))))))))"

definition flash_dut_main ::
  "'w dut_env \<Rightarrow> string \<Rightarrow> string \<Rightarrow> string option \<Rightarrow> bool \<Rightarrow> string option \<Rightarrow> bool \<Rightarrow> ('w, int) io"
where
  "flash_dut_main env dut img bench_id dry expect_sha restore_relays =
     try_except (bind (flash_dut env dut img bench_id dry expect_sha restore_relays) (\<lambda>_. ret 0))
       (\<lambda>e. case e of Exn c m \<Rightarrow> c = FlashError | RpcErr c m \<Rightarrow> False) (\<lambda>_. ret 1)"

section \<open>What a flash does to the bench\<close>

text \<open>The events of a run: broker calls and subprocesses, with their outcome.\<close>

datatype dut_event = Did string "(string \<times> json) list" "json res" | Exec "string list" "(int \<times> string \<times> string) res"

datatype request = Call string "(string \<times> json) list" | Run "string list"

primrec asked :: "dut_event \<Rightarrow> request" where
  "asked (Did m ps r) = Call m ps"
| "asked (Exec argv r) = Run argv"

definition traced :: "'w dut_env \<Rightarrow> ('w \<times> dut_event list) dut_env" where
  "traced env =
     \<lparr>fd_connect = on_fst (fd_connect env),
      fd_call = (\<lambda>m ps. logged (fd_call env m ps) (\<lambda>r. [Did m ps r])),
      fd_run = (\<lambda>argv t. logged (fd_run env argv t) (\<lambda>r. [Exec argv r])),
      fd_sleep = (\<lambda>t. on_fst (fd_sleep env t)),
      fd_files = fd_files env, fd_bench = fd_bench env, fd_profile = fd_profile env, fd_sha256 = fd_sha256 env\<rparr>"

text \<open>The command that writes the image.\<close>

definition is_write :: "string list \<Rightarrow> bool" where
  "is_write argv \<longleftrightarrow> argv \<noteq> [] \<and> hd argv = ''can-flasher'' \<and> last argv = ''--jump''"

primrec no_write :: "dut_event \<Rightarrow> bool" where
  "no_write (Did m ps r) = True"
| "no_write (Exec argv r) = (\<not> is_write argv)"

text \<open>What is asked of the bench before the image is written, in this order.\<close>

definition pin_request :: "int \<times> int \<Rightarrow> int \<Rightarrow> bool \<Rightarrow> request" where
  "pin_request tp slot on = Call ''tca.write_pin'' [(''addr'', JInt (fst tp)), (''port'', JInt (snd tp)),
     (''pin'', JInt (slot - 1)), (''value'', JBool on)]"

definition power_script :: "int \<times> int \<Rightarrow> int \<Rightarrow> int \<Rightarrow> (int \<times> string) list \<Rightarrow> request list" where
  "power_script tp slot ina others =
     Call ''tca.set_direction'' [(''addr'', JInt (fst tp)), (''port'', JInt (snd tp)), (''mask'', JInt 0)]
     # map (\<lambda>(s, other). pin_request tp s False) others
     @ [pin_request tp slot True, Call ''ina.current'' [(''addr'', JInt ina)]]"

definition trigger_script :: "dut_profile \<Rightarrow> string \<Rightarrow> string \<Rightarrow> request list" where
  "trigger_script prof bus payload =
     [Run [''candump'', ''-T'', show_int \<lfloor>default 10 (pf_app_wake_timeout_s prof) * 1000\<rfloor>, ''-n'', ''1'', bus],
      Run [''cansend'', bus, hexX 3 (default 2 (pf_trigger_id prof)) @ ''#'' @ payload]]"

definition dut_script ::
  "bench_desc \<Rightarrow> dut_profile \<Rightarrow> int \<Rightarrow> int \<Rightarrow> (int \<times> string) list \<Rightarrow> string \<Rightarrow> string \<Rightarrow> string list \<Rightarrow> request list"
where
  "dut_script d prof slot ina others bus payload args =
     [Run [''can-flasher'', ''--version''],
      Call ''tca.read_port'' [(''addr'', JInt (fst (carrier_power d))), (''port'', JInt (snd (carrier_power d)))]]
     @ power_script (carrier_power d) slot ina others @ trigger_script prof bus payload @ [Run (args @ [''discover''])]"

definition flasher_recent :: "dut_event list \<Rightarrow> bool" where
  "flasher_recent evs \<longleftrightarrow>
     (\<exists>rc out err v. Exec [''can-flasher'', ''--version''] (Inr (rc, out, err)) \<in> set evs
        \<and> find_version out = Some v \<and> \<not> v < (2, 8, 0))"

definition carrier_draws :: "dut_profile \<Rightarrow> int \<Rightarrow> dut_event list \<Rightarrow> bool" where
  "carrier_draws prof ina evs \<longleftrightarrow>
     (\<exists>c mA. Did ''ina.current'' [(''addr'', JInt ina)] (Inr c) \<in> set evs \<and> milliamps c = Inr mA
        \<and> \<not> mA < default 100 (pf_boot_current_mA prof))"

definition one_node :: "dut_profile \<Rightarrow> string list \<Rightarrow> dut_event list \<Rightarrow> bool" where
  "one_node prof args evs \<longleftrightarrow>
     (\<exists>rc out err row. Exec (args @ [''discover'']) (Inr (rc, out, err)) \<in> set evs \<and> discovered out = [row]
        \<and> (case or_else (pf_product prof) None of
             None \<Rightarrow> True
           | Some want \<Rightarrow> contains want row \<or> contains ''no app installed'' (py_lower row)))"

lemma identity_gate_ok:
  "identity_gate prof found = Inr u \<longleftrightarrow> (\<exists>row. found = [row] \<and> (case or_else (pf_product prof) None of
     None \<Rightarrow> True | Some want \<Rightarrow> contains want row \<or> contains ''no app installed'' (py_lower row)))"
  by (auto simp: identity_gate_def split: list.splits option.splits if_splits)

lemma traced_simps [simp]:
  "fd_connect (traced env) = on_fst (fd_connect env)"
  "fd_call (traced env) m ps = logged (fd_call env m ps) (\<lambda>r. [Did m ps r])"
  "fd_run (traced env) argv t = logged (fd_run env argv t) (\<lambda>r. [Exec argv r])"
  "fd_sleep (traced env) t = on_fst (fd_sleep env t)"
  "fd_files (traced env) = fd_files env" "fd_bench (traced env) = fd_bench env"
  "fd_profile (traced env) = fd_profile env" "fd_sha256 (traced env) = fd_sha256 env"
  by (simp_all add: traced_def)

lemma resolve_traced [simp]: "resolve_dut (traced env) = resolve_dut env"
  by (intro ext) (simp add: resolve_dut_def cong: option.case_cong if_cong)

lemma is_write_simps [simp]:
  "\<not> is_write [''can-flasher'', ''--version'']" "\<not> is_write [''candump'', a, b, c, d, bus]"
  "\<not> is_write [''cansend'', bus, frame]" "\<not> is_write (args @ [''discover''])"
  by (simp_all add: is_write_def)

section \<open>The steps emit their requests\<close>

lemma call_emits:
  "emits (dut_call (traced env) m ps)
     (\<lambda>r evs. list_all no_write evs \<and> (\<forall>u. r = Inr u \<longrightarrow> map asked evs = [Call m ps]))"
  unfolding dut_call_def
  by (rule emits_bind [where P = "\<lambda>r evs. evs = [Did m ps r]" and Q = "\<lambda>x r evs. evs = []"])
    (auto intro: emits_logged emits_ret)

lemma pin_emits:
  "emits (power_pin (traced env) tp slot on)
     (\<lambda>r evs. list_all no_write evs \<and> (\<forall>u. r = Inr u \<longrightarrow> map asked evs = [pin_request tp slot on]))"
  unfolding power_pin_def pin_request_def by (rule call_emits)

lemma isolate_emits:
  "emits (for_each (\<lambda>(s, other). power_pin (traced env) tp s False) others)
     (\<lambda>r evs. list_all no_write evs \<and>
        (\<forall>u. r = Inr u \<longrightarrow> map asked evs = map (\<lambda>(s, other). pin_request tp s False) others))"
proof (induction others)
  case (Cons p others)
  obtain s other where p: "p = (s, other)" by (cases p)
  show ?case
    unfolding for_each.simps p split_conv list.map by (rule emits_bind [OF pin_emits Cons.IH]) auto
qed (simp add: emits_ret)

lemma current_emits:
  "emits (bind (fd_call (traced env) ''ina.current'' [(''addr'', JInt ina)]) (\<lambda>c.
        bind (of_res (milliamps c)) (\<lambda>mA.
          if mA < default 100 (pf_boot_current_mA prof) then raise (flash_error m) else ret ())))
     (\<lambda>r evs. list_all no_write evs \<and> (\<forall>u. r = Inr u \<longrightarrow>
        map asked evs = [Call ''ina.current'' [(''addr'', JInt ina)]] \<and> carrier_draws prof ina evs))"
proof -
  let ?P = "\<lambda>r evs. evs = [Did ''ina.current'' [(''addr'', JInt ina)] r]"
  let ?Q = "\<lambda>c r evs. evs = [] \<and> (\<forall>u::unit. r = Inr u \<longrightarrow>
      (\<exists>mA. milliamps c = Inr mA \<and> \<not> mA < default 100 (pf_boot_current_mA prof)))"
  have check: "emits (bind (of_res (milliamps c)) (\<lambda>mA.
      if mA < default 100 (pf_boot_current_mA prof) then raise (flash_error m) else ret ())) (?Q c)" for c
    by (auto simp: emits_def io_simps split: sum.splits)
  show ?thesis
    by (rule emits_bind [where P = ?P and Q = ?Q, OF _ check]) (auto intro: emits_logged simp: carrier_draws_def)
qed


lemma sleep_emits: "emits (fd_sleep (traced env) t) (\<lambda>r evs. evs = [])"
  by (simp add: emits_silent)

lemma power_emits:
  "emits (dut_power (traced env) False prof tp slot ina others)
     (\<lambda>r evs. list_all no_write evs \<and> (\<forall>u. r = Inr u \<longrightarrow>
        map asked evs = power_script tp slot ina others \<and> carrier_draws prof ina evs))"
proof -
  let ?current = "bind (fd_call (traced env) ''ina.current'' [(''addr'', JInt ina)]) (\<lambda>c.
        bind (of_res (milliamps c)) (\<lambda>mA.
          if mA < default 100 (pf_boot_current_mA prof)
          then raise (flash_error ''carrier not seated, or fuse blown'') else ret ()))"
  let ?on = "bind (power_pin (traced env) tp slot True) (\<lambda>_.
        bind (fd_sleep (traced env) (default (1 / 2) (pf_boot_settle_s prof))) (\<lambda>_. ?current))"
  have settle: "emits (bind (fd_sleep (traced env) t) (\<lambda>_. ?current))
      (\<lambda>r evs. list_all no_write evs \<and> (\<forall>u. r = Inr u \<longrightarrow>
        map asked evs = [Call ''ina.current'' [(''addr'', JInt ina)]] \<and> carrier_draws prof ina evs))" for t
    by (rule emits_bind [OF sleep_emits current_emits]) auto
  have on: "emits ?on (\<lambda>r evs. list_all no_write evs \<and> (\<forall>u. r = Inr u \<longrightarrow>
        map asked evs = [pin_request tp slot True, Call ''ina.current'' [(''addr'', JInt ina)]] \<and> carrier_draws prof ina evs))"
    by (rule emits_bind [OF pin_emits settle]) (auto simp: carrier_draws_def)
  have pause: "emits (bind (if others \<noteq> [] then fd_sleep (traced env) (3 / 10) else ret ()) (\<lambda>_. ?on))
      (\<lambda>r evs. list_all no_write evs \<and> (\<forall>u. r = Inr u \<longrightarrow>
        map asked evs = [pin_request tp slot True, Call ''ina.current'' [(''addr'', JInt ina)]] \<and> carrier_draws prof ina evs))"
    by (rule emits_bind [where P = "\<lambda>r evs. evs = []", OF _ on]) (auto simp: emits_silent intro: emits_ret)
  have live: "dut_power (traced env) False prof tp slot ina others =
      bind (dut_call (traced env) ''tca.set_direction'' [(''addr'', JInt (fst tp)), (''port'', JInt (snd tp)), (''mask'', JInt 0)]) (\<lambda>_.
      bind (for_each (\<lambda>(s, other). power_pin (traced env) tp s False) others) (\<lambda>_.
      bind (if others \<noteq> [] then fd_sleep (traced env) (3 / 10) else ret ()) (\<lambda>_. ?on)))"
    by (simp add: dut_power_def whenever_def)
  have isolate: "emits (bind (for_each (\<lambda>(s, other). power_pin (traced env) tp s False) others) (\<lambda>_.
      bind (if others \<noteq> [] then fd_sleep (traced env) (3 / 10) else ret ()) (\<lambda>_. ?on)))
      (\<lambda>r evs. list_all no_write evs \<and> (\<forall>u. r = Inr u \<longrightarrow>
        map asked evs = map (\<lambda>(s, other). pin_request tp s False) others
          @ [pin_request tp slot True, Call ''ina.current'' [(''addr'', JInt ina)]] \<and> carrier_draws prof ina evs))"
    by (rule emits_bind [OF isolate_emits pause]) (auto simp: carrier_draws_def)
  show ?thesis
    unfolding live by (rule emits_bind [OF call_emits isolate]) (auto simp: power_script_def carrier_draws_def)
qed

lemma wait_emits:
  "emits (wait_for_carrier (traced env) bus t) (\<lambda>r evs. list_all no_write evs \<and>
     map asked evs = [Run [''candump'', ''-T'', show_int \<lfloor>t * 1000\<rfloor>, ''-n'', ''1'', bus]])"
  by (auto simp: wait_for_carrier_def emits_def logged_def io_simps split: prod.splits sum.splits)

lemma trigger_emits:
  "emits (dut_trigger (traced env) False prof bus)
     (\<lambda>r evs. list_all no_write evs \<and> (\<forall>u. r = Inr u \<longrightarrow>
        (\<exists>payload. pf_trigger_payload prof = Some payload \<and> map asked evs = trigger_script prof bus payload)))"
proof -
  have send: "emits (bind (of_res (field ''bl_trigger_payload'' (pf_trigger_payload prof))) (\<lambda>payload.
      bind (dut_run (traced env) False [''cansend'', bus, hexX 3 (default 2 (pf_trigger_id prof)) @ ''#'' @ payload] 5) (\<lambda>_.
      fd_sleep (traced env) 1)))
    (\<lambda>r evs. list_all no_write evs \<and> (\<forall>u. r = Inr u \<longrightarrow> (\<exists>payload. pf_trigger_payload prof = Some payload
        \<and> map asked evs = [Run [''cansend'', bus, hexX 3 (default 2 (pf_trigger_id prof)) @ ''#'' @ payload]])))"
    by (auto simp: emits_def dut_run_def logged_def on_fst_def field_def io_simps split: prod.splits sum.splits option.splits)
  have live: "dut_trigger (traced env) False prof bus =
      bind (wait_for_carrier (traced env) bus (default 10 (pf_app_wake_timeout_s prof))) (\<lambda>_.
      bind (of_res (field ''bl_trigger_payload'' (pf_trigger_payload prof))) (\<lambda>payload.
      bind (dut_run (traced env) False [''cansend'', bus, hexX 3 (default 2 (pf_trigger_id prof)) @ ''#'' @ payload] 5) (\<lambda>_.
      fd_sleep (traced env) 1)))"
    by (simp add: dut_trigger_def whenever_def bind_assoc)
  show ?thesis
    unfolding live by (rule emits_bind [OF wait_emits send]) (auto simp: trigger_script_def)
qed

lemma discover_emits:
  "emits (dut_discover (traced env) False d prof bus node)
     (\<lambda>r evs. list_all no_write evs \<and> (\<forall>u. r = Inr u \<longrightarrow>
        (\<exists>args. flasher_args d bus node (default 3000 (pf_discover_timeout_ms prof)) = Inr args
           \<and> map asked evs = [Run (args @ [''discover''])] \<and> one_node prof args evs)))"
  by (auto simp: emits_def dut_discover_def dut_run_def logged_def io_simps one_node_def identity_gate_ok
      split: prod.splits sum.splits)


text \<open>A success rests on an exit status 0.\<close>

fun backed :: "bool res \<Rightarrow> (int \<times> string \<times> string) res \<Rightarrow> bool" where
  "backed (Inr ok) (Inr (rc, out, err)) = (ok \<and> rc = 0)"
| "backed (Inr ok) (Inl e) = False"
| "backed (Inl e) out = True"

lemma write_emits:
  "emits (dut_write (traced env) False d prof bus node img)
     (\<lambda>r evs. evs = [] \<and> (\<exists>e. r = Inl e)
        \<or> (\<exists>argv out. evs = [Exec argv out] \<and> is_write argv \<and> {img, ''--verify-after''} \<subseteq> set argv \<and> backed r out))"
proof -
  have "is_write (args @ [a, b, c, e, f, g, ''--jump''])" if "flasher_args d bus node t = Inr args" for args a b c e f g t
    using that by (auto simp: is_write_def flasher_args_def rbind_Inr_iff)
  then show ?thesis
    by (auto simp: emits_def dut_write_def dut_run_def logged_def io_simps split: prod.splits sum.splits)
qed

lemma restore_emits:
  "emits (restore_port (traced env) restore tp before) (\<lambda>r. list_all no_write)"
  by (auto simp: restore_port_def emits_def dut_call_def logged_def io_simps split: prod.splits sum.splits)

text \<open>The image is written last, after the script, or not at all.\<close>

definition ready :: "bench_desc \<Rightarrow> dut_profile \<Rightarrow> int \<Rightarrow> int \<Rightarrow> (int \<times> string) list \<Rightarrow> string \<Rightarrow> string list \<Rightarrow> dut_event list \<Rightarrow> bool" where
  "ready d prof slot ina others bus args pre \<longleftrightarrow>
     (\<exists>payload. map asked pre = dut_script d prof slot ina others bus payload args)
     \<and> flasher_recent pre \<and> carrier_draws prof ina pre \<and> one_node prof args pre"

inductive writes_last :: "(dut_event list \<Rightarrow> bool) \<Rightarrow> string \<Rightarrow> bool res \<Rightarrow> dut_event list \<Rightarrow> bool"
  for safe img
where
  stopped: "list_all no_write evs \<Longrightarrow> writes_last safe img (Inl e) evs"
| written: "safe pre \<Longrightarrow> list_all no_write pre \<Longrightarrow> list_all no_write post \<Longrightarrow> is_write argv \<Longrightarrow>
    {img, ''--verify-after''} \<subseteq> set argv \<Longrightarrow> backed r out \<Longrightarrow>
    writes_last safe img r (pre @ Exec argv out # post)"

lemma writes_last_before:
  assumes "writes_last S img r ts'" "list_all no_write ts" "\<And>pre. S pre \<Longrightarrow> S' (ts @ pre)"
  shows "writes_last S' img r (ts @ ts')"
  using assms(1)
proof cases
  case (written pre post argv out)
  have "writes_last S' img r ((ts @ pre) @ Exec argv out # post)"
    using written assms(2,3) by (intro writes_last.written) auto
  with written show ?thesis by simp
qed (use assms(2) in \<open>auto intro: writes_last.stopped\<close>)

lemma writes_last_after:
  assumes "writes_last S img r ts" "list_all no_write ts'" "r' = r \<or> (\<exists>e. r' = Inl e)"
  shows "writes_last S img r' (ts @ ts')"
  using assms(1)
proof cases
  case (written pre post argv out)
  then have "backed r' out" using assms(3) by auto
  then have "writes_last S img r' (pre @ Exec argv out # (post @ ts'))"
    using written assms(2) by (intro writes_last.written) auto
  with written show ?thesis by simp
qed (use assms(2,3) in \<open>auto intro: writes_last.stopped\<close>)

lemma writes_last_bind:
  assumes "emits m (\<lambda>r evs. list_all no_write evs \<and> (\<forall>x. r = Inr x \<longrightarrow> M x evs))"
    and "\<And>x. emits (f x) (writes_last S img)" and "\<And>x ts pre. M x ts \<Longrightarrow> S pre \<Longrightarrow> S' (ts @ pre)"
  shows "emits (bind m f) (writes_last S' img)"
  by (rule emits_bind [OF assms(1,2)]) (auto intro: writes_last.stopped writes_last_before assms(3))

lemma writes_last_finally:
  assumes "emits m (writes_last S img)" "emits f (\<lambda>r. list_all no_write)"
  shows "emits (try_finally m f) (writes_last S img)"
  by (rule emits_finally [OF assms]) (auto intro: writes_last_after)

lemma seen_later [intro]:
  "one_node prof args pre \<Longrightarrow> one_node prof args (ts @ pre)"
  "carrier_draws prof ina pre \<Longrightarrow> carrier_draws prof ina (ts @ pre)"
  "carrier_draws prof ina ts \<Longrightarrow> carrier_draws prof ina (ts @ pre)"
  "one_node prof args pre \<Longrightarrow> one_node prof args (e # pre)"
  "carrier_draws prof ina pre \<Longrightarrow> carrier_draws prof ina (e # pre)"
  "flasher_recent ts \<Longrightarrow> flasher_recent (ts @ pre)"
  unfolding one_node_def carrier_draws_def flasher_recent_def set_append list.set by blast+

lemma body_emits:
  "emits (bind (dut_power (traced env) False prof tp slot ina others) (\<lambda>_.
      bind (dut_trigger (traced env) False prof bus) (\<lambda>_.
      bind (dut_discover (traced env) False d prof bus node) (\<lambda>_.
      dut_write (traced env) False d prof bus node img))))
    (writes_last (\<lambda>pre. \<exists>payload args. map asked pre =
        power_script tp slot ina others @ trigger_script prof bus payload @ [Run (args @ [''discover''])]
        \<and> carrier_draws prof ina pre \<and> one_node prof args pre) img)"
proof -
  have 0: "emits (dut_write (traced env) False d prof bus node img) (writes_last (\<lambda>pre. pre = []) img)"
    by (rule emits_weaken [OF write_emits])
      (auto intro: writes_last.stopped [where evs = "[]", simplified] writes_last.written [where pre = "[]" and post = "[]", simplified])
  have 1: "emits (bind (dut_discover (traced env) False d prof bus node) (\<lambda>_. dut_write (traced env) False d prof bus node img))
     (writes_last (\<lambda>pre. \<exists>args. map asked pre = [Run (args @ [''discover''])] \<and> one_node prof args pre) img)"
    by (rule writes_last_bind [OF discover_emits 0]) auto
  have 2: "emits (bind (dut_trigger (traced env) False prof bus) (\<lambda>_.
      bind (dut_discover (traced env) False d prof bus node) (\<lambda>_. dut_write (traced env) False d prof bus node img)))
     (writes_last (\<lambda>pre. \<exists>payload args. map asked pre = trigger_script prof bus payload @ [Run (args @ [''discover''])]
        \<and> one_node prof args pre) img)"
    by (rule writes_last_bind [OF trigger_emits 1]) (auto intro: seen_later)
  show ?thesis
    by (rule writes_last_bind [OF power_emits 2]) (auto intro: seen_later)
qed

lemma session_emits:
  "emits (dut_session (traced env) False restore d prof slot bus ina node others img)
    (writes_last (\<lambda>pre. \<exists>payload args. map asked pre =
        tl (dut_script d prof slot ina others bus payload args)
        \<and> carrier_draws prof ina pre \<and> one_node prof args pre) img)"
proof -
  let ?tp = "carrier_power d"
  let ?S = "\<lambda>pre. \<exists>payload args. map asked pre =
        power_script ?tp slot ina others @ trigger_script prof bus payload @ [Run (args @ [''discover''])]
        \<and> carrier_draws prof ina pre \<and> one_node prof args pre"
  have fin: "emits (try_finally (bind (dut_power (traced env) False prof ?tp slot ina others) (\<lambda>_.
      bind (dut_trigger (traced env) False prof bus) (\<lambda>_.
      bind (dut_discover (traced env) False d prof bus node) (\<lambda>_.
      dut_write (traced env) False d prof bus node img)))) (restore_port (traced env) restore ?tp before))
     (writes_last ?S img)" for before
    by (rule writes_last_finally [OF body_emits restore_emits])
  have read: "emits (fd_call (traced env) ''tca.read_port'' [(''addr'', JInt (fst ?tp)), (''port'', JInt (snd ?tp))])
     (\<lambda>r evs. list_all no_write evs \<and> (\<forall>x. r = Inr x \<longrightarrow>
        evs = [Did ''tca.read_port'' [(''addr'', JInt (fst ?tp)), (''port'', JInt (snd ?tp))] (Inr x)]))"
    by (simp add: emits_logged)
  show ?thesis
    unfolding dut_session_def Let_def if_False
    by (rule writes_last_bind [OF read fin]) (auto simp: dut_script_def)
qed


lemma recent_emits:
  "emits (assert_flasher_recent (traced env)) (\<lambda>r evs. list_all no_write evs \<and> (\<forall>v. r = Inr v \<longrightarrow>
     map asked evs = [Run [''can-flasher'', ''--version'']] \<and> flasher_recent evs))"
  by (auto simp: assert_flasher_recent_def emits_def logged_def io_simps flasher_recent_def MIN_FLASHER_def
      simp del: less_prod_simp split: prod.splits sum.splits option.splits if_splits)

lemma live_emits:
  "emits (bind (bind (assert_flasher_recent (traced env)) (\<lambda>_. fd_connect (traced env))) (\<lambda>_.
      dut_session (traced env) False restore d prof slot bus ina node others img))
    (writes_last (\<lambda>pre. \<exists>args. ready d prof slot ina others bus args pre) img)"
proof -
  have start: "emits (bind (assert_flasher_recent (traced env)) (\<lambda>_. fd_connect (traced env)))
      (\<lambda>r evs. list_all no_write evs \<and> (\<forall>u. r = Inr u \<longrightarrow>
         map asked evs = [Run [''can-flasher'', ''--version'']] \<and> flasher_recent evs))"
    by (rule emits_bind [OF recent_emits, where Q = "\<lambda>_ r evs. evs = []"]) (auto intro: emits_silent)
  show ?thesis
  proof (rule writes_last_bind [OF start session_emits])
    fix x ts pre
    assume ts: "map asked ts = [Run [''can-flasher'', ''--version'']] \<and> flasher_recent ts"
      and "\<exists>payload args. map asked pre = tl (dut_script d prof slot ina others bus payload args)
        \<and> carrier_draws prof ina pre \<and> one_node prof args pre"
    then obtain payload args where pre: "map asked pre = tl (dut_script d prof slot ina others bus payload args)"
      "carrier_draws prof ina pre" "one_node prof args pre" by blast
    from ts pre(1) have "map asked (ts @ pre) = dut_script d prof slot ina others bus payload args"
      by (simp add: dut_script_def)
    with ts pre(2,3) show "\<exists>args. ready d prof slot ina others bus args (ts @ pre)"
      unfolding ready_def by (blast intro: seen_later)
  qed
qed

lemma flash_dut_live:
  assumes "flash_dut (traced env) dut img bench False sha restore (w, []) = (r, (w', evs))"
  shows "(\<exists>e. r = Inl e) \<and> evs = [] \<or>
    (\<exists>d prof slot ina others bus fl. resolve_dut env dut bench = Inr (d, prof, slot) \<and> other_dut_slots d slot = Inr others
       \<and> slot_ina d slot = Inr ina \<and> bootloader_bus d = Inr bus \<and> or_else sha None \<in> {None, fd_sha256 env img}
       \<and> writes_last (\<lambda>pre. \<exists>args. ready d prof slot ina others bus args pre) img fl evs
       \<and> (\<forall>res. r = Inr res \<longrightarrow> fl = Inr (fr_flashed res)))"
proof (cases "\<exists>e. r = Inl e \<and> evs = []")
  case False
  define live where "live d prof slot bus ina node others =
      bind (bind (assert_flasher_recent (traced env)) (\<lambda>_. fd_connect (traced env))) (\<lambda>_.
        dut_session (traced env) False restore d prof slot bus ina node others img)" for d prof slot bus ina node others
  from assms False obtain actual d prof slot bus ina node others fl where
    sha: "fd_sha256 env img = Some actual" "or_else sha None \<in> {None, Some actual}"
    and res: "resolve_dut env dut bench = Inr (d, prof, slot)" "bootloader_bus d = Inr bus" "slot_ina d slot = Inr ina"
      "other_dut_slots d slot = Inr others"
    and run: "live d prof slot bus ina node others (w, []) = (fl, (w', evs))"
    and fl: "\<forall>x. r = Inr x \<longrightarrow> fl = Inr (fr_flashed x)"
    unfolding live_def
    by (auto simp: flash_dut_def of_res_def bind_def ret_def raise_def whenever_def
        split: option.splits sum.splits prod.splits if_splits)
  from emitsD [OF live_emits run [unfolded live_def]]
  have "writes_last (\<lambda>pre. \<exists>args. ready d prof slot ina others bus args pre) img fl evs" by (metis append_Nil)
  with sha res fl show ?thesis by auto
qed auto

lemma dry_run:
  "snd (flash_dut env dut img bench True sha restore w) = w
   \<and> (case fst (flash_dut env dut img bench True sha restore w) of Inr res \<Rightarrow> \<not> fr_flashed res | Inl e \<Rightarrow> True)"
proof -
  have loop: "for_each (\<lambda>(s, other). whenever (\<not> True) (power_pin env tp s False)) others w = (Inr (), w)" for tp others
    by (induction others) (auto simp: whenever_def bind_def ret_def)
  show ?thesis
    by (auto simp: flash_dut_def dut_session_def Let_def dut_power_def dut_trigger_def dut_discover_def dut_write_def
        dut_run_def restore_port_def whenever_def bind_def ret_def raise_def of_res_def try_finally_def
        loop [unfolded whenever_def, simplified] split: option.splits sum.splits prod.splits if_splits)
qed


lemma no_write_split:
  assumes "writes_last S img r evs" "Exec argv out \<in> set evs" "is_write argv"
  shows "\<exists>pre post. evs = pre @ Exec argv out # post \<and> S pre \<and> list_all no_write (pre @ post)"
  using assms
proof cases
  case (written pre post argv' out')
  with assms(2,3) have "Exec argv out = Exec argv' out'" by (auto simp: list_all_iff)
  with written show ?thesis by auto
qed (use assms in \<open>auto simp: list_all_iff\<close>)

lemma flash_dut_dry_silent:
  assumes "flash_dut (traced env) dut img bench True sha restore (w, []) = (r, (w', evs))"
  shows "evs = []"
  using dry_run [of "traced env" dut img bench sha restore "(w, [])"] assms by simp

text \<open>C1: the command that writes the image runs at most once, and before it exactly the script ran: the flasher is
  recent, every other slot with a DUT was switched off and the target on, the carrier draws its boot current,
  and the discovery found one node whose product, if it names one, is the expected one.\<close>

theorem flash_dut_isolated:
  assumes "flash_dut (traced env) dut img bench dry sha restore (w, []) = (r, (w', evs))"
    and "Exec argv out \<in> set evs" and "is_write argv"
  shows "\<exists>d prof slot ina others bus args pre post.
    resolve_dut env dut bench = Inr (d, prof, slot) \<and> other_dut_slots d slot = Inr others \<and> slot_ina d slot = Inr ina
    \<and> or_else sha None \<in> {None, fd_sha256 env img}
    \<and> evs = pre @ Exec argv out # post \<and> ready d prof slot ina others bus args pre \<and> list_all no_write (pre @ post)"
proof -
  have live: "\<not> dry"
  proof
    assume dry
    then have "flash_dut (traced env) dut img bench True sha restore (w, []) = (r, (w', evs))" using assms(1) by simp
    from flash_dut_dry_silent [OF this] assms(2) show False by simp
  qed
  with assms(1) have run: "flash_dut (traced env) dut img bench False sha restore (w, []) = (r, (w', evs))" by simp
  from flash_dut_live [OF run] assms(2) obtain d prof slot ina others bus fl where
    res: "resolve_dut env dut bench = Inr (d, prof, slot)" "other_dut_slots d slot = Inr others" "slot_ina d slot = Inr ina"
      "or_else sha None \<in> {None, fd_sha256 env img}"
    and wl: "writes_last (\<lambda>pre. \<exists>args. ready d prof slot ina others bus args pre) img fl evs" by auto
  from no_write_split [OF wl assms(2,3)] res show ?thesis by blast
qed

text \<open>C2: a result that says flashed rests on a writing command for this image, with verification, that exited 0;
  a run that is not dry says so or fails.\<close>

theorem flashed_is_verified:
  assumes "flash_dut (traced env) dut img bench dry sha restore (w, []) = (Inr res, (w', evs))"
  shows "if dry then \<not> fr_flashed res
    else fr_flashed res \<and> (\<exists>pre argv o' e' post. evs = pre @ Exec argv (Inr (0, o', e')) # post
       \<and> is_write argv \<and> {img, ''--verify-after''} \<subseteq> set argv)"
proof (cases dry)
  case True
  then show ?thesis using dry_run [of "traced env" dut img bench sha restore "(w, [])"] assms by simp
next
  case False
  with assms have run: "flash_dut (traced env) dut img bench False sha restore (w, []) = (Inr res, (w', evs))" by simp
  from flash_dut_live [OF run] obtain S where "writes_last S img (Inr (fr_flashed res)) evs" by auto
  then show ?thesis
  proof cases
    case (written pre post argv out)
    then obtain o' e' where "out = Inr (0, o', e')" "fr_flashed res"
      by (cases "(Inr (fr_flashed res) :: bool res, out)" rule: backed.cases) auto
    with written have "evs = pre @ Exec argv (Inr (0, o', e')) # post \<and> is_write argv
        \<and> {img, ''--verify-after''} \<subseteq> set argv" by simp
    then have "\<exists>pre argv o' e' post. evs = pre @ Exec argv (Inr (0, o', e')) # post \<and> is_write argv
        \<and> {img, ''--verify-after''} \<subseteq> set argv" by (intro exI)
    with \<open>fr_flashed res\<close> False show ?thesis by (simp only: if_False)
  qed
qed

text \<open>a dry run leaves the world as it was, and never claims to have flashed.\<close>

theorem dry_run_harmless:
  "snd (flash_dut env dut img bench True sha restore w) = w
   \<and> (case fst (flash_dut env dut img bench True sha restore w) of Inr res \<Rightarrow> \<not> fr_flashed res | Inl e \<Rightarrow> True)"
  by (rule dry_run)

text \<open>A bench and a flasher for the witnesses.\<close>

definition demo_profile :: dut_profile where
  "demo_profile = \<lparr>pf_bl_node_id = Some 2, pf_boot_settle_s = None, pf_boot_current_mA = Some 90,
     pf_app_wake_timeout_s = Some (1 / 50), pf_trigger_id = None, pf_trigger_payload = Some ''01'',
     pf_discover_timeout_ms = Some 30, pf_product = Some ''AMS'', pf_app_address = Some (AddrText ''0x08020000''),
     pf_per_frame_timeout_ms = Some 30, pf_flash_timeout_s = None\<rparr>"

definition demo_dut_env :: "unit dut_env" where
  "demo_dut_env =
     \<lparr>fd_connect = ret (),
      fd_call = (\<lambda>m ps. ret (if m = ''ina.current'' then JNum (13 / 100) else JNull)),
      fd_run = (\<lambda>argv t. ret (0, if last argv = ''--version'' then ''can-flasher 2.14.0''
         else if last argv = ''discover'' then ''0x02 AMS v3'' else [], [])),
      fd_sleep = (\<lambda>t. ret ()),
      fd_files = [(''b.yaml'', Some ((demo_bench ''b'' [''dut-ams'', ''dut-ecu''])
         \<lparr>bd_can := [(''acu'', \<lparr>cr_dev = Some ''can2'', cr_bitrate = Some 50, cr_sample_point = None\<rparr>)]\<rparr>))],
      fd_bench = None, fd_profile = (\<lambda>path. Inr demo_profile), fd_sha256 = (\<lambda>f. Some ''ab'')\<rparr>"

definition demo_flash :: "dut_result res \<times> unit \<times> dut_event list" where
  "demo_flash = flash_dut (traced demo_dut_env) ''ams'' ''fw.bin'' None False (Some ''ab'') False ((), [])"

definition demo_write :: "string list" where
  "demo_write = [''can-flasher'', ''--interface'', ''socketcan'', ''--channel'', ''can2'', ''--bitrate'', ''50'',
     ''--node-id'', ''0x2'', ''--timeout'', ''30'', ''flash'', ''fw.bin'', ''--address'', ''0x08020000'',
     ''--verify-after'', ''--yes'', ''--jump'']"


lemma demo_flash_eval:
  "case demo_flash of (r, (u, evs)) \<Rightarrow>
     (case r of Inl e \<Rightarrow> False | Inr res \<Rightarrow> fr_flashed res) \<and> list_ex (\<lambda>e. e = Exec demo_write (Inr (0, [], []))) evs"
  by code_simp

lemma demo_flash_run:
  obtains res evs where "demo_flash = (Inr res, ((), evs))" "Exec demo_write (Inr (0, [], [])) \<in> set evs"
  using demo_flash_eval by (auto simp: list_ex_iff split: prod.splits sum.splits)

theorem flash_dut_isolated_witness:
  "is_write demo_write \<and> (\<exists>d prof slot ina others bus args pre post.
     resolve_dut demo_dut_env ''ams'' None = Inr (d, prof, slot) \<and> other_dut_slots d slot = Inr others
     \<and> snd (snd demo_flash) = pre @ Exec demo_write (Inr (0, [], [])) # post \<and> ready d prof slot ina others bus args pre)"
proof -
  have w: "is_write demo_write" by (simp add: is_write_def demo_write_def)
  obtain res evs where run: "demo_flash = (Inr res, ((), evs))" and e: "Exec demo_write (Inr (0, [], [])) \<in> set evs"
    by (rule demo_flash_run)
  have evs: "snd (snd demo_flash) = evs" by (simp add: run)
  show ?thesis unfolding evs using flash_dut_isolated [OF run [unfolded demo_flash_def] e w] w by blast
qed

theorem flashed_is_verified_witness:
  "\<exists>pre argv o' e' post. snd (snd demo_flash) = pre @ Exec argv (Inr (0, o', e')) # post
     \<and> ''--verify-after'' \<in> set argv"
proof -
  obtain res evs where run: "demo_flash = (Inr res, ((), evs))"
    by (rule demo_flash_run)
  have evs: "snd (snd demo_flash) = evs" by (simp add: run)
  from flashed_is_verified [OF run [unfolded demo_flash_def]] obtain pre argv o' e' post
    where "evs = pre @ Exec argv (Inr (0, o', e')) # post" "''--verify-after'' \<in> set argv" by auto
  then show ?thesis unfolding evs by (intro exI conjI)
qed

end
