(* ===== verification/Ltc_Response.thy ===== *)
theory Ltc_Response
  imports Crc "HOL-Library.Word" "HOL-Library.Signed_Division"
begin

text \<open>
  What the emulated LTC6811 chips answer, in the Pico firmware under \<^verbatim>\<open>tools/pico_ltc_emulator/firmware/src\<close>:
  \<^verbatim>\<open>pec15.c\<close>, the table-driven check word of a chip's reply, and the part of \<^verbatim>\<open>ltc6811_emu.c\<close> (with
  \<^verbatim>\<open>ntc_aux_table.h\<close>) that encodes voltages and temperatures and builds the six prebuilt replies. A C \<open>uint16_t\<close>
  is a \<open>16 word\<close> in the check word and an \<open>int\<close> with its reduction written out elsewhere; a byte is an \<open>int\<close>.
  The properties: the table computes the bit-serial register of the data sheet, every corrupted byte is noticed,
  and a hotter sensor never reads a higher voltage.
\<close>

section \<open>The check word\<close>

definition pec15_shift :: "16 word \<Rightarrow> 16 word" where
  "pec15_shift r = (if r AND 0x4000 \<noteq> 0 then push_bit 1 r XOR 0x4599 else push_bit 1 r)"

definition crc_table :: "16 word list" where
  "crc_table = map (\<lambda>i. (pec15_shift ^^ 8) (push_bit 7 (of_nat i)) AND 0x7FFF) [0..<256]"

definition pec15_step :: "16 word \<Rightarrow> int \<Rightarrow> 16 word" where
  "pec15_step r b = (let addr = (drop_bit 7 r XOR word_of_int b) AND 0xFF in push_bit 8 r XOR crc_table ! unat addr)"

definition pec15_compute :: "int list \<Rightarrow> 16 word" where
  "pec15_compute data = push_bit 1 (foldl pec15_step 16 data) AND 0xFFFE"

definition pec15_append :: "int list \<Rightarrow> int list" where
  "pec15_append data =
     (let pec = pec15_compute data in data @ [uint (drop_bit 8 pec AND 0xFF), uint (pec AND 0xFF)])"

text \<open>The reference: the register of the data sheet, fifteen bits that take one bit of the message at a time, most
  significant first.\<close>

definition pec15_bit :: "15 word \<Rightarrow> bool \<Rightarrow> 15 word" where
  "pec15_bit r d = (if d \<noteq> bit r 14 then push_bit 1 r XOR 0x4599 else push_bit 1 r)"

definition byte_bits :: "int \<Rightarrow> bool list" where
  "byte_bits b = map (bit b) (rev [0..<8])"

definition pec15_serial :: "int list \<Rightarrow> 15 word" where
  "pec15_serial data = foldl pec15_bit 16 (concat (map byte_bits data))"

text \<open>One shift of the fifteen-bit register, linear and injective.\<close>

definition lfsr :: "15 word \<Rightarrow> 15 word" where
  "lfsr r = push_bit 1 r XOR (if bit r 14 then 0x4599 else 0)"

lemma bit_twice: "bit (r * 2) n \<longleftrightarrow> n \<noteq> 0 \<and> n < LENGTH('a) \<and> bit r (n - 1)" for r :: "'a::len word"
  using bit_double_iff [of r n] by (auto simp: mult.commute)

lemma bit_literals:
  "bit (32767 :: int) n \<longleftrightarrow> n < 15" "bit (255 :: int) n \<longleftrightarrow> n < 8" "bit (127 :: int) n \<longleftrightarrow> n < 7"
  "bit (16384 :: int) n \<longleftrightarrow> n = 14" "bit (32512 :: int) n \<longleftrightarrow> 8 \<le> n \<and> n < 15"
    "bit (65534 :: int) n \<longleftrightarrow> 1 \<le> n \<and> n < 16"
proof -
  have "(32767 :: int) = mask 15" "(255 :: int) = mask 8" "(127 :: int) = mask 7" "(16384 :: int) = 2 ^ 14"
    "(32512 :: int) = push_bit 8 (mask 7)" "(65534 :: int) = push_bit 1 (mask 15)"
    by (simp_all add: mask_eq_exp_minus_1)
  then show "bit (32767 :: int) n \<longleftrightarrow> n < 15" "bit (255 :: int) n \<longleftrightarrow> n < 8" "bit (127 :: int) n \<longleftrightarrow> n < 7"
    "bit (16384 :: int) n \<longleftrightarrow> n = 14" "bit (32512 :: int) n \<longleftrightarrow> 8 \<le> n \<and> n < 15"
    "bit (65534 :: int) n \<longleftrightarrow> 1 \<le> n \<and> n < 16"
    by (simp_all only: bit_mask_iff bit_exp_iff bit_push_bit_iff) auto
qed

lemma word_xor_cancel: "a XOR c = b XOR c \<Longrightarrow> a = b" for a b c :: "'a::len word"
proof -
  assume "a XOR c = b XOR c"
  then have "(a XOR c) XOR c = (b XOR c) XOR c" by simp
  then show "a = b" by (simp add: xor.assoc)
qed

lemma word_xor_cancel_left: "c XOR a = c XOR b \<Longrightarrow> a = b" for a b c :: "'a::len word"
  by (rule word_xor_cancel [of a c b]) (simp add: xor.commute [of _ c])

lemma lfsr_xor: "lfsr (a XOR b) = lfsr a XOR lfsr b"
  by (intro bit_word_eqI) (auto simp: lfsr_def bit_simps bit_twice)

lemma lfsr_kernel: "lfsr r = 0 \<Longrightarrow> r = 0"
proof -
  assume z: "lfsr r = 0"
  have "bit (lfsr r) 0 = bit r 14" by (simp add: lfsr_def bit_simps bit_twice)
  with z have top: "\<not> bit r 14" by simp
  have "\<not> bit r n" for n
  proof (cases "n < 14")
    case True
    have "bit (lfsr r) (Suc n) = bit r n" using top True by (simp add: lfsr_def bit_twice)
    with z show ?thesis by simp
  next
    case False
    with top show ?thesis by (cases "n = 14") (auto dest: bit_imp_le_length)
  qed
  then show "r = 0" by (intro bit_word_eqI) simp
qed

lemma lfsr_iter_xor: "(lfsr ^^ n) (a XOR b) = (lfsr ^^ n) a XOR (lfsr ^^ n) b"
  by (induction n) (simp_all add: lfsr_xor)

lemma lfsr_iter_inj: "(lfsr ^^ n) a = (lfsr ^^ n) b \<Longrightarrow> a = b"
proof (induction n)
  case (Suc n)
  then have "lfsr ((lfsr ^^ n) a XOR (lfsr ^^ n) b) = 0" by (simp add: lfsr_xor)
  from lfsr_kernel [OF this] have "(lfsr ^^ n) a XOR (lfsr ^^ n) b = (lfsr ^^ n) b XOR (lfsr ^^ n) b"
    by (simp only: xor_self_eq)
  then have "(lfsr ^^ n) a = (lfsr ^^ n) b" by (rule word_xor_cancel)
  with Suc.IH show ?case .
qed simp

lemma lfsr_iter_low: "n + k \<le> 15 \<Longrightarrow> (\<forall>i \<ge> k. \<not> bit r i) \<Longrightarrow> (lfsr ^^ n) r = push_bit n r"
proof (induction n)
  case (Suc n)
  then have "\<not> bit (push_bit n r) 14" by (auto simp: bit_push_bit_iff)
  with Suc show ?case by (intro bit_word_eqI) (auto simp: lfsr_def bit_simps bit_twice)
qed simp

text \<open>A byte shifted in by the register, and by the table.\<close>

definition pec_step :: "15 word \<Rightarrow> int \<Rightarrow> 15 word" where
  "pec_step r b = (lfsr ^^ 8) (r XOR push_bit 7 (word_of_int b))"

lemma ucast_shift: "ucast (pec15_shift r) = lfsr (ucast r)"
proof -
  have "r AND 0x4000 \<noteq> 0 \<longleftrightarrow> bit r 14"
    using and_exp_eq_0_iff_not_bit [of r 14] by simp
  then show ?thesis by (intro bit_word_eqI) (auto simp: pec15_shift_def lfsr_def bit_simps bit_twice)
qed

lemma ucast_iter: "ucast ((pec15_shift ^^ n) r) = (lfsr ^^ n) (ucast r)"
  by (induction n) (simp_all add: ucast_shift)

lemma table_entry: "i < 256 \<Longrightarrow> ucast (crc_table ! i) = (lfsr ^^ 8) (push_bit 7 (of_nat i))"
proof -
  assume "i < 256"
  then have "crc_table ! i = (pec15_shift ^^ 8) (push_bit 7 (of_nat i)) AND 0x7FFF" by (simp add: crc_table_def)
  moreover have "ucast (x AND 0x7FFF) = (ucast x :: 15 word)" for x :: "16 word"
    by (intro bit_word_eqI) (simp add: bit_simps bit_literals)
  moreover have "ucast (push_bit 7 (of_nat i :: 16 word)) = (push_bit 7 (of_nat i) :: 15 word)"
    by (intro bit_word_eqI) (auto simp: bit_simps)
  ultimately show ?thesis by (simp only: ucast_iter)
qed

lemma step_table: "is_byte b \<Longrightarrow> ucast (pec15_step r b) = pec_step (ucast r) b"
proof -
  assume b: "is_byte b"
  let ?addr = "(drop_bit 7 r XOR word_of_int b) AND 0xFF"
  let ?low = "ucast r AND 0x7F :: 15 word"
  have addr: "unat ?addr < 256"
  proof -
    have "?addr \<le> 0xFF" by (rule word_and_le1)
    then show ?thesis by (simp add: word_le_nat_alt)
  qed
  have le: "(8 :: nat) + 7 \<le> 15" by simp
  have low: "\<forall>i \<ge> 7. \<not> bit ?low i" by (auto simp: bit_simps bit_literals)
  have split: "ucast r XOR push_bit 7 (word_of_int b) = push_bit 7 (of_nat (unat ?addr)) XOR ?low"
    using b by (intro bit_word_eqI) (auto simp: bit_simps bit_literals)
  have "pec_step (ucast r) b = (lfsr ^^ 8) (push_bit 7 (of_nat (unat ?addr))) XOR push_bit 8 ?low"
    unfolding pec_step_def split lfsr_iter_xor lfsr_iter_low [OF le low] ..
  also have "\<dots> = ucast (crc_table ! unat ?addr) XOR push_bit 8 ?low" by (simp only: table_entry [OF addr])
  also have "\<dots> = ucast (pec15_step r b)"
    by (intro bit_word_eqI) (auto simp: pec15_step_def bit_simps bit_literals)
  finally show ?thesis by simp
qed

primrec aligned :: "bool list \<Rightarrow> 15 word" where
  "aligned [] = 0"
| "aligned (d # ds) = (if d then 0x4000 else 0) XOR drop_bit 1 (aligned ds)"

lemma bit_aligned: "bit (aligned ds) i \<longleftrightarrow> i \<le> 14 \<and> 14 - i < length ds \<and> ds ! (14 - i)"
proof (induction ds arbitrary: i)
  case (Cons d ds)
  consider "i < 14" | "i = 14" | "14 < i" by linarith
  then show ?case
  proof cases
    case 1
    then have "14 - i = Suc (14 - Suc i)" by simp
    with 1 Cons show ?thesis by (simp add: bit_xor_iff bit_drop_bit_eq bit_literals)
  next
    case 2
    with Cons [of 15] show ?thesis by (simp add: bit_xor_iff bit_drop_bit_eq bit_literals)
  next
    case 3
    with Cons [of "Suc i"] show ?thesis by (simp add: bit_xor_iff bit_drop_bit_eq bit_literals)
  qed
qed simp

lemma serial_lfsr: "pec15_bit r d = lfsr (r XOR (if d then 0x4000 else 0))"
  by (intro bit_word_eqI) (auto simp: pec15_bit_def lfsr_def bit_simps bit_twice bit_literals)

lemma lfsr_lift: "\<not> bit y 0 \<Longrightarrow> lfsr (drop_bit 1 y) = y"
proof (intro bit_word_eqI)
  fix n assume "\<not> bit y 0" "n < LENGTH(15)"
  then show "bit (lfsr (drop_bit 1 y)) n = bit y n"
    by (cases n) (auto simp: lfsr_def bit_simps bit_twice dest: bit_imp_le_length)
qed

lemma bits_shifted: "length ds \<le> 14 \<Longrightarrow> foldl pec15_bit r ds = (lfsr ^^ length ds) (r XOR aligned ds)"
proof (induction ds arbitrary: r)
  case (Cons d ds)
  have "\<not> bit (aligned ds) 0" using Cons.prems by (simp add: bit_aligned)
  from lfsr_lift [OF this] have "lfsr (r XOR aligned (d # ds)) = pec15_bit r d XOR aligned ds"
    by (simp add: serial_lfsr lfsr_xor xor.assoc)
  with Cons show ?case by (simp add: funpow_swap1)
qed simp

lemma byte_serial: "is_byte b \<Longrightarrow> foldl pec15_bit r (byte_bits b) = pec_step r b"
proof -
  have "push_bit 7 (word_of_int b) = aligned (byte_bits b)"
    by (intro bit_word_eqI) (auto simp: bit_simps bit_aligned byte_bits_def rev_nth)
  then show ?thesis by (simp add: bits_shifted byte_bits_def pec_step_def)
qed

lemma fold_table: "is_bytes bs \<Longrightarrow> ucast (foldl pec15_step r bs) = foldl pec_step (ucast r) bs"
  by (induction bs arbitrary: r) (simp_all add: step_table)

lemma fold_serial: "is_bytes bs \<Longrightarrow> foldl pec15_bit r (concat (map byte_bits bs)) = foldl pec_step r bs"
  by (induction bs arbitrary: r) (simp_all add: byte_serial)

lemma compute_serial: "is_bytes bs \<Longrightarrow> pec15_compute bs = push_bit 1 (ucast (pec15_serial bs))"
proof -
  assume "is_bytes bs"
  then have "pec15_serial bs = ucast (foldl pec15_step 16 bs)" by (simp add: pec15_serial_def fold_serial fold_table)
  moreover have "push_bit 1 r AND 0xFFFE = push_bit 1 (ucast (ucast r :: 15 word))" for r :: "16 word"
    by (intro bit_word_eqI) (auto simp: bit_simps bit_twice bit_literals)
  ultimately show ?thesis by (simp add: pec15_compute_def)
qed

interpretation pec15: crc pec_step "\<lambda>_. True"
proof
  fix c c' b b'
  show "c = c'" if "is_byte b" "pec_step c b = pec_step c' b"
    using lfsr_iter_inj [OF that(2) [unfolded pec_step_def]] by (rule word_xor_cancel)
  show "b = b'" if "is_byte b" "is_byte b'" "pec_step c b = pec_step c b'"
  proof -
    have eq: "push_bit 7 (word_of_int b) = (push_bit 7 (word_of_int b') :: 15 word)"
      using lfsr_iter_inj [OF that(3) [unfolded pec_step_def]] by (rule word_xor_cancel_left)
    have "bit b n = bit b' n" for n
    proof (cases "n < 8")
      case True
      from eq have "bit (push_bit 7 (word_of_int b) :: 15 word) (n + 7) = bit (push_bit 7 (word_of_int b') :: 15 word) (n + 7)"
        by simp
      with True show ?thesis by (simp add: bit_simps)
    next
      case False
      have "b = take_bit 8 b" "b' = take_bit 8 b'"
        using that(1,2) by (simp_all add: is_byte_def take_bit_int_eq_self)
      then show ?thesis using False by (metis bit_take_bit_iff)
    qed
    then show ?thesis by (rule bit_eqI)
  qed
qed simp

section \<open>Encoding of readings\<close>

text \<open>A cell in units of 100 microvolts.\<close>

definition mV_to_ltc :: "int \<Rightarrow> int" where
  "mV_to_ltc mV = (let v = mV * 10 in if v > 0xFFFF then 0xFFFF else v)"

definition NTC_AUX_T_MIN_C :: int where "NTC_AUX_T_MIN_C = - 55"

definition NTC_AUX_T_MAX_C :: int where "NTC_AUX_T_MAX_C = 125"

definition k_ntc_aux_100uV :: "int list" where
  "k_ntc_aux_100uV =
    [29654, 29637, 29618, 29598, 29577, 29554, 29531, 29506, 29479, 29451, 29422, 29391, 29358, 29323, 29286,
     29247, 29207, 29164, 29118, 29071, 29021, 28968, 28912, 28854, 28793, 28728, 28661, 28590, 28515, 28438,
     28356, 28270, 28181, 28088, 27990, 27888, 27781, 27670, 27554, 27433, 27307, 27177, 27040, 26899, 26752,
     26600, 26442, 26278, 26109, 25934, 25753, 25566, 25373, 25174, 24969, 24758, 24541, 24318, 24090, 23855,
     23615, 23369, 23118, 22861, 22599, 22326, 22060, 21783, 21501, 21216, 20926, 20632, 20335, 20034, 19730,
     19423, 19114, 18802, 18488, 18173, 17857, 17539, 17221, 16902, 16583, 16264, 15947, 15630, 15313, 14998,
     14685, 14374, 14065, 13758, 13454, 13153, 12854, 12560, 12267, 11980, 11696, 11416, 11139, 10868, 10601,
     10362, 10078, 9824, 9575, 9329, 9090, 8856, 8625, 8399, 8177, 7963, 7751, 7543, 7343, 7145,
     6952, 6765, 6581, 6403, 6229, 6059, 5895, 5732, 5575, 5422, 5273, 5128, 4988, 4852, 4718,
     4589, 4462, 4340, 4220, 4105, 3993, 3883, 3776, 3671, 3572, 3475, 3379, 3288, 3197, 3112,
     3027, 2944, 2865, 2789, 2713, 2643, 2570, 2503, 2436, 2373, 2309, 2249, 2188, 2131, 2074,
     2020, 1966, 1916, 1866, 1819, 1773, 1726, 1682, 1639, 1600, 1560, 1520, 1480, 1445, 1409,
     1372]"

text \<open>A temperature in tenths of a degree, read off the table and interpolated; C divides towards zero.\<close>

definition dC_to_ltc :: "int \<Rightarrow> int" where
  "dC_to_ltc dC =
     (let t_min_dC = NTC_AUX_T_MIN_C * 10; t_max_dC = NTC_AUX_T_MAX_C * 10
      in if dC \<le> t_min_dC then k_ntc_aux_100uV ! 0
         else if dC \<ge> t_max_dC then k_ntc_aux_100uV ! 180
         else let idx = (dC - t_min_dC) sdiv 10; frac = (dC - t_min_dC) - idx * 10;
                  a = k_ntc_aux_100uV ! nat idx; b = k_ntc_aux_100uV ! nat (idx + 1)
              in a + ((b - a) * frac) sdiv 10)"

section \<open>The replies\<close>

definition u16_bytes :: "int \<Rightarrow> int list" where
  "u16_bytes v = [v AND 0xFF, drop_bit 8 v AND 0xFF]"

definition build_rdcv_chunk :: "(int \<Rightarrow> int \<Rightarrow> int) \<Rightarrow> int \<Rightarrow> int \<Rightarrow> int list" where
  "build_rdcv_chunk cell_mV ltc grp =
     pec15_append (concat (map (\<lambda>i. u16_bytes (mV_to_ltc (cell_mV ltc (grp * 3 + i)))) [0, 1, 2]))"

text \<open>\<open>adg\<close> is the channel of the multiplexer in front of the first input; the last word of group B is a constant.\<close>

definition build_rdaux_chunk :: "(int \<Rightarrow> int \<Rightarrow> int) \<Rightarrow> int \<Rightarrow> int \<Rightarrow> int \<Rightarrow> int list" where
  "build_rdaux_chunk temp_dC adg ltc grp =
     pec15_append
       (if grp = 0 then concat (map (\<lambda>i. u16_bytes (dC_to_ltc (temp_dC ltc i))) [adg, 1, 2])
        else concat (map (\<lambda>i. u16_bytes (dC_to_ltc (temp_dC ltc i))) [3, 4]) @ [0x30, 0x75])"

datatype rsp = RSP_RDCVA | RSP_RDCVB | RSP_RDCVC | RSP_RDCVD | RSP_RDAUXA | RSP_RDAUXB

definition RESPONSE_PAD :: "int list" where "RESPONSE_PAD = replicate 4 0xFF"

text \<open>\<open>build_one_response\<close>, with the arguments \<open>rebuild_all_responses\<close> gives it for each reply: ten chips after the
  pad.\<close>

definition build_one_response :: "(int \<Rightarrow> int list) \<Rightarrow> int list" where
  "build_one_response chunk = RESPONSE_PAD @ concat (map chunk [0, 1, 2, 3, 4, 5, 6, 7, 8, 9])"

fun rebuild_response :: "(int \<Rightarrow> int \<Rightarrow> int) \<Rightarrow> (int \<Rightarrow> int \<Rightarrow> int) \<Rightarrow> int \<Rightarrow> rsp \<Rightarrow> int list" where
  "rebuild_response cells temps adg RSP_RDCVA = build_one_response (\<lambda>ltc. build_rdcv_chunk cells ltc 0)"
| "rebuild_response cells temps adg RSP_RDCVB = build_one_response (\<lambda>ltc. build_rdcv_chunk cells ltc 1)"
| "rebuild_response cells temps adg RSP_RDCVC = build_one_response (\<lambda>ltc. build_rdcv_chunk cells ltc 2)"
| "rebuild_response cells temps adg RSP_RDCVD = build_one_response (\<lambda>ltc. build_rdcv_chunk cells ltc 3)"
| "rebuild_response cells temps adg RSP_RDAUXA = build_one_response (\<lambda>ltc. build_rdaux_chunk temps adg ltc 0)"
| "rebuild_response cells temps adg RSP_RDAUXB = build_one_response (\<lambda>ltc. build_rdaux_chunk temps adg ltc 1)"

text \<open>What the master accepts from a chip: six bytes and their check word; and the three words it reads in them.\<close>

definition pec_ok :: "int list \<Rightarrow> bool" where
  "pec_ok chunk \<longleftrightarrow> length chunk = 8 \<and> pec15_append (take 6 chunk) = chunk"

definition chunk_words :: "int list \<Rightarrow> int list" where
  "chunk_words chunk = map from_le [Prelude.slice 0 2 chunk, Prelude.slice 2 4 chunk, Prelude.slice 4 6 chunk]"

lemma pec_bytes: "is_bytes (drop n (pec15_append data))" if "n = length data" for n
proof -
  have "uint (x AND 0xFF) < 256" for x :: "16 word"
  proof -
    have "x AND 0xFF \<le> 0xFF" by (rule word_and_le1)
    then show ?thesis by (simp add: word_le_def)
  qed
  then show ?thesis using that by (simp add: pec15_append_def Let_def is_byte_def)
qed

lemma append_ok: "length data = 6 \<Longrightarrow> pec_ok (pec15_append data)"
  by (simp add: pec_ok_def pec15_append_def Let_def)

lemma split16: "uint (drop_bit 8 x AND 0xFF) = uint (drop_bit 8 y AND 0xFF) \<Longrightarrow> uint (x AND 0xFF) = uint (y AND 0xFF) \<Longrightarrow> x = y"
  for x y :: "16 word"
proof (rule bit_word_eqI)
  fix n assume "n < LENGTH(16)"
  assume "uint (drop_bit 8 x AND 0xFF) = uint (drop_bit 8 y AND 0xFF)" "uint (x AND 0xFF) = uint (y AND 0xFF)"
  then have hi: "drop_bit 8 x AND 0xFF = drop_bit 8 y AND 0xFF" and lo: "x AND 0xFF = y AND 0xFF"
    by (simp_all only: word_uint_eq_iff)
  have "bit (drop_bit 8 x AND 0xFF) (n - 8) = bit (drop_bit 8 y AND 0xFF) (n - 8)" "bit (x AND 0xFF) n = bit (y AND 0xFF) n"
    by (simp_all only: hi lo)
  with \<open>n < LENGTH(16)\<close> show "bit x n = bit y n"
    by (cases "n < 8") (auto simp: bit_simps bit_literals)
qed

lemma wire_inj: "push_bit 1 (ucast x :: 16 word) = push_bit 1 (ucast y) \<Longrightarrow> x = y" for x y :: "15 word"
proof (rule bit_word_eqI)
  fix n assume "n < LENGTH(15)" and eq: "push_bit 1 (ucast x :: 16 word) = push_bit 1 (ucast y)"
  from eq have "bit (push_bit 1 (ucast x :: 16 word)) (Suc n) = bit (push_bit 1 (ucast y :: 16 word)) (Suc n)" by (simp only:)
  with \<open>n < LENGTH(15)\<close> show "bit x n = bit y n" by (simp add: bit_simps bit_twice)
qed

lemma u16_bytes_bytes: "is_bytes (u16_bytes v)"
  by (simp add: u16_bytes_def is_byte_def and_mask_255)

lemma from_le_u16: "0 \<le> v \<Longrightarrow> v < 65536 \<Longrightarrow> from_le (u16_bytes v) = v"
  by (simp add: u16_bytes_def and_mask_255 drop_bit_eq_div)

lemma length_u16: "length (u16_bytes v) = 2"
  by (simp add: u16_bytes_def)

lemma append_bytes: "is_bytes data \<Longrightarrow> is_bytes (pec15_append data)"
  using pec_bytes [OF refl, of data] by (simp add: pec15_append_def Let_def)

text \<open>The words of a reply built from three.\<close>

lemma words_of_three:
  assumes "\<forall>v \<in> {a, b, c}. 0 \<le> v \<and> v < 65536"
  shows "chunk_words (pec15_append (u16_bytes a @ u16_bytes b @ u16_bytes c)) = [a, b, c]"
proof -
  have "Prelude.slice 0 2 (u16_bytes a @ xs) = u16_bytes a" "Prelude.slice 2 4 (u16_bytes a @ u16_bytes b @ xs) = u16_bytes b"
    "Prelude.slice 4 6 (u16_bytes a @ u16_bytes b @ u16_bytes c @ xs) = u16_bytes c" for xs
    by (simp_all add: Prelude.slice_def length_u16)
  then show ?thesis using assms by (simp add: chunk_words_def pec15_append_def Let_def from_le_u16)
qed

lemma mV_to_ltc_range: "0 \<le> mV \<Longrightarrow> 0 \<le> mV_to_ltc mV \<and> mV_to_ltc mV < 65536"
  by (simp add: mV_to_ltc_def Let_def)

lemma rdcv_chunk:
  "pec_ok (build_rdcv_chunk cells ltc grp)" "is_bytes (build_rdcv_chunk cells ltc grp)"
  "\<forall>k. 0 \<le> cells ltc k \<Longrightarrow>
     chunk_words (build_rdcv_chunk cells ltc grp) = map (\<lambda>i. mV_to_ltc (cells ltc (grp * 3 + i))) [0, 1, 2]"
  by (simp_all add: build_rdcv_chunk_def append_ok length_u16 append_bytes u16_bytes_bytes words_of_three mV_to_ltc_range)

lemma rdaux_chunk: "pec_ok (build_rdaux_chunk temps adg ltc grp)" "is_bytes (build_rdaux_chunk temps adg ltc grp)"
  by (simp_all add: build_rdaux_chunk_def append_ok length_u16 append_bytes u16_bytes_bytes is_byte_def)

lemma pec_ok_length: "pec_ok c \<Longrightarrow> length c = 8"
  by (simp add: pec_ok_def)

text \<open>A chip of a reply with its pad, and a silenced one: the last bit of a check word is 0.\<close>

lemma response_chip:
  assumes "\<forall>l. length (chunk l) = 8" "ltc < 10"
  shows "take 8 (drop (4 + 8 * ltc) (build_one_response chunk)) = chunk (int ltc)"
    "length (build_one_response chunk) = 84"
proof -
  have "take 8 (drop (8 * k) (concat (map chunk xs))) = chunk (xs ! k)" if "k < length xs" for k and xs :: "int list"
    using that
  proof (induction xs arbitrary: k)
    case (Cons x xs)
    with assms(1) show ?case by (cases k) auto
  qed simp
  from this [of ltc "[0, 1, 2, 3, 4, 5, 6, 7, 8, 9]"] assms(2)
  have "take 8 (drop (8 * ltc) (concat (map chunk [0, 1, 2, 3, 4, 5, 6, 7, 8, 9]))) = chunk ([0, 1, 2, 3, 4, 5, 6, 7, 8, 9] ! ltc)"
    by simp
  moreover have "[0, 1, 2, 3, 4, 5, 6, 7, 8, 9] ! ltc = int ltc"
  proof -
    have "list_all (\<lambda>n. [0, 1, 2, 3, 4, 5, 6, 7, 8, 9] ! n = int n) [0..<10]" by code_simp
    then show ?thesis using assms(2) by (simp add: list_all_iff)
  qed
  moreover have "drop (4 + n) (RESPONSE_PAD @ ys) = drop n ys" for n ys by (simp add: RESPONSE_PAD_def)
  ultimately show "take 8 (drop (4 + 8 * ltc) (build_one_response chunk)) = chunk (int ltc)"
    by (simp only: build_one_response_def)
  show "length (build_one_response chunk) = 84" using assms(1) by (simp add: build_one_response_def RESPONSE_PAD_def)
qed

lemma silent_chip_fails: "\<not> pec_ok (replicate 8 0xFF)"
proof
  assume ok: "pec_ok (replicate 8 0xFF)"
  let ?pec = "pec15_compute (replicate 6 0xFF)"
  have "pec15_append (replicate 6 0xFF) = replicate 6 0xFF @ [0xFF, 0xFF]"
    using ok by (simp add: pec_ok_def eval_nat_numeral)
  then have "uint (?pec AND 0xFF) = 255" by (simp only: pec15_append_def Let_def) simp
  then have "bit (uint (?pec AND 0xFF)) 0" by simp
  then have "bit ?pec 0" by (simp only: bit_uint_iff bit_and_iff)
  then show False by (simp add: pec15_compute_def bit_simps bit_twice)
qed

section \<open>Temperatures\<close>

lemma table_falls: "i < j \<Longrightarrow> j < 181 \<Longrightarrow> k_ntc_aux_100uV ! j \<le> k_ntc_aux_100uV ! i"
proof -
  assume ij: "i < j" "j < 181"
  have "sorted_wrt (\<ge>) k_ntc_aux_100uV" "length k_ntc_aux_100uV = 181" by code_simp+
  with ij show ?thesis by (simp add: sorted_wrt_iff_nth_less)
qed

text \<open>Between two entries, towards zero is from the upper one down.\<close>

lemma sdiv_down: "b \<le> a \<Longrightarrow> 0 \<le> f \<Longrightarrow> a + ((b - a) * f) sdiv 10 = a - (a - b) * f div (10 :: int)"
proof -
  assume ba: "b \<le> a" and f: "0 \<le> f"
  have "0 \<le> (a - b) * f" using ba f by simp
  moreover have "(b - a) * f = - ((a - b) * f)" by (simp add: algebra_simps)
  ultimately show ?thesis by (auto simp: signed_divide_int_def sgn_if)
qed

text \<open>Within the range of the table.\<close>

lemma interpolated:
  assumes "- 550 < dC" "dC < 1250"
  defines "i \<equiv> nat ((dC + 550) div 10)" and "f \<equiv> (dC + 550) mod 10"
  defines "a \<equiv> k_ntc_aux_100uV ! i" and "b \<equiv> k_ntc_aux_100uV ! Suc i"
  shows "dC_to_ltc dC = a - (a - b) * f div 10" "i < 180" "0 \<le> f" "f < 10" "b \<le> a" "10 * int i + f = dC + 550"
proof -
  show i: "i < 180" "0 \<le> f" "f < 10" "10 * int i + f = dC + 550" using assms(1,2) by (simp_all add: i_def f_def)
  then show "b \<le> a" unfolding a_def b_def by (intro table_falls) simp_all
  then have down: "a + ((b - a) * f) sdiv 10 = a - (a - b) * f div 10" using i(2) by (rule sdiv_down)
  have "(dC + 550) sdiv 10 = (dC + 550) div 10" using assms(1) by (simp add: signed_divide_int_def sgn_if)
  moreover have "nat ((dC + 550) div 10 + 1) = Suc i" using assms(1) by (simp add: i_def nat_add_distrib)
  moreover have "dC + 550 - (dC + 550) div 10 * 10 = f" by (simp add: f_def minus_div_mult_eq_mod)
  ultimately show "dC_to_ltc dC = a - (a - b) * f div 10"
    using assms(1,2) down
    by (simp add: dC_to_ltc_def Let_def NTC_AUX_T_MIN_C_def NTC_AUX_T_MAX_C_def i_def [symmetric] a_def b_def)
qed

lemma interpolated_between:
  assumes "- 550 < dC" "dC < 1250"
  shows "k_ntc_aux_100uV ! Suc (nat ((dC + 550) div 10)) \<le> dC_to_ltc dC" "dC_to_ltc dC \<le> k_ntc_aux_100uV ! nat ((dC + 550) div 10)"
proof -
  define a where "a = k_ntc_aux_100uV ! nat ((dC + 550) div 10)"
  define b where "b = k_ntc_aux_100uV ! Suc (nat ((dC + 550) div 10))"
  define f where "f = (dC + 550) mod 10"
  note v = interpolated [OF assms, folded a_def b_def f_def]
  have "0 \<le> (a - b) * f" using v(3,5) by simp
  moreover have "(a - b) * f \<le> (a - b) * 10" using v(4,5) by (intro mult_left_mono) simp_all
  moreover have "0 \<le> x \<Longrightarrow> x \<le> d * 10 \<Longrightarrow> 0 \<le> x div 10 \<and> x div 10 \<le> d" for x d :: int by presburger
  ultimately have "0 \<le> (a - b) * f div 10 \<and> (a - b) * f div 10 \<le> a - b" by blast
  then have "b \<le> dC_to_ltc dC" "dC_to_ltc dC \<le> a" unfolding v(1) by linarith+
  then show "k_ntc_aux_100uV ! Suc (nat ((dC + 550) div 10)) \<le> dC_to_ltc dC"
    "dC_to_ltc dC \<le> k_ntc_aux_100uV ! nat ((dC + 550) div 10)" by (simp_all only: a_def b_def)
qed

lemma dC_to_ltc_range: "k_ntc_aux_100uV ! 180 \<le> dC_to_ltc dC \<and> dC_to_ltc dC \<le> k_ntc_aux_100uV ! 0"
proof -
  consider "dC \<le> - 550" | "1250 \<le> dC" | "- 550 < dC" "dC < 1250" by linarith
  then show ?thesis
  proof cases
    case 3
    define i where "i = nat ((dC + 550) div 10)"
    have i: "i < 180" using 3 by (simp add: i_def)
    have "k_ntc_aux_100uV ! 180 \<le> k_ntc_aux_100uV ! Suc i"
      using table_falls [of "Suc i" 180] i by (cases "Suc i = 180") auto
    moreover have "k_ntc_aux_100uV ! i \<le> k_ntc_aux_100uV ! 0" using table_falls [of 0 i] i by (cases "i = 0") auto
    ultimately show ?thesis using interpolated_between [OF 3] by (simp add: i_def [symmetric])
  qed (use table_falls [of 0 180] in \<open>simp_all add: dC_to_ltc_def Let_def NTC_AUX_T_MIN_C_def NTC_AUX_T_MAX_C_def\<close>)
qed

lemma dC_to_ltc_antimono: "dC \<le> dC' \<Longrightarrow> dC_to_ltc dC' \<le> dC_to_ltc dC"
proof -
  assume le: "dC \<le> dC'"
  consider "dC \<le> - 550" | "1250 \<le> dC'" | "- 550 < dC" "dC' < 1250" by linarith
  then show ?thesis
  proof cases
    case 1
    then have "dC_to_ltc dC = k_ntc_aux_100uV ! 0" by (simp add: dC_to_ltc_def Let_def NTC_AUX_T_MIN_C_def)
    with dC_to_ltc_range [of dC'] show ?thesis by simp
  next
    case 2
    then have "dC_to_ltc dC' = k_ntc_aux_100uV ! 180"
      by (simp add: dC_to_ltc_def Let_def NTC_AUX_T_MIN_C_def NTC_AUX_T_MAX_C_def)
    with dC_to_ltc_range [of dC] show ?thesis by simp
  next
    case 3
    then have in': "- 550 < dC'" and in1: "dC < 1250" using le by simp_all
    define i where "i = nat ((dC + 550) div 10)"
    define i' where "i' = nat ((dC' + 550) div 10)"
    have "i \<le> i'" using le by (simp add: i_def i'_def nat_mono zdiv_mono1)
    then consider "i = i'" | "Suc i \<le> i'" by linarith
    then show ?thesis
    proof cases
      case 1
      let ?a = "k_ntc_aux_100uV ! i" and ?b = "k_ntc_aux_100uV ! Suc i"
      note v = interpolated [OF 3(1) in1, folded i_def] and v' = interpolated [OF in' 3(2), folded i'_def, folded 1]
      have "(dC + 550) mod 10 \<le> (dC' + 550) mod 10" using v(6) v'(6) le by linarith
      then have "(?a - ?b) * ((dC + 550) mod 10) div 10 \<le> (?a - ?b) * ((dC' + 550) mod 10) div 10"
        using v(5) by (intro zdiv_mono1 mult_left_mono) simp_all
      with v(1) v'(1) show ?thesis by linarith
    next
      case 2
      have "i' < 181" using in' 3(2) by (simp add: i'_def)
      with 2 have "k_ntc_aux_100uV ! i' \<le> k_ntc_aux_100uV ! Suc i"
        using table_falls [of "Suc i" i'] by (cases "Suc i = i'") auto
      with interpolated_between [OF 3(1) in1, folded i_def] interpolated_between [OF in' 3(2), folded i'_def]
      show ?thesis by linarith
    qed
  qed
qed

lemma table_ends: "k_ntc_aux_100uV ! 180 = 1372" "k_ntc_aux_100uV ! 0 = 29654" "k_ntc_aux_100uV ! 80 = 17857"
  by code_simp+

section \<open>Properties\<close>

text \<open>C31: the table-driven check word is the value of the bit-serial register of the data sheet, shifted left by
  one, for every message.\<close>

theorem pec15_matches_datasheet:
  assumes "is_bytes data"
  shows "pec15_compute data = push_bit 1 (ucast (pec15_serial data))"
  by (rule compute_serial [OF assms])

theorem pec15_matches_datasheet_witness:
  "pec15_compute [0, 1] = 0x3D6E"
proof -
  have bits: "rev [0..<8] = [7, 6, 5, 4, 3, 2, 1, 0]" by code_simp
  have "foldl pec15_bit 16 (map (bit 0) (rev [0..<8]) @ map (bit 1) (rev [0..<8])) = 0x1EB7"
    unfolding bits by (simp add: pec15_bit_def bit_1_iff)
  then have "pec15_serial [0, 1] = 0x1EB7" by (simp add: pec15_serial_def byte_bits_def)
  with pec15_matches_datasheet [of "[0, 1]"] show ?thesis by (simp add: is_byte_def)
qed

text \<open>C32: a reply of a chip with one of its eight bytes replaced by another value fails the check of the master.\<close>

theorem chip_reply_protected:
  assumes "pec_ok chunk" "is_bytes chunk" "i < 8" "is_byte v" "v \<noteq> chunk ! i"
  shows "\<not> pec_ok (chunk[i := v])"
proof
  assume ok: "pec_ok (chunk[i := v])"
  let ?pec = "\<lambda>c. pec15_compute (take 6 c)"
  have word: "uint (drop_bit 8 (?pec c) AND 0xFF) = c ! 6 \<and> uint (?pec c AND 0xFF) = c ! 7" if "pec_ok c" for c
  proof -
    have c: "pec15_append (take 6 c) = c" "length (take 6 c) = 6" using that by (simp_all add: pec_ok_def)
    have "(t @ [a, b]) ! 6 = a \<and> (t @ [a, b]) ! 7 = b" if "length t = 6" for t and a b :: int
      using that by (simp add: nth_append)
    from this [OF c(2)] show ?thesis using c(1) unfolding pec15_append_def Let_def by metis
  qed
  show False
  proof (cases "i < 6")
    case True
    then have "chunk[i := v] ! 6 = chunk ! 6" "chunk[i := v] ! 7 = chunk ! 7" by simp_all
    with word [OF ok] word [OF assms(1)] have eq: "?pec (chunk[i := v]) = ?pec chunk" by (intro split16) simp_all
    have len: "length chunk = 8" using assms(1) by (simp add: pec_ok_def)
    have bytes: "is_bytes (take 6 chunk)" "is_bytes ((take 6 chunk)[i := v])"
      using assms(2,4) by (auto simp: is_bytes_take is_bytes_def list_all_iff dest: in_set_takeD set_update_subset_insert [THEN subsetD])
    have "take 6 (chunk[i := v]) = (take 6 chunk)[i := v]" by (simp add: take_update_swap)
    with eq have "pec15_compute ((take 6 chunk)[i := v]) = pec15_compute (take 6 chunk)" by simp
    then have "foldl pec_step 16 ((take 6 chunk)[i := v]) = foldl pec_step 16 (take 6 chunk)"
      by (intro wire_inj) (simp add: compute_serial [OF bytes(1)] compute_serial [OF bytes(2)] pec15_serial_def fold_serial bytes)
    moreover have "foldl pec_step 16 ((take 6 chunk)[i := v]) \<noteq> foldl pec_step 16 (take 6 chunk)"
      by (rule pec15.update_detected) (use bytes True len assms(4,5) in auto)
    ultimately show False by simp
  next
    case False
    then have "take 6 (chunk[i := v]) = take 6 chunk" by simp
    with ok assms(1) have "chunk[i := v] = chunk" by (simp add: pec_ok_def)
    with assms(1,3,5) show False by (metis nth_list_update_eq pec_ok_def)
  qed
qed

theorem chip_reply_protected_witness:
  "\<not> pec_ok ((build_rdcv_chunk (\<lambda>p k. 3700) 0 1)[3 := 7])"
proof (rule chip_reply_protected [OF rdcv_chunk(1,2)])
  have "drop_bit 8 (37000 :: int) AND 255 = 144" by simp
  then show "7 \<noteq> build_rdcv_chunk (\<lambda>p k. 3700) 0 1 ! 3"
    by (simp add: build_rdcv_chunk_def pec15_append_def Let_def u16_bytes_def mV_to_ltc_def)
qed (simp_all add: is_byte_def)

text \<open>C33: a hotter sensor never reads a higher voltage, and every reading is between the ends of the table.\<close>

theorem hotter_reads_lower:
  assumes "dC \<le> dC'"
  shows "dC_to_ltc dC' \<le> dC_to_ltc dC \<and> 1372 \<le> dC_to_ltc dC' \<and> dC_to_ltc dC \<le> 29654"
  using dC_to_ltc_antimono [OF assms] dC_to_ltc_range [of dC] dC_to_ltc_range [of dC']
  by (simp add: table_ends)

theorem hotter_reads_lower_witness: "dC_to_ltc 251 \<le> dC_to_ltc 250 \<and> dC_to_ltc 250 = 17857"
  using hotter_reads_lower [of 250 251]
  by (simp add: dC_to_ltc_def Let_def NTC_AUX_T_MIN_C_def NTC_AUX_T_MAX_C_def table_ends signed_divide_int_def)

end
