(* ===== verification/Pico_Device.thy ===== *)
theory Pico_Device
  imports Ltc_Response Bench_Config
begin

text \<open>
  The command interpreter of the Pico firmware, \<^verbatim>\<open>tools/pico_ltc_emulator/firmware/src/usb_cmd.c\<close> with
  \<^verbatim>\<open>cell_state.c\<close> and the state of \<^verbatim>\<open>ltc6811_emu.c\<close> its commands read or rebuild: the device at the other end of the
  host client's serial line. Its state is the cell and temperature tables of ten LTC6811 chips, the prebuilt replies,
  the mask of silenced modules, the counters, and the partial command line; one character at a time is taken from the
  line. \<open>BSL\<close> restarts the chip and is answered only. A C \<open>long\<close> has 32 bits there and the counters wrap at 32 bits.
\<close>

section \<open>Numbers in text\<close>

definition digit_of :: "char \<Rightarrow> nat option" where
  "digit_of c = (let n = (of_char c :: nat) in
     if 48 \<le> n \<and> n \<le> 57 then Some (n - 48) else if 65 \<le> n \<and> n \<le> 70 then Some (n - 55)
     else if 97 \<le> n \<and> n \<le> 102 then Some (n - 87) else None)"

definition digit_in :: "nat \<Rightarrow> char \<Rightarrow> bool" where
  "digit_in b c = (case digit_of c of Some d \<Rightarrow> d < b | None \<Rightarrow> False)"

definition int_value :: "nat \<Rightarrow> string \<Rightarrow> int option" where
  "int_value b s =
     (if s \<noteq> [] \<and> list_all (digit_in b) s then Some (foldl (\<lambda>a c. a * int b + int (the (digit_of c))) 0 s) else None)"

text \<open>A sign and what follows it.\<close>

fun signed_text :: "(string \<Rightarrow> int option) \<Rightarrow> string \<Rightarrow> int option" where
  "signed_text f [] = f []"
| "signed_text f (c # cs) =
     (if c = CHR ''-'' then map_option uminus (f cs) else if c = CHR ''+'' then f cs else f (c # cs))"

text \<open>\<open>parse_int\<close>: \<open>strtol\<close> with base 0 that consumes the whole token, saturating at 32 bits.\<close>

fun c_number :: "string \<Rightarrow> int option" where
  "c_number (z # x # cs) =
     (if z = CHR ''0'' then (if x = CHR ''x'' \<or> x = CHR ''X'' then int_value 16 cs else int_value 8 (x # cs))
      else int_value 10 (z # x # cs))"
| "c_number s = int_value 10 s"

definition parse_int :: "string \<Rightarrow> int option" where
  "parse_int s = map_option (\<lambda>v. max (- (2 ^ 31)) (min (2 ^ 31 - 1) v)) (signed_text c_number s)"

section \<open>The state and the commands\<close>

record ltc_stats =
  ls_spi_xact :: int
  ls_last_cmd :: int
  ls_last_ltc_cmd :: int
  ls_valid_cmds :: int
  ls_cs_cycles :: int
  ls_last_rx :: "int list"
  ls_rx_bytes :: int
  ls_tx_stall :: int

record cmd_stat =
  st_cmd :: int
  st_count :: int
  st_last :: int
  st_min :: int
  st_max :: int

record device =
  dv_cell :: "int \<Rightarrow> int \<Rightarrow> int"
  dv_temp :: "int \<Rightarrow> int \<Rightarrow> int"
  dv_stop :: int
  dv_count :: nat
  dv_line :: string
  dv_pool :: "rsp \<Rightarrow> int list"
  dv_current :: rsp
  dv_adg :: int
  dv_stats :: ltc_stats
  dv_cmds :: "cmd_stat list"
  dv_lost :: int
  dv_tx_shown :: "int \<times> int list"
  dv_rx_shown :: "int list"

definition set_at :: "(int \<Rightarrow> int \<Rightarrow> int) \<Rightarrow> int \<Rightarrow> int \<Rightarrow> int \<Rightarrow> int \<Rightarrow> int \<Rightarrow> int" where
  "set_at f i j v = f(i := (f i)(j := v))"

definition dv_reset :: "device \<Rightarrow> device" where
  "dv_reset s = s\<lparr>dv_cell := \<lambda>i c. 3750, dv_temp := \<lambda>i a. 250\<rparr>"

definition reset_stats :: "device \<Rightarrow> device" where
  "reset_stats s = s\<lparr>dv_stats := (dv_stats s)\<lparr>ls_spi_xact := 0, ls_last_cmd := 0\<rparr>\<rparr>"

definition refresh_responses :: "device \<Rightarrow> device" where
  "refresh_responses s = s\<lparr>dv_pool := rebuild_response (dv_cell s) (dv_temp s) (dv_adg s)\<rparr>"

text \<open>The device when its main loop starts.\<close>

definition device_init :: device where
  "device_init = refresh_responses (dv_reset
     \<lparr>dv_cell = (\<lambda>i c. 0), dv_temp = (\<lambda>i a. 0), dv_stop = 0, dv_count = 0, dv_line = [], dv_pool = (\<lambda>r. []),
      dv_current = RSP_RDCVA, dv_adg = 0,
      dv_stats = \<lparr>ls_spi_xact = 0, ls_last_cmd = 0, ls_last_ltc_cmd = 0, ls_valid_cmds = 0, ls_cs_cycles = 0,
        ls_last_rx = replicate 8 0, ls_rx_bytes = 0, ls_tx_stall = 0\<rparr>,
      dv_cmds = [], dv_lost = 0, dv_tx_shown = (0xFFFF, []), dv_rx_shown = []\<rparr>)"

type_synonym answer = "device \<times> string list"

definition cmd_set_cell :: "string list \<Rightarrow> device \<Rightarrow> answer" where
  "cmd_set_cell argv s =
     (if length argv \<noteq> 4 then (s, [''ERR usage: SET_CELL m c mV''])
      else case (parse_int (argv ! 1), parse_int (argv ! 2), parse_int (argv ! 3)) of
        (Some m, Some c, Some mV) \<Rightarrow>
          if m < 0 \<or> m \<ge> 10 \<or> c < 0 \<or> c \<ge> 12 then (s, [''ERR m in 0..9 c in 0..11''])
          else if mV < 0 \<or> mV > 0xFFFF then (s, [''ERR mV in 0..65535''])
          else (refresh_responses (s\<lparr>dv_cell := set_at (dv_cell s) m c mV\<rparr>), [''OK''])
      | _ \<Rightarrow> (s, [''ERR bad int'']))"

definition cmd_set_temp :: "string list \<Rightarrow> device \<Rightarrow> answer" where
  "cmd_set_temp argv s =
     (if length argv \<noteq> 4 then (s, [''ERR usage: SET_TEMP m s dC''])
      else case (parse_int (argv ! 1), parse_int (argv ! 2), parse_int (argv ! 3)) of
        (Some m, Some a, Some dC) \<Rightarrow>
          if m < 0 \<or> m \<ge> 10 \<or> a < 0 \<or> a \<ge> 32 then (s, [''ERR m in 0..9 s in 0..31 (ADG731 mux channel)''])
          else if dC < - 32768 \<or> dC > 32767 then (s, [''ERR dC i16''])
          else (refresh_responses (s\<lparr>dv_temp := set_at (dv_temp s) m a dC\<rparr>), [''OK''])
      | _ \<Rightarrow> (s, [''ERR bad int'']))"

definition cmd_set_all_cells :: "string list \<Rightarrow> device \<Rightarrow> answer" where
  "cmd_set_all_cells argv s =
     (if length argv \<noteq> 2 then (s, [''ERR usage: SET_ALL_CELLS mV''])
      else case parse_int (argv ! 1) of
        Some mV \<Rightarrow>
          if mV < 0 \<or> mV > 0xFFFF then (s, [''ERR mV in 0..65535''])
          else (refresh_responses (s\<lparr>dv_cell := \<lambda>i c. mV\<rparr>), [''OK''])
      | None \<Rightarrow> (s, [''ERR mV in 0..65535'']))"

definition cmd_set_all_temps :: "string list \<Rightarrow> device \<Rightarrow> answer" where
  "cmd_set_all_temps argv s =
     (if length argv \<noteq> 2 then (s, [''ERR usage: SET_ALL_TEMPS dC''])
      else case parse_int (argv ! 1) of
        Some dC \<Rightarrow>
          if dC < - 32768 \<or> dC > 32767 then (s, [''ERR dC i16''])
          else (refresh_responses (s\<lparr>dv_temp := \<lambda>i a. dC\<rparr>), [''OK''])
      | None \<Rightarrow> (s, [''ERR dC i16'']))"

definition cmd_reset_state :: "device \<Rightarrow> answer" where
  "cmd_reset_state s = (refresh_responses ((reset_stats (dv_reset s))\<lparr>dv_stop := 0\<rparr>), [''OK''])"

definition cmd_stop_reply :: "string list \<Rightarrow> device \<Rightarrow> answer" where
  "cmd_stop_reply argv s =
     (if length argv \<noteq> 2 then (s, [''ERR usage: STOP_REPLY <mask 0x00..0x1F>''])
      else case parse_int (argv ! 1) of
        Some msk \<Rightarrow>
          if msk < 0 \<or> msk > 0x1F then (s, [''ERR mask 0x00..0x1F (5 bits, one per AMS module)''])
          else (s\<lparr>dv_stop := msk\<rparr>, [''OK''])
      | None \<Rightarrow> (s, [''ERR mask 0x00..0x1F (5 bits, one per AMS module)'']))"

definition cmd_resume_all :: "device \<Rightarrow> answer" where
  "cmd_resume_all s = (s\<lparr>dv_stop := 0\<rparr>, [''OK''])"

text \<open>The reports. \<open>field_text\<close> is one \<open>key=value\<close> of a status line.\<close>

definition field_text :: "string \<times> string \<Rightarrow> string" where
  "field_text kv = '' '' @ fst kv @ ''='' @ snd kv"

text \<open>The status line is formatted into 256 bytes, the last of them the end of the text.\<close>

definition cmd_status :: "device \<Rightarrow> answer" where
  "cmd_status s =
     (let t = dv_stats s
      in (s, [take 255 (''OK'' @ concat (map field_text
           [(''n_cmds_rx'', show_int (int (dv_count s) mod 2 ^ 32)), (''n_spi_xact'', show_int (ls_spi_xact t)),
            (''last_cmd'', ''0x'' @ hexX 3 (ls_last_cmd t)), (''n_valid_cmds'', show_int (ls_valid_cmds t)),
            (''last_ltc_cmd'', ''0x'' @ hexX 3 (ls_last_ltc_cmd t)), (''n_cs_cycles'', show_int (ls_cs_cycles t)),
            (''rx_bytes'', show_int (ls_rx_bytes t)), (''tx_stall_cmd'', show_int (ls_tx_stall t)),
            (''stop_mask'', ''0x'' @ hexX 2 (dv_stop s)), (''adg731_ch'', show_int (dv_adg s)),
            (''last_rx'', py_join '' '' (map (hexX 2) (ls_last_rx t)))]))]))"

definition cmd_stats_cmds :: "device \<Rightarrow> answer" where
  "cmd_stats_cmds s =
     (s, (''OK n='' @ show_int (int (length (dv_cmds s))) @ '' lost='' @ show_int (dv_lost s)) #
         map (\<lambda>c. ''CMD 0x'' @ hexX 3 (st_cmd c) @ concat (map field_text
           [(''count'', show_int (st_count c)), (''len_last'', show_int (st_last c)), (''len_min'', show_int (st_min c)),
            (''len_max'', show_int (st_max c))])) (dv_cmds s))"

definition cmd_stats_cmds_reset :: "device \<Rightarrow> answer" where
  "cmd_stats_cmds_reset s = (s\<lparr>dv_cmds := [], dv_lost := 0\<rparr>, [''OK''])"

definition READ_COMMANDS :: "(int \<times> rsp) list" where
  "READ_COMMANDS = [(0x004, RSP_RDCVA), (0x006, RSP_RDCVB), (0x008, RSP_RDCVC), (0x00A, RSP_RDCVD),
     (0x00C, RSP_RDAUXA), (0x00E, RSP_RDAUXB)]"

definition response_for :: "int \<Rightarrow> device \<Rightarrow> int list option" where
  "response_for cmd s = map_option (dv_pool s) (map_of READ_COMMANDS cmd)"

text \<open>The loop that prints bytes into a line buffer stops when fewer than four characters are left in it.\<close>

fun dump_hex :: "nat \<Rightarrow> string \<Rightarrow> int list \<Rightarrow> string" where
  "dump_hex limit line [] = line"
| "dump_hex limit line (b # bs) =
     (let line' = line @ hexX 2 b @ (if bs = [] then [] else '' '')
      in if length line' \<ge> limit then line' else dump_hex limit line' bs)"

definition cmd_dump_response :: "string list \<Rightarrow> device \<Rightarrow> answer" where
  "cmd_dump_response argv s =
     (if length argv \<noteq> 2 then (s, [''ERR usage: DUMP <cmd_hex>  (e.g. DUMP 0x004)''])
      else case parse_int (argv ! 1) of
        None \<Rightarrow> (s, [''ERR bad int''])
      | Some c \<Rightarrow>
          (case response_for (c mod 2 ^ 16) s of
             None \<Rightarrow> (s, [''ERR unknown read cmd''])
           | Some buf \<Rightarrow> (s, [dump_hex 252 (''OK cmd=0x'' @ hexX 3 (c mod 2 ^ 32) @ '' len=84 bytes='') buf])))"

definition cmd_dump_tx :: "device \<Rightarrow> answer" where
  "cmd_dump_tx s =
     (s, [dump_hex 396 (''OK cmd=0x'' @ hexX 3 (fst (dv_tx_shown s)) @ '' len=''
        @ show_int (int (length (snd (dv_tx_shown s)))) @ '' bytes='') (snd (dv_tx_shown s))])"

definition cmd_dump_rx :: "device \<Rightarrow> answer" where
  "cmd_dump_rx s = (s, [dump_hex 396 (''OK len='' @ show_int (int (length (dv_rx_shown s))) @ '' bytes='') (dv_rx_shown s)])"

definition upper_char :: "char \<Rightarrow> char" where
  "upper_char c = (if of_char c \<in> {97..122 :: nat} then char_of (of_char c - 32 :: nat) else c)"

definition run_command :: "string list \<Rightarrow> device \<Rightarrow> answer" where
  "run_command argv s =
     (let c = map upper_char (hd argv)
      in if c = ''PING'' then (s, [''PONG 0.7.0''])
         else if c = ''STATUS'' then cmd_status s
         else if c = ''SET_CELL'' then cmd_set_cell argv s
         else if c = ''SET_TEMP'' then cmd_set_temp argv s
         else if c = ''SET_ALL_CELLS'' then cmd_set_all_cells argv s
         else if c = ''SET_ALL_TEMPS'' then cmd_set_all_temps argv s
         else if c = ''RESET_STATE'' then cmd_reset_state s
         else if c = ''STOP_REPLY'' then cmd_stop_reply argv s
         else if c = ''RESUME_ALL'' then cmd_resume_all s
         else if c = ''STATS_CMDS'' then cmd_stats_cmds s
         else if c = ''STATS_CMDS_RESET'' then cmd_stats_cmds_reset s
         else if c = ''DUMP'' then cmd_dump_response argv s
         else if c = ''DUMP_TX'' then cmd_dump_tx s
         else if c = ''DUMP_RX'' then cmd_dump_rx s
         else if c = ''BSL'' then (s, [''OK -- bye''])
         else (s, [''ERR unknown cmd'']))"

definition dispatch :: "string \<Rightarrow> device \<Rightarrow> answer" where
  "dispatch line s =
     (let argv = take 8 (split_words line)
      in if argv = [] then (s, []) else run_command argv (s\<lparr>dv_count := dv_count s + 1\<rparr>))"

text \<open>\<open>usb_cmd_service\<close> with one character waiting.\<close>

definition usb_cmd_service :: "char \<Rightarrow> device \<Rightarrow> answer" where
  "usb_cmd_service c s =
     (if c = CHR 0x0D then (s, [])
      else if c = CHR 0x0A then dispatch (dv_line s) (s\<lparr>dv_line := []\<rparr>)
      else if length (dv_line s) < 95 then (s\<lparr>dv_line := dv_line s @ [c]\<rparr>, [])
      else (s\<lparr>dv_line := []\<rparr>, [''ERR line overflow'']))"

primrec feed :: "string \<Rightarrow> device \<Rightarrow> answer" where
  "feed [] s = (s, [])"
| "feed (c # cs) s =
     (case usb_cmd_service c s of (s', out) \<Rightarrow> case feed cs s' of (s'', out') \<Rightarrow> (s'', out @ out'))"

text \<open>Every command leaves the replies in agreement with the tables.\<close>

definition pool_ok :: "device \<Rightarrow> bool" where
  "pool_ok s \<longleftrightarrow> dv_pool s = rebuild_response (dv_cell s) (dv_temp s) (dv_adg s)"

lemma pool_simps [simp]:
  "pool_ok (refresh_responses s)" "pool_ok (s\<lparr>dv_line := l\<rparr>) = pool_ok s" "pool_ok (s\<lparr>dv_count := n\<rparr>) = pool_ok s"
  "pool_ok (s\<lparr>dv_stop := m\<rparr>) = pool_ok s"
  by (simp_all add: pool_ok_def refresh_responses_def)

lemma refresh_fields [simp]:
  "dv_cell (refresh_responses s) = dv_cell s" "dv_temp (refresh_responses s) = dv_temp s"
  "dv_stop (refresh_responses s) = dv_stop s" "dv_line (refresh_responses s) = dv_line s"
  "dv_adg (refresh_responses s) = dv_adg s" "dv_current (refresh_responses s) = dv_current s"
  "dv_pool (refresh_responses s) = rebuild_response (dv_cell s) (dv_temp s) (dv_adg s)"
  by (simp_all add: refresh_responses_def)

text \<open>No command touches the partial line.\<close>

lemma command_line [simp]:
  "dv_line (fst (cmd_status s)) = dv_line s" "dv_line (fst (cmd_set_cell argv s)) = dv_line s"
  "dv_line (fst (cmd_set_temp argv s)) = dv_line s" "dv_line (fst (cmd_set_all_cells argv s)) = dv_line s"
  "dv_line (fst (cmd_set_all_temps argv s)) = dv_line s" "dv_line (fst (cmd_reset_state s)) = dv_line s"
  "dv_line (fst (cmd_stop_reply argv s)) = dv_line s" "dv_line (fst (cmd_resume_all s)) = dv_line s"
  "dv_line (fst (cmd_stats_cmds s)) = dv_line s" "dv_line (fst (cmd_stats_cmds_reset s)) = dv_line s"
  "dv_line (fst (cmd_dump_response argv s)) = dv_line s" "dv_line (fst (cmd_dump_tx s)) = dv_line s"
  "dv_line (fst (cmd_dump_rx s)) = dv_line s"
  by (simp_all add: cmd_status_def cmd_set_cell_def cmd_set_temp_def cmd_set_all_cells_def cmd_set_all_temps_def
      cmd_reset_state_def dv_reset_def reset_stats_def cmd_stop_reply_def cmd_resume_all_def cmd_stats_cmds_def
      cmd_stats_cmds_reset_def cmd_dump_response_def cmd_dump_tx_def cmd_dump_rx_def Let_def split: option.split)

lemma run_command_line: "dv_line (fst (run_command argv s)) = dv_line s"
  by (simp add: run_command_def Let_def)

lemma command_pool:
  "pool_ok s \<Longrightarrow> pool_ok (fst (cmd_status s))" "pool_ok s \<Longrightarrow> pool_ok (fst (cmd_set_cell argv s))"
  "pool_ok s \<Longrightarrow> pool_ok (fst (cmd_set_temp argv s))" "pool_ok s \<Longrightarrow> pool_ok (fst (cmd_set_all_cells argv s))"
  "pool_ok s \<Longrightarrow> pool_ok (fst (cmd_set_all_temps argv s))" "pool_ok (fst (cmd_reset_state s))"
  "pool_ok s \<Longrightarrow> pool_ok (fst (cmd_stop_reply argv s))" "pool_ok s \<Longrightarrow> pool_ok (fst (cmd_resume_all s))"
  "pool_ok s \<Longrightarrow> pool_ok (fst (cmd_stats_cmds s))" "pool_ok s \<Longrightarrow> pool_ok (fst (cmd_stats_cmds_reset s))"
  "pool_ok s \<Longrightarrow> pool_ok (fst (cmd_dump_response argv s))" "pool_ok s \<Longrightarrow> pool_ok (fst (cmd_dump_tx s))"
  "pool_ok s \<Longrightarrow> pool_ok (fst (cmd_dump_rx s))"
  by (simp_all add: cmd_status_def cmd_set_cell_def cmd_set_temp_def cmd_set_all_cells_def cmd_set_all_temps_def
      cmd_reset_state_def cmd_stop_reply_def cmd_resume_all_def cmd_stats_cmds_def
      cmd_stats_cmds_reset_def cmd_dump_response_def cmd_dump_tx_def cmd_dump_rx_def Let_def pool_ok_def split: option.split)

lemma run_command_pool: "pool_ok s \<Longrightarrow> pool_ok (fst (run_command argv s))"
  by (simp add: run_command_def Let_def command_pool)

lemma usb_pool: "pool_ok s \<Longrightarrow> pool_ok (fst (usb_cmd_service c s))"
  by (simp add: usb_cmd_service_def dispatch_def Let_def run_command_pool)

text \<open>The voltages are 16-bit numbers.\<close>

definition cells_ok :: "device \<Rightarrow> bool" where
  "cells_ok d \<longleftrightarrow> (\<forall>p k. 0 \<le> dv_cell d p k \<and> dv_cell d p k < 65536)"

lemma cells_simps [simp]:
  "cells_ok (refresh_responses s) = cells_ok s" "cells_ok (s\<lparr>dv_line := l\<rparr>) = cells_ok s"
  "cells_ok (s\<lparr>dv_count := n\<rparr>) = cells_ok s" "cells_ok (s\<lparr>dv_stop := m\<rparr>) = cells_ok s"
  "cells_ok (s\<lparr>dv_temp := t\<rparr>) = cells_ok s" "cells_ok (s\<lparr>dv_cmds := cs, dv_lost := z\<rparr>) = cells_ok s"
  "cells_ok (reset_stats s) = cells_ok s" "cells_ok (dv_reset s)"
  by (simp_all add: cells_ok_def reset_stats_def dv_reset_def)

lemma run_command_cells: "cells_ok s \<Longrightarrow> cells_ok (fst (run_command argv s))"
proof -
  assume ok: "cells_ok s"
  have "cells_ok (fst (cmd_set_cell argv s))" "cells_ok (fst (cmd_set_all_cells argv s))" using ok
    by (auto simp: cmd_set_cell_def cmd_set_all_cells_def cells_ok_def set_at_def split: option.split)
  moreover have "cells_ok (fst (cmd_status s))" "cells_ok (fst (cmd_set_temp argv s))" "cells_ok (fst (cmd_set_all_temps argv s))"
    "cells_ok (fst (cmd_reset_state s))" "cells_ok (fst (cmd_stop_reply argv s))" "cells_ok (fst (cmd_resume_all s))"
    "cells_ok (fst (cmd_stats_cmds s))" "cells_ok (fst (cmd_stats_cmds_reset s))" "cells_ok (fst (cmd_dump_response argv s))"
    "cells_ok (fst (cmd_dump_tx s))" "cells_ok (fst (cmd_dump_rx s))" using ok
    by (simp_all add: cmd_status_def cmd_set_temp_def cmd_set_all_temps_def cmd_reset_state_def cmd_stop_reply_def
        cmd_resume_all_def cmd_stats_cmds_def cmd_stats_cmds_reset_def cmd_dump_response_def cmd_dump_tx_def cmd_dump_rx_def
        Let_def split: option.split)
  ultimately show ?thesis using ok by (simp add: run_command_def Let_def)
qed

lemma usb_cells: "cells_ok s \<Longrightarrow> cells_ok (fst (usb_cmd_service c s))"
  by (simp add: usb_cmd_service_def dispatch_def Let_def run_command_cells)

section \<open>A line and its numbers\<close>

lemma feed_chars:
  "CHR 0x0A \<notin> set cs \<Longrightarrow> CHR 0x0D \<notin> set cs \<Longrightarrow> length (dv_line s) + length cs \<le> 95 \<Longrightarrow>
   feed (cs @ rest) s = feed rest (s\<lparr>dv_line := dv_line s @ cs\<rparr>)"
proof (induction cs arbitrary: s)
  case (Cons c cs)
  then have "usb_cmd_service c s = (s\<lparr>dv_line := dv_line s @ [c]\<rparr>, [])"
    by (auto simp: usb_cmd_service_def)
  moreover have "feed (cs @ rest) (s\<lparr>dv_line := dv_line s @ [c]\<rparr>)
      = feed rest ((s\<lparr>dv_line := dv_line s @ [c]\<rparr>)\<lparr>dv_line := (dv_line s @ [c]) @ cs\<rparr>)"
    using Cons.prems Cons.IH [of "s\<lparr>dv_line := dv_line s @ [c]\<rparr>"] by simp
  ultimately show ?case by simp
qed simp

lemma feed_line:
  assumes "CHR 0x0A \<notin> set cs" "CHR 0x0D \<notin> set cs" "length cs \<le> 95" "dv_line s = []"
  shows "feed (cs @ [CHR 0x0A]) s = dispatch cs s"
proof -
  have "feed (cs @ [CHR 0x0A]) s = feed [CHR 0x0A] (s\<lparr>dv_line := cs\<rparr>)"
    using feed_chars [of cs s "[CHR 0x0A]"] assms by simp
  also have "s\<lparr>dv_line := cs\<rparr>\<lparr>dv_line := []\<rparr> = s" using assms(4) by (cases s) simp
  then have "feed [CHR 0x0A] (s\<lparr>dv_line := cs\<rparr>) = dispatch cs s"
    by (simp add: usb_cmd_service_def split: prod.split)
  finally show ?thesis .
qed

definition digit_facts :: "nat \<Rightarrow> bool" where
  "digit_facts d \<longleftrightarrow> digit_of (hex_char d) = Some d \<and> \<not> is_space (hex_char d) \<and>
     hex_char d \<notin> set [CHR ''-'', CHR ''+'', CHR ''x'', CHR ''X''] \<and> (hex_char d = CHR ''0'') = (d = 0)"

lemma hex_char_digit: "d < 16 \<Longrightarrow> digit_facts d"
proof -
  assume "d < 16"
  moreover have "list_all digit_facts [0..<16]" by code_simp
  ultimately show ?thesis by (simp add: list_all_iff)
qed

lemma digits_chars: "2 \<le> b \<Longrightarrow> b \<le> 16 \<Longrightarrow> \<forall>c \<in> set (digits b n). \<exists>d < b. c = hex_char d"
proof (induction b n rule: digits.induct)
  case (1 b n)
  show ?case
  proof (cases "n < b")
    case True
    with 1 show ?thesis by (subst digits.simps) auto
  next
    case False
    have "n mod b < b" using 1 by simp
    then have "\<exists>d < b. hex_char (n mod b) = hex_char d" by blast
    with False 1 show ?thesis by (subst digits.simps) auto
  qed
qed

lemma int_value_digits: "2 \<le> b \<Longrightarrow> b \<le> 16 \<Longrightarrow> int_value b (digits b n) = Some (int n)"
proof -
  assume b: "2 \<le> b" "b \<le> 16"
  have val: "foldl (\<lambda>a c. a * int b + int (the (digit_of c))) 0 (digits b n) = int n" for n
    using b
  proof (induction b n rule: digits.induct)
    case (1 b n)
    show ?case
    proof (cases "n < b")
      case True
      then show ?thesis using 1 hex_char_digit [of n] by (subst digits.simps) (simp add: digit_facts_def)
    next
      case False
      have "n mod b < 16" using 1(2,3) by (meson less_le_trans mod_less_divisor pos2 order_less_le_trans)
      from hex_char_digit [OF this] have "digit_of (hex_char (n mod b)) = Some (n mod b)" by (simp add: digit_facts_def)
      moreover have "int (n div b) * int b + int (n mod b) = int n"
        by (metis div_mult_mod_eq of_nat_add of_nat_mult)
      ultimately show ?thesis using False 1 by (subst digits.simps) simp
    qed
  qed
  have "list_all (digit_in b) (digits b n)"
    using digits_chars [OF b, of n] hex_char_digit b by (fastforce simp: list_all_iff digit_in_def digit_facts_def)
  with val digits_nonempty show ?thesis by (simp add: int_value_def)
qed

lemma digits_clean: "2 \<le> b \<Longrightarrow> b \<le> 16 \<Longrightarrow> c \<in> set (digits b n) \<Longrightarrow>
    \<not> is_space c \<and> c \<notin> {CHR ''-'', CHR ''+'', CHR ''x'', CHR ''X''}"
proof -
  assume b: "2 \<le> b" "b \<le> 16" and "c \<in> set (digits b n)"
  with digits_chars [OF b, of n] obtain d where "d < b" "c = hex_char d" by blast
  with hex_char_digit [of d] b show ?thesis by (simp add: digit_facts_def)
qed

text \<open>The first digit of a positive number is not 0.\<close>

lemma hd_digits: "2 \<le> b \<Longrightarrow> b \<le> 16 \<Longrightarrow> 0 < n \<Longrightarrow> hd (digits b n) \<noteq> CHR ''0''"
proof (induction b n rule: digits.induct)
  case (1 b n)
  show ?case
  proof (cases "n < b")
    case True
    then show ?thesis using 1 hex_char_digit [of n] by (subst digits.simps) (simp add: digit_facts_def)
  next
    case False
    then have "0 < n div b" using 1 by (simp add: div_greater_zero_iff)
    with False 1 digits_nonempty show ?thesis by (subst digits.simps) simp
  qed
qed

lemma c_number_digits: "c_number (digits 10 n) = Some (int n)"
proof (cases "n = 0")
  case True
  then show ?thesis by (simp add: digits.simps [of 10 0] hex_char_def int_value_def digit_in_def digit_of_def Let_def)
next
  case False
  obtain z cs where d: "digits 10 n = z # cs" using digits_nonempty [of 10 n] by (cases "digits 10 n") auto
  have "z \<noteq> CHR ''0''" using hd_digits [of 10 n] False d by simp
  with int_value_digits [of 10 n] d show ?thesis by (cases cs) auto
qed

lemma parse_int_show: "- (2 ^ 31) \<le> v \<Longrightarrow> v < 2 ^ 31 \<Longrightarrow> parse_int (show_int v) = Some v"
proof -
  assume v: "- (2 ^ 31) \<le> v" "v < 2 ^ 31"
  obtain z cs where d: "digits 10 (nat \<bar>v\<bar>) = z # cs" using digits_nonempty by (metis neq_Nil_conv)
  have "z \<notin> {CHR ''-'', CHR ''+''}" using digits_clean [of 10 z "nat \<bar>v\<bar>"] d by simp
  then have "signed_text c_number (show_int v) = Some v"
    using c_number_digits [of "nat \<bar>v\<bar>"] d by (auto simp: show_int_def)
  with v show ?thesis by (simp add: parse_int_def)
qed

end
