(* ===== verification/Pico_Client.thy ===== *)
theory Pico_Client
  imports Pico_Device Py_Value
begin

text \<open>
  \<^verbatim>\<open>tools/pico_ltc_emulator/host/pico_ltc_client.py\<close>: the host side of the LTC6811 emulator. The client's
  state is whether its port is open, over a serial line given as a record of programs (\<open>pyserial\<close> is not part
  of the repository). \<open>pico_line\<close> is that line with the firmware of \<open>Pico_Device\<close> at its other end; the properties
  follow a call from the host's addressing of cells to the tables of the device and back.
\<close>

record 'w serial =
  se_open :: "('w, unit) io"
  se_reset :: "('w, unit) io"
  se_write :: "string \<Rightarrow> ('w, unit) io"
  se_flush :: "('w, unit) io"
  se_readline :: "('w, string) io"
  se_close :: "('w, unit) io"

record 'w pico =
  pc_link :: 'w
  pc_open :: bool

section \<open>The port\<close>

text \<open>\<open>_find_pico_port\<close>: the serial ports as (vendor, product, device), when they can be listed, and the
  device files that match.\<close>

definition find_pico_port :: "(int \<times> int \<times> string) list option \<Rightarrow> string list \<Rightarrow> string res" where
  "find_pico_port ports globbed =
     (case find (\<lambda>(vid, pid, dev). vid = 0x2E8A \<and> pid = 0x000A) (case ports of Some ps \<Rightarrow> ps | None \<Rightarrow> []) of
        Some (vid, pid, dev) \<Rightarrow> Inr dev
      | None \<Rightarrow>
          (case find (\<lambda>(vid, pid, dev). vid = 0x2E8A) (case ports of Some ps \<Rightarrow> ps | None \<Rightarrow> []) of
             Some (vid, pid, dev) \<Rightarrow> Inr dev
           | None \<Rightarrow>
               (case sort globbed of
                  dev # _ \<Rightarrow> Inr dev
                | [] \<Rightarrow> Inl (Exn RuntimeError ''No /dev/ttyACM* port found; is the Pico connected?''))))"

definition on_line :: "('w, 'a) io \<Rightarrow> ('w pico, 'a) io" where
  "on_line = zoom pc_link (\<lambda>w s. s\<lparr>pc_link := w\<rparr>)"

definition set_open :: "bool \<Rightarrow> ('w pico, unit) io" where
  "set_open b = modify (\<lambda>s. s\<lparr>pc_open := b\<rparr>)"

definition pico_open :: "'w serial \<Rightarrow> ('w pico, unit) io" where
  "pico_open ser =
     bind (reads pc_open) (\<lambda>already.
       if already then ret ()
       else bind (on_line (se_open ser)) (\<lambda>_. bind (set_open True) (\<lambda>_. on_line (se_reset ser))))"

definition pico_close :: "'w serial \<Rightarrow> ('w pico, unit) io" where
  "pico_close ser =
     bind (reads pc_open) (\<lambda>is_open. whenever is_open (try_finally (on_line (se_close ser)) (set_open False)))"

section \<open>Commands\<close>

definition py_rstrip :: "string \<Rightarrow> string" where
  "py_rstrip s = rev (dropWhile is_space (rev s))"

definition send_recv :: "'w serial \<Rightarrow> string \<Rightarrow> ('w pico, string) io" where
  "send_recv ser line =
     bind (reads pc_open) (\<lambda>is_open.
       if \<not> is_open then raise (Exn RuntimeError ''port not open; call .open() or use as ctx mgr'')
       else bind (on_line (se_write ser (py_rstrip line @ [CHR 0x0A]))) (\<lambda>_.
            bind (on_line (se_flush ser)) (\<lambda>_.
            bind (on_line (se_readline ser)) (\<lambda>raw.
            let reply = py_rstrip raw
            in if starts_with ''ERR'' reply then raise (Exn RuntimeError (''Pico rejected `'' @ line @ ''`: '' @ reply))
               else ret reply))))"

definition send_cmd :: "'w serial \<Rightarrow> string \<Rightarrow> ('w pico, unit) io" where
  "send_cmd ser line = bind (send_recv ser line) (\<lambda>_. ret ())"

definition pico_ping :: "'w serial \<Rightarrow> ('w pico, string) io" where
  "pico_ping ser = send_recv ser ''PING''"

text \<open>\<open>int(v, 0)\<close>, without underscores.\<close>

fun py_number :: "string \<Rightarrow> int option" where
  "py_number (z # x # cs) =
     (if z = CHR ''0'' then
        (if x = CHR ''x'' \<or> x = CHR ''X'' then int_value 16 cs
         else if x = CHR ''o'' \<or> x = CHR ''O'' then int_value 8 cs
         else if x = CHR ''b'' \<or> x = CHR ''B'' then int_value 2 cs
         else if list_all (\<lambda>c. c = CHR ''0'') (x # cs) then Some 0 else None)
      else int_value 10 (z # x # cs))"
| "py_number s = int_value 10 s"

definition status_field :: "string \<Rightarrow> (string \<times> json) option" where
  "status_field tok =
     (if contains ''='' tok
      then let k = takeWhile (\<lambda>c. c \<noteq> CHR ''='') tok; v = tl (dropWhile (\<lambda>c. c \<noteq> CHR ''='') tok)
           in Some (k, case signed_text py_number v of Some i \<Rightarrow> JInt i | None \<Rightarrow> JStr v)
      else None)"

definition parse_status :: "string \<Rightarrow> (string \<times> json) list" where
  "parse_status line =
     foldl (\<lambda>d tok. case status_field tok of Some (k, v) \<Rightarrow> alist_set k v d | None \<Rightarrow> d) [] (tl (split_words line))"

definition pico_status :: "'w serial \<Rightarrow> ('w pico, (string \<times> json) list) io" where
  "pico_status ser =
     bind (send_recv ser ''STATUS'') (\<lambda>line.
       if \<not> starts_with ''OK'' line then raise (Exn RuntimeError (''unexpected: '' @ line))
       else ret (parse_status line))"

definition pico_set_cell :: "'w serial \<Rightarrow> int \<Rightarrow> int \<Rightarrow> int \<Rightarrow> ('w pico, unit) io" where
  "pico_set_cell ser m c mV =
     send_cmd ser (''SET_CELL '' @ show_int m @ '' '' @ show_int c @ '' '' @ show_int mV)"

definition pico_set_temp :: "'w serial \<Rightarrow> int \<Rightarrow> int \<Rightarrow> int \<Rightarrow> ('w pico, unit) io" where
  "pico_set_temp ser m sensor dC =
     send_cmd ser (''SET_TEMP '' @ show_int m @ '' '' @ show_int sensor @ '' '' @ show_int dC)"

definition pico_set_all_cells :: "'w serial \<Rightarrow> int \<Rightarrow> ('w pico, unit) io" where
  "pico_set_all_cells ser mV = send_cmd ser (''SET_ALL_CELLS '' @ show_int mV)"

definition pico_set_all_temps :: "'w serial \<Rightarrow> int \<Rightarrow> ('w pico, unit) io" where
  "pico_set_all_temps ser dC = send_cmd ser (''SET_ALL_TEMPS '' @ show_int dC)"

definition pico_reset_state :: "'w serial \<Rightarrow> ('w pico, unit) io" where
  "pico_reset_state ser = send_cmd ser ''RESET_STATE''"

definition pico_stop_reply :: "'w serial \<Rightarrow> int \<Rightarrow> ('w pico, unit) io" where
  "pico_stop_reply ser module_mask =
     (if \<not> (0 \<le> module_mask \<and> module_mask \<le> 0x1F)
      then raise (Exn ValueError (''module_mask must be 0..0x1F, got 0x'' @ hexX 1 module_mask))
      else send_cmd ser (''STOP_REPLY 0x'' @ hexX 2 module_mask))"

definition pico_resume_all :: "'w serial \<Rightarrow> ('w pico, unit) io" where
  "pico_resume_all ser = send_cmd ser ''RESUME_ALL''"

definition pico_reboot :: "'w serial \<Rightarrow> ('w pico, unit) io" where
  "pico_reboot ser =
     bind (reads pc_open) (\<lambda>is_open.
       whenever is_open
         (try_finally
           (bind (on_line (se_write ser (''BSL'' @ [CHR 0x0A]))) (\<lambda>_.
            bind (on_line (se_flush ser)) (\<lambda>_.
            try_except (bind (on_line (se_readline ser)) (\<lambda>_. ret ())) is_os_error (\<lambda>_. ret ()))))
           (pico_close ser)))"

section \<open>Addressing by module\<close>

definition CELLS_PER_LTC_UPPER :: int where "CELLS_PER_LTC_UPPER = 9"

definition CELLS_PER_LTC_LOWER :: int where "CELLS_PER_LTC_LOWER = 10"

definition module_cell_to_chain :: "int \<Rightarrow> int \<Rightarrow> (int \<times> int) res" where
  "module_cell_to_chain m cell =
     (if \<not> (0 \<le> m \<and> m < 5) then Inl (Exn ValueError (''module must be 0..4, got '' @ show_int m))
      else if \<not> (0 \<le> cell \<and> cell < 19) then Inl (Exn ValueError (''cell must be 0..18, got '' @ show_int cell))
      else if cell < CELLS_PER_LTC_UPPER then Inr (2 * m, cell)
      else Inr (2 * m + 1, cell - CELLS_PER_LTC_UPPER))"

definition pico_set_module_cell :: "'w serial \<Rightarrow> int \<Rightarrow> int \<Rightarrow> int \<Rightarrow> ('w pico, unit) io" where
  "pico_set_module_cell ser m cell mV =
     bind (of_res (module_cell_to_chain m cell)) (\<lambda>(chain_pos, cell_in_ltc). pico_set_cell ser chain_pos cell_in_ltc mV)"

definition module_sensor_to_chain :: "int \<Rightarrow> int \<Rightarrow> (int \<times> int) res" where
  "module_sensor_to_chain m sensor =
     (if \<not> (0 \<le> m \<and> m < 5) then Inl (Exn ValueError (''module must be 0..4, got '' @ show_int m))
      else if \<not> (0 \<le> sensor \<and> sensor < 20)
      then Inl (Exn ValueError (''sensor must be 0..19 (Adg731ChannelMap index), got '' @ show_int sensor))
      else Inr (2 * m, if sensor < 10 then sensor else sensor + 6))"

definition pico_set_module_temp :: "'w serial \<Rightarrow> int \<Rightarrow> int \<Rightarrow> int \<Rightarrow> ('w pico, unit) io" where
  "pico_set_module_temp ser m sensor dC =
     bind (of_res (module_sensor_to_chain m sensor)) (\<lambda>(chain_pos, ch). pico_set_temp ser chain_pos ch dC)"

definition pico_inject_cell_v :: "'w serial \<Rightarrow> int \<Rightarrow> int \<Rightarrow> int \<Rightarrow> ('w pico, unit) io" where
  "pico_inject_cell_v ser m cell mV = pico_set_module_cell ser m cell mV"

definition pico_inject_cell_t :: "'w serial \<Rightarrow> int \<Rightarrow> int \<Rightarrow> int \<Rightarrow> ('w pico, unit) io" where
  "pico_inject_cell_t ser m sensor dC = pico_set_module_temp ser m sensor dC"

text \<open>The context manager \<open>temporarily\<close> around a body.\<close>

definition pico_temporarily ::
  "'w serial \<Rightarrow> ((int \<times> int) \<times> int) list \<Rightarrow> ((int \<times> int) \<times> int) list \<Rightarrow> ('w pico, 'a) io \<Rightarrow> ('w pico, 'a) io"
where
  "pico_temporarily ser cell_overrides temp_overrides body =
     try_finally
       (bind (for_each (\<lambda>((m, c), mV). pico_set_cell ser m c mV) cell_overrides) (\<lambda>_.
        bind (for_each (\<lambda>((m, a), dC). pico_set_temp ser m a dC) temp_overrides) (\<lambda>_. body)))
       (pico_reset_state ser)"

section \<open>The line to the firmware\<close>

record bench_line =
  bl_device :: device
  bl_input :: "string list"

definition pico_line :: "bench_line serial" where
  "pico_line =
     \<lparr>se_open = ret (), se_reset = modify (\<lambda>l. l\<lparr>bl_input := []\<rparr>),
      se_write = (\<lambda>s. modify (\<lambda>l. case feed s (bl_device l) of
         (d, out) \<Rightarrow> l\<lparr>bl_device := d, bl_input := bl_input l @ out\<rparr>)),
      se_flush = ret (),
      se_readline = (\<lambda>l. case bl_input l of [] \<Rightarrow> (Inr [], l) | s # ss \<Rightarrow> (Inr (s @ [CHR 0x0A]), l\<lparr>bl_input := ss\<rparr>)),
      se_close = ret ()\<rparr>"

text \<open>An open port, nothing waiting on it and no half line at the device.\<close>

definition idle :: "bench_line pico \<Rightarrow> bool" where
  "idle s \<longleftrightarrow> pc_open s \<and> bl_input (pc_link s) = [] \<and> dv_line (bl_device (pc_link s)) = []"

abbreviation pico_device :: "bench_line pico \<Rightarrow> device" where
  "pico_device s \<equiv> bl_device (pc_link s)"

section \<open>One exchange with the firmware\<close>

lemma split_on_app: "split_on sep (xs @ sep # ys) = split_on sep xs @ split_on sep ys"
proof (induction xs)
  case (Cons x xs)
  have "split_on sep xs \<noteq> []" by (induction xs) (auto split: list.split)
  with Cons show ?case by (auto split: list.split)
qed simp

lemma split_words_app: "split_words (xs @ CHR '' '' # ys) = split_words xs @ split_words ys"
  by (simp add: split_words_def split_on_app is_space_def)

definition word :: "string \<Rightarrow> bool" where "word w \<longleftrightarrow> w \<noteq> [] \<and> list_all (\<lambda>c. \<not> is_space c) w"

lemma split_words_word: "word w \<Longrightarrow> split_words w = [w]"
proof -
  assume w: "word w"
  have "split_on (CHR '' '') cs = [cs]" if "list_all (\<lambda>c. \<not> is_space c) cs" for cs
    using that by (induction cs) (auto simp: is_space_def)
  moreover have "map (\<lambda>c. if is_space c then CHR '' '' else c) w = w"
    using w by (intro map_idI) (auto simp: word_def list_all_iff)
  ultimately show ?thesis using w by (simp add: split_words_def word_def)
qed

lemma word_show_int: "word (show_int v)"
  using digits_clean [of 10 _ "nat \<bar>v\<bar>"] digits_nonempty [of 10]
  by (auto simp: word_def show_int_def list_all_iff is_space_def)

lemma digits_length: "n < b ^ Suc k \<Longrightarrow> 2 \<le> b \<Longrightarrow> length (digits b n) \<le> Suc k"
proof (induction k arbitrary: n)
  case 0
  then show ?case by (subst digits.simps) simp
next
  case (Suc k)
  have "n div b < b ^ Suc k" using Suc.prems by (simp add: less_mult_imp_div_less mult.commute)
  with Suc have "length (digits b (n div b)) \<le> Suc k" by simp
  then show ?case by (subst digits.simps) simp
qed

lemma show_int_short: "\<bar>v\<bar> < 10 ^ 10 \<Longrightarrow> length (show_int v) \<le> 11"
proof -
  assume "\<bar>v\<bar> < 10 ^ 10"
  then have "nat \<bar>v\<bar> < 10 ^ Suc 9" by (simp add: nat_less_iff)
  from digits_length [OF this] show ?thesis by (auto simp: show_int_def abs_if split: if_splits)
qed

lemma send_recv_device:
  assumes "idle s" "word (last ws)" "list_all word ws" "ws \<noteq> []" "line = concat (map (\<lambda>w. w @ '' '') (butlast ws)) @ last ws"
    and "length line \<le> 95" "length ws \<le> 8"
    and "run_command ws ((pico_device s)\<lparr>dv_count := dv_count (pico_device s) + 1\<rparr>) = (d, [reply])"
  shows "send_recv pico_line line s =
    (if starts_with ''ERR'' (py_rstrip (reply @ [CHR 0x0A]))
     then Inl (Exn RuntimeError (''Pico rejected `'' @ line @ ''`: '' @ py_rstrip (reply @ [CHR 0x0A])))
     else Inr (py_rstrip (reply @ [CHR 0x0A])),
     s\<lparr>pc_link := (pc_link s)\<lparr>bl_device := d\<rparr>\<rparr>)"
proof -
  have split: "split_words (concat (map (\<lambda>w. w @ '' '') us) @ v) = us @ [v]" if "list_all word us" "word v" for us v
    using that by (induction us) (simp_all add: split_words_app split_words_word)
  have "list_all word (butlast ws)" using assms(3) by (auto simp: list_all_iff dest: in_set_butlastD)
  from split [OF this assms(2)] have sw: "split_words line = ws" using assms(4,5) by simp
  have clean: "list_all (\<lambda>c. c \<noteq> CHR 0x0A \<and> c \<noteq> CHR 0x0D) line"
    using assms(2,3,5) by (auto simp: list_all_iff word_def is_space_def dest!: in_set_butlastD)
  obtain v c where last: "last ws = v @ [c]" "\<not> is_space c"
    using assms(2) by (metis append_butlast_last_id last_in_set list_all_iff word_def)
  have strip: "py_rstrip line = line" by (simp add: assms(5) py_rstrip_def last)
  have "feed (line @ [CHR 0x0A]) (pico_device s) = (d, [reply])"
    using feed_line [of line "pico_device s"] clean assms(1,4,6-8)
    by (auto simp: list_all_iff idle_def dispatch_def sw)
  with assms(1) strip show ?thesis
    by (simp add: send_recv_def on_line_def pico_line_def idle_def io_simps zoom_def Let_def)
qed


text \<open>The device after a command, with its count of commands.\<close>

definition counted :: "device \<Rightarrow> device" where
  "counted d = d\<lparr>dv_count := dv_count d + 1\<rparr>"

definition at_device :: "bench_line pico \<Rightarrow> device \<Rightarrow> bench_line pico" where
  "at_device s d = s\<lparr>pc_link := (pc_link s)\<lparr>bl_device := d\<rparr>\<rparr>"

lemma at_device_simps [simp]: "pico_device (at_device s d) = d" "at_device (at_device s d) d' = at_device s d'"
  "dv_line (counted d) = dv_line d" "dv_cell (counted d) = dv_cell d" "dv_temp (counted d) = dv_temp d"
  "dv_stop (counted d) = dv_stop d"
  by (simp_all add: at_device_def counted_def)

lemma idle_at_device: "idle s \<Longrightarrow> dv_line d = [] \<Longrightarrow> idle (at_device s d)"
  by (simp add: idle_def at_device_def)

lemma send_cmd_device:
  assumes "idle s" "list_all word ws" "ws \<noteq> []" "line = concat (map (\<lambda>w. w @ '' '') (butlast ws)) @ last ws"
    and "length line \<le> 95" "length ws \<le> 8" "run_command ws (counted (pico_device s)) = (d, [reply])"
  shows "send_cmd pico_line line s =
    (if starts_with ''ERR'' (py_rstrip (reply @ [CHR 0x0A]))
     then Inl (Exn RuntimeError (''Pico rejected `'' @ line @ ''`: '' @ py_rstrip (reply @ [CHR 0x0A]))) else Inr (),
     at_device s d)"
proof -
  have "word (last ws)" using assms(2,3) by (simp add: list_all_iff)
  from send_recv_device [OF assms(1) this assms(2-6) assms(7) [unfolded counted_def]]
  show ?thesis by (simp add: send_cmd_def bind_def ret_def at_device_def)
qed

text \<open>The three-number commands: the firmware gets the numbers that were sent.\<close>

lemma three_numbers:
  assumes "idle s" "word cmd" "length cmd \<le> 20" "\<bar>a\<bar> < 2 ^ 31" "\<bar>b\<bar> < 2 ^ 31" "\<bar>v\<bar> < 2 ^ 31"
    and "run_command [cmd, show_int a, show_int b, show_int v] (counted (pico_device s)) = (d, [reply])"
  shows "send_cmd pico_line (cmd @ '' '' @ show_int a @ '' '' @ show_int b @ '' '' @ show_int v) s =
    (if starts_with ''ERR'' (py_rstrip (reply @ [CHR 0x0A]))
     then Inl (Exn RuntimeError (''Pico rejected `'' @ (cmd @ '' '' @ show_int a @ '' '' @ show_int b @ '' '' @ show_int v)
       @ ''`: '' @ py_rstrip (reply @ [CHR 0x0A]))) else Inr (), at_device s d)"
proof (rule send_cmd_device [OF assms(1) _ _ _ _ _ assms(7)])
  have "length (show_int a) \<le> 11" "length (show_int b) \<le> 11" "length (show_int v) \<le> 11"
    using assms(4-6) by (auto intro!: show_int_short)
  then show "length (cmd @ '' '' @ show_int a @ '' '' @ show_int b @ '' '' @ show_int v) \<le> 95" using assms(3) by simp
qed (simp_all add: assms(2) word_show_int)

lemma set_cell_device:
  assumes "idle s" "0 \<le> p" "p < 10" "0 \<le> k" "k < 12" "0 \<le> mV" "mV \<le> 0xFFFF"
  shows "pico_set_cell pico_line p k mV s =
    (Inr (), at_device s (refresh_responses (counted (pico_device s)\<lparr>dv_cell := set_at (dv_cell (pico_device s)) p k mV\<rparr>)))"
proof -
  let ?d = "counted (pico_device s)"
  have "run_command [''SET_CELL'', show_int p, show_int k, show_int mV] ?d
      = (refresh_responses (?d\<lparr>dv_cell := set_at (dv_cell (pico_device s)) p k mV\<rparr>), [''OK''])"
    using assms(2-7) by (simp add: run_command_def upper_char_def cmd_set_cell_def parse_int_show)
  from three_numbers [OF assms(1) _ _ _ _ _ this] assms(2-7) show ?thesis
    by (simp add: pico_set_cell_def word_def is_space_def py_rstrip_def)
qed

lemma set_temp_device:
  assumes "idle s" "0 \<le> p" "p < 10" "0 \<le> a" "a < 32" "- 32768 \<le> dC" "dC \<le> 32767"
  shows "pico_set_temp pico_line p a dC s =
    (Inr (), at_device s (refresh_responses (counted (pico_device s)\<lparr>dv_temp := set_at (dv_temp (pico_device s)) p a dC\<rparr>)))"
proof -
  let ?d = "counted (pico_device s)"
  have "run_command [''SET_TEMP'', show_int p, show_int a, show_int dC] ?d
      = (refresh_responses (?d\<lparr>dv_temp := set_at (dv_temp (pico_device s)) p a dC\<rparr>), [''OK''])"
    using assms(2-7) by (simp add: run_command_def upper_char_def cmd_set_temp_def parse_int_show)
  from three_numbers [OF assms(1) _ _ _ _ _ this] assms(2-7) show ?thesis
    by (simp add: pico_set_temp_def word_def is_space_def py_rstrip_def)
qed

lemma set_one_answer:
  "length (snd (cmd_set_cell argv s)) = 1" "length (snd (cmd_set_temp argv s)) = 1"
  by (simp_all add: cmd_set_cell_def cmd_set_temp_def split: option.split)

text \<open>Whatever the numbers, the line is idle afterwards.\<close>

lemma set_idle:
  assumes "idle s" "\<bar>a\<bar> < 2 ^ 31" "\<bar>b\<bar> < 2 ^ 31" "\<bar>v\<bar> < 2 ^ 31"
  shows "idle (snd (pico_set_cell pico_line a b v s))" "idle (snd (pico_set_temp pico_line a b v s))"
proof -
  have one: "\<exists>d reply. run_command (cmd # ws) (counted (pico_device s)) = (d, [reply]) \<and> dv_line d = []"
    if "cmd = ''SET_CELL'' \<or> cmd = ''SET_TEMP''" for cmd ws
  proof -
    let ?r = "run_command (cmd # ws) (counted (pico_device s))"
    have "length (snd ?r) = 1" using that set_one_answer by (auto simp: run_command_def upper_char_def)
    moreover have "dv_line (fst ?r) = []" using assms(1) by (simp add: run_command_line idle_def)
    ultimately show ?thesis by (cases ?r) (auto simp: length_Suc_conv)
  qed
  have words: "word ''SET_CELL''" "word ''SET_TEMP''" by (simp_all add: word_def is_space_def)
  from one [of "''SET_CELL''" "[show_int a, show_int b, show_int v]"] obtain d reply
    where d: "run_command [''SET_CELL'', show_int a, show_int b, show_int v] (counted (pico_device s)) = (d, [reply])"
      "dv_line d = []" by blast
  from three_numbers [OF assms(1) words(1) _ assms(2-4) d(1)] idle_at_device [OF assms(1) d(2)]
  show "idle (snd (pico_set_cell pico_line a b v s))" by (simp add: pico_set_cell_def)
  from one [of "''SET_TEMP''" "[show_int a, show_int b, show_int v]"] obtain d reply
    where d: "run_command [''SET_TEMP'', show_int a, show_int b, show_int v] (counted (pico_device s)) = (d, [reply])"
      "dv_line d = []" by blast
  from three_numbers [OF assms(1) words(2) _ assms(2-4) d(1)] idle_at_device [OF assms(1) d(2)]
  show "idle (snd (pico_set_temp pico_line a b v s))" by (simp add: pico_set_temp_def)
qed

section \<open>Properties\<close>

lemma chain_inj: "inj_on (\<lambda>(m, c). module_cell_to_chain m c) ({0..4} \<times> {0..18})"
  by (rule inj_onI) (auto simp: module_cell_to_chain_def CELLS_PER_LTC_UPPER_def split: if_splits; presburger)

text \<open>the addressing by module is a bijection between the 95 cells of five modules and the cells the chips
  have, nine on each upper and ten on each lower one; every other module or cell number is refused.\<close>

theorem module_cells_bijective:
  "bij_betw (\<lambda>(m, c). module_cell_to_chain m c) ({0..4} \<times> {0..18})
     (Inr ` {(p, k). 0 \<le> p \<and> p < 10 \<and> 0 \<le> k \<and> k < (if even p then 9 else 10)})
   \<and> {(m, c). \<exists>e. module_cell_to_chain m c = Inl e} = - ({0..4} \<times> {0..18})"
proof
  let ?f = "\<lambda>(m, c). module_cell_to_chain m c"
  let ?chips = "{(p, k). 0 \<le> p \<and> p < 10 \<and> 0 \<le> k \<and> k < (if even p then 9 else 10 :: int)} :: (int \<times> int) set"
  note defs = module_cell_to_chain_def CELLS_PER_LTC_UPPER_def
  have inj: "inj_on ?f ({0..4} \<times> {0..18})" by (rule chain_inj)
  have sub: "?f ` ({0..4} \<times> {0..18}) \<subseteq> Inr ` ?chips" by (auto simp: defs)
  have sup: "Inr ` ?chips \<subseteq> ?f ` ({0..4} \<times> {0..18})"
  proof
    fix x :: "(int \<times> int) res" assume "x \<in> Inr ` ?chips"
    then obtain p k where x: "x = Inr (p, k)" and r: "0 \<le> p" "p < 10" "0 \<le> k" "k < (if even p then 9 else 10)" by auto
    define c where "c = (if even p then k else k + 9)"
    have "?f (p div 2, c) = x" using x r by (auto simp: defs c_def elim!: evenE oddE)
    moreover have "(p div 2, c) \<in> {0..4} \<times> {0..18}" using r by (auto simp: c_def split: if_splits)
    ultimately show "x \<in> ?f ` ({0..4} \<times> {0..18})" by (metis imageI)
  qed
  show "bij_betw ?f ({0..4} \<times> {0..18}) (Inr ` ?chips)" using inj sub sup by (auto simp: bij_betw_def)
  show "{(m, c). \<exists>e. module_cell_to_chain m c = Inl e} = - ({0..4} \<times> {0..18})" by (auto simp: defs)
qed

text \<open>The voltage of a cell of a module, as the device has it.\<close>

definition module_cell :: "device \<Rightarrow> int \<Rightarrow> int \<Rightarrow> int" where
  "module_cell d m c = (case module_cell_to_chain m c of Inr (p, k) \<Rightarrow> dv_cell d p k | Inl e \<Rightarrow> 0)"

fun valid_injection :: "(int \<times> int) \<times> int \<Rightarrow> bool" where
  "valid_injection ((m, c), mV) = (m \<in> {0..4} \<and> c \<in> {0..18} \<and> 0 \<le> mV \<and> mV \<le> 0xFFFF)"

lemma inject_device:
  assumes "idle s" "valid_injection ((m, c), mV)"
  shows "\<exists>s'. pico_inject_cell_v pico_line m c mV s = (Inr (), s') \<and> idle s'
    \<and> dv_temp (pico_device s') = dv_temp (pico_device s) \<and> dv_stop (pico_device s') = dv_stop (pico_device s)
    \<and> pool_ok (pico_device s') \<and> (cells_ok (pico_device s) \<longrightarrow> cells_ok (pico_device s'))
    \<and> (\<forall>m' \<in> {0..4}. \<forall>c' \<in> {0..18}. module_cell (pico_device s') m' c'
         = (if (m', c') = (m, c) then mV else module_cell (pico_device s) m' c'))
    \<and> (\<forall>p k. (\<forall>m' c'. module_cell_to_chain m' c' \<noteq> Inr (p, k)) \<longrightarrow> dv_cell (pico_device s') p k = dv_cell (pico_device s) p k)"
proof -
  obtain p k where pk: "module_cell_to_chain m c = Inr (p, k)" and r: "0 \<le> p" "p < 10" "0 \<le> k" "k < 12"
    using assms(2) by (cases "c < 9") (auto simp: module_cell_to_chain_def CELLS_PER_LTC_UPPER_def)
  define s' where
    "s' = at_device s (refresh_responses (counted (pico_device s)\<lparr>dv_cell := set_at (dv_cell (pico_device s)) p k mV\<rparr>))"
  have run: "pico_inject_cell_v pico_line m c mV s = (Inr (), s')"
    using set_cell_device [OF assms(1) r, of mV] assms(2)
    by (simp add: pico_inject_cell_v_def pico_set_module_cell_def pk bind_def of_res_def s'_def)
  have cells: "module_cell (pico_device s') m' c' = (if (m', c') = (m, c) then mV else module_cell (pico_device s) m' c')"
    if mc: "m' \<in> {0..4}" "c' \<in> {0..18}" for m' c'
  proof -
    obtain p' k' where pk': "module_cell_to_chain m' c' = Inr (p', k')"
      using mc by (cases "c' < 9") (auto simp: module_cell_to_chain_def CELLS_PER_LTC_UPPER_def)
    have "(p', k') = (p, k) \<longleftrightarrow> (m', c') = (m, c)"
    proof
      assume "(p', k') = (p, k)"
      with pk pk' have "(\<lambda>(m, c). module_cell_to_chain m c) (m', c') = (\<lambda>(m, c). module_cell_to_chain m c) (m, c)" by simp
      then show "(m', c') = (m, c)" by (rule inj_onD [OF chain_inj]) (use mc assms(2) in auto)
    qed (use pk pk' in simp)
    then show ?thesis by (auto simp: module_cell_def pk' s'_def set_at_def)
  qed
  have "idle s'" using assms(1) by (auto simp: s'_def intro!: idle_at_device) (simp add: idle_def)
  moreover have "cells_ok (pico_device s) \<Longrightarrow> cells_ok (pico_device s')"
    using assms(2) by (simp add: s'_def cells_ok_def set_at_def)
  moreover have "dv_cell (pico_device s') p' k' = dv_cell (pico_device s) p' k'"
    if "\<forall>m' c'. module_cell_to_chain m' c' \<noteq> Inr (p', k')" for p' k'
    using that pk by (auto simp: s'_def set_at_def)
  ultimately show ?thesis using run cells by (auto simp: s'_def)
qed

lemma injected:
  assumes "idle s" and "list_all valid_injection ws"
  shows "\<exists>s'. for_each (\<lambda>((m, c), mV). pico_inject_cell_v pico_line m c mV) ws s = (Inr (), s') \<and> idle s'
    \<and> dv_temp (pico_device s') = dv_temp (pico_device s) \<and> dv_stop (pico_device s') = dv_stop (pico_device s)
    \<and> (pool_ok (pico_device s) \<longrightarrow> pool_ok (pico_device s')) \<and> (cells_ok (pico_device s) \<longrightarrow> cells_ok (pico_device s'))
    \<and> (\<forall>m \<in> {0..4}. \<forall>c \<in> {0..18}. module_cell (pico_device s') m c
         = (case map_of (rev ws) (m, c) of Some mV \<Rightarrow> mV | None \<Rightarrow> module_cell (pico_device s) m c))
    \<and> (\<forall>p k. (\<forall>m c. module_cell_to_chain m c \<noteq> Inr (p, k)) \<longrightarrow> dv_cell (pico_device s') p k = dv_cell (pico_device s) p k)"
  using assms
proof (induction ws arbitrary: s)
  case (Cons w ws)
  obtain m c mV where w: "w = ((m, c), mV)" by (metis surj_pair)
  from inject_device [OF Cons.prems(1), of m c mV] Cons.prems(2) w obtain s1
    where s1: "pico_inject_cell_v pico_line m c mV s = (Inr (), s1)" "idle s1"
      "dv_temp (pico_device s1) = dv_temp (pico_device s)" "dv_stop (pico_device s1) = dv_stop (pico_device s)"
      "pool_ok (pico_device s1)" "cells_ok (pico_device s) \<longrightarrow> cells_ok (pico_device s1)"
      "\<forall>m' \<in> {0..4}. \<forall>c' \<in> {0..18}. module_cell (pico_device s1) m' c'
         = (if (m', c') = (m, c) then mV else module_cell (pico_device s) m' c')"
      "\<forall>p k. (\<forall>m c. module_cell_to_chain m c \<noteq> Inr (p, k)) \<longrightarrow> dv_cell (pico_device s1) p k = dv_cell (pico_device s) p k"
    by auto
  from Cons.IH [OF s1(2)] Cons.prems(2) obtain s2
    where s2: "for_each (\<lambda>((m, c), mV). pico_inject_cell_v pico_line m c mV) ws s1 = (Inr (), s2)" "idle s2"
      "dv_temp (pico_device s2) = dv_temp (pico_device s1)" "dv_stop (pico_device s2) = dv_stop (pico_device s1)"
      "pool_ok (pico_device s1) \<longrightarrow> pool_ok (pico_device s2)" "cells_ok (pico_device s1) \<longrightarrow> cells_ok (pico_device s2)"
      "\<forall>m \<in> {0..4}. \<forall>c \<in> {0..18}. module_cell (pico_device s2) m c
         = (case map_of (rev ws) (m, c) of Some mV \<Rightarrow> mV | None \<Rightarrow> module_cell (pico_device s1) m c)"
      "\<forall>p k. (\<forall>m c. module_cell_to_chain m c \<noteq> Inr (p, k)) \<longrightarrow> dv_cell (pico_device s2) p k = dv_cell (pico_device s1) p k"
    by auto
  have "module_cell (pico_device s2) m' c' = (case map_of (rev (w # ws)) (m', c') of Some mV \<Rightarrow> mV
      | None \<Rightarrow> module_cell (pico_device s) m' c')" if "m' \<in> {0..4}" "c' \<in> {0..18}" for m' c'
    using s1(7) s2(7) that by (auto simp: w map_add_def split: option.split)
  moreover have "dv_cell (pico_device s2) p k = dv_cell (pico_device s) p k"
    if "\<forall>m c. module_cell_to_chain m c \<noteq> Inr (p, k)" for p k
    using s1(8) s2(8) that by simp
  ultimately show ?case using s1 s2 by (intro exI [of _ s2]) (simp add: w bind_def)
qed (simp add: ret_def)

text \<open>C30: after any sequence of injected cell voltages, sent as text and parsed by the firmware, the tables of the
  device hold the last voltage injected into each cell: cells 0 to 8 of module \<open>m\<close> are cells 0 to 8 of chip
  \<open>2 m\<close>, cells 9 to 18 are cells 0 to 9 of chip \<open>2 m + 1\<close>. Every other cell of the tables, the
  temperatures and the mask of silenced modules are as before.\<close>

theorem injected_cells_read_back:
  assumes "idle s" and "list_all valid_injection ws"
  shows "\<exists>s'. for_each (\<lambda>((m, c), mV). pico_inject_cell_v pico_line m c mV) ws s = (Inr (), s') \<and> idle s'
    \<and> (\<forall>m \<in> {0..4}. \<forall>c \<in> {0..8}. dv_cell (pico_device s') (2 * m) c
         = (case map_of (rev ws) (m, c) of Some mV \<Rightarrow> mV | None \<Rightarrow> dv_cell (pico_device s) (2 * m) c))
    \<and> (\<forall>m \<in> {0..4}. \<forall>c \<in> {9..18}. dv_cell (pico_device s') (2 * m + 1) (c - 9)
         = (case map_of (rev ws) (m, c) of Some mV \<Rightarrow> mV | None \<Rightarrow> dv_cell (pico_device s) (2 * m + 1) (c - 9)))
    \<and> (\<forall>p k. \<not> (0 \<le> p \<and> p < 10 \<and> 0 \<le> k \<and> k < (if even p then 9 else 10)) \<longrightarrow>
         dv_cell (pico_device s') p k = dv_cell (pico_device s) p k)
    \<and> dv_temp (pico_device s') = dv_temp (pico_device s) \<and> dv_stop (pico_device s') = dv_stop (pico_device s)"
proof -
  from injected [OF assms] obtain s' where
    s': "for_each (\<lambda>((m, c), mV). pico_inject_cell_v pico_line m c mV) ws s = (Inr (), s')" "idle s'"
      "dv_temp (pico_device s') = dv_temp (pico_device s)" "dv_stop (pico_device s') = dv_stop (pico_device s)"
    and cells: "\<And>m c. m \<in> {0..4} \<Longrightarrow> c \<in> {0..18} \<Longrightarrow> module_cell (pico_device s') m c
         = (case map_of (rev ws) (m, c) of Some mV \<Rightarrow> mV | None \<Rightarrow> module_cell (pico_device s) m c)"
    and others: "\<And>p k. \<forall>m c. module_cell_to_chain m c \<noteq> Inr (p, k) \<Longrightarrow> dv_cell (pico_device s') p k = dv_cell (pico_device s) p k"
    by blast
  have low: "module_cell d m c = dv_cell d (2 * m) c" if "m \<in> {0..4}" "c \<in> {0..8}" for d m c
    using that by (simp add: module_cell_def module_cell_to_chain_def CELLS_PER_LTC_UPPER_def)
  have high: "module_cell d m c = dv_cell d (2 * m + 1) (c - 9)" if "m \<in> {0..4}" "c \<in> {9..18}" for d m c
    using that by (simp add: module_cell_def module_cell_to_chain_def CELLS_PER_LTC_UPPER_def)
  have "dv_cell (pico_device s') p k = dv_cell (pico_device s) p k"
    if "\<not> (0 \<le> p \<and> p < 10 \<and> 0 \<le> k \<and> k < (if even p then 9 else 10))" for p k
  proof (rule others, intro allI notI)
    fix m c
    assume "module_cell_to_chain m c = Inr (p, k)"
    with that show False by (auto simp: module_cell_to_chain_def CELLS_PER_LTC_UPPER_def split: if_splits)
  qed
  moreover have "dv_cell (pico_device s') (2 * m) c
      = (case map_of (rev ws) (m, c) of Some mV \<Rightarrow> mV | None \<Rightarrow> dv_cell (pico_device s) (2 * m) c)"
    if "m \<in> {0..4}" "c \<in> {0..8}" for m c
    using cells [of m c] that unfolding low [OF that] by simp
  moreover have "dv_cell (pico_device s') (2 * m + 1) (c - 9)
      = (case map_of (rev ws) (m, c) of Some mV \<Rightarrow> mV | None \<Rightarrow> dv_cell (pico_device s) (2 * m + 1) (c - 9))"
    if "m \<in> {0..4}" "c \<in> {9..18}" for m c
    using cells [of m c] that unfolding high [OF that] by simp
  ultimately show ?thesis using s' by (intro exI [of _ s']) blast
qed

lemma set_keeps:
  "\<bar>a\<bar> < 2 ^ 31 \<Longrightarrow> \<bar>b\<bar> < 2 ^ 31 \<Longrightarrow> \<bar>v\<bar> < 2 ^ 31 \<Longrightarrow> keeps idle (pico_set_cell pico_line a b v)"
  "\<bar>a\<bar> < 2 ^ 31 \<Longrightarrow> \<bar>b\<bar> < 2 ^ 31 \<Longrightarrow> \<bar>v\<bar> < 2 ^ 31 \<Longrightarrow> keeps idle (pico_set_temp pico_line a b v)"
  by (auto simp: keeps_def set_idle)

text \<open>leaving \<open>temporarily\<close>, by whatever outcome, the device is at its defaults, no module silenced, if the body
  leaves the line usable.\<close>

theorem temporarily_restores:
  assumes "idle s" and "list_all (\<lambda>((a, b), v). \<bar>a\<bar> < 2 ^ 31 \<and> \<bar>b\<bar> < 2 ^ 31 \<and> \<bar>v\<bar> < 2 ^ 31) (cells @ temps)"
    and body: "\<And>s. idle s \<Longrightarrow> idle (snd (body s))"
    and run: "pico_temporarily pico_line cells temps body s = (r, s')"
  shows "idle s' \<and> dv_cell (pico_device s') = (\<lambda>p k. 3750) \<and> dv_temp (pico_device s') = (\<lambda>p a. 250)
    \<and> dv_stop (pico_device s') = 0"
proof -
  let ?ok = "\<lambda>((a, b), v). \<bar>a\<bar> < 2 ^ 31 \<and> \<bar>b\<bar> < 2 ^ 31 \<and> \<bar>v\<bar> < (2 ^ 31 :: int)"
  have cells: "keeps idle (for_each (\<lambda>((m, c), mV). pico_set_cell pico_line m c mV) xs)" if "list_all ?ok xs" for xs
    using that by (induction xs) (auto intro!: keeps_ret keeps_bind set_keeps)
  have temps: "keeps idle (for_each (\<lambda>((m, c), mV). pico_set_temp pico_line m c mV) xs)" if "list_all ?ok xs" for xs
    using that by (induction xs) (auto intro!: keeps_ret keeps_bind set_keeps)
  have "keeps idle (bind (for_each (\<lambda>((m, c), mV). pico_set_cell pico_line m c mV) cells) (\<lambda>_.
      bind (for_each (\<lambda>((m, a), dC). pico_set_temp pico_line m a dC) temps) (\<lambda>_. body)))" (is "keeps idle ?m")
    using assms(2) body by (intro keeps_intros cells temps keepsI) simp_all
  then have mid: "idle (snd (?m s))" by (rule keepsD) (rule assms(1))
  let ?d = "counted (pico_device (snd (?m s)))"
  have "run_command [''RESET_STATE''] ?d = (refresh_responses ((reset_stats (dv_reset ?d))\<lparr>dv_stop := 0\<rparr>), [''OK''])"
    by (simp add: run_command_def upper_char_def cmd_reset_state_def)
  from send_cmd_device [OF mid _ _ _ _ _ this]
  have "pico_reset_state pico_line (snd (?m s)) = (Inr (), at_device (snd (?m s)) (refresh_responses ((reset_stats (dv_reset ?d))\<lparr>dv_stop := 0\<rparr>)))"
    by (simp add: pico_reset_state_def word_def is_space_def py_rstrip_def)
  with run have s': "s' = at_device (snd (?m s)) (refresh_responses ((reset_stats (dv_reset ?d))\<lparr>dv_stop := 0\<rparr>))"
    by (auto simp: pico_temporarily_def try_finally_def split: prod.splits)
  have "idle s'" unfolding s' by (rule idle_at_device [OF mid]) (use mid in \<open>simp add: dv_reset_def reset_stats_def idle_def\<close>)
  then show ?thesis by (simp add: s' dv_reset_def reset_stats_def)
qed

definition fresh_pico :: "bench_line pico" where
  "fresh_pico = \<lparr>pc_link = \<lparr>bl_device = device_init, bl_input = []\<rparr>, pc_open = True\<rparr>"

lemma fresh_idle: "idle fresh_pico"
  by (simp add: idle_def fresh_pico_def device_init_def dv_reset_def refresh_responses_def)

theorem injected_cells_read_back_witness:
  "\<exists>s'. for_each (\<lambda>((m, c), mV). pico_inject_cell_v pico_line m c mV) [((0, 8), 3000), ((0, 9), 4100), ((0, 8), 2900)]
      fresh_pico = (Inr (), s')
    \<and> dv_cell (pico_device s') 0 8 = 2900 \<and> dv_cell (pico_device s') 1 0 = 4100 \<and> dv_cell (pico_device s') 0 9 = 3750"
proof -
  let ?ws = "[((0, 8), 3000), ((0, 9), 4100), ((0, 8), 2900)] :: ((int \<times> int) \<times> int) list"
  have "list_all valid_injection ?ws" by simp
  from injected_cells_read_back [OF fresh_idle this] show ?thesis
  proof (elim exE conjE, goal_cases)
    case (1 s')
    from bspec [OF bspec [OF 1(3), of 0], of 8] bspec [OF bspec [OF 1(4), of 0], of 9] 1(5) [rule_format, of 0 9] 1(1)
    show ?case by (simp add: fresh_pico_def device_init_def dv_reset_def)
  qed
qed

theorem temporarily_restores_witness:
  "\<exists>r s'. pico_temporarily pico_line [((1, 12), 3000)] [] (raise (Exn Exception [])) fresh_pico = (r :: unit res, s')
    \<and> dv_cell (pico_device s') 2 3 = 3750"
proof -
  obtain r s' where run: "pico_temporarily pico_line [((1, 12), 3000)] [] (raise (Exn Exception [])) fresh_pico
      = (r :: unit res, s')" by (rule prod.exhaust)
  then have "dv_cell (pico_device s') 2 3 = 3750"
    using temporarily_restores [OF fresh_idle _ _ run] by (simp add: raise_def)
  with run show ?thesis by blast
qed

end
