(* ===== verification/Can_Tracer.thy ===== *)
theory Can_Tracer
  imports Ams_Can_Map Vcu_Can_Map
begin

text \<open>
  \<^verbatim>\<open>dashboard/can_tracer.py\<close>: the frame decoder of the dashboard and the tracer, whose state is a ring buffer
  per interface, the queues of the live subscribers and the sequence counter. A reader thread handles a message
  in three atomic steps: it takes a number under the lock of the counter, appends the frame to the ring of its
  interface, and hands it to the subscribers under their lock. \<open>reader_step\<close> is the three in a row; the state
  machine \<open>tracer_step\<close> lets the threads of all interfaces, the subscribers and the queries take turns between
  them. \<open>'=IB3x'\<close> is read little-endian, as on the bench's Pi.
\<close>

section \<open>Decoding\<close>

definition TR_FSM_NAMES :: "(int \<times> string) list" where
  "TR_FSM_NAMES = [(0, ''Start''), (1, ''Precharge''), (2, ''Transition''), (3, ''Run''), (4, ''Charge''), (5, ''Error'')]"

definition TR_MODE_NAMES :: "(int \<times> string) list" where
  "TR_MODE_NAMES = [(0, ''Undecided''), (1, ''Car''), (2, ''Charger'')]"

definition name_or :: "(int \<times> string) list \<Rightarrow> string \<Rightarrow> int \<Rightarrow> string" where
  "name_or names other i = (case map_of names i of Some s \<Rightarrow> s | None \<Rightarrow> other)"

datatype cockpit_view = CockpitInvalid int | Cockpit int string bool bool

definition decode_cockpit_byte :: "int \<Rightarrow> cockpit_view" where
  "decode_cockpit_byte b =
     (if b AND 0x80 = 0 then CockpitInvalid b
      else Cockpit b (name_or TR_MODE_NAMES ''?'' (drop_bit 2 b AND 0x03)) (b AND 0x02 \<noteq> 0) (b AND 0x01 \<noteq> 0))"

definition tr_i8 :: "int \<Rightarrow> int" where
  "tr_i8 b = (if b > 127 then b - 256 else b)"

text \<open>The fields of a decoded frame, in the order of the dictionary.\<close>

datatype decoded =
    TelemStatus string bool int int int
  | TelemPack int int
  | TelemTemps int int int int int cockpit_view int int
  | VcuDcBus int

definition decode_ams :: "int \<Rightarrow> int list \<Rightarrow> decoded option" where
  "decode_ams can_id data =
     (if can_id = 0x4A0 \<and> 8 \<le> length data then
        Some (TelemStatus (name_or TR_FSM_NAMES (''0x'' @ hexX 2 (data ! 0)) (data ! 0)) (data ! 1 \<noteq> 0) (data ! 2)
          (push_bit 8 (data ! 4) OR data ! 5) (push_bit 8 (data ! 6) OR data ! 7))
      else if can_id = 0x4A1 \<and> 8 \<le> length data then
        Some (TelemPack (from_le (slice 0 4 data)) (signed 32 (from_le (slice 4 8 data))))
      else if can_id = 0x4A2 \<and> 8 \<le> length data then
        Some (TelemTemps (tr_i8 (data ! 0)) (tr_i8 (data ! 1)) (tr_i8 (data ! 2)) (data ! 3) (data ! 4)
          (decode_cockpit_byte (data ! 5)) (data ! 6) (data ! 7))
      else if can_id = 0x100 \<and> 2 \<le> length data then Some (VcuDcBus (data ! 0 OR push_bit 8 (data ! 1)))
      else None)"

text \<open>\<open>_format_data\<close>: hexadecimal digits in groups of four.\<close>

fun format_data :: "int list \<Rightarrow> string" where
  "format_data [] = []"
| "format_data [a] = hexX 2 a"
| "format_data [a, b] = hexX 2 a @ hexX 2 b"
| "format_data (a # b # rest) = hexX 2 a @ hexX 2 b @ '' '' @ format_data rest"

section \<open>The tracer\<close>

record trace_frame =
  tf_seq :: int
  tf_ts_ms :: int
  tf_bus :: string
  tf_id :: string
  tf_id_int :: int
  tf_ext :: bool
  tf_dlc :: int
  tf_data :: string
  tf_decoded :: "decoded option"

record subscriber =
  su_key :: nat
  su_max :: nat
  su_queue :: "trace_frame list"

record tracer =
  tc_maxlen :: nat
  tc_history :: "(string \<times> trace_frame list) list"
  tc_subs :: "subscriber list"
  tc_next_id :: int
  tc_keys :: nat

definition tracer_init :: "string list \<Rightarrow> nat \<Rightarrow> tracer" where
  "tracer_init ifaces maxlen =
     \<lparr>tc_maxlen = maxlen, tc_history = map (\<lambda>i. (i, [])) ifaces, tc_subs = [], tc_next_id = 0, tc_keys = 0\<rparr>"

text \<open>A new queue is identified by a fresh key; a bound of 0 is no bound, as in \<open>queue.Queue\<close>.\<close>

definition tr_subscribe :: "nat \<Rightarrow> tracer \<Rightarrow> nat \<times> tracer" where
  "tr_subscribe maxsize s =
     (tc_keys s, s\<lparr>tc_subs := tc_subs s @ [\<lparr>su_key = tc_keys s, su_max = maxsize, su_queue = []\<rparr>], tc_keys := tc_keys s + 1\<rparr>)"

definition tr_unsubscribe :: "nat \<Rightarrow> tracer \<Rightarrow> tracer" where
  "tr_unsubscribe k s = s\<lparr>tc_subs := filter (\<lambda>q. su_key q \<noteq> k) (tc_subs s)\<rparr>"

text \<open>\<open>xs[-n:]\<close>.\<close>

definition py_tail :: "int \<Rightarrow> 'a list \<Rightarrow> 'a list" where
  "py_tail n xs = (if n > 0 then drop (length xs - nat n) xs else drop (nat (- n)) xs)"

definition tr_recent :: "string option \<Rightarrow> int \<Rightarrow> tracer \<Rightarrow> trace_frame list" where
  "tr_recent bus n s =
     (case Option.bind bus (map_of (tc_history s)) of
        Some h \<Rightarrow> py_tail n h
      | None \<Rightarrow> py_tail n (sort_key tf_ts_ms (concat (map snd (tc_history s)))))"

definition sub_full :: "subscriber \<Rightarrow> bool" where
  "sub_full q \<longleftrightarrow> 0 < su_max q \<and> su_max q \<le> length (su_queue q)"

text \<open>A frame goes to every queue that is not full; the full ones are removed.\<close>

definition fan_out :: "trace_frame \<Rightarrow> subscriber list \<Rightarrow> subscriber list" where
  "fan_out f qs = map (\<lambda>q. q\<lparr>su_queue := su_queue q @ [f]\<rparr>) (filter (\<lambda>q. \<not> sub_full q) qs)"

text \<open>A deque with a maximal length.\<close>

definition ring_append :: "nat \<Rightarrow> 'a \<Rightarrow> 'a list \<Rightarrow> 'a list" where
  "ring_append m x xs = drop (length xs + 1 - m) (xs @ [x])"

definition parse_raw :: "string \<Rightarrow> int \<Rightarrow> int \<Rightarrow> int list \<Rightarrow> trace_frame option" where
  "parse_raw iface seq ts raw =
     (if length raw < 8 then None
      else let can_id_raw = from_le (slice 0 4 raw); dlc = raw ! 4;
               ext = (can_id_raw AND 0x80000000 \<noteq> 0); err = (can_id_raw AND 0x20000000 \<noteq> 0);
               can_id = can_id_raw AND (if ext then 0x1FFFFFFF else 0x7FF);
               data = slice 8 (8 + nat dlc) raw
           in if err then None
              else Some \<lparr>tf_seq = seq, tf_ts_ms = ts, tf_bus = iface,
                tf_id = ''0x'' @ hexX (if ext then 8 else 3) can_id, tf_id_int = can_id, tf_ext = ext, tf_dlc = dlc,
                tf_data = format_data data, tf_decoded = decode_ams can_id data\<rparr>)"

definition take_seq :: "tracer \<Rightarrow> tracer" where
  "take_seq s = s\<lparr>tc_next_id := tc_next_id s + 1\<rparr>"

definition record_frame :: "trace_frame \<Rightarrow> tracer \<Rightarrow> tracer" where
  "record_frame f s =
     s\<lparr>tc_history := map (\<lambda>(i, h). (i, if i = tf_bus f then ring_append (tc_maxlen s) f h else h)) (tc_history s)\<rparr>"

definition publish_frame :: "trace_frame \<Rightarrow> tracer \<Rightarrow> tracer" where
  "publish_frame f s = s\<lparr>tc_subs := fan_out f (tc_subs s)\<rparr>"

definition reader_step :: "string \<Rightarrow> int \<Rightarrow> int list \<Rightarrow> tracer \<Rightarrow> tracer" where
  "reader_step iface ts raw s =
     (case parse_raw iface (tc_next_id s + 1) ts raw of
        None \<Rightarrow> s
      | Some f \<Rightarrow> publish_frame f (record_frame f (take_seq s)))"

text \<open>The body of the reading loop on what \<open>recv\<close> gave: a timeout (None), an error (True: it sleeps), or bytes.\<close>

datatype received = Timeout | ReadError | Bytes "int list"

definition reader_turn :: "(rat \<Rightarrow> ('w, unit) io) \<Rightarrow> ('w, int) io \<Rightarrow> string \<Rightarrow> received \<Rightarrow> tracer \<Rightarrow> ('w, tracer) io" where
  "reader_turn sleep now_ms iface rx s =
     (case rx of
        Timeout \<Rightarrow> ret s
      | ReadError \<Rightarrow> bind (sleep (1 / 2)) (\<lambda>_. ret s)
      | Bytes raw \<Rightarrow>
          (if parse_raw iface 0 0 raw = None then ret s else bind now_ms (\<lambda>ts. ret (reader_step iface ts raw s))))"

primrec reader_loop ::
  "('w, bool) io \<Rightarrow> (rat \<Rightarrow> ('w, unit) io) \<Rightarrow> ('w, int) io \<Rightarrow> ('w, unit) io \<Rightarrow> string \<Rightarrow> received list \<Rightarrow> tracer \<Rightarrow>
   ('w, tracer) io"
where
  "reader_loop stopped sleep now_ms close iface [] s = ret s"
| "reader_loop stopped sleep now_ms close iface (rx # rxs) s =
     bind stopped (\<lambda>b.
       if b then bind close (\<lambda>_. ret s)
       else bind (reader_turn sleep now_ms iface rx s) (\<lambda>s'. reader_loop stopped sleep now_ms close iface rxs s'))"

text \<open>\<open>_reader_loop\<close>: an interface that cannot be bound is skipped.\<close>

definition reader_thread ::
  "(string \<Rightarrow> ('w, unit) io) \<Rightarrow> ('w, bool) io \<Rightarrow> (rat \<Rightarrow> ('w, unit) io) \<Rightarrow> ('w, int) io \<Rightarrow> ('w, unit) io \<Rightarrow> string \<Rightarrow>
   received list \<Rightarrow> tracer \<Rightarrow> ('w, tracer) io"
where
  "reader_thread bind_iface stopped sleep now_ms close iface rxs s =
     bind (try_except (bind (bind_iface iface) (\<lambda>_. ret True)) is_os_error (\<lambda>_. ret False)) (\<lambda>up.
       if up then reader_loop stopped sleep now_ms close iface rxs s else ret s)"

text \<open>A subscriber takes the oldest frame from its queue.\<close>

definition sub_get :: "nat \<Rightarrow> tracer \<Rightarrow> tracer" where
  "sub_get k s = s\<lparr>tc_subs := map (\<lambda>q. if su_key q = k then q\<lparr>su_queue := tl (su_queue q)\<rparr> else q) (tc_subs s)\<rparr>"

section \<open>The tracer as a state machine\<close>

text \<open>Where the thread of an interface stands: waiting for a message, holding a numbered frame, or one that is
  already in the ring. The log of published frames and each subscriber's position in it are only observed.\<close>

datatype reader_stage = Waiting | Numbered trace_frame | Recorded trace_frame

record machine =
  tm_tracer :: tracer
  tm_stage :: "string \<Rightarrow> reader_stage"
  tm_log :: "trace_frame list"
  tm_mark :: "nat \<Rightarrow> nat"

definition machine_init :: "string list \<Rightarrow> nat \<Rightarrow> machine" where
  "machine_init ifaces maxlen =
     \<lparr>tm_tracer = tracer_init ifaces maxlen, tm_stage = (\<lambda>i. Waiting), tm_log = [], tm_mark = (\<lambda>k. 0)\<rparr>"

datatype tracer_event =
    Subscribe nat | Unsubscribe nat | Number string int "int list" | Record string | Publish string | Get nat

inductive tracer_step :: "machine \<Rightarrow> tracer_event \<Rightarrow> machine \<Rightarrow> bool" where
  subscribe: "tr_subscribe m (tm_tracer M) = (k, s') \<Longrightarrow>
    tracer_step M (Subscribe m) (M\<lparr>tm_tracer := s', tm_mark := (tm_mark M)(k := length (tm_log M))\<rparr>)"
| unsubscribe: "tracer_step M (Unsubscribe k) (M\<lparr>tm_tracer := tr_unsubscribe k (tm_tracer M)\<rparr>)"
| number: "tm_stage M i = Waiting \<Longrightarrow> parse_raw i (tc_next_id (tm_tracer M) + 1) ts raw = Some f \<Longrightarrow>
    tracer_step M (Number i ts raw) (M\<lparr>tm_tracer := take_seq (tm_tracer M), tm_stage := (tm_stage M)(i := Numbered f)\<rparr>)"
| recorded: "tm_stage M i = Numbered f \<Longrightarrow>
    tracer_step M (Record i) (M\<lparr>tm_tracer := record_frame f (tm_tracer M), tm_stage := (tm_stage M)(i := Recorded f)\<rparr>)"
| publish: "tm_stage M i = Recorded f \<Longrightarrow>
    tracer_step M (Publish i) (M\<lparr>tm_tracer := publish_frame f (tm_tracer M), tm_stage := (tm_stage M)(i := Waiting),
      tm_log := tm_log M @ [f]\<rparr>)"
| get: "q \<in> set (tc_subs (tm_tracer M)) \<Longrightarrow> su_key q = k \<Longrightarrow> su_queue q \<noteq> [] \<Longrightarrow>
    tracer_step M (Get k) (M\<lparr>tm_tracer := sub_get k (tm_tracer M), tm_mark := (tm_mark M)(k := tm_mark M k + 1)\<rparr>)"

inductive tracer_run :: "machine \<Rightarrow> tracer_event list \<Rightarrow> machine \<Rightarrow> bool" where
  nil: "tracer_run M [] M"
| snoc: "tracer_run M es M1 \<Longrightarrow> tracer_step M1 e M2 \<Longrightarrow> tracer_run M (es @ [e]) M2"

lemma tracer_run_trans: "tracer_run M1 es' M2 \<Longrightarrow> tracer_run M es M1 \<Longrightarrow> tracer_run M (es @ es') M2"
  by (induction rule: tracer_run.induct) (auto simp: append_assoc [symmetric] simp del: append_assoc intro: tracer_run.snoc)

text \<open>A thread that is not interrupted does what \<open>reader_step\<close> says.\<close>

lemma uninterrupted_reader:
  assumes "tm_stage M i = Waiting" "parse_raw i (tc_next_id (tm_tracer M) + 1) ts raw = Some f"
  shows "\<exists>M'. tracer_run M [Number i ts raw, Record i, Publish i] M' \<and> tm_tracer M' = reader_step i ts raw (tm_tracer M)"
proof -
  let ?M1 = "M\<lparr>tm_tracer := take_seq (tm_tracer M), tm_stage := (tm_stage M)(i := Numbered f)\<rparr>"
  let ?M2 = "?M1\<lparr>tm_tracer := record_frame f (tm_tracer ?M1), tm_stage := (tm_stage ?M1)(i := Recorded f)\<rparr>"
  let ?M3 = "?M2\<lparr>tm_tracer := publish_frame f (tm_tracer ?M2), tm_stage := (tm_stage ?M2)(i := Waiting), tm_log := tm_log ?M2 @ [f]\<rparr>"
  have 1: "tracer_run M ([] @ [Number i ts raw]) ?M1"
    by (rule tracer_run.snoc [OF tracer_run.nil]) (rule tracer_step.number [OF assms])
  have 2: "tracer_run M (([] @ [Number i ts raw]) @ [Record i]) ?M2" by (rule tracer_run.snoc [OF 1]) (rule tracer_step.recorded, simp)
  have "tracer_run M ((([] @ [Number i ts raw]) @ [Record i]) @ [Publish i]) ?M3"
    by (rule tracer_run.snoc [OF 2]) (rule tracer_step.publish, simp)
  moreover have "tm_tracer ?M3 = reader_step i ts raw (tm_tracer M)" by (simp add: reader_step_def assms(2))
  ultimately show ?thesis by (intro exI [of _ ?M3] conjI) (simp_all only: append.simps)
qed

text \<open>
  The rings hold the last frames recorded of their bus. A live queue is the rest of the log of published frames
  from the subscriber's position on. Numbers from 1 to the counter are each published once or on their way, and
  those of one bus are published in order.
\<close>

definition lastn :: "nat \<Rightarrow> 'a list \<Rightarrow> 'a list" where
  "lastn n xs = drop (length xs - n) xs"

definition of_bus :: "string \<Rightarrow> trace_frame list \<Rightarrow> trace_frame list" where
  "of_bus i fs = filter (\<lambda>f. tf_bus f = i) fs"

primrec in_flight :: "reader_stage \<Rightarrow> trace_frame list" where
  "in_flight Waiting = []"
| "in_flight (Numbered f) = [f]"
| "in_flight (Recorded f) = [f]"

primrec in_ring :: "reader_stage \<Rightarrow> trace_frame list" where
  "in_ring Waiting = []"
| "in_ring (Numbered f) = []"
| "in_ring (Recorded f) = [f]"

definition rings_ok :: "machine \<Rightarrow> bool" where
  "rings_ok M \<longleftrightarrow>
     (\<forall>i h. (i, h) \<in> set (tc_history (tm_tracer M)) \<longrightarrow>
        h = lastn (tc_maxlen (tm_tracer M)) (of_bus i (tm_log M) @ in_ring (tm_stage M i)))"

definition queue_ok :: "machine \<Rightarrow> subscriber \<Rightarrow> bool" where
  "queue_ok M q \<longleftrightarrow>
     su_key q < tc_keys (tm_tracer M) \<and> tm_mark M (su_key q) \<le> length (tm_log M) \<and>
     su_queue q = drop (tm_mark M (su_key q)) (tm_log M) \<and> (0 < su_max q \<longrightarrow> length (su_queue q) \<le> su_max q)"

definition queues_ok :: "machine \<Rightarrow> bool" where
  "queues_ok M \<longleftrightarrow>
     distinct (map su_key (tc_subs (tm_tracer M))) \<and> (\<forall>q\<in>set (tc_subs (tm_tracer M)). queue_ok M q)"

definition numbered :: "int \<Rightarrow> trace_frame list \<Rightarrow> (string \<Rightarrow> trace_frame list) \<Rightarrow> bool" where
  "numbered n log' fl \<longleftrightarrow>
     0 \<le> n \<and> distinct (map tf_seq log') \<and>
     (\<forall>i. \<forall>f\<in>set (fl i). tf_bus f = i \<and> tf_seq f \<notin> tf_seq ` set log') \<and>
     (\<forall>i j. \<forall>f\<in>set (fl i). \<forall>g\<in>set (fl j). tf_seq f = tf_seq g \<longrightarrow> i = j) \<and>
     (\<forall>i. sorted_wrt (<) (map tf_seq (of_bus i log' @ fl i))) \<and>
     (\<forall>k. k \<in> {1..n} \<longleftrightarrow> k \<in> tf_seq ` set log' \<or> (\<exists>i. k \<in> tf_seq ` set (fl i)))"

definition numbers_ok :: "machine \<Rightarrow> bool" where
  "numbers_ok M \<longleftrightarrow> numbered (tc_next_id (tm_tracer M)) (tm_log M) (\<lambda>i. in_flight (tm_stage M i))"

lemma init_ok: "rings_ok (machine_init ifaces m)" "queues_ok (machine_init ifaces m)" "numbers_ok (machine_init ifaces m)"
  by (auto simp: machine_init_def tracer_init_def rings_ok_def lastn_def of_bus_def queues_ok_def numbers_ok_def numbered_def)

lemma parse_raw_fields: "parse_raw i n ts raw = Some f \<Longrightarrow> tf_seq f = n \<and> tf_bus f = i"
  by (auto simp: parse_raw_def Let_def split: if_splits)

lemma ring_append_lastn: "ring_append m x (lastn m xs) = lastn m (xs @ [x])"
  by (cases "length xs \<le> m") (simp_all add: ring_append_def lastn_def drop_append Suc_diff_le)

lemma of_bus_snoc: "of_bus i (fs @ [f]) = of_bus i fs @ (if tf_bus f = i then [f] else [])"
  by (simp add: of_bus_def)

lemma step_rings: "tracer_step M e M' \<Longrightarrow> rings_ok M \<Longrightarrow> numbers_ok M \<Longrightarrow> rings_ok M'"
proof (induction rule: tracer_step.induct)
  case (number M i ts raw f)
  then have "in_ring (((tm_stage M)(i := Numbered f)) j) = in_ring (tm_stage M j)" for j by simp
  with number show ?case by (simp add: rings_ok_def take_seq_def)
next
  case (recorded M i f)
  have bus: "tf_bus f = i" using recorded by (force simp: numbers_ok_def numbered_def)
  show ?case
    unfolding rings_ok_def
  proof (intro allI impI)
    fix j h assume "(j, h) \<in> set (tc_history (tm_tracer (M\<lparr>tm_tracer := record_frame f (tm_tracer M),
        tm_stage := (tm_stage M)(i := Recorded f)\<rparr>)))"
    then obtain h' where h: "(j, h') \<in> set (tc_history (tm_tracer M))"
      "h = (if j = i then ring_append (tc_maxlen (tm_tracer M)) f h' else h')"
      by (auto simp: record_frame_def bus)
    then have "h' = lastn (tc_maxlen (tm_tracer M)) (of_bus j (tm_log M) @ in_ring (tm_stage M j))"
      using recorded(2) by (auto simp: rings_ok_def)
    with h(2) recorded(1) show "h = lastn (tc_maxlen (tm_tracer (M\<lparr>tm_tracer := record_frame f (tm_tracer M),
        tm_stage := (tm_stage M)(i := Recorded f)\<rparr>))) (of_bus j (tm_log (M\<lparr>tm_tracer := record_frame f (tm_tracer M),
        tm_stage := (tm_stage M)(i := Recorded f)\<rparr>)) @ in_ring (tm_stage (M\<lparr>tm_tracer := record_frame f (tm_tracer M),
        tm_stage := (tm_stage M)(i := Recorded f)\<rparr>) j))"
      by (auto simp: record_frame_def ring_append_lastn)
  qed
next
  case (publish M i f)
  have "tf_bus f = i" using publish by (force simp: numbers_ok_def numbered_def)
  then have "of_bus j (tm_log M @ [f]) @ in_ring (((tm_stage M)(i := Waiting)) j)
      = of_bus j (tm_log M) @ in_ring (tm_stage M j)" for j using publish(1) by (cases "j = i") (auto simp: of_bus_snoc)
  with publish show ?case by (simp add: rings_ok_def publish_frame_def)
qed (auto simp: rings_ok_def tr_subscribe_def tr_unsubscribe_def sub_get_def)

lemma step_queues: "tracer_step M e M' \<Longrightarrow> queues_ok M \<Longrightarrow> queues_ok M'"
proof (induction rule: tracer_step.induct)
  case (subscribe m M k s')
  then have "tc_keys (tm_tracer M) \<notin> su_key ` set (tc_subs (tm_tracer M))"
    by (auto simp: queues_ok_def queue_ok_def)
  with subscribe show ?case by (auto simp: queues_ok_def queue_ok_def tr_subscribe_def less_Suc_eq) (metis less_irrefl)
next
  case (unsubscribe M k)
  then show ?case by (auto simp: queues_ok_def queue_ok_def tr_unsubscribe_def distinct_map_filter)
next
  case (publish M i f)
  then show ?case
    by (auto simp: queues_ok_def queue_ok_def publish_frame_def fan_out_def sub_full_def comp_def distinct_map_filter)
next
  case (get q M k)
  have same: "q' = q" if "q' \<in> set (tc_subs (tm_tracer M))" "su_key q' = k" for q'
    using get that by (auto simp: queues_ok_def distinct_map dest: inj_onD)
  have "queue_ok M q" using get by (simp add: queues_ok_def)
  then have q: "tm_mark M k < length (tm_log M)" "tl (su_queue q) = drop (Suc (tm_mark M k)) (tm_log M)"
    "length (su_queue q) = length (tm_log M) - tm_mark M k"
    using get(2,3) by (auto simp: queue_ok_def drop_Suc tl_drop)
  let ?M = "M\<lparr>tm_tracer := sub_get k (tm_tracer M), tm_mark := (tm_mark M)(k := tm_mark M k + 1)\<rparr>"
  have "queue_ok ?M (if su_key q' = k then q'\<lparr>su_queue := tl (su_queue q')\<rparr> else q')"
    if q': "q' \<in> set (tc_subs (tm_tracer M))" for q'
  proof (cases "su_key q' = k")
    case True
    with q \<open>queue_ok M q\<close> same [OF q' True] show ?thesis by (auto simp: queue_ok_def sub_get_def)
  next
    case False
    moreover have "queue_ok M q'" using get(4) q' by (simp add: queues_ok_def)
    ultimately show ?thesis by (auto simp: queue_ok_def sub_get_def)
  qed
  moreover have "set (tc_subs (tm_tracer ?M))
      = (\<lambda>q. if su_key q = k then q\<lparr>su_queue := tl (su_queue q)\<rparr> else q) ` set (tc_subs (tm_tracer M))"
    by (simp add: sub_get_def)
  ultimately have "\<forall>q\<in>set (tc_subs (tm_tracer ?M)). queue_ok ?M q" by (metis (no_types, lifting) imageE)
  moreover have "distinct (map su_key (tc_subs (tm_tracer ?M)))"
    using get(4) by (simp add: queues_ok_def sub_get_def comp_def if_distrib [of su_key] cong: if_cong)
  ultimately show ?case by (simp only: queues_ok_def)
qed (auto simp: queues_ok_def queue_ok_def take_seq_def record_frame_def)

lemma numbered_next:
  assumes "numbered n log' fl" "fl i = []" "tf_seq f = n + 1" "tf_bus f = i"
  shows "numbered (n + 1) log' (fl(i := [f]))"
proof -
  have range: "k \<in> {1..n} \<longleftrightarrow> k \<in> tf_seq ` set log' \<or> (\<exists>i. k \<in> tf_seq ` set (fl i))" for k
    using assms(1) by (simp add: numbered_def)
  have below: "tf_seq g < tf_seq f" if "g \<in> set log' \<or> (\<exists>j. g \<in> set (fl j))" for g
    using range [of "tf_seq g"] that assms(3) by fastforce
  have sorted: "\<forall>j. sorted_wrt (<) (map tf_seq (of_bus j log' @ (fl(i := [f])) j))"
    using assms(1,2) below by (auto simp: numbered_def sorted_wrt_append of_bus_def)
  have "k \<in> {1..n + 1} \<longleftrightarrow> k \<in> tf_seq ` set log' \<or> (\<exists>j. k \<in> tf_seq ` set ((fl(i := [f])) j))" for k
  proof -
    have "0 \<le> n" using assms(1) by (simp add: numbered_def)
    then have "k \<in> {1..n + 1} \<longleftrightarrow> k \<in> {1..n} \<or> k = n + 1" by auto
    moreover have "(\<exists>j. k \<in> tf_seq ` set ((fl(i := [f])) j)) \<longleftrightarrow> k = n + 1 \<or> (\<exists>j. k \<in> tf_seq ` set (fl j))"
      using assms(2,3) by (auto split: if_splits) (metis empty_iff image_iff list.set(1))
    ultimately show ?thesis using range [of k] by blast
  qed
  then have range': "\<forall>k. k \<in> {1..n + 1} \<longleftrightarrow> k \<in> tf_seq ` set log' \<or> (\<exists>j. k \<in> tf_seq ` set ((fl(i := [f])) j))"
    by blast
  have fresh: "\<forall>j. \<forall>g\<in>set ((fl(i := [f])) j). tf_bus g = j \<and> tf_seq g \<notin> tf_seq ` set log'"
  proof (intro allI ballI)
    fix j g assume "g \<in> set ((fl(i := [f])) j)"
    then consider "j = i" "g = f" | "g \<in> set (fl j)" by (auto split: if_splits)
    then show "tf_bus g = j \<and> tf_seq g \<notin> tf_seq ` set log'"
    proof cases
      case 1
      then show ?thesis using below assms(4) by (metis image_iff less_irrefl)
    next
      case 2
      then show ?thesis using assms(1) by (simp add: numbered_def)
    qed
  qed
  have inj: "\<forall>j k. \<forall>g\<in>set ((fl(i := [f])) j). \<forall>h\<in>set ((fl(i := [f])) k). tf_seq g = tf_seq h \<longrightarrow> j = k"
  proof (intro allI ballI impI)
    fix j k g h assume "g \<in> set ((fl(i := [f])) j)" "h \<in> set ((fl(i := [f])) k)" and eq: "tf_seq g = tf_seq h"
    then have "j = i \<and> g = f \<or> j \<noteq> i \<and> g \<in> set (fl j)" "k = i \<and> h = f \<or> k \<noteq> i \<and> h \<in> set (fl k)"
      by (auto split: if_splits)
    moreover have "j = k" if "g \<in> set (fl j)" "h \<in> set (fl k)"
      using assms(1) that eq unfolding numbered_def by blast
    moreover have "tf_seq g < tf_seq f" if "g \<in> set (fl j)" using below that by blast
    moreover have "tf_seq h < tf_seq f" if "h \<in> set (fl k)" using below that by blast
    ultimately show "j = k" using eq by auto
  qed
  have "0 \<le> n + 1" "distinct (map tf_seq log')" using assms(1) by (simp_all add: numbered_def)
  then show ?thesis unfolding numbered_def using sorted range' fresh inj by (intro conjI)
qed

lemma numbered_publish:
  assumes "numbered n log' fl" "fl i = [f]"
  shows "numbered n (log' @ [f]) (fl(i := []))"
proof -
  have "f \<in> set (fl i)" using assms(2) by simp
  then have f: "tf_bus f = i" "tf_seq f \<notin> tf_seq ` set log'" using assms(1) by (auto simp: numbered_def)
  have "sorted_wrt (<) (map tf_seq (of_bus j (log' @ [f]) @ (fl(i := [])) j))" for j
    using assms f(1) by (cases "j = i") (auto simp: numbered_def of_bus_snoc dest: spec [of _ i])
  moreover have "(k \<in> tf_seq ` set (log' @ [f]) \<or> (\<exists>j. k \<in> tf_seq ` set ((fl(i := [])) j)))
      \<longleftrightarrow> (k \<in> tf_seq ` set log' \<or> (\<exists>j. k \<in> tf_seq ` set (fl j)))" for k
    using assms(2) by (auto split: if_splits) (metis image_eqI list.set_intros(1) set_ConsD empty_iff list.set(1))+
  moreover have "\<forall>j. \<forall>g\<in>set ((fl(i := [])) j). tf_bus g = j \<and> tf_seq g \<notin> tf_seq ` set (log' @ [f])"
  proof (intro allI ballI)
    fix j g assume g: "g \<in> set ((fl(i := [])) j)"
    then have "j \<noteq> i" "g \<in> set (fl j)" by (auto split: if_splits)
    moreover have "tf_seq g = tf_seq f \<longrightarrow> j = i" if "g \<in> set (fl j)"
      using assms(1) that \<open>f \<in> set (fl i)\<close> unfolding numbered_def by blast
    ultimately show "tf_bus g = j \<and> tf_seq g \<notin> tf_seq ` set (log' @ [f])"
      using assms(1) by (auto simp: numbered_def)
  qed
  ultimately show ?thesis using assms(1) f unfolding numbered_def by auto
qed

lemma step_numbers: "tracer_step M e M' \<Longrightarrow> numbers_ok M \<Longrightarrow> numbers_ok M'"
proof (induction rule: tracer_step.induct)
  case (number M i ts raw f)
  have "(\<lambda>j. in_flight (((tm_stage M)(i := Numbered f)) j)) = (\<lambda>j. in_flight (tm_stage M j))(i := [f])" by auto
  with number numbered_next [of _ _ "\<lambda>j. in_flight (tm_stage M j)" i f] parse_raw_fields [OF number(2)]
  show ?case by (simp add: numbers_ok_def take_seq_def)
next
  case (recorded M i f)
  then have "(\<lambda>j. in_flight (((tm_stage M)(i := Recorded f)) j)) = (\<lambda>j. in_flight (tm_stage M j))" by auto
  with recorded show ?case by (simp add: numbers_ok_def record_frame_def)
next
  case (publish M i f)
  have "(\<lambda>j. in_flight (((tm_stage M)(i := Waiting)) j)) = (\<lambda>j. in_flight (tm_stage M j))(i := [])" by auto
  with publish numbered_publish [of _ _ "\<lambda>j. in_flight (tm_stage M j)" i f]
  show ?case by (simp add: numbers_ok_def publish_frame_def)
qed (auto simp: numbers_ok_def tr_subscribe_def tr_unsubscribe_def sub_get_def)

lemma run_ok:
  "tracer_run M es M' \<Longrightarrow> rings_ok M \<and> queues_ok M \<and> numbers_ok M \<Longrightarrow> rings_ok M' \<and> queues_ok M' \<and> numbers_ok M'"
  by (induction rule: tracer_run.induct) (auto intro: step_rings step_queues step_numbers)

section \<open>Properties\<close>

text \<open>C20: whatever the interleaving of the reader threads, the subscribers and the queries, every ring holds the last
  frames recorded of its bus, the queue of a live subscriber is the published frames from its position on and within
  its bound (a slow subscriber is removed and never sees a gap), and every number taken belongs to one frame, published
  once and in order on its bus or on its way.\<close>

theorem tracer_no_gaps:
  assumes "tracer_run (machine_init ifaces m) es M"
  shows "rings_ok M \<and> queues_ok M \<and> numbers_ok M"
  using run_ok [OF assms] init_ok by blast

text \<open>C24: on payload bytes the dashboard decodes each frame as the frame maps of the test tools do, and nothing where
  they refuse the payload.\<close>

theorem dashboard_decodes_as_maps:
  "decode_ams 0x4A0 d = (case decode_telem_status d of Inl e \<Rightarrow> None
     | Inr t \<Rightarrow> Some (TelemStatus (ts_state_name t) (ts_ams_ok t) (ts_module_online_mask t) (ts_min_cell_mV t) (ts_max_cell_mV t)))
   \<and> decode_ams 0x4A1 d = (case decode_telem_pack d of Inl e \<Rightarrow> None
     | Inr t \<Rightarrow> Some (TelemPack (tp_pack_voltage_mV t) (tp_filtered_mA t)))
   \<and> (case decode_telem_temps d of Inl e \<Rightarrow> decode_ams 0x4A2 d = None
     | Inr t \<Rightarrow> (\<exists>b3 b4 view b6. decode_ams 0x4A2 d = Some (TelemTemps (tt_min_tempC t) (tt_max_tempC t) (tt_avg_tempC t)
         b3 b4 view b6 (tt_heartbeat t)) \<and> b3 OR push_bit 8 b4 = tt_dc_bus_V t
         \<and> view = (let c = tt_cockpit t in if cp_valid c then Cockpit (cp_raw c) (name_or TR_MODE_NAMES ''?'' (cp_mode c))
             (cp_tsms c) (cp_dash c) else CockpitInvalid (cp_raw c))))
   \<and> decode_ams 0x100 (b # b' # d) = Some (VcuDcBus (b OR push_bit 8 b'))"
  by (auto simp: decode_ams_def decode_telem_status_def decode_telem_pack_def decode_telem_temps_def
      FsmState_name_def fsm_names_def TR_FSM_NAMES_def name_or_def Let_def decode_cockpit_byte_def tr_i8_def i8_def)


theorem tracer_no_gaps_witness:
  "\<exists>M. tracer_run (machine_init [''can0''] 2)
       [Subscribe 1, Number ''can0'' 5 [0, 1, 0, 0, 2, 0, 0, 0, 0x90, 1], Record ''can0'', Publish ''can0''] M
     \<and> rings_ok M \<and> queues_ok M \<and> numbers_ok M
     \<and> map (\<lambda>q. map tf_decoded (su_queue q)) (tc_subs (tm_tracer M)) = [[Some (VcuDcBus 400)]]"
proof -
  let ?raw = "[0, 1, 0, 0, 2, 0, 0, 0, 0x90, 1] :: int list"
  let ?M0 = "machine_init [''can0''] 2"
  let ?t = "snd (tr_subscribe 1 (tm_tracer ?M0))"
  let ?M1 = "?M0\<lparr>tm_tracer := ?t, tm_mark := (tm_mark ?M0)(0 := length (tm_log ?M0))\<rparr>"
  define f where "f = the (parse_raw ''can0'' 1 5 ?raw)"
  have f: "parse_raw ''can0'' 1 5 ?raw = Some f"
    by (simp add: f_def parse_raw_def Let_def slice_def)
  have dec: "tf_decoded f = Some (VcuDcBus 400)"
    by (simp add: f_def parse_raw_def Let_def slice_def decode_ams_def)
  have 1: "tracer_run ?M0 ([] @ [Subscribe 1]) ?M1"
    by (rule tracer_run.snoc [OF tracer_run.nil tracer_step.subscribe])
      (simp add: tr_subscribe_def machine_init_def tracer_init_def)
  have "tm_stage ?M1 ''can0'' = Waiting" "parse_raw ''can0'' (tc_next_id (tm_tracer ?M1) + 1) 5 ?raw = Some f"
    using f by (simp_all add: machine_init_def tr_subscribe_def tracer_init_def)
  from uninterrupted_reader [OF this] obtain M where
    M: "tracer_run ?M1 [Number ''can0'' 5 ?raw, Record ''can0'', Publish ''can0''] M"
    "tm_tracer M = reader_step ''can0'' 5 ?raw (tm_tracer ?M1)" by blast
  have run: "tracer_run ?M0 [Subscribe 1, Number ''can0'' 5 ?raw, Record ''can0'', Publish ''can0''] M"
    using tracer_run_trans [OF M(1) 1] by simp
  moreover have "map (\<lambda>q. map tf_decoded (su_queue q)) (tc_subs (tm_tracer M)) = [[Some (VcuDcBus 400)]]"
    using f dec by (simp add: M(2) machine_init_def tr_subscribe_def tracer_init_def reader_step_def fan_out_def sub_full_def
        publish_frame_def record_frame_def take_seq_def)
  ultimately show ?thesis using tracer_no_gaps [OF run] by (intro exI [of _ M] conjI) simp_all
qed

text \<open>A subscriber whose queue is full is removed; its oldest frame is not dropped to make room.\<close>

lemma slow_subscriber_removed: "sub_full q \<Longrightarrow> fan_out f (qs @ q # qs') = fan_out f (qs @ qs')"
  by (simp add: fan_out_def)

end

