(* ===== verification/Dashboard.thy ===== *)
theory Dashboard
  imports Hil_Client Can_Tracer
begin

text \<open>
  \<^verbatim>\<open>dashboard/app.py\<close>: the poller and the HTTP handlers of the dashboard, over the broker client. The module's
  globals are the record \<open>dash\<close>: the client of the thread, the relay states it believes in, the supply state and
  the cached status. A handler takes the parsed JSON body (null when there is none) and returns the HTTP status
  and the JSON answer; an exception that leaves it is Flask's own 500. Flask, the routing table, the static files
  and the threads are not modelled; a number is rounded half to even, on the rationals that stand for floats.
\<close>

record 's dash =
  ds_tls :: "'s tls"
  ds_relay :: "int \<Rightarrow> bool"
  ds_psu_on :: json
  ds_state :: "(string \<times> json) list"

definition on_tls :: "('s tls, 'a) io \<Rightarrow> ('s dash, 'a) io" where
  "on_tls = zoom ds_tls (\<lambda>w s. s\<lparr>ds_tls := w\<rparr>)"

definition set_relay :: "int \<Rightarrow> bool \<Rightarrow> ('s dash, unit) io" where
  "set_relay slot on = modify (\<lambda>s. s\<lparr>ds_relay := (ds_relay s)(slot := on)\<rparr>)"

section \<open>The tables\<close>

definition ADC_NAMES :: "(string \<times> int) list" where
  "ADC_NAMES = [(''ADC1 (U9)'', 0), (''ADC2 (U10)'', 1), (''ADC3 (U11)'', 2)]"

definition DAC_NAMES :: "(string \<times> int) list" where
  "DAC_NAMES = [(''DAC1 (U12)'', 0), (''DAC2 (U13)'', 1), (''DAC3 (U14)'', 2), (''DAC4 (U15)'', 3)]"

definition CAN_NAMES :: "(string \<times> int) list" where
  "CAN_NAMES = [(''CAN1 (U17)'', 0), (''CAN2 (U19)'', 1), (''CAN3 (U21)'', 2)]"

definition CAN_MODES :: "(int \<times> string) list" where
  "CAN_MODES = [(0x00, ''normal''), (0x20, ''sleep''), (0x40, ''loopback''), (0x60, ''listenonly''), (0x80, ''config'')]"

definition INA_NAMES :: "(string \<times> int \<times> int) list" where
  "INA_NAMES = [(''MLC1'', 1, 0x40), (''MLC2'', 2, 0x41), (''MLC3'', 3, 0x44), (''MLC4'', 4, 0x45)]"

definition TCA_NAMES :: "(string \<times> int) list" where
  "TCA_NAMES = [(''U3 (0x20)'', 0x20), (''U6 (0x21)'', 0x21), (''U8 (0x22)'', 0x22)]"

definition CARRIER_RELAYS :: "(int \<times> int \<times> int \<times> int) list" where
  "CARRIER_RELAYS = [(1, 0x20, 0, 0), (2, 0x20, 0, 1), (3, 0x20, 0, 2), (4, 0x20, 0, 3)]"

definition MODE_NAME_TO_BYTE :: "(string \<times> int) list" where
  "MODE_NAME_TO_BYTE = [(''normal'', 0x00), (''sleep'', 0x20), (''loopback'', 0x40), (''listenonly'', 0x60), (''config'', 0x80)]"

definition init_relays :: "'s transport \<Rightarrow> ('s dash, unit) io" where
  "init_relays tr =
     bind (on_tls (hil_tca_set_direction tr 0x20 0 0x00)) (\<lambda>_.
     bind (on_tls (hil_tca_write_port tr 0x20 0 0x00)) (\<lambda>_. ret ()))"

section \<open>Polling\<close>

fun round_json :: "nat \<Rightarrow> json \<Rightarrow> json res" where
  "round_json n (JInt i) = Inr (JInt i)"
| "round_json n (JBool b) = Inr (JInt (of_bool b))"
| "round_json n (JNum r) = Inr (JNum (py_round n r))"
| "round_json n v = Inl (type_error ''type does not define __round__'' v)"

text \<open>\<open>round(v * 1000, n)\<close>.\<close>

definition milli :: "nat \<Rightarrow> json \<Rightarrow> rat res" where
  "milli n v = rbind (as_num v) (\<lambda>r. Inr (py_round n (r * 1000)))"

definition dash_safe :: "('s dash, json) io \<Rightarrow> json \<Rightarrow> ('s dash, json) io" where
  "dash_safe fn fallback = try_except fn is_exception (\<lambda>_. ret fallback)"

definition can_mode_name :: "json \<Rightarrow> string res" where
  "can_mode_name v =
     rbind (as_int ''unsupported operand type(s) for &'' v) (\<lambda>m.
       Inr (case map_of CAN_MODES (m AND 0xE0) of Some s \<Rightarrow> s | None \<Rightarrow> ''0x'' @ hexX 2 m))"

definition poll_can :: "'s transport \<Rightarrow> string \<times> int \<Rightarrow> ('s dash, json) io" where
  "poll_can tr = (\<lambda>(name, i).
     try_except
       (bind (on_tls (hil_can_get_mode tr i)) (\<lambda>m.
        bind (of_res (can_mode_name m)) (\<lambda>mode_str.
        bind (on_tls (hil_can_read_error_counters tr i)) (\<lambda>(tec, rec).
          ret (JObj [(''name'', JStr name), (''ok'', JBool True), (''mode'', JStr mode_str), (''tec'', tec), (''rec'', rec)])))))
       is_exception
       (\<lambda>_. ret (JObj [(''name'', JStr name), (''ok'', JBool False), (''mode'', JStr ''error''), (''tec'', JNull), (''rec'', JNull)])))"

definition poll_channels :: "(int \<Rightarrow> ('s tls, json) io) \<Rightarrow> string \<Rightarrow> int list \<Rightarrow> ('s dash, json) io" where
  "poll_channels rd name chs =
     try_except
       (bind (map_io (\<lambda>ch. bind (on_tls (rd ch)) (\<lambda>v. of_res (round_json 4 v))) chs) (\<lambda>volts.
          ret (JObj [(''name'', JStr name), (''ok'', JBool True), (''channels'', JList volts)])))
       is_exception
       (\<lambda>_. ret (JObj [(''name'', JStr name), (''ok'', JBool False), (''channels'', JList [])]))"

definition poll_adc :: "'s transport \<Rightarrow> string \<times> int \<Rightarrow> ('s dash, json) io" where
  "poll_adc tr = (\<lambda>(name, i). poll_channels (hil_adc_read_voltage tr i) name [0..7])"

definition poll_dac :: "'s transport \<Rightarrow> string \<times> int \<Rightarrow> ('s dash, json) io" where
  "poll_dac tr = (\<lambda>(name, i). poll_channels (hil_dac_get_voltage tr i) name [0..3])"

definition power_absent :: "string \<Rightarrow> bool \<Rightarrow> json" where
  "power_absent name relay = JObj [(''name'', JStr name), (''ok'', JBool False), (''present'', JBool False),
     (''relay_on'', JBool relay), (''overcurrent'', JBool False)]"

definition poll_power :: "'s transport \<Rightarrow> string \<times> int \<times> int \<Rightarrow> ('s dash, json) io" where
  "poll_power tr = (\<lambda>(name, slot, addr).
     try_except
       (bind (on_tls (hil_ina_is_present tr addr)) (\<lambda>present.
        if truthy present then
          bind (on_tls (hil_ina_current tr addr)) (\<lambda>c.
          bind (of_res (milli 2 c)) (\<lambda>current_mA.
          bind (on_tls (hil_ina_power tr addr)) (\<lambda>p.
          bind (of_res (milli 2 p)) (\<lambda>power_mW.
          bind (on_tls (hil_ina_shunt_voltage tr addr)) (\<lambda>v.
          bind (of_res (milli 3 v)) (\<lambda>shunt_mV.
          bind (reads ds_relay) (\<lambda>relay.
            ret (JObj [(''name'', JStr name), (''ok'', JBool True), (''present'', JBool True),
              (''current_mA'', JNum current_mA), (''power_mW'', JNum power_mW), (''shunt_mV'', JNum shunt_mV),
              (''relay_on'', JBool (relay slot)), (''overcurrent'', JBool (\<bar>current_mA\<bar> / 1000 > MLC_CURRENT_MAX_A))]))))))))
        else bind (reads ds_relay) (\<lambda>relay. ret (power_absent name (relay slot)))))
       is_exception
       (\<lambda>_. bind (reads ds_relay) (\<lambda>relay. ret (power_absent name (relay slot)))))"

definition io_absent :: "string \<Rightarrow> json" where
  "io_absent name = JObj [(''name'', JStr name), (''ok'', JBool False), (''present'', JBool False)]"

definition poll_io :: "'s transport \<Rightarrow> string \<times> int \<Rightarrow> ('s dash, json) io" where
  "poll_io tr = (\<lambda>(name, addr).
     try_except
       (bind (on_tls (hil_tca_is_present tr addr)) (\<lambda>present.
        if truthy present then
          bind (on_tls (hil_tca_read_port tr addr 0)) (\<lambda>p0.
          bind (on_tls (hil_tca_read_port tr addr 1)) (\<lambda>p1.
            ret (JObj [(''name'', JStr name), (''ok'', JBool True), (''present'', JBool True), (''port0'', p0), (''port1'', p1)])))
        else ret (io_absent name)))
       is_exception (\<lambda>_. ret (io_absent name)))"

definition poll_result :: "'s transport \<Rightarrow> string \<Rightarrow> ('s dash, (string \<times> json) list) io" where
  "poll_result tr now =
     bind (dash_safe (bind (on_tls (hil_psu_status tr)) (\<lambda>v. of_res (json_item ''pwr_ok'' v))) (JBool False)) (\<lambda>psu_ok.
     bind (map_io (poll_can tr) CAN_NAMES) (\<lambda>can_data.
     bind (map_io (poll_adc tr) ADC_NAMES) (\<lambda>adc_data.
     bind (map_io (poll_dac tr) DAC_NAMES) (\<lambda>dac_data.
     bind (map_io (poll_power tr) INA_NAMES) (\<lambda>power_data.
     bind (map_io (poll_io tr) TCA_NAMES) (\<lambda>io_data.
     bind (dash_safe (on_tls (hil_nrf_is_present tr)) (JBool False)) (\<lambda>nrf_present.
     bind (reads ds_psu_on) (\<lambda>psu_on.
       ret [(''timestamp'', JStr now), (''psu'', JObj [(''ok'', psu_ok), (''on'', psu_on)]), (''can'', JList can_data),
            (''adc'', JList adc_data), (''dac'', JList dac_data), (''power'', JList power_data), (''io'', JList io_data),
            (''nrf24'', JObj [(''present'', nrf_present)])]))))))))"

definition dash_poll :: "'s transport \<Rightarrow> string \<Rightarrow> ('s dash, unit) io" where
  "dash_poll tr now = bind (poll_result tr now) (\<lambda>result. modify (\<lambda>s. s\<lparr>ds_state := result\<rparr>))"

text \<open>One turn of \<open>_poll_loop\<close>.\<close>

definition poll_turn :: "'s transport \<Rightarrow> string \<Rightarrow> ('s dash, unit) io" where
  "poll_turn tr now = try_except (dash_poll tr now) is_exception (\<lambda>_. ret ())"

section \<open>The handlers\<close>

type_synonym response = "int \<times> json"

definition api_error :: "int \<Rightarrow> string \<Rightarrow> response" where
  "api_error code m = (code, JObj [(''error'', JStr m)])"

text \<open>Characters of the messages that a string literal cannot hold; the dash is its three bytes of UTF-8.\<close>

definition en_dash :: string where
  "en_dash = [CHR 0xE2, CHR 0x80, CHR 0x93]"

definition in_quotes :: "string \<Rightarrow> string" where
  "in_quotes s = CHR 0x27 # s @ [CHR 0x27]"

text \<open>\<open>request.get_json(...) or {}\<close>.\<close>

definition body_or_empty :: "json \<Rightarrow> json" where
  "body_or_empty v = (if truthy v then v else JObj [])"

fun exn_text :: "exn \<Rightarrow> string" where
  "exn_text (Exn c m) = m"
| "exn_text (RpcErr c m) = m"

definition or_500 :: "('s dash, response) io \<Rightarrow> ('s dash, response) io" where
  "or_500 m = try_except m is_exception (\<lambda>e. ret (api_error 500 (exn_text e)))"

definition api_status :: "('s dash, response) io" where
  "api_status = reads (\<lambda>s. (200, JObj (ds_state s)))"

definition api_carrier_power :: "'s transport \<Rightarrow> int \<Rightarrow> json \<Rightarrow> ('s dash, response) io" where
  "api_carrier_power tr slot body =
     (case map_of CARRIER_RELAYS slot of
        None \<Rightarrow> ret (api_error 400 (''invalid slot, use 1'' @ en_dash @ ''4''))
      | Some (addr, port, pin) \<Rightarrow>
          bind (of_res (data_get ''on'' (JBool False) (body_or_empty body))) (\<lambda>v.
          let on = truthy v
          in or_500
            (bind (on_tls (hil_tca_set_direction tr addr port 0x00)) (\<lambda>_.
             bind (on_tls (hil_tca_write_pin tr addr port pin on)) (\<lambda>_.
             bind (set_relay slot on) (\<lambda>_.
               ret (200, JObj [(''slot'', JInt slot), (''on'', JBool on)])))))))"

definition api_psu_power :: "'s transport \<Rightarrow> json \<Rightarrow> ('s dash, response) io" where
  "api_psu_power tr body =
     bind (of_res (data_get ''on'' (JBool False) (body_or_empty body))) (\<lambda>v.
     let on = truthy v
     in or_500
       (bind (on_tls (hil_psu_power tr on)) (\<lambda>result.
        bind (if on then of_res (data_get ''pwr_ok'' JNull result) else ret JNull) (\<lambda>ok.
          if on \<and> \<not> truthy ok then ret (api_error 500 ''PWR_OK not asserted after 5 s'')
          else bind (whenever (\<not> on) (modify (\<lambda>s. s\<lparr>ds_relay := (\<lambda>slot. if slot \<in> {1..4} then False else ds_relay s slot)\<rparr>))) (\<lambda>_.
               bind (modify (\<lambda>s. s\<lparr>ds_psu_on := JBool on\<rparr>)) (\<lambda>_. ret (200, JObj [(''on'', JBool on)])))))))"

definition api_dac_set :: "(string \<Rightarrow> rat option) \<Rightarrow> 's transport \<Rightarrow> int \<Rightarrow> int \<Rightarrow> json \<Rightarrow> ('s dash, response) io" where
  "api_dac_set fl tr i ch body =
     (if \<not> (0 \<le> i \<and> i < 4) then ret (api_error 400 (''invalid DAC index, use 0'' @ en_dash @ ''3''))
      else if \<not> (0 \<le> ch \<and> ch \<le> 3) then ret (api_error 400 (''invalid channel, use 0'' @ en_dash @ ''3''))
      else case rbind (json_item ''voltage'' (body_or_empty body)) (as_float fl) of
             Inl e \<Rightarrow> ret (api_error 400 (''missing or invalid '' @ in_quotes ''voltage'' @ '' field''))
           | Inr voltage \<Rightarrow>
               or_500 (bind (on_tls (hil_dac_set_voltage tr i ch voltage)) (\<lambda>_.
                 ret (200, JObj [(''idx'', JInt i), (''channel'', JInt ch), (''voltage'', JNum voltage)]))))"

definition api_tca_write_pin :: "'s transport \<Rightarrow> int \<Rightarrow> int \<Rightarrow> int \<Rightarrow> json \<Rightarrow> ('s dash, response) io" where
  "api_tca_write_pin tr addr port pin body =
     (if addr \<notin> {0x20, 0x21, 0x22} then ret (api_error 400 (''unknown TCA address 0x'' @ py_lower (hexX 2 addr)))
      else if port \<notin> {0, 1} \<or> \<not> (0 \<le> pin \<and> pin \<le> 7) then ret (api_error 400 (''port must be 0 or 1, pin must be 0'' @ en_dash @ ''7''))
      else bind (of_res (data_get ''value'' (JBool False) (body_or_empty body))) (\<lambda>v.
           let on = truthy v
           in or_500
             (bind (on_tls (hil_tca_set_direction tr addr port 0x00)) (\<lambda>_.
              bind (on_tls (hil_tca_write_pin tr addr port pin on)) (\<lambda>_.
                ret (200, JObj [(''addr'', JInt addr), (''port'', JInt port), (''pin'', JInt pin), (''value'', JBool on)]))))))"

definition mode_byte :: "json \<Rightarrow> int option res" where
  "mode_byte v =
     (case v of
        JStr s \<Rightarrow> Inr (map_of MODE_NAME_TO_BYTE s)
      | JList xs \<Rightarrow> Inl (type_error ''unhashable type'' v)
      | JObj kvs \<Rightarrow> Inl (type_error ''unhashable type'' v)
      | _ \<Rightarrow> Inr None)"

definition api_can_set_mode :: "'s transport \<Rightarrow> int \<Rightarrow> json \<Rightarrow> ('s dash, response) io" where
  "api_can_set_mode tr i body =
     (if \<not> (0 \<le> i \<and> i < 3) then ret (api_error 400 (''invalid CAN index, use 0'' @ en_dash @ ''2''))
      else bind (of_res (data_get ''mode'' (JStr []) (body_or_empty body))) (\<lambda>mode_str.
           bind (of_res (mode_byte mode_str)) (\<lambda>b. case b of
             None \<Rightarrow> ret (api_error 400 (''invalid mode, use: ['' @ py_join '', '' (map (in_quotes \<circ> fst) MODE_NAME_TO_BYTE) @ '']''))
           | Some m \<Rightarrow>
               or_500 (bind (on_tls (hil_can_set_mode tr i m)) (\<lambda>ok.
                 if \<not> truthy ok then ret (api_error 500 ''mode change timed out'')
                 else ret (200, JObj [(''idx'', JInt i), (''mode'', mode_str)]))))))"

text \<open>The trace tab: \<open>n\<close> is the parsed argument, None when it is no integer.\<close>

definition api_can_recent :: "tracer option \<Rightarrow> string option \<Rightarrow> int option \<Rightarrow> int \<times> trace_frame list" where
  "api_can_recent t bus n =
     (case t of
        None \<Rightarrow> (503, [])
      | Some s \<Rightarrow> (200, tr_recent (case bus of Some b \<Rightarrow> if b = [] then None else bus | None \<Rightarrow> None)
                     (case n of Some i \<Rightarrow> max 1 (min i 2000) | None \<Rightarrow> 200) s))"

datatype chunk = Connected | Data trace_frame | Keepalive

text \<open>One turn of the event stream: a waiting frame, then a keepalive every 15 s; \<open>now\<close> is the clock after the wait.\<close>

definition stream_turn :: "nat \<Rightarrow> rat \<Rightarrow> tracer \<times> rat \<Rightarrow> chunk list \<times> tracer \<times> rat" where
  "stream_turn k now = (\<lambda>(s, last_keepalive).
     (let (out, s') = (case find (\<lambda>q. su_key q = k) (tc_subs s) of
            Some q \<Rightarrow> (case su_queue q of f # fs \<Rightarrow> ([Data f], sub_get k s) | [] \<Rightarrow> ([], s))
          | None \<Rightarrow> ([], s))
      in if now - last_keepalive > 15 then (out @ [Keepalive], s', now) else (out, s', last_keepalive)))"

definition dash_init :: "'s tls \<Rightarrow> 's dash" where
  "dash_init t = \<lparr>ds_tls = t, ds_relay = (\<lambda>slot. False), ds_psu_on = JBool False, ds_state = []\<rparr>"

text \<open>What the program does before it serves.\<close>

definition dash_start :: "'s transport \<Rightarrow> string \<Rightarrow> ('s dash, unit) io" where
  "dash_start tr now =
     bind (try_except (bind (on_tls (hil_psu_status tr)) (\<lambda>v. bind (of_res (json_item ''ps_on'' v)) (\<lambda>b.
             modify (\<lambda>s. s\<lparr>ds_psu_on := b\<rparr>)))) is_exception (\<lambda>_. ret ())) (\<lambda>_.
     bind (init_relays tr) (\<lambda>_. dash_poll tr now))"

section \<open>A poll yields a complete status\<close>

text \<open>Programs that leave everything but the broker client alone, with a postcondition that may mention it.\<close>

definition cached :: "'s dash \<Rightarrow> (int \<Rightarrow> bool) \<times> json \<times> (string \<times> json) list" where
  "cached s = (ds_relay s, ds_psu_on s, ds_state s)"

definition yields :: "('s dash, 'a) io \<Rightarrow> ((int \<Rightarrow> bool) \<times> json \<times> (string \<times> json) list \<Rightarrow> 'a res \<Rightarrow> bool) \<Rightarrow> bool" where
  "yields m Q \<longleftrightarrow> (\<forall>s. cached (snd (m s)) = cached s \<and> Q (cached s) (fst (m s)))"

named_theorems yields_intros "rules for what a poll yields"

lemma yieldsD:
  assumes "yields m Q" "m s = (r, t)"
  shows "cached t = cached s" "Q (cached s) r"
  using assms unfolding yields_def by (metis fst_conv snd_conv)+

lemma yields_weaken: "yields m P \<Longrightarrow> (\<And>c r. P c r \<Longrightarrow> Q c r) \<Longrightarrow> yields m Q"
  unfolding yields_def by blast

lemma yields_on_tls: "(\<And>c r. Q c r) \<Longrightarrow> yields (on_tls m) Q"
  by (auto simp: yields_def on_tls_def cached_def io_simps split: prod.split)

lemma yields_of_res: "(\<And>c. Q c r) \<Longrightarrow> yields (of_res r) Q"
  by (simp add: yields_def io_simps)

lemma yields_ret: "(\<And>c. Q c (Inr x)) \<Longrightarrow> yields (ret x) Q"
  by (simp add: yields_def io_simps)

lemma yields_relay: "(\<And>c. Q c (Inr (fst c))) \<Longrightarrow> yields (reads ds_relay) Q"
  by (simp add: yields_def cached_def io_simps) (metis fst_conv)

lemma yields_bind:
  assumes "yields m P" "\<And>x. yields (f x) (R x)"
    and "\<And>c e. P c (Inl e) \<Longrightarrow> Q c (Inl e)"
    and "\<And>c x r. P c (Inr x) \<Longrightarrow> R x c r \<Longrightarrow> Q c r"
  shows "yields (bind m f) Q"
  unfolding yields_def
proof
  fix s
  obtain r t where m: "m s = (r, t)" by (rule prod.exhaust)
  note 1 = yieldsD [OF assms(1) m]
  show "cached (snd (bind m f s)) = cached s \<and> Q (cached s) (fst (bind m f s))"
  proof (cases r)
    case (Inl e)
    with m 1 assms(3) show ?thesis by (simp add: io_simps)
  next
    case (Inr x)
    obtain r2 u where f: "f x t = (r2, u)" by (rule prod.exhaust)
    with yieldsD [OF assms(2) f] 1 Inr m assms(4) show ?thesis by (simp add: io_simps)
  qed
qed

text \<open>A reading: whatever was raised or returned.\<close>

abbreviation any :: "'c \<Rightarrow> 'r \<Rightarrow> bool" where
  "any \<equiv> \<lambda>c r. True"

lemma yields_any_bind: "yields m any \<Longrightarrow> (\<And>x. yields (f x) (\<lambda>c r. Q c r)) \<Longrightarrow> (\<And>c e. Q c (Inl e)) \<Longrightarrow> yields (bind m f) Q"
  by (rule yields_bind [where P = any and R = "\<lambda>x. Q"]) auto

lemma yields_if: "(b \<Longrightarrow> yields m Q) \<Longrightarrow> (\<not> b \<Longrightarrow> yields n Q) \<Longrightarrow> yields (if b then m else n) Q"
  by simp

text \<open>The entries of a status: a guarded reading never raises an \<open>Exception\<close>.\<close>

definition caught :: "('c \<Rightarrow> 'a \<Rightarrow> bool) \<Rightarrow> 'c \<Rightarrow> 'a res \<Rightarrow> bool" where
  "caught Q c r = (case r of Inr v \<Rightarrow> Q c v | Inl e \<Rightarrow> \<not> is_exception e)"

definition raises_or :: "('c \<Rightarrow> 'a \<Rightarrow> bool) \<Rightarrow> 'c \<Rightarrow> 'a res \<Rightarrow> bool" where
  "raises_or Q c r = (case r of Inr v \<Rightarrow> Q c v | Inl e \<Rightarrow> True)"

lemma outcome_simps [simp]:
  "caught Q c (Inr v) = Q c v" "caught Q c (Inl e) = (\<not> is_exception e)"
  "raises_or Q c (Inr v) = Q c v" "raises_or Q c (Inl e)"
  by (simp_all add: caught_def raises_or_def)

lemma yields_guarded:
  assumes "yields m (raises_or Q)" "\<And>e. yields (h e) (caught Q)"
  shows "yields (try_except m is_exception h) (caught Q)"
  unfolding yields_def
proof
  fix s
  obtain r t where m: "m s = (r, t)" by (rule prod.exhaust)
  note 1 = yieldsD [OF assms(1) m]
  show "cached (snd (try_except m is_exception h s)) = cached s \<and> caught Q (cached s) (fst (try_except m is_exception h s))"
  proof (cases r)
    case (Inl e)
    obtain r2 u where h: "h e t = (r2, u)" by (rule prod.exhaust)
    with yieldsD [OF assms(2) h] 1 Inl m show ?thesis by (simp add: io_simps)
  qed (use m 1 in \<open>simp add: io_simps\<close>)
qed

lemma yields_map_io:
  assumes "\<And>x. yields (f x) (caught (\<lambda>c. Q c x))"
  shows "yields (map_io f xs) (caught (\<lambda>c. list_all2 (Q c) xs))"
proof (induction xs)
  case (Cons x xs)
  have rest: "yields (bind (map_io f xs) (\<lambda>ys. ret (y # ys))) (caught (\<lambda>c zs. \<exists>ys. zs = y # ys \<and> list_all2 (Q c) xs ys))" for y
    by (rule yields_bind [OF Cons, where R = "\<lambda>ys c r. r = Inr (y # ys)"]) (auto simp: yields_ret)
  show ?case unfolding map_io.simps
    by (rule yields_bind [OF assms rest]) (auto simp: caught_def split: sum.splits)
qed (simp add: yields_ret)

section \<open>The shape of the entries\<close>

fun item :: "string \<Rightarrow> json \<Rightarrow> json option" where
  "item k (JObj kvs) = map_of kvs k"
| "item k v = None"

fun keys :: "json \<Rightarrow> string list" where
  "keys (JObj kvs) = map fst kvs"
| "keys v = []"

fun is_number :: "json \<Rightarrow> bool" where
  "is_number (JInt i) = True"
| "is_number (JNum r) = True"
| "is_number v = False"

definition can_entry :: "string \<times> int \<Rightarrow> json \<Rightarrow> bool" where
  "can_entry dev v \<longleftrightarrow> keys v = [''name'', ''ok'', ''mode'', ''tec'', ''rec''] \<and> item ''name'' v = Some (JStr (fst dev))"

text \<open>All the channels of a converter, or none of them.\<close>

definition channels_entry :: "nat \<Rightarrow> string \<times> int \<Rightarrow> json \<Rightarrow> bool" where
  "channels_entry n dev v \<longleftrightarrow>
     keys v = [''name'', ''ok'', ''channels''] \<and> item ''name'' v = Some (JStr (fst dev)) \<and>
     (case item ''channels'' v of
        Some (JList volts) \<Rightarrow> list_all is_number volts \<and> length volts = (if item ''ok'' v = Some (JBool True) then n else 0)
      | _ \<Rightarrow> False)"

text \<open>The relay is the one the dashboard believes in; the flag says whether the current is over the limit.\<close>

definition power_entry :: "(int \<Rightarrow> bool) \<Rightarrow> string \<times> int \<times> int \<Rightarrow> json \<Rightarrow> bool" where
  "power_entry relay dev v \<longleftrightarrow>
     item ''name'' v = Some (JStr (fst dev)) \<and> item ''ok'' v = item ''present'' v \<and>
     item ''relay_on'' v = Some (JBool (relay (fst (snd dev)))) \<and>
     item ''overcurrent'' v = Some (JBool (case item ''current_mA'' v of
        Some (JNum c) \<Rightarrow> \<bar>c\<bar> > 1000 * MLC_CURRENT_MAX_A | _ \<Rightarrow> False))"

definition io_entry :: "string \<times> int \<Rightarrow> json \<Rightarrow> bool" where
  "io_entry dev v \<longleftrightarrow> item ''name'' v = Some (JStr (fst dev)) \<and> item ''ok'' v = item ''present'' v \<and>
     (item ''ok'' v = Some (JBool True) \<longleftrightarrow> item ''port0'' v \<noteq> None)"


lemma reading: "yields (on_tls m) (raises_or any)"
  by (rule yields_on_tls) (simp add: raises_or_def split: sum.split)

text \<open>Steps of a guarded reading: what may raise needs no postcondition.\<close>

lemma read_then:
  "(\<And>x. yields (f x) (raises_or Q)) \<Longrightarrow> yields (bind (on_tls m) f) (raises_or Q)"
  by (rule yields_bind [OF reading]) auto

lemma convert_then:
  "(\<And>x. r = Inr x \<Longrightarrow> yields (f x) (raises_or Q)) \<Longrightarrow> yields (bind (of_res r) f) (raises_or Q)"
  by (cases r) (auto simp: yields_def io_simps)

lemma relay_then:
  "(\<And>x. yields (f x) (\<lambda>c r. fst c = x \<longrightarrow> raises_or Q c r)) \<Longrightarrow> yields (bind (reads ds_relay) f) (raises_or Q)"
  by (rule yields_bind [where P = "\<lambda>c r. r = Inr (fst c)" and R = "\<lambda>x c r. fst c = x \<longrightarrow> raises_or Q c r"])
    (auto intro: yields_relay)

lemma poll_can_entry: "yields (poll_can tr dev) (caught (\<lambda>c. can_entry dev))"
  unfolding poll_can_def
  by (cases dev) (auto intro!: yields_guarded read_then convert_then yields_ret simp: can_entry_def)

lemma round_json_number: "round_json n v = Inr w \<Longrightarrow> is_number w"
  by (cases v) auto

lemma volts_list: "yields (map_io (\<lambda>ch. bind (on_tls (rd ch)) (\<lambda>v. of_res (round_json 4 v))) chs)
    (raises_or (\<lambda>c volts. list_all is_number volts \<and> length volts = length chs))"
proof (induction chs)
  case (Cons ch chs)
  have one: "yields (bind (on_tls (rd ch)) (\<lambda>v. of_res (round_json 4 v))) (raises_or (\<lambda>c. is_number))"
    by (rule read_then, rule yields_of_res) (auto simp: raises_or_def round_json_number split: sum.split)
  have rest: "yields (bind (map_io (\<lambda>ch. bind (on_tls (rd ch)) (\<lambda>v. of_res (round_json 4 v))) chs) (\<lambda>ys. ret (y # ys)))
      (raises_or (\<lambda>c zs. \<exists>ys. zs = y # ys \<and> list_all is_number ys \<and> length ys = length chs))" for y
    by (rule yields_bind [OF Cons, where R = "\<lambda>ys c r. r = Inr (y # ys)"]) (auto simp: yields_ret)
  show ?case unfolding map_io.simps
    by (rule yields_bind [OF one rest]) (auto simp: raises_or_def split: sum.splits)
qed (simp add: yields_ret)

lemma poll_channels_entry: "yields (poll_channels rd (fst dev) chs) (caught (\<lambda>c. channels_entry (length chs) dev))"
  unfolding poll_channels_def
proof (rule yields_guarded)
  show "yields (bind (map_io (\<lambda>ch. bind (on_tls (rd ch)) (\<lambda>v. of_res (round_json 4 v))) chs) (\<lambda>volts.
      ret (JObj [(''name'', JStr (fst dev)), (''ok'', JBool True), (''channels'', JList volts)])))
     (raises_or (\<lambda>c. channels_entry (length chs) dev))"
    by (rule yields_bind [OF volts_list, where R = "\<lambda>volts c r. r = Inr (JObj [(''name'', JStr (fst dev)), (''ok'', JBool True), (''channels'', JList volts)])"])
      (auto simp: yields_ret channels_entry_def)
qed (auto intro!: yields_ret simp: channels_entry_def)

lemma poll_adc_entry: "yields (poll_adc tr dev) (caught (\<lambda>c. channels_entry 8 dev))"
  using poll_channels_entry [of "hil_adc_read_voltage tr (snd dev)" dev "[0..7]"] by (simp add: poll_adc_def split_beta)

lemma poll_dac_entry: "yields (poll_dac tr dev) (caught (\<lambda>c. channels_entry 4 dev))"
  using poll_channels_entry [of "hil_dac_get_voltage tr (snd dev)" dev "[0..3]"] by (simp add: poll_dac_def split_beta)

lemma power_absent_entry: "power_entry relay (name, slot, addr) (power_absent name (relay slot))"
  by (simp add: power_entry_def power_absent_def)

lemma relay_absent: "yields (bind (reads ds_relay) (\<lambda>relay. ret (power_absent name (relay slot))))
    (\<lambda>c r. \<exists>v. r = Inr v \<and> power_entry (fst c) (name, slot, addr) v)"
  by (rule yields_bind [where P = "\<lambda>c r. r = Inr (fst c)" and R = "\<lambda>relay c r. r = Inr (power_absent name (relay slot))"])
    (auto intro!: yields_relay yields_ret simp: power_absent_entry)

lemma poll_power_entry: "yields (poll_power tr dev) (caught (\<lambda>c. power_entry (fst c) dev))"
proof -
  obtain name slot addr where dev: "dev = (name, slot, addr)" by (cases dev)
  have absent: "yields (bind (reads ds_relay) (\<lambda>relay. ret (power_absent name (relay slot))))
      (raises_or (\<lambda>c. power_entry (fst c) dev))"
    "yields (bind (reads ds_relay) (\<lambda>relay. ret (power_absent name (relay slot)))) (caught (\<lambda>c. power_entry (fst c) dev))"
    by (rule yields_weaken [OF relay_absent [of name slot addr]]; auto simp: dev)+
  show ?thesis unfolding poll_power_def dev prod.case
    by (rule yields_guarded)
      (auto intro!: read_then convert_then relay_then yields_ret yields_if absent [unfolded dev] simp: power_entry_def)
qed

lemma poll_io_entry: "yields (poll_io tr dev) (caught (\<lambda>c. io_entry dev))"
  unfolding poll_io_def
  by (cases dev) (auto intro!: yields_guarded read_then yields_if yields_ret simp: io_entry_def io_absent_def)


section \<open>The status\<close>

definition listed :: "(string \<times> json) list \<Rightarrow> string \<Rightarrow> ('d \<Rightarrow> json \<Rightarrow> bool) \<Rightarrow> 'd list \<Rightarrow> bool" where
  "listed kvs k entry devs = (case map_of kvs k of Some (JList vs) \<Rightarrow> list_all2 entry devs vs | _ \<Rightarrow> False)"

definition complete_status :: "(int \<Rightarrow> bool) \<Rightarrow> json \<Rightarrow> string \<Rightarrow> (string \<times> json) list \<Rightarrow> bool" where
  "complete_status relay psu_on now kvs \<longleftrightarrow>
     map fst kvs = [''timestamp'', ''psu'', ''can'', ''adc'', ''dac'', ''power'', ''io'', ''nrf24''] \<and>
     map_of kvs ''timestamp'' = Some (JStr now) \<and>
     Option.bind (map_of kvs ''psu'') (item ''on'') = Some psu_on \<and>
     listed kvs ''can'' can_entry CAN_NAMES \<and>
     listed kvs ''adc'' (channels_entry 8) ADC_NAMES \<and>
     listed kvs ''dac'' (channels_entry 4) DAC_NAMES \<and>
     listed kvs ''power'' (power_entry relay) INA_NAMES \<and>
     listed kvs ''io'' io_entry TCA_NAMES"

lemma yields_safe: "yields m any \<Longrightarrow> yields (dash_safe m v) (caught any)"
  unfolding dash_safe_def
  by (rule yields_guarded) (auto intro!: yields_ret elim: yields_weaken simp: raises_or_def split: sum.split)

lemma caught_then:
  assumes "yields m (caught P)" "\<And>x. yields (f x) (\<lambda>c r. P c x \<longrightarrow> caught Q c r)"
  shows "yields (bind m f) (caught Q)"
  by (rule yields_bind [OF assms]) auto

lemma caught_then':
  assumes "yields m (caught P)" "\<And>x. yields (f x) (\<lambda>c r. A c \<and> P c x \<longrightarrow> caught Q c r)"
  shows "yields (bind m f) (\<lambda>c r. A c \<longrightarrow> caught Q c r)"
  by (rule yields_bind [OF assms]) auto

lemma psu_on_read: "yields (reads ds_psu_on) (caught (\<lambda>c x. x = fst (snd c)))"
  by (simp add: yields_def cached_def io_simps)

lemma poll_result_complete: "yields (poll_result tr now) (caught (\<lambda>c. complete_status (fst c) (fst (snd c)) now))"
proof -
  have psu: "yields (bind (on_tls (hil_psu_status tr)) (\<lambda>v. of_res (json_item ''pwr_ok'' v))) any"
    by (rule yields_bind [OF reading]) (auto intro: yields_of_res)
  show ?thesis unfolding poll_result_def
    by (rule caught_then [OF yields_safe [OF psu]]
        caught_then' [OF yields_map_io [OF poll_can_entry]]
        caught_then' [OF yields_map_io [OF poll_adc_entry]]
        caught_then' [OF yields_map_io [OF poll_dac_entry]]
        caught_then' [OF yields_map_io [OF poll_power_entry]]
        caught_then' [OF yields_map_io [OF poll_io_entry]]
        caught_then' [OF yields_safe [OF yields_on_tls]] caught_then' [OF psu_on_read] TrueI)+
      (auto intro!: yields_ret simp: complete_status_def listed_def)
qed

text \<open>C19: whatever the broker answers, a poll either replaces the cached status by a complete one (each device
  with an entry of its own shape, in the order of the tables, with the relay states and supply state the
  dashboard believes in and the over-current flag of the measured current), or it ends in an exception that is
  not an \<open>Exception\<close> and leaves the status; it never changes the relay and supply states.\<close>

theorem poll_status_complete:
  "case dash_poll tr now s of
     (Inr u, s') \<Rightarrow> complete_status (ds_relay s) (ds_psu_on s) now (ds_state s') \<and>
        ds_relay s' = ds_relay s \<and> ds_psu_on s' = ds_psu_on s
   | (Inl e, s') \<Rightarrow> \<not> is_exception e \<and> cached s' = cached s"
proof -
  obtain r t where p: "poll_result tr now s = (r, t)" by (rule prod.exhaust)
  from yieldsD [OF poll_result_complete p] show ?thesis
    by (cases r) (auto simp: dash_poll_def p cached_def io_simps)
qed

section \<open>The relays behind the dashboard\<close>

text \<open>
  A broker over the fake backend whose calls may fail without effect: the transport pairs its state with the
  fates of the connections and calls to come. A connection can be refused; a call can find the connection closed
  or be answered with an error (an expander that does not acknowledge). When no fates are left all goes well.
\<close>

datatype fate = Works | Closed | Refused

fun fate_of :: "fate list \<Rightarrow> fate" where
  "fate_of [] = Works"
| "fate_of (f # fs) = f"

definition flaky_exchange :: "(string \<Rightarrow> rat option) \<Rightarrow> wire_line \<Rightarrow> (fake_state \<times> fate list, wire_line option) io" where
  "flaky_exchange fl line = (\<lambda>(w, fs).
     (case fate_of fs of
        Works \<Rightarrow> map_prod id (\<lambda>w'. (w', tl fs)) (broker_link (fake_table fl) line w)
      | Closed \<Rightarrow> (Inr None, (w, tl fs))
      | Refused \<Rightarrow> (Inr (Some (error_line (request_id line) ''internal_error'' ''OSError: [Errno 121] Remote I/O error'')), (w, tl fs))))"

definition flaky_tr :: "(string \<Rightarrow> rat option) \<Rightarrow> (fake_state \<times> fate list) transport" where
  "flaky_tr fl =
     \<lparr>tr_connect = (\<lambda>(w, fs). (if fate_of fs = Works then Inr 0 else Inl (Exn ConnectionError ''refused''), (w, tl fs))),
      tr_exchange = \<lambda>h. flaky_exchange fl, tr_close = \<lambda>h. ret ()\<rparr>"

lemma broker_call_lift:
  assumes "xfer (request (JInt (k + 1)) n kws) (w, fs) = (x, (w1, fs1))" "link (request (JInt (k + 1)) n kws) w = (x, w1)"
  shows "broker_call xfer n kws ((w, fs), k) = map_prod id (map_prod (\<lambda>v. (v, fs1)) id) (broker_call link n kws (w, k))"
  using assms
  by (auto simp: broker_call_def on_backend_def io_simps split: sum.split option.split json.split)

text \<open>A call either fails without effect or is the method of the backend.\<close>

definition call_outcome :: "(exn + json) \<times> fake_state \<Rightarrow> fake_state \<Rightarrow> json res \<Rightarrow> fake_state \<Rightarrow> bool" where
  "call_outcome x w r w' \<longleftrightarrow>
     (\<exists>e. r = Inl e \<and> is_exception e \<and> w' = w) \<or>
     (case x of (Inr v, w1) \<Rightarrow> r = Inr v \<and> w' = w1 | (Inl e, w1) \<Rightarrow> r = Inl (client_exn e) \<and> w' = w1)"

lemma flaky_call:
  assumes "map_of (fake_table fl) n = Some (sg, fn)" "bind_args sg kws = Inr vs"
    and "broker_call (flaky_exchange fl) n kws ((w, fs), k) = (r, ((w', fs'), k'))"
  shows "call_outcome (fn vs w) w r w'"
proof (cases "fate_of fs")
  case Works
  obtain x w1 where l: "broker_link (fake_table fl) (request (JInt (k + 1)) n kws) w = (x, w1)" by force
  with Works have "flaky_exchange fl (request (JInt (k + 1)) n kws) (w, fs) = (x, (w1, tl fs))"
    by (simp add: flaky_exchange_def)
  from broker_call_lift [where xfer = "flaky_exchange fl" and link = "broker_link (fake_table fl)", OF this l] assms(3)
  show ?thesis
    by (auto simp: broker_call_eq [OF fake_no_exit assms(1,2)] call_outcome_def split: prod.splits sum.splits)
next
  case Closed
  with assms(3) show ?thesis
    by (auto simp: broker_call_def on_backend_def flaky_exchange_def call_outcome_def io_simps)
next
  case Refused
  with assms(3) show ?thesis
    by (auto simp: broker_call_def on_backend_def flaky_exchange_def error_line_def call_outcome_def get_or_none_def io_simps)
qed

lemma hil_call_flaky:
  assumes "map_of (fake_table fl) n = Some (sg, fn)" "bind_args sg kws = Inr vs" "hil_call (flaky_tr fl) n kws s = (r, t)"
  shows "call_outcome (fn vs (fst (tl_world s))) (fst (tl_world s)) r (fst (tl_world t))"
proof -
  obtain w fs where w: "tl_world s = (w, fs)" by force
  have cached: "call_outcome (fn vs w) w r (fst (tl_world t))"
    if c: "tl_client u = Some (h, k)" and u: "tl_world u = (w, fs')"
      and run: "try_except (client_call (flaky_tr fl) h n kws) is_disconnect (drop_cached (flaky_tr fl)) u = (r, t)" for u h k fs'
  proof -
    obtain q w1 fs1 k1 where b: "broker_call (flaky_exchange fl) n kws ((w, fs'), k) = (q, ((w1, fs1), k1))"
      by (metis prod.collapse)
    from flaky_call [OF assms(1,2) b] run c u b show ?thesis
      by (cases q) (auto simp: client_call_def flaky_tr_def drop_cached_def close_client_def on_link_def set_client_def
          io_simps split: if_splits)
  qed
  show ?thesis
  proof (cases "tl_client s")
    case (Some c)
    obtain h k where "c = (h, k)" by force
    with Some cached [of s h k fs] w assms(3) show ?thesis
      by (simp add: hil_call_def get_client_def io_simps)
  next
    case None
    show ?thesis
    proof (cases "fate_of fs = Works")
      case True
      with None cached [of "s\<lparr>tl_world := (w, tl fs), tl_client := Some (0, 0)\<rparr>" 0 0 "tl fs"] w assms(3)
      show ?thesis by (simp add: hil_call_def get_client_def on_link_def set_client_def flaky_tr_def io_simps)
    next
      case False
      with None w assms(3) show ?thesis
        by (auto simp: hil_call_def get_client_def on_link_def flaky_tr_def drop_cached_def close_client_def set_client_def
            is_disconnect_def call_outcome_def io_simps)
    qed
  qed
qed

lemma fake_set_direction_ports:
  assumes "a \<in> set TCA9555_ADDRS" "p \<in> {0, 1}"
  obtains w where "fake_tca_set_direction (JInt a) (JInt p) (JInt m) s = (Inr JNull, w)"
    "fk_tca_ports w = fk_tca_ports s" "fake_inv s \<Longrightarrow> fake_inv w"
proof -
  obtain r w where w: "fake_tca_set_direction (JInt a) (JInt p) (JInt m) s = (r, w)" by (rule prod.exhaust)
  moreover from this have "r = Inr JNull" "fk_tca_ports w = fk_tca_ports s"
    using assms by (auto simp: fake_tca_set_direction_def ticked_def fake_tick_def check_tca_def check_addr_def none_def
        set_dir_def io_simps)
  moreover have "fake_inv s \<Longrightarrow> fake_inv w" using keepsD [OF keeps_fake_tca(4)] w by (metis snd_conv)
  ultimately show thesis using that by blast
qed

text \<open>The calls of the handlers, each of which may fail without effect.\<close>

lemma hil_unit_call: "hil_unit m s = (r, t) \<Longrightarrow> \<exists>q. m s = (q, t) \<and> r = (case q of Inl e \<Rightarrow> Inl e | Inr x \<Rightarrow> Inr ())"
  by (cases "m s"; cases "fst (m s)") (auto simp: hil_unit_def io_simps)

lemma flaky_set_direction:
  assumes "fake_inv (fst (tl_world s))" "a \<in> set TCA9555_ADDRS" "p \<in> {0, 1}"
    and "hil_tca_set_direction (flaky_tr fl) a p m s = (r, t)"
  shows "fake_inv (fst (tl_world t)) \<and> fk_tca_ports (fst (tl_world t)) = fk_tca_ports (fst (tl_world s)) \<and>
     (\<forall>e. r = Inl e \<longrightarrow> is_exception e)"
proof -
  have tab: "map_of (fake_table fl) ''tca.set_direction'' = Some (sig_of [''addr'', ''port'', ''mask''], call3 fake_tca_set_direction)"
    by (simp add: build_method_table_def fake_backend_def)
  obtain q where q: "hil_call (flaky_tr fl) ''tca.set_direction'' [(''addr'', JInt a), (''port'', JInt p), (''mask'', JInt m)] s = (q, t)"
      "r = (case q of Inl e \<Rightarrow> Inl e | Inr x \<Rightarrow> Inr ())"
    using hil_unit_call assms(4) unfolding hil_tca_set_direction_def by blast
  obtain w where w: "fake_tca_set_direction (JInt a) (JInt p) (JInt m) (fst (tl_world s)) = (Inr JNull, w)"
    "fk_tca_ports w = fk_tca_ports (fst (tl_world s))" "fake_inv w"
    using fake_set_direction_ports [OF assms(2,3)] assms(1) by metis
  from hil_call_flaky [OF tab _ q(1), of "[JInt a, JInt p, JInt m]"] w assms(1) q(2) show ?thesis
    by (auto simp: bind_args_def sig_of_def call_outcome_def)
qed

lemma flaky_write_pin:
  assumes "fake_inv (fst (tl_world s))" "a \<in> set TCA9555_ADDRS" "p \<in> {0, 1}" "k < 8"
    and "hil_tca_write_pin (flaky_tr fl) a p (int k) v s = (r, t)"
  shows "r = Inr () \<and> fake_inv (fst (tl_world t)) \<and> (\<forall>i\<in>fake_pin_ports. \<forall>k'<8. bit (fake_port (fst (tl_world t)) i) k' =
        (if i = (a, p) \<and> k' = k then v else bit (fake_port (fst (tl_world s)) i) k')) \<or>
     (\<exists>e. r = Inl e \<and> is_exception e) \<and> fst (tl_world t) = fst (tl_world s)"
proof -
  let ?w = "fst (tl_world s)"
  have tab: "map_of (fake_table fl) ''tca.write_pin'' =
      Some (sig_of [''addr'', ''port'', ''pin'', ''value''], call4 fake_tca_write_pin)"
    by (simp add: build_method_table_def fake_backend_def)
  obtain q where q: "hil_call (flaky_tr fl) ''tca.write_pin''
       [(''addr'', JInt a), (''port'', JInt p), (''pin'', JInt (int k)), (''value'', JBool v)] s = (q, t)"
      "r = (case q of Inl e \<Rightarrow> Inl e | Inr x \<Rightarrow> Inr ())"
    using hil_unit_call assms(5) unfolding hil_tca_write_pin_def by blast
  have i: "(a, p) \<in> fake_pin_ports" using assms by (simp add: fake_pin_ports_def)
  have "fake_tca_write_pin (JInt a) (JInt p) (JInt (int k)) (JBool v) ?w = (Inr JNull, fake_write (a, p) k v ?w)"
    using fake_write_pin_eq [OF assms(1-3), of k v] by (simp add: fake_write_def)
  with hil_call_flaky [OF tab _ q(1), of "[JInt a, JInt p, JInt (int k), JBool v]"] q(2)
  have "r = Inr () \<and> fst (tl_world t) = fake_write (a, p) k v ?w \<or> (\<exists>e. r = Inl e \<and> is_exception e) \<and> fst (tl_world t) = ?w"
    by (auto simp: bind_args_def sig_of_def call_outcome_def)
  with fake_pins.wr_ok [OF assms(1) i assms(4)] fake_pins.wr_bit [OF assms(1) i _ assms(4)] show ?thesis by auto
qed

lemma flaky_clear_port:
  assumes "fake_inv (fst (tl_world s))" "a \<in> set TCA9555_ADDRS" "p \<in> {0, 1}"
    and "hil_tca_write_port (flaky_tr fl) a p 0 s = (Inr (), t)"
  shows "fake_inv (fst (tl_world t)) \<and> fake_port (fst (tl_world t)) (a, p) = 0"
proof -
  let ?w = "fst (tl_world s)"
  have tab: "map_of (fake_table fl) ''tca.write_port'' = Some (sig_of [''addr'', ''port'', ''value''], call3 fake_tca_write_port)"
    by (simp add: build_method_table_def fake_backend_def)
  obtain q where q: "hil_call (flaky_tr fl) ''tca.write_port'' [(''addr'', JInt a), (''port'', JInt p), (''value'', JInt 0)] s = (q, t)"
      "Inr () = (case q of Inl e \<Rightarrow> Inl e | Inr x \<Rightarrow> Inr ())"
    using hil_unit_call assms(4) unfolding hil_tca_write_port_def by blast
  obtain x w' where w': "fake_tca_write_port (JInt a) (JInt p) (JInt 0) ?w = (x, w')" by (rule prod.exhaust)
  moreover from this have "x = Inr JNull" "fake_port w' (a, p) = 0"
    using assms by (auto simp: fake_tca_write_port_def ticked_def fake_tick_def check_tca_def check_addr_def none_def
        set_port_def fake_port_def io_simps)
  moreover have "fake_inv w'" using keepsD [OF keeps_fake_tca(8) assms(1)] w' by (metis snd_conv)
  ultimately show ?thesis
    using hil_call_flaky [OF tab _ q(1), of "[JInt a, JInt p, JInt 0]"] q(2)
    by (auto simp: bind_args_def sig_of_def call_outcome_def)
qed

lemma flaky_psu_power:
  assumes "fake_inv (fst (tl_world s))" "hil_psu_power (flaky_tr fl) on s = (r, t)"
  shows "fake_inv (fst (tl_world t)) \<and> fk_tca_ports (fst (tl_world t)) = fk_tca_ports (fst (tl_world s)) \<and>
     (\<forall>e. r = Inl e \<longrightarrow> is_exception e)"
proof -
  have tab: "map_of (fake_table fl) ''psu.power'' = Some (sig_of [''on''], call1 fake_psu_power)"
    by (simp add: build_method_table_def fake_backend_def)
  from hil_call_flaky [OF tab _ assms(2) [unfolded hil_psu_power_def], of "[JBool on]"] assms(1) show ?thesis
    by (auto simp: bind_args_def sig_of_def call_outcome_def fake_psu_power_def fake_psu_status_def ticked_def
        fake_tick_def fake_inv_def io_simps)
qed

datatype dash_request =
    Carrier_power int json
  | Psu_power json
  | Tca_pin int int int json

definition serve_request :: "'s transport \<Rightarrow> dash_request \<Rightarrow> ('s dash, response) io" where
  "serve_request tr req =
     (case req of
        Carrier_power slot body \<Rightarrow> api_carrier_power tr slot body
      | Psu_power body \<Rightarrow> api_psu_power tr body
      | Tca_pin addr port pin body \<Rightarrow> api_tca_write_pin tr addr port pin body)"

definition after_requests :: "'s transport \<Rightarrow> dash_request list \<Rightarrow> 's dash \<Rightarrow> 's dash" where
  "after_requests tr reqs s = foldl (\<lambda>s req. snd (serve_request tr req s)) s reqs"

text \<open>The dashboard's opinion of each carrier relay is the latch that drives it.\<close>

definition relays_agree :: "(int \<Rightarrow> bool) \<Rightarrow> fake_state \<Rightarrow> bool" where
  "relays_agree relay w \<longleftrightarrow> list_all (\<lambda>(slot, a, p, pin). relay slot = bit (fake_port w (a, p)) (nat pin)) CARRIER_RELAYS"

text \<open>The requests that keep it: every one but switching the supply off and driving a relay pin as a bare pin.\<close>

definition relay_safe :: "dash_request \<Rightarrow> bool" where
  "relay_safe req =
     (case req of
        Carrier_power slot body \<Rightarrow> True
      | Psu_power body \<Rightarrow> (case data_get ''on'' (JBool False) (body_or_empty body) of Inr v \<Rightarrow> truthy v | Inl e \<Rightarrow> True)
      | Tca_pin addr port pin body \<Rightarrow> \<not> (addr = 0x20 \<and> port = 0 \<and> 0 \<le> pin \<and> pin < 4))"

definition live :: "(fake_state \<times> fate list) dash \<Rightarrow> bool" where
  "live s \<longleftrightarrow> fake_inv (fst (tl_world (ds_tls s))) \<and> relays_agree (ds_relay s) (fst (tl_world (ds_tls s)))"

lemma relays_agree_iff: "relays_agree relay w \<longleftrightarrow> (\<forall>k<4. relay (int k + 1) = bit (fake_port w (32, 0)) k)"
  by (auto simp: relays_agree_def CARRIER_RELAYS_def numeral_eq_Suc less_Suc_eq)

lemma relays_agree_ports: "fk_tca_ports w = fk_tca_ports w' \<Longrightarrow> relays_agree relay w \<longleftrightarrow> relays_agree relay w'"
  by (simp add: relays_agree_iff fake_port_def)

lemma carrier_slots: "map_of CARRIER_RELAYS slot = Some (a, p, pin) \<Longrightarrow>
    a = 32 \<and> p = 0 \<and> (\<exists>k<4. pin = int k \<and> slot = int k + 1)"
  by (auto simp: CARRIER_RELAYS_def numeral_eq_Suc split: if_splits)

lemma relay_port: "(32, 0) \<in> fake_pin_ports" "32 \<in> set TCA9555_ADDRS"
  by (simp_all add: fake_pin_ports_def TCA9555_ADDRS_def)

text \<open>What both pin handlers do: make the port an output, then drive one pin of it, then, when both worked, go
  on with \<open>f\<close>, which does not touch the broker.\<close>

lemma drive_live:
  assumes "live s" "a \<in> set TCA9555_ADDRS" "p \<in> {0, 1}" "k < 8"
    and f: "\<And>t'. fake_inv (fst (tl_world t')) \<Longrightarrow>
      (\<forall>i\<in>fake_pin_ports. \<forall>k'<8. bit (fake_port (fst (tl_world t')) i) k' =
        (if i = (a, p) \<and> k' = k then v else bit (fake_port (fst (tl_world (ds_tls s))) i) k')) \<Longrightarrow> live (snd (f (s\<lparr>ds_tls := t'\<rparr>)))"
  shows "live (snd (or_500 (bind (on_tls (hil_tca_set_direction (flaky_tr fl) a p 0)) (\<lambda>_.
      bind (on_tls (hil_tca_write_pin (flaky_tr fl) a p (int k) v)) (\<lambda>_. f))) s))"
proof -
  let ?w = "\<lambda>t. fst (tl_world t)"
  have inv: "fake_inv (?w (ds_tls s))" using assms(1) by (simp add: live_def)
  obtain r u where d: "hil_tca_set_direction (flaky_tr fl) a p 0 (ds_tls s) = (r, u)" by force
  note u = flaky_set_direction [OF inv assms(2,3) d]
  have lu: "live (s\<lparr>ds_tls := u\<rparr>)"
    using assms(1) u relays_agree_ports [of "?w u" "?w (ds_tls s)"] by (simp add: live_def)
  show ?thesis
  proof (cases r)
    case (Inl e)
    with d u lu show ?thesis by (simp add: or_500_def on_tls_def io_simps)
  next
    case (Inr x)
    obtain q t' where wr: "hil_tca_write_pin (flaky_tr fl) a p (int k) v u = (q, t')" by force
    have "fake_inv (?w u)" using u by simp
    from flaky_write_pin [OF this assms(2-4) wr] show ?thesis
    proof (elim disjE conjE exE)
      fix e
      assume "q = Inl e" "is_exception e" "?w t' = ?w u"
      with d Inr wr lu show ?thesis by (simp add: or_500_def on_tls_def io_simps live_def)
    next
      assume q: "q = Inr ()" "fake_inv (?w t')" "\<forall>i\<in>fake_pin_ports. \<forall>k'<8. bit (fake_port (?w t') i) k' =
        (if i = (a, p) \<and> k' = k then v else bit (fake_port (?w u) i) k')"
      have "fake_port (?w u) i = fake_port (?w (ds_tls s)) i" for i using u by (simp add: fake_port_def split_beta)
      with q have "live (snd (f (s\<lparr>ds_tls := t'\<rparr>)))" by (intro f) simp_all
      with d Inr wr q(1) show ?thesis
        by (cases "f (s\<lparr>ds_tls := t'\<rparr>)"; cases "fst (f (s\<lparr>ds_tls := t'\<rparr>))") (auto simp: or_500_def on_tls_def io_simps)
    qed
  qed
qed

lemma carrier_power_live:
  assumes "live s"
  shows "live (snd (api_carrier_power (flaky_tr fl) slot body s))"
proof (cases "map_of CARRIER_RELAYS slot")
  case None
  with assms show ?thesis by (simp add: api_carrier_power_def io_simps)
next
  case (Some x)
  then obtain k where x: "x = (32, 0, int k)" and k: "k < 4" and slot: "slot = int k + 1"
    by (cases x) (auto dest: carrier_slots)
  show ?thesis
  proof (cases "data_get ''on'' (JBool False) (body_or_empty body)")
    case (Inl e)
    with assms Some x show ?thesis by (simp add: api_carrier_power_def io_simps)
  next
    case (Inr v)
    have k8: "k < 8" using k by simp
    let ?f = "bind (set_relay slot (truthy v)) (\<lambda>_. ret (200, JObj [(''slot'', JInt slot), (''on'', JBool (truthy v))]))"
    have "live (snd (or_500 (bind (on_tls (hil_tca_set_direction (flaky_tr fl) 32 0 0)) (\<lambda>_.
      bind (on_tls (hil_tca_write_pin (flaky_tr fl) 32 0 (int k) (truthy v))) (\<lambda>_. ?f))) s))"
      by (rule drive_live [OF assms relay_port(2) _ k8])
        (use assms relay_port(1) k in \<open>auto simp: live_def relays_agree_iff set_relay_def slot io_simps\<close>)
    with Some x Inr show ?thesis by (simp add: api_carrier_power_def Let_def io_simps)
  qed
qed

lemma psu_power_live:
  assumes "live s" "relay_safe (Psu_power body)"
  shows "live (snd (api_psu_power (flaky_tr fl) body s))"
proof (cases "data_get ''on'' (JBool False) (body_or_empty body)")
  case (Inl e)
  with assms show ?thesis by (simp add: api_psu_power_def io_simps)
next
  case (Inr v)
  with assms have v: "truthy v" by (simp add: relay_safe_def)
  have inv: "fake_inv (fst (tl_world (ds_tls s)))" using assms(1) by (simp add: live_def)
  obtain r t where p: "hil_psu_power (flaky_tr fl) True (ds_tls s) = (r, t)" by force
  note t = flaky_psu_power [OF inv p]
  have "live (s\<lparr>ds_tls := t\<rparr>)" "live (s\<lparr>ds_tls := t, ds_psu_on := on\<rparr>)" for on
    using assms(1) t relays_agree_ports [of "fst (tl_world t)" "fst (tl_world (ds_tls s))"] by (simp_all add: live_def)
  with Inr v p t show ?thesis
    by (cases r) (auto simp: api_psu_power_def or_500_def on_tls_def Let_def io_simps split: prod.split sum.split)
qed

lemma tca_pin_live:
  assumes "live s" "relay_safe (Tca_pin addr port pin body)"
  shows "live (snd (api_tca_write_pin (flaky_tr fl) addr port pin body s))"
proof (cases "addr \<in> {32, 33, 34} \<and> port \<in> {0, 1} \<and> 0 \<le> pin \<and> pin \<le> 7")
  case False
  with assms show ?thesis by (auto simp: api_tca_write_pin_def io_simps)
next
  case True
  then have "pin = int (nat pin)" "nat pin < 8" by auto
  then obtain k where pin: "pin = int k" and k: "k < 8" by blast
  from True have addr: "addr \<in> set TCA9555_ADDRS" and port: "port \<in> {0, 1}"
    by (auto simp: TCA9555_ADDRS_def)
  have other: "addr = 32 \<Longrightarrow> port = 0 \<Longrightarrow> j < 4 \<Longrightarrow> j \<noteq> k" for j
    using assms(2) pin by (auto simp: relay_safe_def)
  show ?thesis
  proof (cases "data_get ''value'' (JBool False) (body_or_empty body)")
    case (Inl e)
    with assms True show ?thesis by (simp add: api_tca_write_pin_def io_simps)
  next
    case (Inr v)
    let ?f = "ret (200, JObj [(''addr'', JInt addr), (''port'', JInt port), (''pin'', JInt pin), (''value'', JBool (truthy v))])"
    have "live (snd (or_500 (bind (on_tls (hil_tca_set_direction (flaky_tr fl) addr port 0)) (\<lambda>_.
      bind (on_tls (hil_tca_write_pin (flaky_tr fl) addr port (int k) (truthy v))) (\<lambda>_. ?f))) s))"
      by (rule drive_live [OF assms(1) addr port k])
        (use assms(1) relay_port(1) other in \<open>auto simp: live_def relays_agree_iff io_simps\<close>)
    with True Inr pin show ?thesis by (simp add: api_tca_write_pin_def Let_def io_simps)
  qed
qed

lemma request_live: "live s \<Longrightarrow> relay_safe req \<Longrightarrow> live (snd (serve_request (flaky_tr fl) req s))"
  by (cases req) (simp_all add: serve_request_def carrier_power_live psu_power_live tca_pin_live)

lemma requests_live: "live s \<Longrightarrow> list_all relay_safe reqs \<Longrightarrow> live (after_requests (flaky_tr fl) reqs s)"
  by (induction reqs arbitrary: s) (simp_all add: after_requests_def request_live)

text \<open>A start-up that succeeds drives the whole relay port low.\<close>

lemma init_relays_live:
  assumes "fake_inv (fst (tl_world t))" "init_relays (flaky_tr fl) (dash_init t) = (Inr (), s)"
  shows "live s"
proof -
  obtain r u where d: "hil_tca_set_direction (flaky_tr fl) 32 0 0 t = (r, u)" by force
  have inv: "fake_inv (fst (tl_world u))" using flaky_set_direction [OF assms(1) relay_port(2) _ d] by simp
  obtain q v where w: "hil_tca_write_port (flaky_tr fl) 32 0 0 u = (q, v)" by force
  have ok: "r = Inr ()" "q = Inr ()" "s = (dash_init t)\<lparr>ds_tls := v\<rparr>"
    using assms(2) d w by (cases r; cases q; simp add: init_relays_def dash_init_def on_tls_def io_simps)+
  with flaky_clear_port [OF inv relay_port(2) _ w [unfolded ok(2)]] show ?thesis
    by (simp add: live_def relays_agree_iff dash_init_def)
qed

text \<open>C18: on a broker over the fake backend whose connections and calls may fail without effect at any point
  (refused, closed, answered with an error), after a start-up that succeeded and any sequence of requests in which the supply is
  not switched off and no relay pin is driven as a bare pin, the relay state the dashboard reports for every
  carrier is the latch that drives its relay, whatever the latches were before and invalid and malformed
  requests included.\<close>

theorem relays_tracked:
  assumes "fake_inv (fst (tl_world t))" "init_relays (flaky_tr fl) (dash_init t) = (Inr (), s)" "list_all relay_safe reqs"
    and "s' = after_requests (flaky_tr fl) reqs s"
  shows "relays_agree (ds_relay s') (fst (tl_world (ds_tls s')))"
  using requests_live [OF init_relays_live [OF assms(1,2)] assms(3)] assms(4) by (simp add: live_def)

theorem relays_tracked_witness:
  "\<exists>s. init_relays (flaky_tr (\<lambda>_. None)) (dash_init \<lparr>tl_world = (fake_init 0, [Works, Works, Works, Works, Refused, Works, Closed]), tl_client = None\<rparr>)
       = (Inr (), s) \<and>
     (let s' = after_requests (flaky_tr (\<lambda>_. None))
        [Carrier_power 2 (JObj [(''on'', JBool True)]), Carrier_power 9 JNull, Tca_pin 0x21 0 1 (JObj [(''value'', JInt 1)]),
         Carrier_power 2 (JList [JNull]), Psu_power (JObj [(''on'', JBool True)])] s
      in relays_agree (ds_relay s') (fst (tl_world (ds_tls s'))))"
proof -
  let ?t = "\<lparr>tl_world = (fake_init 0, [Works, Works, Works, Works, Refused, Works, Closed]), tl_client = None\<rparr>"
  have "fst (init_relays (flaky_tr (\<lambda>_. None)) (dash_init ?t)) = Inr ()" by code_simp
  then obtain s where s: "init_relays (flaky_tr (\<lambda>_. None)) (dash_init ?t) = (Inr (), s)" by (metis prod.collapse)
  have "fake_inv (fst (tl_world ?t))" by (simp add: fake_init_inv)
  from relays_tracked [OF this s _ refl] s show ?thesis
    by (auto simp: Let_def relay_safe_def data_get_def body_or_empty_def)
qed

text \<open>Switching the supply off clears the dashboard's states and leaves the latches, so a relay that was on is
  reported off and closes again with the next supply-on.\<close>

lemma hil_fake_psu_power:
  "hil_psu_power (broker_tr (fake_table fl)) on s =
     (Inr (JObj [(''ps_on'', JBool on), (''pwr_ok'', JBool on)]),
      tls_next ((tl_world s)\<lparr>fk_op_count := fk_op_count (tl_world s) + 1, fk_psu_on := on, fk_pwr_ok := on\<rparr>) s)"
proof -
  have "map_of (fake_table fl) ''psu.power'' = Some (sig_of [''on''], call1 fake_psu_power)"
    by (simp add: build_method_table_def fake_backend_def)
  from hil_call_live [OF fake_no_exit this, of "[(''on'', JBool on)]" "[JBool on]" s]
  show ?thesis
    by (simp add: hil_psu_power_def bind_args_def sig_of_def fake_psu_power_def fake_psu_status_def ticked_def
        fake_tick_def io_simps)
qed

lemma psu_off_forgets_relays:
  assumes "relays_agree (ds_relay s) (tl_world (ds_tls s))" "ds_relay s (int k + 1)" "k < 4"
  shows "\<not> ds_relay (after_requests (broker_tr (fake_table fl)) [Psu_power (JObj [])] s) (int k + 1) \<and>
    bit (fake_port (tl_world (ds_tls (after_requests (broker_tr (fake_table fl)) [Psu_power (JObj [])] s))) (32, 0)) k"
  using assms
  by (simp add: after_requests_def serve_request_def api_psu_power_def or_500_def on_tls_def hil_fake_psu_power
      data_get_def body_or_empty_def Let_def io_simps relays_agree_iff fake_port_def)

end
