(* ===== verification/Boot_Trigger.thy ===== *)
theory Boot_Trigger
  imports Bench_Config Trace Py_Value
begin

text \<open>
  \<^verbatim>\<open>tools/flash_ams_via_trigger.py\<close>: reflashing a carrier by sending the running application the boot-trigger
  frame, with a power cycle of its slot as the fallback. The environment runs a subprocess (argument list and
  timeout; exit status, standard output and error, or an exception), connects to the broker, calls it and sleeps.
  What is printed and the search path of the broker module are not modelled.
\<close>

record 'w trigger_env =
  tg_run :: "string list \<Rightarrow> rat \<Rightarrow> ('w, int \<times> string \<times> string) io"
  tg_connect :: "('w, unit) io"
  tg_call :: "string \<Rightarrow> (string \<times> json) list \<Rightarrow> ('w, json) io"
  tg_sleep :: "rat \<Rightarrow> ('w, unit) io"
  tg_is_file :: "string \<Rightarrow> bool"

section \<open>The program\<close>

definition TRIGGER_CHANNEL :: string where "TRIGGER_CHANNEL = ''can2''"
definition TRIGGER_FRAME :: string where "TRIGGER_FRAME = ''002#B007AD11''"
definition FLASH_CHANNEL :: string where "FLASH_CHANNEL = ''can2''"
definition NODE_ID :: string where "NODE_ID = ''0x1''"
definition APP_ADDRESS :: string where "APP_ADDRESS = ''0x08020000''"
definition BITRATE :: string where "BITRATE = ''500000''"
definition DEFAULT_TCA_ADDR :: int where "DEFAULT_TCA_ADDR = 0x20"
definition DEFAULT_TCA_PORT :: int where "DEFAULT_TCA_PORT = 0"

definition send_trigger :: "'w trigger_env \<Rightarrow> string \<Rightarrow> ('w, unit) io" where
  "send_trigger env channel =
     bind (tg_run env [''cansend'', channel, TRIGGER_FRAME] 2) (\<lambda>(rc, out, err).
       if rc \<noteq> 0 then raise (Exn CalledProcessError ''cansend'') else ret ())"

definition flasher_base :: "string \<Rightarrow> int \<Rightarrow> string list" where
  "flasher_base channel timeout_ms =
     [''can-flasher'', ''--interface'', ''socketcan'', ''--channel'', channel, ''--bitrate'', BITRATE,
      ''--node-id'', NODE_ID, ''--timeout'', show_int timeout_ms]"

definition bl_answers :: "string \<Rightarrow> bool" where
  "bl_answers out = list_ex (\<lambda>line. starts_with ''0x'' (py_lower (dropWhile is_space line))) (split_lines out)"

definition discover_cmd :: "string \<Rightarrow> int \<Rightarrow> string list" where
  "discover_cmd channel timeout_ms = flasher_base channel timeout_ms @ [''discover'']"

definition discover_bl :: "'w trigger_env \<Rightarrow> string \<Rightarrow> int \<Rightarrow> ('w, bool) io" where
  "discover_bl env channel timeout_ms =
     bind (tg_run env (discover_cmd channel timeout_ms) (of_int (sgn timeout_ms * (\<bar>timeout_ms\<bar> div 1000)) + 5)) (\<lambda>(rc, out, err).
       ret (rc = 0 \<and> bl_answers out))"

definition flash_cmd :: "string \<Rightarrow> string \<Rightarrow> bool \<Rightarrow> bool \<Rightarrow> bool \<Rightarrow> int \<Rightarrow> string list" where
  "flash_cmd bin channel jump verify_after force_all timeout_ms =
     flasher_base channel timeout_ms @
     [''flash'', bin, ''--address'', APP_ADDRESS, (if verify_after then ''--verify-after'' else ''--no-verify-after''), ''--yes''] @
     (if force_all then [''--no-diff''] else []) @ [if jump then ''--jump'' else ''--no-jump'']"

definition trigger_flash :: "'w trigger_env \<Rightarrow> string \<Rightarrow> string \<Rightarrow> bool \<Rightarrow> bool \<Rightarrow> bool \<Rightarrow> int \<Rightarrow> ('w, int \<times> string \<times> string) io" where
  "trigger_flash env bin channel jump verify_after force_all timeout_ms =
     tg_run env (flash_cmd bin channel jump verify_after force_all timeout_ms) 180"

definition slot_pin :: "'w trigger_env \<Rightarrow> int \<Rightarrow> bool \<Rightarrow> ('w, unit) io" where
  "slot_pin env slot on =
     bind (tg_call env ''tca.write_pin'' [(''addr'', JInt DEFAULT_TCA_ADDR), (''port'', JInt DEFAULT_TCA_PORT),
       (''pin'', JInt (slot - 1)), (''value'', JBool on)]) (\<lambda>_. ret ())"

definition power_cycle :: "'w trigger_env \<Rightarrow> int \<Rightarrow> ('w, unit) io" where
  "power_cycle env slot =
     bind (tg_connect env) (\<lambda>_. bind (slot_pin env slot False) (\<lambda>_. bind (tg_sleep env 3) (\<lambda>_.
     bind (slot_pin env slot True) (\<lambda>_. tg_sleep env (1 / 2)))))"

text \<open>The steps of \<open>main\<close> with the defaults it uses: write, and write if a bootloader answers.\<close>

definition main_flash :: "'w trigger_env \<Rightarrow> string \<Rightarrow> bool \<Rightarrow> ('w, bool) io" where
  "main_flash env bin no_jump =
     bind (trigger_flash env bin FLASH_CHANNEL (\<not> no_jump) False False 15000) (\<lambda>(rc, out, err). ret (rc = 0))"

definition probe_and_flash :: "'w trigger_env \<Rightarrow> string \<Rightarrow> bool \<Rightarrow> ('w, bool) io" where
  "probe_and_flash env bin no_jump =
     bind (discover_bl env FLASH_CHANNEL 3000) (\<lambda>up. if up then main_flash env bin no_jump else ret False)"

definition attempt :: "('w, unit) io \<Rightarrow> ('w, bool) io" where
  "attempt m = try_except (bind m (\<lambda>_. ret True)) is_exception (\<lambda>_. ret False)"

definition trigger_path :: "'w trigger_env \<Rightarrow> string \<Rightarrow> bool \<Rightarrow> ('w, bool) io" where
  "trigger_path env bin no_jump =
     bind (attempt (send_trigger env TRIGGER_CHANNEL)) (\<lambda>sent.
       if sent then bind (tg_sleep env 1) (\<lambda>_. probe_and_flash env bin no_jump) else ret False)"

primrec power_cycle_fallback :: "'w trigger_env \<Rightarrow> string \<Rightarrow> bool \<Rightarrow> int \<Rightarrow> nat \<Rightarrow> ('w, int) io" where
  "power_cycle_fallback env bin no_jump slot 0 = ret 1"
| "power_cycle_fallback env bin no_jump slot (Suc n) =
     bind (attempt (power_cycle env slot)) (\<lambda>cycled.
       if \<not> cycled then power_cycle_fallback env bin no_jump slot n
       else bind (probe_and_flash env bin no_jump) (\<lambda>done.
              if done then ret 0 else power_cycle_fallback env bin no_jump slot n))"

definition trigger_main :: "'w trigger_env \<Rightarrow> string \<Rightarrow> int \<Rightarrow> bool \<Rightarrow> bool \<Rightarrow> int \<Rightarrow> ('w, int) io" where
  "trigger_main env bin slot no_jump no_fallback max_attempts =
     (if \<not> tg_is_file env bin then ret 2
      else bind (probe_and_flash env bin no_jump) (\<lambda>done.
        if done then ret 0
        else bind (trigger_path env bin no_jump) (\<lambda>done.
          if done then ret 0
          else if no_fallback then ret 1
          else power_cycle_fallback env bin no_jump slot (nat max_attempts))))"

section \<open>What a run did\<close>

datatype trigger_event =
    Ran "string list" "(int \<times> string \<times> string) res"
  | Pin "(string \<times> json) list" "json res"

definition watched_env :: "'w trigger_env \<Rightarrow> ('w \<times> trigger_event list) trigger_env" where
  "watched_env env =
     \<lparr>tg_run = (\<lambda>argv t. logged (tg_run env argv t) (\<lambda>r. [Ran argv r])),
      tg_connect = on_fst (tg_connect env),
      tg_call = (\<lambda>m ps. logged (tg_call env m ps) (\<lambda>r. [Pin ps r])),
      tg_sleep = (\<lambda>t. on_fst (tg_sleep env t)),
      tg_is_file = tg_is_file env\<rparr>"

lemma watched_env_simps [simp]:
  "tg_run (watched_env env) argv t = logged (tg_run env argv t) (\<lambda>r. [Ran argv r])"
  "tg_connect (watched_env env) = on_fst (tg_connect env)"
  "tg_call (watched_env env) m ps = logged (tg_call env m ps) (\<lambda>r. [Pin ps r])"
  "tg_sleep (watched_env env) t = on_fst (tg_sleep env t)"
  "tg_is_file (watched_env env) = tg_is_file env"
  by (simp_all add: watched_env_def)

abbreviation the_flash :: "string \<Rightarrow> bool \<Rightarrow> string list" where
  "the_flash bin no_jump \<equiv> flash_cmd bin FLASH_CHANNEL (\<not> no_jump) False False 15000"

abbreviation the_discover :: "string list" where
  "the_discover \<equiv> discover_cmd FLASH_CHANNEL 3000"

text \<open>A subprocess that writes the image and ends with status 0.\<close>

fun good_write :: "string \<Rightarrow> bool \<Rightarrow> trigger_event \<Rightarrow> bool" where
  "good_write bin no_jump (Ran argv (Inr (rc, out, err))) = (argv = the_flash bin no_jump \<and> rc = 0)"
| "good_write bin no_jump e = False"

fun is_pin :: "trigger_event \<Rightarrow> bool" where
  "is_pin (Pin ps r) = True"
| "is_pin (Ran argv r) = False"

abbreviation pins :: "trigger_event list \<Rightarrow> nat" where
  "pins evs \<equiv> length (filter is_pin evs)"

abbreviation unwritten :: "string \<Rightarrow> bool \<Rightarrow> trigger_event list \<Rightarrow> bool" where
  "unwritten bin no_jump \<equiv> list_all (\<lambda>e. \<not> good_write bin no_jump e)"

text \<open>The run ends with a bootloader answering and the image being written, for the first time in it.\<close>

inductive written_last :: "string \<Rightarrow> bool \<Rightarrow> trigger_event list \<Rightarrow> bool" for bin no_jump where
  now: "bl_answers out \<Longrightarrow>
    written_last bin no_jump [Ran the_discover (Inr (0, out, err)), Ran (the_flash bin no_jump) (Inr (0, out', err'))]"
| later: "written_last bin no_jump evs \<Longrightarrow> \<not> good_write bin no_jump e \<Longrightarrow> written_last bin no_jump (e # evs)"

lemma written_after: "unwritten bin no_jump pre \<Longrightarrow> written_last bin no_jump evs \<Longrightarrow> written_last bin no_jump (pre @ evs)"
  by (induction pre) (auto intro: written_last.later)

definition outcome :: "string \<Rightarrow> bool \<Rightarrow> nat \<Rightarrow> bool res \<Rightarrow> trigger_event list \<Rightarrow> bool" where
  "outcome bin no_jump n r evs \<longleftrightarrow> pins evs \<le> n \<and>
     (if r = Inr True then written_last bin no_jump evs else unwritten bin no_jump evs)"

definition quiet :: "string \<Rightarrow> bool \<Rightarrow> nat \<Rightarrow> 'a res \<Rightarrow> trigger_event list \<Rightarrow> bool" where
  "quiet bin no_jump n r evs \<longleftrightarrow> pins evs \<le> n \<and> unwritten bin no_jump evs"

lemma flash_is_not_discover [simp]: "the_discover \<noteq> the_flash bin no_jump" "[''cansend'', c, f] \<noteq> the_flash bin no_jump"
  by (simp_all add: discover_cmd_def flash_cmd_def flasher_base_def)

lemma other_command [simp]: "argv \<noteq> the_flash bin no_jump \<Longrightarrow> \<not> good_write bin no_jump (Ran argv r)"
  by (cases r) auto

lemma outcome_after:
  "quiet bin no_jump n r evs \<Longrightarrow> outcome bin no_jump m r' evs' \<Longrightarrow> outcome bin no_jump (n + m) r' (evs @ evs')"
  by (auto simp: outcome_def quiet_def written_after)

lemma outcome_failed: "r \<noteq> Inr True \<Longrightarrow> outcome bin no_jump n r evs \<longleftrightarrow> quiet bin no_jump n r evs"
  by (simp add: outcome_def quiet_def)

lemma unwritten_bind:
  assumes "emits m (quiet bin no_jump k)" "\<And>x. emits (f x) (quiet bin no_jump l)"
  shows "emits (bind m f) (quiet bin no_jump (k + l))"
  by (rule emits_bind [OF assms]) (auto simp: quiet_def)

lemma quiet_then:
  "emits m (quiet bin no_jump n) \<Longrightarrow> (\<And>x. emits (f x) (quiet bin no_jump 0)) \<Longrightarrow> emits (bind m f) (quiet bin no_jump n)"
  using unwritten_bind [of m bin no_jump n f 0] by simp

lemma quiet_silent: "emits (on_fst m) (quiet bin no_jump 0)"
  by (simp add: emits_silent quiet_def)

lemma quiet_ret: "emits (ret x) (quiet bin no_jump 0)" "emits (raise e) (quiet bin no_jump 0)"
  by (simp_all add: emits_ret emits_raise quiet_def)

lemma quiet_run: "argv \<noteq> the_flash bin no_jump \<Longrightarrow> emits (tg_run (watched_env env) argv t) (quiet bin no_jump 0)"
  by (auto simp: quiet_def intro: emits_logged)

lemma quiet_pin: "emits (slot_pin (watched_env env) slot on) (quiet bin no_jump 1)"
  unfolding slot_pin_def
  by (rule quiet_then) (auto simp: quiet_def intro!: emits_logged emits_ret)

lemma quiet_attempt: "emits m (quiet bin no_jump n) \<Longrightarrow> emits (attempt m) (quiet bin no_jump n)"
  unfolding attempt_def
  by (rule emits_try_except [where P = "quiet bin no_jump n" and Q = "\<lambda>e r ts. ts = []"])
    (auto intro!: emits_ret quiet_then simp: quiet_def)

lemma quiet_send: "emits (send_trigger (watched_env env) channel) (quiet bin no_jump 0)"
  unfolding send_trigger_def
  by (rule quiet_then [OF quiet_run]) (auto simp: quiet_ret)

lemma quiet_cycle: "emits (power_cycle (watched_env env) slot) (quiet bin no_jump 2)"
proof -
  have "emits (power_cycle (watched_env env) slot) (quiet bin no_jump (0 + (1 + (0 + (1 + 0)))))"
    unfolding power_cycle_def watched_env_simps by (intro unwritten_bind quiet_silent quiet_pin)
  then show ?thesis by (simp add: numeral_2_eq_2)
qed


lemma outcome_weaken: "emits m (outcome bin no_jump k) \<Longrightarrow> k \<le> n \<Longrightarrow> emits m (outcome bin no_jump n)"
  by (erule emits_weaken) (auto simp: outcome_def)

lemma then_outcome:
  assumes "emits m (quiet bin no_jump k)" "\<And>x. emits (f x) (outcome bin no_jump n)"
  shows "emits (bind m f) (outcome bin no_jump (k + n))"
  by (rule emits_bind [OF assms]) (auto simp: outcome_after outcome_failed, auto simp: quiet_def)

text \<open>Only a discovery that answered is followed by a write.\<close>

lemma probe_emits: "emits (probe_and_flash (watched_env env) bin no_jump) (outcome bin no_jump 0)"
proof -
  let ?D = "\<lambda>up evs. \<exists>r. evs = [Ran the_discover r] \<and> (up = Inr True \<longrightarrow> (\<exists>out err. r = Inr (0, out, err) \<and> bl_answers out))"
  let ?F = "\<lambda>r evs. \<exists>x. evs = [Ran (the_flash bin no_jump) x] \<and>
      (if r = Inr True then \<exists>out err. x = Inr (0, out, err) else \<not> good_write bin no_jump (Ran (the_flash bin no_jump) x))"
  have d: "emits (discover_bl (watched_env env) FLASH_CHANNEL 3000) ?D"
    unfolding discover_bl_def watched_env_simps
    by (rule emits_bind [where P = "\<lambda>r evs. evs = [Ran the_discover r]"
        and Q = "\<lambda>x r evs. evs = [] \<and> r = Inr (fst x = 0 \<and> bl_answers (fst (snd x)))"])
      (auto intro: emits_logged emits_ret)
  have w: "emits (main_flash (watched_env env) bin no_jump) ?F"
    unfolding main_flash_def trigger_flash_def watched_env_simps
    by (rule emits_bind [where P = "\<lambda>r evs. evs = [Ran (the_flash bin no_jump) r]"
        and Q = "\<lambda>x r evs. evs = [] \<and> r = Inr (fst x = 0)"])
      (auto intro: emits_logged emits_ret)
  have f: "emits (if up then main_flash (watched_env env) bin no_jump else ret False)
      (\<lambda>r evs. if up then ?F r evs else evs = [] \<and> r = Inr False)" for up
    by (cases up) (simp_all add: w emits_ret)
  show ?thesis unfolding probe_and_flash_def
    by (rule emits_bind [OF d f])
      (auto simp: outcome_def intro: written_last.now split: if_splits)
qed

lemma trigger_path_emits: "emits (trigger_path (watched_env env) bin no_jump) (outcome bin no_jump 0)"
proof -
  have "emits (bind (tg_sleep (watched_env env) 1) (\<lambda>_. probe_and_flash (watched_env env) bin no_jump)) (outcome bin no_jump (0 + 0))"
    unfolding watched_env_simps by (rule then_outcome [OF quiet_silent probe_emits])
  moreover have "emits (ret False) (outcome bin no_jump 0)" by (simp add: emits_ret outcome_def)
  ultimately have "emits (trigger_path (watched_env env) bin no_jump) (outcome bin no_jump (0 + 0))"
    unfolding trigger_path_def by (intro then_outcome quiet_attempt quiet_send emits_if) simp_all
  then show ?thesis by simp
qed

text \<open>The same for an exit status.\<close>

definition exits :: "string \<Rightarrow> bool \<Rightarrow> nat \<Rightarrow> int res \<Rightarrow> trigger_event list \<Rightarrow> bool" where
  "exits bin no_jump n r evs \<longleftrightarrow> pins evs \<le> n \<and>
     (case r of
        Inr code \<Rightarrow> if code = 0 then written_last bin no_jump evs else code = 1 \<and> unwritten bin no_jump evs
      | Inl e \<Rightarrow> unwritten bin no_jump evs)"

lemma exits_after: "quiet bin no_jump k r evs \<Longrightarrow> exits bin no_jump n r' evs' \<Longrightarrow> exits bin no_jump (k + n) r' (evs @ evs')"
  by (auto simp: exits_def quiet_def written_after split: sum.splits)

lemma then_exits:
  assumes "emits m (quiet bin no_jump k)" "\<And>x. emits (f x) (exits bin no_jump n)"
  shows "emits (bind m f) (exits bin no_jump (k + n))"
  by (rule emits_bind [OF assms]) (auto intro: exits_after, auto simp: exits_def quiet_def)

lemma exit_zero_or:
  assumes "emits m (outcome bin no_jump k)" "emits f (exits bin no_jump n)"
  shows "emits (bind m (\<lambda>done. if done then ret 0 else f)) (exits bin no_jump (k + n))"
proof -
  have f: "emits (if done then ret 0 else f) (\<lambda>r evs. if done then r = Inr 0 \<and> evs = [] else exits bin no_jump n r evs)" for "done"
    using assms(2) by (simp add: emits_ret)
  show ?thesis
    by (rule emits_bind [OF assms(1) f])
      (auto simp: outcome_failed intro: exits_after split: if_splits, auto simp: exits_def outcome_def quiet_def)
qed

lemma fallback_emits: "emits (power_cycle_fallback (watched_env env) bin no_jump slot n) (exits bin no_jump (2 * n))"
proof (induction n)
  case (Suc n)
  let ?rest = "power_cycle_fallback (watched_env env) bin no_jump slot n"
  have again: "emits (bind (probe_and_flash (watched_env env) bin no_jump) (\<lambda>done. if done then ret 0 else ?rest)) (exits bin no_jump (2 * n))"
    using exit_zero_or [OF probe_emits Suc] by simp
  have "emits (if \<not> cycled then ?rest else bind (probe_and_flash (watched_env env) bin no_jump) (\<lambda>done. if done then ret 0 else ?rest))
      (exits bin no_jump (2 * n))" for cycled
    using Suc again by simp
  then have "emits (power_cycle_fallback (watched_env env) bin no_jump slot (Suc n)) (exits bin no_jump (2 + 2 * n))"
    unfolding power_cycle_fallback.simps by (rule then_exits [OF quiet_attempt [OF quiet_cycle]])
  then show ?case by simp
qed (simp add: emits_ret exits_def)


lemma main_emits:
  assumes "tg_is_file env bin"
  shows "emits (trigger_main (watched_env env) bin slot no_jump no_fallback n)
    (exits bin no_jump (if no_fallback then 0 else 2 * nat n))"
proof -
  let ?n = "if no_fallback then 0 else 2 * nat n"
  have "emits (if no_fallback then ret 1 else power_cycle_fallback (watched_env env) bin no_jump slot (nat n)) (exits bin no_jump ?n)"
    using fallback_emits [of env bin no_jump slot "nat n"] by (simp add: emits_ret exits_def)
  from exit_zero_or [OF probe_emits exit_zero_or [OF trigger_path_emits this]] assms
  show ?thesis by (simp add: trigger_main_def)
qed

text \<open>C10: the exit status of the boot-trigger flasher tells what was written, whatever the subprocesses and the broker
  do. With status 0 a bootloader answered the last discovery and the image was then written, as the last thing
  done and once; with status 1, or when an exception leaves the program, no write succeeded; with status 2 there is
  no image and nothing was done. The slot is switched at most twice per fallback attempt, and never with
  \<^verbatim>\<open>--no-fallback\<close>.\<close>

theorem trigger_exit_status:
  "case trigger_main (watched_env env) bin slot no_jump no_fallback n (w, []) of
     (r, (w', evs)) \<Rightarrow> if r = Inr 2 then \<not> tg_is_file env bin \<and> w' = w \<and> evs = []
                      else tg_is_file env bin \<and> exits bin no_jump (if no_fallback then 0 else 2 * nat n) r evs"
proof -
  obtain r w' evs where m: "trigger_main (watched_env env) bin slot no_jump no_fallback n (w, []) = (r, (w', evs))"
    by (metis prod.collapse)
  show ?thesis
  proof (cases "tg_is_file env bin")
    case True
    with emitsD [OF main_emits m] have "exits bin no_jump (if no_fallback then 0 else 2 * nat n) r evs" by (metis append_Nil)
    with m True show ?thesis by (auto simp: exits_def)
  qed (use m in \<open>simp add: trigger_main_def io_simps\<close>)
qed

end
