(* ===== verification/Ltc_Chain.thy ===== *)
theory Ltc_Chain
  imports Pico_Client "HOL-Library.Sublist"
begin

text \<open>
  The SPI side of the Pico firmware, \<^verbatim>\<open>tools/pico_ltc_emulator/firmware/src/ltc6811_emu.c\<close> with \<^verbatim>\<open>main.c\<close>: the chain of
  ten LTC6811 chips as the AMS sees it. The master's clock and the two FIFOs of eight bytes are the hardware, here at the
  level of bytes; beside them runs the service loop of the CPU. \<open>chain_step\<close> is a step relation whose events come in any
  order: the chip select falls, the master clocks a byte, the CPU pushes a data byte, takes a received byte, handles the
  rising edge, or serves a character of the serial line between transactions. A byte clocked while nothing is queued is
  None, and what follows it is out of alignment. Assumed of the timing: the receive FIFO does not overflow, the CPU sees
  every edge and has handled a rising one before it serves a character, and no transaction begins while it does. The PIO programs, the DMA channel and the
  pin set-up are not modelled.
\<close>

section \<open>The state\<close>

text \<open>\<open>sp_rx\<close> are the bytes taken in the current transaction, \<open>sp_sent\<close> the data bytes pushed; \<open>sp_mosi\<close> and
  \<open>sp_miso\<close>, what the master sent and got, are only observed.\<close>

record spi =
  sp_low :: bool
  sp_tx :: "int list"
  sp_fifo :: "int list"
  sp_stalled :: bool
  sp_rx :: "int list"
  sp_parsed :: bool
  sp_wrcomm :: bool
  sp_sent :: "int list"
  sp_cmd :: int
  sp_mosi :: "int list"
  sp_miso :: "int option list"

definition spi_idle :: spi where
  "spi_idle = \<lparr>sp_low = False, sp_tx = RESPONSE_PAD, sp_fifo = [], sp_stalled = False, sp_rx = [], sp_parsed = False,
     sp_wrcomm = False, sp_sent = [], sp_cmd = 0xFFFF, sp_mosi = [], sp_miso = []\<rparr>"

definition inc32 :: "int \<Rightarrow> int" where "inc32 n = (n + 1) mod 2 ^ 32"

abbreviation stats :: "(ltc_stats \<Rightarrow> ltc_stats) \<Rightarrow> device \<Rightarrow> device" where
  "stats f d \<equiv> d\<lparr>dv_stats := f (dv_stats d)\<rparr>"

section \<open>The command\<close>

text \<open>The first label group of the switch falls through to the flag of \<open>WRCOMM\<close>.\<close>

definition WRITE_GROUP :: "int list" where
  "WRITE_GROUP = [0x001, 0x002, 0x010, 0x012, 0x014, 0x016, 0x024, 0x026, 0x02C, 0x714, 0x721]"

definition is_known :: "int \<Rightarrow> bool" where
  "is_known cmd \<longleftrightarrow>
     cmd \<in> set WRITE_GROUP \<or> cmd = 0x722 \<or> cmd = 0x723 \<or> map_of READ_COMMANDS cmd \<noteq> None \<or>
     cmd AND 0x7C0 = 0x260 \<or> cmd AND 0x7C0 = 0x340 \<or> cmd AND 0x7C0 = 0x460 \<or> cmd AND 0x7C0 = 0x540"

definition parse_ltc_cmd :: "int \<Rightarrow> spi \<times> device \<Rightarrow> spi \<times> device" where
  "parse_ltc_cmd cmd = (\<lambda>(s, d).
     let d = (case map_of READ_COMMANDS cmd of Some r \<Rightarrow> d\<lparr>dv_current := r\<rparr> | None \<Rightarrow> d);
         d = (if is_known cmd then stats (\<lambda>t. t\<lparr>ls_last_ltc_cmd := cmd, ls_valid_cmds := inc32 (ls_valid_cmds t)\<rparr>) d else d)
     in (s\<lparr>sp_wrcomm := sp_wrcomm s \<or> cmd \<in> set WRITE_GROUP, sp_cmd := cmd, sp_parsed := True\<rparr>, d))"

definition cmd_word :: "int list \<Rightarrow> int" where
  "cmd_word bs = push_bit 8 (bs ! 0 AND 0x07) OR bs ! 1"

section \<open>The receiving side\<close>

definition rx_stats :: "int \<Rightarrow> device \<Rightarrow> device" where
  "rx_stats b = stats (\<lambda>t. t\<lparr>ls_last_rx := (ls_last_rx t)[nat (ls_rx_bytes t mod 8) := b], ls_rx_bytes := inc32 (ls_rx_bytes t)\<rparr>)"

text \<open>The selector of the multiplexer, read off the first payload of a write.\<close>

definition snoop :: "int list \<Rightarrow> device \<Rightarrow> device" where
  "snoop rx d =
     (let p0 = rx ! 4; p1 = rx ! 5; data = push_bit 4 (p0 AND 0x0F) OR (drop_bit 4 p1 AND 0x0F);
          new_ch = drop_bit 1 data AND 0x1F
      in if drop_bit 4 p0 AND 0x0F = 0x8 \<and> new_ch \<noteq> dv_adg d
         then d\<lparr>dv_adg := new_ch, dv_pool := (dv_pool d)(RSP_RDAUXA := rebuild_response (dv_cell d) (dv_temp d) new_ch RSP_RDAUXA)\<rparr>
         else d)"

text \<open>One byte taken from the FIFO: the command is complete with the second byte of the first window of four, and
  every window counts.\<close>

definition take_byte :: "int \<Rightarrow> spi \<times> device \<Rightarrow> spi \<times> device" where
  "take_byte b = (\<lambda>(s, d).
     let rx = sp_rx s @ [b]; n = length rx; s = s\<lparr>sp_rx := rx\<rparr>; d = rx_stats b d;
         d = (if sp_wrcomm s \<and> n = 6 then snoop rx d else d);
         (s, d) = (if n mod 4 = 2 \<and> \<not> sp_parsed s then parse_ltc_cmd (cmd_word (drop (n - 2) rx)) (s, d) else (s, d))
     in if n mod 4 = 0
        then let cmd = cmd_word (drop (n - 4) rx);
                 d = stats (\<lambda>t. t\<lparr>ls_spi_xact := inc32 (ls_spi_xact t), ls_last_cmd := cmd\<rparr>) d
             in if \<not> sp_parsed s then parse_ltc_cmd cmd (s, d) else (s, d)
        else (s, d))"

section \<open>The sending side\<close>

definition maybe_suppress_data :: "int \<Rightarrow> int \<Rightarrow> nat \<Rightarrow> int" where
  "maybe_suppress_data mask_bits b tx_data_idx = (if bit mask_bits (tx_data_idx div 8 div 2) then 0xFF else b)"

definition push_data :: "spi \<times> device \<Rightarrow> spi \<times> device" where
  "push_data = (\<lambda>(s, d).
     let i = length (sp_sent s);
         b = maybe_suppress_data (dv_stop d) (dv_pool d (dv_current d) ! (4 + i)) i;
         d = (if i = 0 \<and> sp_stalled s then stats (\<lambda>t. t\<lparr>ls_tx_stall := inc32 (ls_tx_stall t)\<rparr>) d else d)
     in (s\<lparr>sp_tx := sp_tx s @ [b], sp_sent := sp_sent s @ [b]\<rparr>, d))"

section \<open>The end of a transaction\<close>

definition CMD_STATS_MAX :: nat where "CMD_STATS_MAX = 24"

fun bump_stat :: "int \<Rightarrow> int \<Rightarrow> cmd_stat list \<Rightarrow> cmd_stat list option" where
  "bump_stat cmd n [] = None"
| "bump_stat cmd n (c # cs) =
     (if st_cmd c = cmd
      then Some (c\<lparr>st_count := inc32 (st_count c), st_last := n, st_min := min n (st_min c), st_max := max n (st_max c)\<rparr> # cs)
      else map_option (Cons c) (bump_stat cmd n cs))"

definition cmd_stats_record :: "int \<Rightarrow> int \<Rightarrow> device \<Rightarrow> device" where
  "cmd_stats_record cmd n d =
     (case bump_stat cmd n (dv_cmds d) of
        Some cs \<Rightarrow> d\<lparr>dv_cmds := cs\<rparr>
      | None \<Rightarrow>
          if length (dv_cmds d) < CMD_STATS_MAX
          then d\<lparr>dv_cmds := dv_cmds d @ [\<lparr>st_cmd = cmd, st_count = 1, st_last = n, st_min = n, st_max = n\<rparr>]\<rparr>
          else d\<lparr>dv_lost := inc32 (dv_lost d)\<rparr>)"

text \<open>The bytes still in the FIFO reach the snapshot, but not the count of the transaction.\<close>

definition cs_rising :: "spi \<times> device \<Rightarrow> spi \<times> device" where
  "cs_rising = (\<lambda>(s, d).
     let d = fold rx_stats (sp_fifo s) d;
         d = (if sp_cmd s \<noteq> 0xFFFF then cmd_stats_record (sp_cmd s) (int (length (sp_rx s)) mod 2 ^ 16) d else d);
         d = d\<lparr>dv_tx_shown := (sp_cmd s, sp_sent s), dv_rx_shown := take 84 (sp_rx s @ sp_fifo s)\<rparr>;
         d = stats (\<lambda>t. t\<lparr>ls_cs_cycles := inc32 (ls_cs_cycles t)\<rparr>) d
     in (spi_idle\<lparr>sp_mosi := sp_mosi s, sp_miso := sp_miso s\<rparr>, d))"

section \<open>The machine\<close>

text \<open>The master clocks a byte out and one in; with nothing queued the line is undriven.\<close>

definition clock_byte :: "int \<Rightarrow> spi \<Rightarrow> spi" where
  "clock_byte b s = s\<lparr>sp_fifo := sp_fifo s @ [b], sp_mosi := sp_mosi s @ [b], sp_tx := tl (sp_tx s),
     sp_stalled := sp_stalled s \<or> sp_tx s = [],
     sp_miso := sp_miso s @ [if sp_tx s = [] then None else Some (hd (sp_tx s))]\<rparr>"

datatype chain_event = CsFall | Clock int | Push | Take | CsRise | Usb char

inductive chain_step :: "spi \<times> device \<Rightarrow> chain_event \<Rightarrow> spi \<times> device \<Rightarrow> bool" where
  cs_fall: "\<not> sp_low s \<Longrightarrow> chain_step (s, d) CsFall (s\<lparr>sp_low := True, sp_mosi := [], sp_miso := []\<rparr>, d)"
| clock: "sp_low s \<Longrightarrow> is_byte b \<Longrightarrow> length (sp_fifo s) < 8 \<Longrightarrow>
    chain_step (s, d) (Clock b) (clock_byte b s, d)"
| push: "sp_low s \<Longrightarrow> sp_parsed s \<Longrightarrow> length (sp_sent s) < 80 \<Longrightarrow> length (sp_tx s) < 8 \<Longrightarrow>
    chain_step (s, d) Push (push_data (s, d))"
| taken: "sp_low s \<Longrightarrow> sp_fifo s = b # rest \<Longrightarrow> chain_step (s, d) Take (take_byte b (s\<lparr>sp_fifo := rest\<rparr>, d))"
| cs_rise: "sp_low s \<Longrightarrow> chain_step (s, d) CsRise (cs_rising (s, d))"
| usb: "\<not> sp_low s \<Longrightarrow> chain_step (s, d) (Usb c) (s, fst (usb_cmd_service c d))"

inductive_cases cs_fallE: "chain_step M CsFall M'"

inductive chain_run :: "spi \<times> device \<Rightarrow> chain_event list \<Rightarrow> spi \<times> device \<Rightarrow> bool" where
  nil: "chain_run M [] M"
| snoc: "chain_run M es M1 \<Longrightarrow> chain_step M1 e M2 \<Longrightarrow> chain_run M (es @ [e]) M2"

lemma chain_run_append: "chain_run M1 fs M2 \<Longrightarrow> chain_run M es M1 \<Longrightarrow> chain_run M (es @ fs) M2"
  by (induction rule: chain_run.induct) (auto simp flip: append_assoc intro: chain_run.intros)

lemma chain_run_one: "chain_step M e M' \<Longrightarrow> chain_run M [e] M'"
  using chain_run.snoc [OF chain_run.nil] by simp

text \<open>Between two transactions the machine is at rest.\<close>

definition resting :: "spi \<Rightarrow> bool" where
  "resting s \<longleftrightarrow> s = spi_idle\<lparr>sp_mosi := sp_mosi s, sp_miso := sp_miso s\<rparr>"

lemma resting_fields:
  "resting s \<Longrightarrow> \<not> sp_low s \<and> \<not> sp_parsed s \<and> \<not> sp_wrcomm s \<and> sp_rx s = [] \<and> sp_fifo s = [] \<and> sp_sent s = [] \<and>
     sp_tx s = RESPONSE_PAD"
  by (cases s) (simp add: resting_def spi_idle_def)

section \<open>What a transaction keeps\<close>

text \<open>The reply a command selects, the earlier one when it selects none, and its bytes on the wire with the silenced
  modules blanked.\<close>

definition reply_of :: "int \<Rightarrow> device \<Rightarrow> rsp" where
  "reply_of cmd d = (case map_of READ_COMMANDS cmd of Some r \<Rightarrow> r | None \<Rightarrow> dv_current d)"

definition wire :: "device \<Rightarrow> rsp \<Rightarrow> int list" where
  "wire d r = map (\<lambda>i. maybe_suppress_data (dv_stop d) (dv_pool d r ! (4 + i)) i) [0..<80]"

lemma length_wire [simp]: "length (wire d r) = 80"
  by (simp add: wire_def)

text \<open>What the master got before the first byte that was not there in time.\<close>

definition heard :: "spi \<Rightarrow> int list" where
  "heard s = map the (takeWhile (\<lambda>b. b \<noteq> None) (sp_miso s))"

lemma parse_fields:
  "parse_ltc_cmd cmd (s, d) = (s', d') \<Longrightarrow>
     s' = s\<lparr>sp_wrcomm := sp_wrcomm s \<or> cmd \<in> set WRITE_GROUP, sp_cmd := cmd, sp_parsed := True\<rparr> \<and>
     dv_current d' = reply_of cmd d \<and> dv_pool d' = dv_pool d \<and> dv_stop d' = dv_stop d \<and> dv_cell d' = dv_cell d \<and>
     dv_temp d' = dv_temp d \<and> dv_adg d' = dv_adg d"
  by (auto simp: parse_ltc_cmd_def reply_of_def Let_def split: option.split)

lemma snoop_fields [simp]:
  "dv_current (snoop rx d) = dv_current d" "dv_stop (snoop rx d) = dv_stop d" "dv_cell (snoop rx d) = dv_cell d"
  "dv_temp (snoop rx d) = dv_temp d"
  by (simp_all add: snoop_def Let_def)

lemma rx_stats_fields [simp]:
  "dv_current (rx_stats b d) = dv_current d" "dv_stop (rx_stats b d) = dv_stop d" "dv_cell (rx_stats b d) = dv_cell d"
  "dv_temp (rx_stats b d) = dv_temp d" "dv_pool (rx_stats b d) = dv_pool d" "dv_adg (rx_stats b d) = dv_adg d"
  by (simp_all add: rx_stats_def)

lemma reply_of_rx: "reply_of cmd (rx_stats b d) = reply_of cmd d"
  by (simp add: reply_of_def split: option.split)

text \<open>A byte taken when the command is parsed exactly from its second byte on.\<close>

lemma take_byte_fields:
  assumes "take_byte b (s, d) = (s', d')" "sp_parsed s \<longleftrightarrow> 2 \<le> length (sp_rx s)"
  defines "cmd \<equiv> cmd_word (sp_rx s @ [b])"
  shows "sp_rx s' = sp_rx s @ [b] \<and> sp_parsed s' = (2 \<le> length (sp_rx s')) \<and> sp_low s' = sp_low s \<and> sp_tx s' = sp_tx s \<and>
      sp_fifo s' = sp_fifo s \<and> sp_sent s' = sp_sent s \<and> sp_mosi s' = sp_mosi s \<and> sp_miso s' = sp_miso s \<and>
      sp_stalled s' = sp_stalled s \<and> dv_stop d' = dv_stop d \<and>
      dv_current d' = (if length (sp_rx s) = 1 then reply_of cmd d else dv_current d) \<and>
      sp_wrcomm s' = (sp_wrcomm s \<or> length (sp_rx s) = 1 \<and> cmd \<in> set WRITE_GROUP) \<and>
      (\<not> sp_wrcomm s \<longrightarrow> dv_pool d' = dv_pool d)"
proof -
  let ?n = "Suc (length (sp_rx s))"
  consider (parse) "length (sp_rx s) = 1" "\<not> sp_parsed s" | (first) "length (sp_rx s) = 0" "\<not> sp_parsed s"
    | (later) "2 \<le> length (sp_rx s)" "sp_parsed s" using assms(2) by linarith
  then show ?thesis
  proof cases
    case parse
    obtain s1 d1 where p: "parse_ltc_cmd cmd (s\<lparr>sp_rx := sp_rx s @ [b]\<rparr>, rx_stats b d) = (s1, d1)" by fastforce
    have "take_byte b (s, d) = (s1, d1)" using parse p by (simp add: take_byte_def Let_def cmd_def)
    then have eq: "s' = s1" "d' = d1" using assms(1) by simp_all
    show ?thesis unfolding eq using parse_fields [OF p] parse by (auto simp: reply_of_rx)
  next
    case first
    with assms(1) show ?thesis by (auto simp: take_byte_def)
  next
    case later
    with assms(1) show ?thesis by (auto simp: take_byte_def Let_def split: if_splits)
  qed
qed

text \<open>\<open>d\<close> is the device the transaction began with.\<close>

definition in_write :: "spi \<Rightarrow> bool" where
  "in_write s \<longleftrightarrow> 2 \<le> length (sp_rx s) \<and> cmd_word (take 2 (sp_rx s)) \<in> set WRITE_GROUP"

definition transaction :: "device \<Rightarrow> spi \<times> device \<Rightarrow> bool" where
  "transaction d = (\<lambda>(s, d').
     sp_low s \<and> sp_mosi s = sp_rx s @ sp_fifo s \<and> (sp_parsed s \<longleftrightarrow> 2 \<le> length (sp_rx s)) \<and> dv_stop d' = dv_stop d \<and>
     (sp_wrcomm s \<longrightarrow> in_write s) \<and>
     (\<not> sp_parsed s \<longrightarrow> sp_sent s = [] \<and> dv_current d' = dv_current d) \<and>
     (sp_parsed s \<longrightarrow> dv_current d' = reply_of (cmd_word (take 2 (sp_rx s))) d) \<and>
     (\<not> in_write s \<longrightarrow> dv_pool d' = dv_pool d \<and> prefix (sp_sent s) (wire d (dv_current d'))) \<and>
     length (sp_sent s) \<le> 80 \<and> prefix (heard s) (RESPONSE_PAD @ sp_sent s) \<and>
     (None \<notin> set (sp_miso s) \<longrightarrow> sp_miso s @ map Some (sp_tx s) = map Some (RESPONSE_PAD @ sp_sent s)))"

lemma transaction_begins: "resting s \<Longrightarrow> transaction d (s\<lparr>sp_low := True, sp_mosi := [], sp_miso := []\<rparr>, d)"
  by (drule resting_fields) (simp add: transaction_def heard_def)

lemma transaction_taken:
  assumes "transaction d (s, d1)" "sp_fifo s = b # rest"
  shows "transaction d (take_byte b (s\<lparr>sp_fifo := rest\<rparr>, d1))"
proof -
  obtain s' d' where t: "take_byte b (s\<lparr>sp_fifo := rest\<rparr>, d1) = (s', d')" by fastforce
  from assms(1) have i: "sp_parsed s \<longleftrightarrow> 2 \<le> length (sp_rx s)" by (simp add: transaction_def)
  note f = take_byte_fields [OF t, simplified, OF i]
  have h: "heard s' = heard s" using f by (simp add: heard_def)
  consider (first) "length (sp_rx s) = 0" | (second) a where "sp_rx s = [a]" | (later) "2 \<le> length (sp_rx s)"
    by (cases "sp_rx s"; cases "tl (sp_rx s)") auto
  then show ?thesis
  proof cases
    case first
    with f h assms i show ?thesis unfolding t by (auto simp: transaction_def in_write_def)
  next
    case second
    with f h assms i show ?thesis unfolding t
      by (auto simp: transaction_def in_write_def reply_of_def split: option.split)
  next
    case later
    with f h assms i show ?thesis unfolding t by (auto simp: transaction_def in_write_def)
  qed
qed

lemma push_fields:
  "push_data (s, d) = (s', d') \<Longrightarrow>
     s' = s\<lparr>sp_tx := sp_tx s @ [maybe_suppress_data (dv_stop d) (dv_pool d (dv_current d) ! (4 + length (sp_sent s))) (length (sp_sent s))],
            sp_sent := sp_sent s @ [maybe_suppress_data (dv_stop d) (dv_pool d (dv_current d) ! (4 + length (sp_sent s))) (length (sp_sent s))]\<rparr> \<and>
     dv_current d' = dv_current d \<and> dv_pool d' = dv_pool d \<and> dv_stop d' = dv_stop d \<and> dv_cell d' = dv_cell d \<and>
     dv_temp d' = dv_temp d \<and> dv_adg d' = dv_adg d"
  by (auto simp: push_data_def Let_def)

lemma transaction_push:
  assumes "transaction d (s, d1)" "sp_parsed s" "length (sp_sent s) < 80"
  shows "transaction d (push_data (s, d1))"
proof -
  let ?n = "length (sp_sent s)"
  let ?b = "maybe_suppress_data (dv_stop d1) (dv_pool d1 (dv_current d1) ! (4 + ?n)) ?n"
  obtain s' d' where p: "push_data (s, d1) = (s', d')" by fastforce
  note f = push_fields [OF p]
  have "prefix (sp_sent s @ [?b]) (wire d (dv_current d1))" if "\<not> in_write s"
  proof -
    have "dv_pool d1 = dv_pool d" "dv_stop d1 = dv_stop d" "prefix (sp_sent s) (wire d (dv_current d1))"
      using that assms(1) by (simp_all add: transaction_def)
    then show ?thesis using assms(3) append_one_prefix [of "sp_sent s" "wire d (dv_current d1)"] by (simp add: wire_def)
  qed
  moreover have "in_write s' = in_write s" "heard s' = heard s" using f by (simp_all add: in_write_def heard_def)
  moreover have "prefix (heard s) (RESPONSE_PAD @ sp_sent s @ [?b])"
    using assms(1) by (simp add: transaction_def flip: append_assoc)
  ultimately show ?thesis using f assms unfolding p by (simp add: transaction_def flip: append_assoc)
qed

lemma transaction_clock:
  assumes t: "transaction d (s, d1)"
  shows "transaction d (clock_byte b s, d1)"
proof -
  define s' where "s' = clock_byte b s"
  let ?all = "RESPONSE_PAD @ sp_sent s"
  have f: "sp_low s' = sp_low s" "sp_fifo s' = sp_fifo s @ [b]" "sp_mosi s' = sp_mosi s @ [b]" "sp_tx s' = tl (sp_tx s)"
    "sp_rx s' = sp_rx s" "sp_parsed s' = sp_parsed s" "sp_wrcomm s' = sp_wrcomm s" "sp_sent s' = sp_sent s"
    "sp_miso s' = sp_miso s @ [if sp_tx s = [] then None else Some (hd (sp_tx s))]" by (simp_all add: s'_def clock_byte_def)
  have "prefix (heard s') ?all \<and> (None \<notin> set (sp_miso s') \<longrightarrow> sp_miso s' @ map Some (sp_tx s') = map Some ?all)"
  proof (cases "None \<in> set (sp_miso s) \<or> sp_tx s = []")
    case True
    then have "heard s' = heard s"
    proof
      assume "None \<in> set (sp_miso s)"
      then show ?thesis by (auto simp: heard_def f takeWhile_append1)
    qed (simp add: heard_def f takeWhile_tail)
    moreover have "None \<in> set (sp_miso s')" using True by (auto simp: f)
    ultimately show ?thesis using t by (simp add: transaction_def)
  next
    case False
    then obtain x xs where tx: "sp_tx s = x # xs" by (cases "sp_tx s") auto
    have eq: "sp_miso s @ map Some (sp_tx s) = map Some ?all" using False t by (simp add: transaction_def)
    then have eq': "sp_miso s' @ map Some (sp_tx s') = map Some ?all" by (simp add: f tx)
    have "map the (sp_miso s' @ map Some (sp_tx s')) = ?all" unfolding eq' by (simp add: comp_def)
    then have "map the (sp_miso s') @ sp_tx s' = ?all" by (simp add: comp_def)
    moreover have no: "None \<notin> set (sp_miso s')" using False by (simp add: f)
    have "takeWhile (\<lambda>b. b \<noteq> None) (sp_miso s') = sp_miso s'"
      by (rule takeWhile_eq_all_conv [THEN iffD2]) (use no in metis)
    then have "heard s' = map the (sp_miso s')" by (simp only: heard_def)
    ultimately show ?thesis using eq' by (metis prefixI)
  qed
  moreover have "in_write s' = in_write s" by (simp add: in_write_def f)
  ultimately show ?thesis unfolding s'_def [symmetric] using t by (simp add: transaction_def f)
qed

text \<open>Until the chip select rises.\<close>

lemma transaction_step:
  assumes "chain_step M1 e M" "transaction d M1" "e \<noteq> CsRise"
  shows "transaction d M"
  using assms(1)
proof (cases rule: chain_step.cases)
  case cs_fall
  with assms(2) show ?thesis by (simp add: transaction_def)
next
  case clock
  with assms(2) show ?thesis by (simp add: transaction_clock)
next
  case push
  with assms(2) show ?thesis by (simp add: transaction_push)
next
  case taken
  with assms(2) show ?thesis by (simp add: transaction_taken)
next
  case cs_rise
  with assms(3) show ?thesis by simp
next
  case usb
  with assms(2) show ?thesis by (simp add: transaction_def)
qed

text \<open>A transaction from rest.\<close>

lemma transaction_heard:
  assumes "resting s" "chain_run (s, d) (CsFall # es) (t, d')" "CsRise \<notin> set es"
  shows "transaction d (t, d')"
proof -
  have start: "chain_run M [] M' \<Longrightarrow> M' = M" for M M' by (erule chain_run.cases) auto
  have "transaction d M'" if "chain_run M fs M'" "fs = CsFall # es" "M = (s, d)" for M fs M'
    using that assms(3)
  proof (induction arbitrary: es rule: chain_run.induct)
    case (snoc M gs M1 e M2)
    show ?case
    proof (cases gs)
      case Nil
      with snoc have "chain_step (s, d) CsFall M2" using start [of M M1] by auto
      then show ?thesis using transaction_begins [OF assms(1)] by (auto elim: cs_fallE)
    next
      case (Cons g gs')
      with snoc.prems have "gs = CsFall # gs'" "es = gs' @ [e]" by auto
      with snoc.IH [of gs'] snoc.prems have "transaction d M1" "e \<noteq> CsRise" by auto
      with snoc.hyps(2) show ?thesis by (simp add: transaction_step)
    qed
  qed simp
  then show ?thesis using assms(2) by blast
qed

section \<open>Between transactions\<close>

lemma snoop_pool: "pool_ok d \<Longrightarrow> pool_ok (snoop rx d)"
proof -
  have "rebuild_response cells temps adg r = rebuild_response cells temps adg' r" if "r \<noteq> RSP_RDAUXA" for cells temps adg adg' r
    using that by (cases r) (simp_all add: build_rdaux_chunk_def)
  then show "pool_ok d \<Longrightarrow> pool_ok (snoop rx d)" by (auto simp: pool_ok_def snoop_def Let_def fun_eq_iff)
qed

lemma take_byte_device:
  assumes "take_byte b (s, d) = (s', d')"
  shows "dv_cell d' = dv_cell d \<and> (pool_ok d \<longrightarrow> pool_ok d')"
proof -
  have parse: "dv_cell d2 = dv_cell d1 \<and> pool_ok d2 = pool_ok d1" if "parse_ltc_cmd cmd (s1, d1) = (s2, d2)" for cmd s1 d1 s2 d2
    using parse_fields [OF that] by (simp add: pool_ok_def)
  have "pool_ok d \<longrightarrow> pool_ok (if c then snoop rx (rx_stats b d) else rx_stats b d)" for c rx
    using snoop_pool [of "rx_stats b d"] by (simp add: pool_ok_def)
  with assms show ?thesis
    by (fastforce simp: take_byte_def Let_def pool_ok_def split: prod.splits if_splits dest: parse)
qed

lemma record_fields [simp]:
  "dv_cell (cmd_stats_record cmd n d) = dv_cell d" "dv_temp (cmd_stats_record cmd n d) = dv_temp d"
  "dv_adg (cmd_stats_record cmd n d) = dv_adg d" "dv_pool (cmd_stats_record cmd n d) = dv_pool d"
  "dv_stop (cmd_stats_record cmd n d) = dv_stop d" "dv_current (cmd_stats_record cmd n d) = dv_current d"
  by (simp_all add: cmd_stats_record_def split: option.split)

lemma fold_rx_fields [simp]:
  "dv_cell (fold rx_stats bs d) = dv_cell d" "dv_temp (fold rx_stats bs d) = dv_temp d"
  "dv_adg (fold rx_stats bs d) = dv_adg d" "dv_pool (fold rx_stats bs d) = dv_pool d"
  "dv_stop (fold rx_stats bs d) = dv_stop d" "dv_current (fold rx_stats bs d) = dv_current d"
  by (induction bs arbitrary: d) simp_all

text \<open>The end of a transaction keeps the device and brings the machine to rest.\<close>

lemma rising_fields:
  "cs_rising (s, d) = (s', d') \<Longrightarrow> resting s' \<and> \<not> sp_low s' \<and> dv_cell d' = dv_cell d \<and> dv_temp d' = dv_temp d \<and>
     dv_adg d' = dv_adg d \<and> dv_pool d' = dv_pool d \<and> dv_stop d' = dv_stop d \<and> dv_current d' = dv_current d"
  by (auto simp: cs_rising_def Let_def resting_def spi_idle_def split: if_splits)

definition chain_ok :: "spi \<times> device \<Rightarrow> bool" where
  "chain_ok = (\<lambda>(s, d). pool_ok d \<and> cells_ok d \<and> (\<not> sp_low s \<longrightarrow> resting s) \<and>
     (sp_low s \<longrightarrow> (sp_parsed s \<longleftrightarrow> 2 \<le> length (sp_rx s))))"

lemma chain_ok_step: "chain_step M e M' \<Longrightarrow> chain_ok M \<Longrightarrow> chain_ok M'"
proof (induction rule: chain_step.induct)
  case (cs_fall s d)
  then have "\<not> sp_parsed s" "sp_rx s = []" using resting_fields [of s] by (simp_all add: chain_ok_def)
  with cs_fall show ?case by (simp add: chain_ok_def)
next
  case (clock s b d)
  then show ?case by (simp add: chain_ok_def clock_byte_def)
next
  case (push s d)
  then obtain s' d' where p: "push_data (s, d) = (s', d')" by fastforce
  from push_fields [OF p] push show ?case unfolding p by (simp add: chain_ok_def pool_ok_def cells_ok_def)
next
  case (taken s b rest d)
  then obtain s' d' where p: "take_byte b (s\<lparr>sp_fifo := rest\<rparr>, d) = (s', d')" by fastforce
  from take_byte_fields [OF p] take_byte_device [OF p] taken show ?case unfolding p
    by (simp add: chain_ok_def cells_ok_def)
next
  case (cs_rise s d)
  then obtain s' d' where p: "cs_rising (s, d) = (s', d')" by fastforce
  from rising_fields [OF p] cs_rise show ?case unfolding p by (simp add: chain_ok_def pool_ok_def cells_ok_def)
next
  case (usb s d c)
  then show ?case by (simp add: chain_ok_def usb_pool usb_cells)
qed

lemma chain_ok_run: "chain_run M es M' \<Longrightarrow> chain_ok M \<Longrightarrow> chain_ok M'"
  by (induction rule: chain_run.induct) (auto intro: chain_ok_step)

lemma chain_ok_start: "chain_ok (spi_idle, device_init)"
  by (simp add: chain_ok_def device_init_def resting_def spi_idle_def)

section \<open>A prompt device\<close>

text \<open>A CPU that takes every byte as it comes and pushes each data byte just before it is clocked keeps the line driven
  for the whole reply.\<close>

definition prompt :: "int list \<Rightarrow> chain_event list" where
  "prompt bs = CsFall # concat (map (\<lambda>b. [Clock b, Take]) (take 4 bs)) @ concat (map (\<lambda>b. [Push, Clock b, Take]) (drop 4 bs))"

definition driven :: "int list \<Rightarrow> spi \<Rightarrow> bool" where
  "driven bs s \<longleftrightarrow> sp_low s \<and> sp_mosi s = bs \<and> sp_rx s = bs \<and> sp_fifo s = [] \<and> None \<notin> set (sp_miso s) \<and>
     length (sp_miso s) = length bs \<and> (sp_parsed s \<longleftrightarrow> 2 \<le> length bs) \<and> length (sp_tx s) + length bs = 4 + length (sp_sent s)"

lemma driven_clock:
  assumes "driven bs s" "is_byte b" "sp_tx s \<noteq> []"
  shows "\<exists>s' d'. chain_run (s, d) [Clock b, Take] (s', d') \<and> driven (bs @ [b]) s' \<and> sp_sent s' = sp_sent s \<and> sp_tx s' = tl (sp_tx s)"
proof -
  let ?s1 = "clock_byte b s"
  obtain s' d' where t: "take_byte b (?s1\<lparr>sp_fifo := []\<rparr>, d) = (s', d')" by fastforce
  have s: "sp_low s" "sp_fifo s = []" using assms(1) by (simp_all add: driven_def)
  have "chain_step (s, d) (Clock b) (?s1, d)" using s assms(2) by (intro chain_step.clock) simp_all
  moreover have "chain_step (?s1, d) Take (s', d')"
    using chain_step.taken [of ?s1 b "[]" d] s t by (simp add: clock_byte_def)
  ultimately have "chain_run (s, d) [Clock b, Take] (s', d')"
    using chain_run.snoc [OF chain_run_one] by fastforce
  moreover have "sp_parsed (?s1\<lparr>sp_fifo := []\<rparr>) = (2 \<le> length (sp_rx (?s1\<lparr>sp_fifo := []\<rparr>)))"
    using assms(1) by (simp add: clock_byte_def driven_def)
  note f = take_byte_fields [OF t this]
  from f assms(1,3) have "driven (bs @ [b]) s'" by (cases "sp_tx s") (auto simp: driven_def clock_byte_def)
  moreover have "sp_sent s' = sp_sent s \<and> sp_tx s' = tl (sp_tx s)" using f by (simp add: clock_byte_def)
  ultimately show ?thesis by blast
qed

lemma driven_pad:
  assumes "driven cs s" "is_bytes bs" "length bs \<le> length (sp_tx s)"
  shows "\<exists>s' d'. chain_run (s, d) (concat (map (\<lambda>b. [Clock b, Take]) bs)) (s', d') \<and> driven (cs @ bs) s' \<and> sp_sent s' = sp_sent s"
  using assms
proof (induction bs arbitrary: cs s d)
  case (Cons b bs)
  from Cons.prems have "is_byte b" "sp_tx s \<noteq> []" by auto
  from driven_clock [OF Cons.prems(1) this, of d] obtain s1 d1
    where s1: "chain_run (s, d) [Clock b, Take] (s1, d1)" "driven (cs @ [b]) s1" "sp_sent s1 = sp_sent s" "sp_tx s1 = tl (sp_tx s)" by blast
  from Cons.prems s1 have "is_bytes bs" "length bs \<le> length (sp_tx s1)" by auto
  from Cons.IH [OF s1(2) this, of d1] s1 show ?case by (fastforce dest: chain_run_append [OF _ s1(1)])
qed (use chain_run.nil in fastforce)

lemma driven_data:
  assumes "driven cs s" "is_bytes bs" "sp_tx s = []" "length (sp_sent s) + length bs \<le> 80" "2 \<le> length cs"
  shows "\<exists>s' d'. chain_run (s, d) (concat (map (\<lambda>b. [Push, Clock b, Take]) bs)) (s', d') \<and> driven (cs @ bs) s'"
  using assms
proof (induction bs arbitrary: cs s d)
  case (Cons b bs)
  obtain s1 d1 where p: "push_data (s, d) = (s1, d1)" by fastforce
  have s1: "driven cs s1" "sp_sent s1 = sp_sent s @ sp_tx s1" "length (sp_tx s1) = 1"
    using push_fields [OF p] Cons.prems by (auto simp: driven_def)
  have "chain_step (s, d) Push (s1, d1)"
    using Cons.prems by (subst p [symmetric], intro chain_step.push) (auto simp: driven_def)
  from chain_run_one [OF this] have push: "chain_run (s, d) [Push] (s1, d1)" .
  from Cons.prems s1(3) have "is_byte b" "sp_tx s1 \<noteq> []" by auto
  from driven_clock [OF s1(1) this, of d1] obtain s2 d2
    where s2: "chain_run (s1, d1) [Clock b, Take] (s2, d2)" "driven (cs @ [b]) s2" "sp_sent s2 = sp_sent s1" "sp_tx s2 = tl (sp_tx s1)" by blast
  have run: "chain_run (s, d) [Push, Clock b, Take] (s2, d2)" using chain_run_append [OF s2(1) push] by simp
  have "is_bytes bs" "sp_tx s2 = []" "length (sp_sent s2) + length bs \<le> 80" "2 \<le> length (cs @ [b])"
    using Cons.prems s1 s2(3,4) by (auto simp: length_Suc_conv)
  from Cons.IH [OF s2(2) this, of d2] show ?case by (fastforce dest: chain_run_append [OF _ run])
qed (use chain_run.nil in fastforce)

lemma prompt_complete:
  assumes "resting s" "is_bytes bs" "length bs = 84"
  shows "\<exists>t d'. chain_run (s, d) (prompt bs) (t, d') \<and> sp_mosi t = bs \<and> length (heard t) = 84 \<and> CsRise \<notin> set (prompt bs)"
proof -
  note r = resting_fields [OF assms(1)]
  let ?s0 = "s\<lparr>sp_low := True, sp_mosi := [], sp_miso := []\<rparr>"
  have fall: "chain_run (s, d) [CsFall] (?s0, d)" using r by (intro chain_run_one chain_step.cs_fall) simp
  have "driven [] ?s0" "length (take 4 bs) \<le> length (sp_tx ?s0)" "is_bytes (take 4 bs)" "is_bytes (drop 4 bs)"
    using r assms by (simp_all add: driven_def RESPONSE_PAD_def is_bytes_take is_bytes_drop)
  from driven_pad [OF this(1,3,2), of d] obtain s1 d1
    where s1: "chain_run (?s0, d) (concat (map (\<lambda>b. [Clock b, Take]) (take 4 bs))) (s1, d1)" "driven (take 4 bs) s1"
      "sp_sent s1 = []" using r by auto
  have tx: "sp_tx s1 = []" using s1 assms(3) by (simp add: driven_def)
  from driven_data [OF s1(2) \<open>is_bytes (drop 4 bs)\<close> tx, of d1] s1(3) assms(3) obtain t d'
    where t: "chain_run (s1, d1) (concat (map (\<lambda>b. [Push, Clock b, Take]) (drop 4 bs))) (t, d')" "driven bs t" by auto
  have "chain_run (s, d) (prompt bs) (t, d')"
    using chain_run_append [OF t(1) chain_run_append [OF s1(1) fall]] by (simp add: prompt_def)
  moreover have "takeWhile (\<lambda>b. b \<noteq> None) (sp_miso t) = sp_miso t"
    by (rule takeWhile_eq_all_conv [THEN iffD2]) (use t(2) in \<open>metis driven_def\<close>)
  then have "length (heard t) = 84" using t(2) assms(3) by (simp only: heard_def driven_def length_map)
  moreover have "sp_mosi t = bs" using t(2) by (simp add: driven_def)
  moreover have "CsRise \<notin> set (prompt bs)" by (auto simp: prompt_def)
  ultimately show ?thesis by blast
qed

section \<open>Chips of a reply\<close>

lemma wire_chip:
  assumes "p < 10" "length (dv_pool d r) = 84"
  shows "take 8 (drop (4 + 8 * p) (RESPONSE_PAD @ wire d r))
    = (if bit (dv_stop d) (p div 2) then replicate 8 0xFF else take 8 (drop (4 + 8 * p) (dv_pool d r)))"
proof (rule nth_equalityI)
  have len: "length RESPONSE_PAD = 4" by (simp add: RESPONSE_PAD_def)
  show "length (take 8 (drop (4 + 8 * p) (RESPONSE_PAD @ wire d r)))
    = length (if bit (dv_stop d) (p div 2) then replicate 8 0xFF else take 8 (drop (4 + 8 * p) (dv_pool d r)))"
    using assms by (simp add: len)
  fix i assume "i < length (take 8 (drop (4 + 8 * p) (RESPONSE_PAD @ wire d r)))"
  then have i: "i < 8" by simp
  have "8 * p + i < 80" "(8 * p + i) div 8 = p" using i assms(1) by simp_all
  then have "wire d r ! (8 * p + i) = (if bit (dv_stop d) (p div 2) then 0xFF else dv_pool d r ! (4 + (8 * p + i)))"
    by (simp add: wire_def maybe_suppress_data_def)
  then show "take 8 (drop (4 + 8 * p) (RESPONSE_PAD @ wire d r)) ! i
    = (if bit (dv_stop d) (p div 2) then replicate 8 0xFF else take 8 (drop (4 + 8 * p) (dv_pool d r))) ! i"
    using i assms by (simp add: len add.assoc nth_append)
qed

lemma chunk_lengths: "length (build_rdcv_chunk cells ltc grp) = 8" "length (build_rdaux_chunk temps adg ltc grp) = 8"
  using rdcv_chunk(1) rdaux_chunk(1) pec_ok_length by blast+

lemma pool_length: "pool_ok d \<Longrightarrow> length (dv_pool d r) = 84"
  by (cases r) (simp_all add: pool_ok_def response_chip(2) [where ltc = 0] chunk_lengths)

lemma prefix_chip: "prefix xs ys \<Longrightarrow> n \<le> length xs \<Longrightarrow> k + 8 = n \<Longrightarrow> take 8 (drop k xs) = take 8 (drop k ys)"
  by (auto simp: prefix_def)

lemma prefix_whole: "prefix xs ys \<Longrightarrow> length ys = length xs \<Longrightarrow> xs = ys"
  by (auto simp: prefix_def)

text \<open>The reply of a voltage group.\<close>

lemma group_reply:
  assumes "g \<in> {0, 1, 2, 3}"
  shows "reply_of (4 + 2 * g) d = [RSP_RDCVA, RSP_RDCVB, RSP_RDCVC, RSP_RDCVD] ! nat g" "4 + 2 * g \<notin> set WRITE_GROUP"
    "rebuild_response cells temps adg ([RSP_RDCVA, RSP_RDCVB, RSP_RDCVC, RSP_RDCVD] ! nat g)
     = build_one_response (\<lambda>ltc. build_rdcv_chunk cells ltc g)"
  using assms by (auto simp: reply_of_def READ_COMMANDS_def WRITE_GROUP_def)

lemma heard_this_command:
  assumes "resting s" "chain_run (s, d) (CsFall # es) (t, d')" "CsRise \<notin> set es"
    and "take 2 (sp_mosi t) = [c0, c1]" "cmd_word [c0, c1] \<notin> set WRITE_GROUP"
  shows "prefix (heard t) (RESPONSE_PAD @ wire d (reply_of (cmd_word [c0, c1]) d))"
proof -
  have t: "transaction d (t, d')" using assms(1-3) by (rule transaction_heard)
  have heard: "prefix (heard t) (RESPONSE_PAD @ sp_sent t)" using t by (simp add: transaction_def)
  show ?thesis
  proof (cases "2 \<le> length (sp_rx t)")
    case True
    then have "take 2 (sp_rx t) = [c0, c1]" using t assms(4) by (simp add: transaction_def)
    with t True have "dv_current d' = reply_of (cmd_word [c0, c1]) d" "\<not> in_write t"
      using assms(5) by (auto simp: transaction_def in_write_def)
    with t have "prefix (sp_sent t) (wire d (reply_of (cmd_word [c0, c1]) d))" by (simp add: transaction_def)
    with heard show ?thesis by (meson prefix_order.trans same_prefix_prefix)
  next
    case False
    with t have "sp_sent t = []" by (simp add: transaction_def)
    with heard show ?thesis by simp
  qed
qed

section \<open>Properties\<close>

text \<open>C12: whatever commands came before, over the chip select or the serial line, and however the clock and the
  service loop interleave, all the master hears until a byte comes too late, chip 0 included, is the reply that its own
  command selects, from the tables as they are, with the silenced modules blanked. Rising edges and served characters
  are atomic, as said above, and the chip select does not fall during them; commands of the write group are left out.\<close>

theorem reply_of_this_command:
  assumes "chain_run (spi_idle, device_init) before (s, d)" "\<not> sp_low s"
    and "chain_run (s, d) (CsFall # es) (t, d')" "CsRise \<notin> set es"
    and "take 2 (sp_mosi t) = [c0, c1]" "cmd_word [c0, c1] \<notin> set WRITE_GROUP"
  shows "prefix (heard t) (RESPONSE_PAD @ wire d (reply_of (cmd_word [c0, c1]) d))
    \<and> dv_pool d = rebuild_response (dv_cell d) (dv_temp d) (dv_adg d)"
proof
  have ok: "chain_ok (s, d)" using assms(1) chain_ok_start by (rule chain_ok_run)
  then show "dv_pool d = rebuild_response (dv_cell d) (dv_temp d) (dv_adg d)" by (simp add: chain_ok_def pool_ok_def)
  from ok assms(2) have "resting s" by (simp add: chain_ok_def)
  then show "prefix (heard t) (RESPONSE_PAD @ wire d (reply_of (cmd_word [c0, c1]) d))"
    using assms(3-6) by (rule heard_this_command)
qed

text \<open>C13: after the host has injected cell voltages through the client, every chip the master hears whole in a read of
  a voltage group that its service loop keeps up with passes the check and holds the last voltage injected into each of
  its cells in units of 100 uV, saturated at 65535; a chip of a silenced module fails the check.\<close>

theorem injected_cells_on_the_wire:
  assumes "idle s" "pool_ok (pico_device s)" "cells_ok (pico_device s)" "list_all valid_injection ws"
    and "for_each (\<lambda>((m, c), mV). pico_inject_cell_v pico_line m c mV) ws s = (r, s')"
    and "resting q" "chain_run (q, pico_device s') (CsFall # es) (t, d')" "CsRise \<notin> set es"
    and "take 2 (sp_mosi t) = [c0, c1]" "cmd_word [c0, c1] = 4 + 2 * g" "g \<in> {0, 1, 2, 3}"
    and "m \<in> {0..4}" "c \<in> {0..18}" "module_cell_to_chain m c = Inr (p, k)" "k div 3 = g"
    and "12 + 8 * nat p \<le> length (heard t)"
  defines "chip \<equiv> take 8 (drop (4 + 8 * nat p) (heard t))"
  shows "if bit (dv_stop (pico_device s)) (nat m) then \<not> pec_ok chip
    else pec_ok chip \<and> chunk_words chip ! nat (k mod 3)
      = min 65535 (10 * (case map_of (rev ws) (m, c) of Some mV \<Rightarrow> mV | None \<Rightarrow> module_cell (pico_device s) m c))"
proof -
  let ?d = "pico_device s'" and ?r = "[RSP_RDCVA, RSP_RDCVB, RSP_RDCVC, RSP_RDCVD] ! nat g"
  from injected [OF assms(1,4)] assms(2,3,5,12,13) have d: "dv_stop ?d = dv_stop (pico_device s)" "pool_ok ?d" "cells_ok ?d"
    and cell: "module_cell ?d m c = (case map_of (rev ws) (m, c) of Some mV \<Rightarrow> mV | None \<Rightarrow> module_cell (pico_device s) m c)"
    by auto
  have pk: "0 \<le> p" "p < 10" "p div 2 = m" "0 \<le> k"
    using assms(12-14) by (auto simp: module_cell_to_chain_def CELLS_PER_LTC_UPPER_def split: if_splits)
  then have p: "nat p < 10" "nat p div 2 = nat m" by (simp_all add: nat_div_distrib)
  have "prefix (heard t) (RESPONSE_PAD @ wire ?d ?r)"
    using heard_this_command [OF assms(6-9)] assms(10) group_reply(1,2) [OF assms(11)] by simp
  then have "chip = take 8 (drop (4 + 8 * nat p) (RESPONSE_PAD @ wire ?d ?r))"
    unfolding chip_def by (rule prefix_chip [OF _ assms(16)]) simp
  moreover have "take 8 (drop (4 + 8 * nat p) (dv_pool ?d ?r)) = build_rdcv_chunk (dv_cell ?d) p g"
    using d(2) response_chip(1) [of "\<lambda>ltc. build_rdcv_chunk (dv_cell ?d) ltc g", OF _ p(1)] pk(1)
    by (simp add: pool_ok_def group_reply(3) [OF assms(11)] chunk_lengths)
  ultimately have chip: "chip = (if bit (dv_stop (pico_device s)) (nat m) then replicate 8 0xFF
      else build_rdcv_chunk (dv_cell ?d) p g)"
    by (simp only: wire_chip [OF p(1) pool_length [OF d(2)]] p(2) d(1))
  have "map (\<lambda>i. mV_to_ltc (dv_cell ?d p (g * 3 + i))) [0, 1, 2] ! nat (k mod 3) = mV_to_ltc (dv_cell ?d p k)"
  proof -
    have "k mod 3 = 0 \<or> k mod 3 = 1 \<or> k mod 3 = 2" by linarith
    moreover have "g * 3 + k mod 3 = k" using assms(15) div_mult_mod_eq [of k 3] by simp
    ultimately show ?thesis by auto
  qed
  moreover have "dv_cell ?d p k = module_cell ?d m c" by (simp add: module_cell_def assms(14))
  moreover have "mV_to_ltc v = min 65535 (10 * v)" for v by (simp add: mV_to_ltc_def Let_def)
  ultimately show ?thesis using d(3) by (simp add: chip silent_chip_fails rdcv_chunk cells_ok_def flip: cell)
qed

text \<open>The read of group 2 after an injection, on a prompt device.\<close>

definition read_2 :: "int list" where "read_2 = [0, 8] @ replicate 82 0"

lemma read_2: "is_bytes read_2" "length read_2 = 84" "take 2 read_2 = [0, 8]" "cmd_word [0, 8] = 8"
  by (simp_all add: read_2_def is_bytes_def is_byte_def cmd_word_def eval_nat_numeral)

lemma resting_idle: "resting spi_idle"
  by (simp add: resting_def spi_idle_def)

theorem reply_of_this_command_witness:
  "\<exists>t d'. chain_run (spi_idle, device_init) (prompt read_2) (t, d') \<and>
     heard t = RESPONSE_PAD @ wire device_init RSP_RDCVC"
proof -
  from prompt_complete [OF resting_idle read_2(1,2), of device_init] obtain t d'
    where t: "chain_run (spi_idle, device_init) (prompt read_2) (t, d')" "sp_mosi t = read_2" "length (heard t) = 84"
      "CsRise \<notin> set (prompt read_2)" by blast
  obtain es where es: "prompt read_2 = CsFall # es" by (simp add: prompt_def)
  have "prefix (heard t) (RESPONSE_PAD @ wire device_init (reply_of (cmd_word [0, 8]) device_init))"
    using reply_of_this_command [OF chain_run.nil, of es t d' 0 8] t es read_2(3,4)
    by (simp add: WRITE_GROUP_def) (simp add: spi_idle_def)
  moreover have "length (RESPONSE_PAD @ wire device_init r) = length (heard t)" for r using t(3) by (simp add: RESPONSE_PAD_def)
  ultimately have "heard t = RESPONSE_PAD @ wire device_init (reply_of (cmd_word [0, 8]) device_init)" by (rule prefix_whole)
  then have "heard t = RESPONSE_PAD @ wire device_init RSP_RDCVC" by (simp add: read_2(4) reply_of_def READ_COMMANDS_def)
  with t(1) show ?thesis by blast
qed

theorem injected_cells_on_the_wire_witness:
  "\<exists>s' t d'. for_each (\<lambda>((m, c), mV). pico_inject_cell_v pico_line m c mV) [((0, 8), 3000)] fresh_pico = (Inr (), s') \<and>
     chain_run (spi_idle, pico_device s') (prompt read_2) (t, d') \<and>
     pec_ok (take 8 (drop 4 (heard t))) \<and> chunk_words (take 8 (drop 4 (heard t))) ! 2 = 30000"
proof -
  let ?ws = "[((0, 8), 3000)] :: ((int \<times> int) \<times> int) list"
  from injected [OF fresh_idle, of ?ws] obtain s'
    where s': "for_each (\<lambda>((m, c), mV). pico_inject_cell_v pico_line m c mV) ?ws fresh_pico = (Inr (), s')" by auto
  from prompt_complete [OF resting_idle read_2(1,2), of "pico_device s'"] obtain t d'
    where t: "chain_run (spi_idle, pico_device s') (prompt read_2) (t, d')" "sp_mosi t = read_2" "length (heard t) = 84"
      "CsRise \<notin> set (prompt read_2)" by blast
  obtain es where es: "prompt read_2 = CsFall # es" by (simp add: prompt_def)
  have fresh: "pool_ok (pico_device fresh_pico)" "cells_ok (pico_device fresh_pico)" "dv_stop (pico_device fresh_pico) = 0"
    by (simp_all add: fresh_pico_def device_init_def) (simp add: dv_reset_def)
  have cell: "module_cell_to_chain 0 8 = Inr (0, 8)" by (simp add: module_cell_to_chain_def CELLS_PER_LTC_UPPER_def)
  have "pec_ok (take 8 (drop 4 (heard t))) \<and> chunk_words (take 8 (drop 4 (heard t))) ! 2 = 30000"
    using injected_cells_on_the_wire [OF fresh_idle fresh(1,2) _ s' resting_idle, of es t d' 0 8 2 0 8 0 8]
      t es read_2(3,4) fresh(3) cell by simp
  with s' t(1) show ?thesis by blast
qed

text \<open>The tests of two groups of conversion commands never hold: the mask leaves out a bit of the pattern.\<close>

lemma conversions_not_counted: "cmd AND 0x7C0 \<noteq> 0x260" "cmd AND 0x7C0 \<noteq> 0x460" for cmd :: int
proof -
  have "\<not> bit (cmd AND 0x7C0) 5" "bit (0x260 :: int) 5" "bit (0x460 :: int) 5" by (simp_all add: bit_and_iff)
  then show "cmd AND 0x7C0 \<noteq> 0x260" "cmd AND 0x7C0 \<noteq> 0x460" by metis+
qed

end
