(* ===== verification/Regex_Match.thy ===== *)
theory Regex_Match
  imports Prelude
begin

text \<open>
  Matching a sequence of repeated character classes the way \<^verbatim>\<open>re\<close> does it: the alternatives of a repetition in
  the order the matcher tries them (the longest first when it is greedy, the shortest first when it is lazy), and
  the first choice with which the rest matches up to the end of the text.
\<close>

type_synonym matcher = "string \<Rightarrow> (string \<times> string) list"

definition runs :: "nat \<Rightarrow> (char \<Rightarrow> bool) \<Rightarrow> matcher" where
  "runs n P s = map (\<lambda>k. (take k s, drop k s)) [n..<Suc (length (takeWhile P s))]"

definition greedy :: "nat \<Rightarrow> (char \<Rightarrow> bool) \<Rightarrow> matcher" where
  "greedy n P s = rev (runs n P s)"

definition lazy :: "nat \<Rightarrow> (char \<Rightarrow> bool) \<Rightarrow> matcher" where
  "lazy n P s = runs n P s"

definition literal :: "string \<Rightarrow> matcher" where
  "literal w s = (if take (length w) s = w then [(w, drop (length w) s)] else [])"

primrec first_some :: "('a \<Rightarrow> 'b option) \<Rightarrow> 'a list \<Rightarrow> 'b option" where
  "first_some f [] = None"
| "first_some f (x # xs) = (case f x of Some y \<Rightarrow> Some y | None \<Rightarrow> first_some f xs)"

primrec match_all :: "matcher list \<Rightarrow> string \<Rightarrow> string list option" where
  "match_all [] s = (if s = [] then Some [] else None)"
| "match_all (m # ms) s = first_some (\<lambda>(w, rest). map_option ((#) w) (match_all ms rest)) (m s)"

lemma first_some_None: "(\<And>x. x \<in> set xs \<Longrightarrow> f x = None) \<Longrightarrow> first_some f xs = None"
  by (induction xs) auto

lemma first_some_append: "first_some f (xs @ ys) = (case first_some f xs of Some y \<Rightarrow> Some y | None \<Rightarrow> first_some f ys)"
  by (induction xs) (auto split: option.split)

text \<open>A stretch that ends where its class ends is the first choice of a greedy repetition.\<close>

lemma stretch: "list_all P w \<Longrightarrow> rest = [] \<or> \<not> P (hd rest) \<Longrightarrow> takeWhile P (w @ rest) = w"
  by (induction w) (cases rest; auto)+

lemma match_greedy:
  assumes "list_all P w" "n \<le> length w" "rest = [] \<or> \<not> P (hd rest)" "match_all ms rest = Some ws"
  shows "match_all (greedy n P # ms) (w @ rest) = Some (w # ws)"
  using assms stretch [OF assms(1,3)] by (simp add: greedy_def runs_def)

text \<open>A lazy repetition stops at the first place where the rest matches.\<close>

lemma match_lazy:
  assumes "list_all P w" "n \<le> length w" "match_all ms rest = Some ws"
    and none: "\<And>k. n \<le> k \<Longrightarrow> k < length w \<Longrightarrow> match_all ms (drop k w @ rest) = None"
  shows "match_all (lazy n P # ms) (w @ rest) = Some (w # ws)"
proof -
  let ?f = "\<lambda>(v, r). map_option ((#) v) (match_all ms r)"
  let ?alt = "\<lambda>k. (take k (w @ rest), drop k (w @ rest))"
  define l where "l = length (takeWhile P (w @ rest))"
  have "length w \<le> l" using assms(1) by (simp add: l_def takeWhile_append list_all_iff)
  then have "[n..<Suc l] = [n..<length w] @ [length w..<Suc l]"
    using assms(2) upt_add_eq_append [of n "length w" "Suc l - length w"] by simp
  also have "[length w..<Suc l] = length w # [Suc (length w)..<Suc l]"
    using \<open>length w \<le> l\<close> by (intro upt_conv_Cons) simp
  finally have split: "[n..<Suc l] = [n..<length w] @ length w # [Suc (length w)..<Suc l]" .
  have "lazy n P (w @ rest) = map ?alt [n..<length w] @ ?alt (length w) # map ?alt [Suc (length w)..<Suc l]"
    unfolding lazy_def runs_def l_def [symmetric] split by simp
  moreover have "first_some ?f (map ?alt [n..<length w]) = None"
    by (rule first_some_None) (auto simp: none)
  ultimately show ?thesis using assms(3) by (simp add: first_some_append)
qed

lemma match_literal: "match_all ms rest = Some ws \<Longrightarrow> match_all (literal w # ms) (w @ rest) = Some (w # ws)"
  by (simp add: literal_def)

end
