(* ===== verification/Flasher_Cli.thy ===== *)
theory Flasher_Cli
  imports Bench_Config Regex_Match
begin

text \<open>
  \<^verbatim>\<open>tools/firmware_test/flash_helper.py\<close>: the wrapper of the \<^verbatim>\<open>can-flasher\<close> command. A subprocess is a
  program from an argument list and a timeout to an exit status, standard output and standard error. The attributes
  of \<open>CanFlasherError\<close> are in its message; texts are ASCII but for the mark of a truncated output and the check
  mark, which are written as their bytes of UTF-8.
\<close>

type_synonym 'w runner = "string list \<Rightarrow> rat \<Rightarrow> ('w, int \<times> string \<times> string) io"

section \<open>Errors\<close>

definition trimmed :: "string \<Rightarrow> string" where
  "trimmed s =
     (let t = rev (dropWhile is_space (rev s))
      in if t = [] then ''(empty)''
         else if length t \<le> 800 then t else take 800 t @ '' '' @ [CHR 0xE2, CHR 0x80, CHR 0xA6] @ ''(truncated)'')"

text \<open>\<^verbatim>\<open>shlex.join\<close>.\<close>

definition shell_safe :: "char \<Rightarrow> bool" where
  "shell_safe c \<longleftrightarrow> of_char c \<in> {48..57 :: nat} \<union> {65..90} \<union> {97..122} \<or> c \<in> set ''_@%+=:,./-''"

definition shlex_quote :: "string \<Rightarrow> string" where
  "shlex_quote s =
     (if s \<noteq> [] \<and> list_all shell_safe s then s
      else CHR 0x27 # concat (map (\<lambda>c. if c = CHR 0x27 then [CHR 0x27, CHR 0x22, CHR 0x27, CHR 0x22, CHR 0x27] else [c]) s)
           @ [CHR 0x27])"

definition flasher_error :: "string list \<Rightarrow> int \<Rightarrow> string \<Rightarrow> string \<Rightarrow> exn" where
  "flasher_error cmd rc out err =
     Exn CanFlasherError
       (''can-flasher exit '' @ show_int rc @ '' on `'' @ py_join '' '' (map shlex_quote cmd) @ ''`'' @ [CHR 0x0A]
        @ ''  stdout: '' @ trimmed out @ [CHR 0x0A] @ ''  stderr: '' @ trimmed err)"

definition run_tool :: "'w runner \<Rightarrow> string list \<Rightarrow> rat \<Rightarrow> bool \<Rightarrow> ('w, int \<times> string \<times> string) io" where
  "run_tool run cmd timeout_s check =
     bind (run cmd timeout_s) (\<lambda>(rc, out, err).
       if check \<and> rc \<noteq> 0 then raise (flasher_error cmd rc out err) else ret (rc, out, err))"

section \<open>The flasher\<close>

record discovered_node =
  dn_node_id :: int
  dn_proto :: string
  dn_fw_version :: string
  dn_git_hash :: string
  dn_product :: string
  dn_wrp :: bool
  dn_reset_cause :: string

record can_flasher =
  cf_channel :: string
  cf_bitrate :: int
  cf_node_id :: int
  cf_discover_timeout_ms :: int
  cf_per_frame_timeout_ms :: int
  cf_binary :: string

definition can_flasher_init :: "string \<Rightarrow> int \<Rightarrow> int \<Rightarrow> int \<Rightarrow> int \<Rightarrow> string \<Rightarrow> int option \<Rightarrow> can_flasher" where
  "can_flasher_init channel bitrate node_id discover_timeout_ms per_frame_timeout_ms binary timeout_ms =
     \<lparr>cf_channel = channel, cf_bitrate = bitrate, cf_node_id = node_id,
      cf_discover_timeout_ms = (case timeout_ms of Some t \<Rightarrow> t | None \<Rightarrow> discover_timeout_ms),
      cf_per_frame_timeout_ms = per_frame_timeout_ms, cf_binary = binary\<rparr>"

definition base_args :: "can_flasher \<Rightarrow> string list" where
  "base_args self = [cf_binary self, ''--interface'', ''socketcan'', ''--channel'', cf_channel self,
     ''--bitrate'', show_int (cf_bitrate self)]"

definition node_args :: "can_flasher \<Rightarrow> string list" where
  "node_args self = [''--node-id'', ''0x'' @ hexX 0 (cf_node_id self), ''--timeout'', show_int (cf_per_frame_timeout_ms self)]"

text \<open>\<^verbatim>\<open>^(0x[0-9A-Fa-f]+)\s+(\S+)\s+(.+?)\s{2,}(\S+)\s+(\S+)\s+(\S+)\s+(.+)$\<close>\<close>

definition is_hex :: "char \<Rightarrow> bool" where
  "is_hex c \<longleftrightarrow> of_char c \<in> {48..57 :: nat} \<union> {65..70} \<union> {97..102}"

abbreviation no_space :: "char \<Rightarrow> bool" where "no_space c \<equiv> \<not> is_space c"
definition row_regex :: "matcher list" where
  "row_regex =
     [literal ''0x'', greedy 1 is_hex, greedy 1 is_space, greedy 1 no_space, greedy 1 is_space, lazy 1 no_newline,
      greedy 2 is_space, greedy 1 no_space, greedy 1 is_space, greedy 1 no_space, greedy 1 is_space,
      greedy 1 no_space, greedy 1 is_space, greedy 1 no_newline]"

definition hex_digit :: "char \<Rightarrow> int" where
  "hex_digit c = (let n = of_char c in if n \<le> 57 then n - 48 else if n \<le> 70 then n - 55 else n - 87)"

definition hex_value :: "string \<Rightarrow> int" where
  "hex_value h = foldl (\<lambda>n c. n * 16 + hex_digit c) 0 h"

definition check_mark :: string where
  "check_mark = [CHR 0xE2, CHR 0x9C, CHR 0x93]"

definition parse_row :: "string \<Rightarrow> discovered_node option" where
  "parse_row line =
     (case match_all row_regex line of
        Some [p, h, s1, proto, s2, fw, s3, git, s4, product, s5, wrp, s6, cause] \<Rightarrow>
          Some \<lparr>dn_node_id = hex_value h, dn_proto = proto, dn_fw_version = py_strip fw, dn_git_hash = git,
                dn_product = product, dn_wrp = (wrp = check_mark), dn_reset_cause = py_strip cause\<rparr>
      | _ \<Rightarrow> None)"

definition discover_args :: "can_flasher \<Rightarrow> int option \<Rightarrow> string list" where
  "discover_args self timeout_ms =
     base_args self @ [''discover'', ''--timeout-ms'',
       show_int (case timeout_ms of Some t \<Rightarrow> if t = 0 then cf_discover_timeout_ms self else t
                 | None \<Rightarrow> cf_discover_timeout_ms self)]"

definition cf_discover :: "'w runner \<Rightarrow> can_flasher \<Rightarrow> int option \<Rightarrow> ('w, discovered_node list) io" where
  "cf_discover run self timeout_ms =
     (let args = discover_args self timeout_ms
      in bind (run_tool run args 15 False) (\<lambda>(rc, out, err).
           if rc \<noteq> 0 then raise (flasher_error args rc out err)
           else if contains ''No bootloaders replied'' (out @ err) then ret []
           else ret (List.map_filter parse_row (split_lines out))))"

definition cf_flash :: "'w runner \<Rightarrow> can_flasher \<Rightarrow> string \<Rightarrow> int \<Rightarrow> bool \<Rightarrow> bool \<Rightarrow> string list \<Rightarrow> rat \<Rightarrow> ('w, int \<times> string \<times> string) io" where
  "cf_flash run self image_path address verify jump extra_args timeout_s =
     run_tool run (base_args self @ node_args self @ [''flash'', image_path, ''--address'', ''0x'' @ hexX 0 address]
       @ (if verify then [''--verify-after''] else []) @ (if jump then [''--jump''] else []) @ extra_args) timeout_s True"

definition cf_send_boot_trigger :: "'w runner \<Rightarrow> can_flasher \<Rightarrow> string option \<Rightarrow> ('w, unit) io" where
  "cf_send_boot_trigger run self channel =
     bind (run_tool run [''cansend'', (case or_else channel None of Some c \<Rightarrow> c | None \<Rightarrow> cf_channel self), ''002#B007AD11''] 5 True)
       (\<lambda>_. ret ())"

definition cf_app_to_bl :: "'w runner \<Rightarrow> can_flasher \<Rightarrow> ('w, unit) io" where
  "cf_app_to_bl run self =
     bind (run_tool run (base_args self @ node_args self @ [''send-raw'', ''0x001'', ''03'', ''06'', ''01'']) 5 True) (\<lambda>_. ret ())"

section \<open>Reading the table back\<close>

text \<open>A field without spaces; a field whose words are separated by one space; the space between two fields.\<close>

definition field_word :: "string \<Rightarrow> bool" where
  "field_word w \<longleftrightarrow> w \<noteq> [] \<and> list_all no_space w"

definition single_spaced :: "string \<Rightarrow> bool" where
  "single_spaced w \<longleftrightarrow> w \<noteq> [] \<and> no_space (hd w) \<and> no_space (last w) \<and> list_all no_newline w \<and>
     (\<forall>k < length w. length (takeWhile is_space (drop k w)) < 2)"

definition gap :: "nat \<Rightarrow> string \<Rightarrow> bool" where
  "gap n s \<longleftrightarrow> n \<le> length s \<and> list_all is_space s"

lemma field_edges: "field_word w \<Longrightarrow> no_space (hd (w @ rest))" "field_word w \<Longrightarrow> w @ rest \<noteq> []"
  by (cases w; simp add: field_word_def)+

lemma match_word:
  "field_word w \<Longrightarrow> rest \<noteq> [] \<Longrightarrow> is_space (hd rest) \<Longrightarrow> match_all ms rest = Some ws \<Longrightarrow>
   match_all (greedy 1 no_space # ms) (w @ rest) = Some (w # ws)"
  by (rule match_greedy) (cases w; auto simp: field_word_def)+

lemma match_gap:
  "gap n s \<Longrightarrow> no_space (hd rest) \<Longrightarrow> match_all ms rest = Some ws \<Longrightarrow>
   match_all (greedy n is_space # ms) (s @ rest) = Some (s # ws)"
  by (rule match_greedy) (auto simp: gap_def)

lemma gap_edge: "gap n s \<Longrightarrow> 0 < n \<Longrightarrow> is_space (hd (s @ rest)) \<and> s @ rest \<noteq> []"
  by (cases s) (auto simp: gap_def)

text \<open>Inside a single-spaced field no gap of two begins.\<close>

lemma takeWhile_inside:
  assumes "single_spaced w" "k < length w"
  shows "takeWhile is_space (drop k w @ rest) = takeWhile is_space (drop k w)"
proof -
  have "last w \<in> set (drop k w)" using assms by (metis drop_eq_Nil last_drop last_in_set leD)
  moreover have "no_space (last w)" using assms(1) by (simp add: single_spaced_def)
  ultimately show ?thesis by (metis takeWhile_append1)
qed

lemma match_words:
  assumes "single_spaced w" "match_all (greedy 2 is_space # ms) rest = Some ws"
  shows "match_all (lazy 1 no_newline # greedy 2 is_space # ms) (w @ rest) = Some (w # ws)"
proof (rule match_lazy [OF _ _ assms(2)])
  show "list_all no_newline w" "1 \<le> length w" using assms(1) by (cases w; simp add: single_spaced_def)+
  fix k assume "k < length w"
  with assms(1) takeWhile_inside [OF assms(1) this, of rest]
  have "length (takeWhile is_space (drop k w @ rest)) < 2" by (simp add: single_spaced_def)
  then show "match_all (greedy 2 is_space # ms) (drop k w @ rest) = None"
    by (simp add: greedy_def runs_def)
qed

definition plain_text :: "string \<Rightarrow> bool" where
  "plain_text s \<longleftrightarrow> s \<noteq> [] \<and> no_space (hd s) \<and> no_space (last s) \<and> list_all no_newline s"

text \<open>A line of the table that shows a node, whatever the widths of its columns.\<close>

inductive shows_node :: "string \<Rightarrow> discovered_node \<Rightarrow> bool" where
  row: "h \<noteq> [] \<Longrightarrow> list_all is_hex h \<Longrightarrow> field_word proto \<Longrightarrow> single_spaced fw \<Longrightarrow> field_word git \<Longrightarrow>
    field_word product \<Longrightarrow> field_word wrp \<Longrightarrow> plain_text cause \<Longrightarrow>
    gap 1 g1 \<Longrightarrow> gap 1 g2 \<Longrightarrow> gap 2 g3 \<Longrightarrow> gap 1 g4 \<Longrightarrow> gap 1 g5 \<Longrightarrow> gap 1 g6 \<Longrightarrow>
    list_all no_newline (g1 @ g2 @ g3 @ g4 @ g5 @ g6) \<Longrightarrow>
    shows_node (''0x'' @ h @ g1 @ proto @ g2 @ fw @ g3 @ git @ g4 @ product @ g5 @ wrp @ g6 @ cause)
      \<lparr>dn_node_id = hex_value h, dn_proto = proto, dn_fw_version = fw, dn_git_hash = git, dn_product = product,
       dn_wrp = (wrp = check_mark), dn_reset_cause = cause\<rparr>"

lemma gap_hd: "gap n s \<Longrightarrow> 0 < n \<Longrightarrow> is_space (hd s) \<and> s \<noteq> []"
  using gap_edge [of n s "[]"] by simp

lemma strip_plain: "s \<noteq> [] \<Longrightarrow> no_space (hd s) \<Longrightarrow> no_space (last s) \<Longrightarrow> py_strip s = s"
  by (simp add: py_strip_def hd_rev dropWhile_eq_self_iff [THEN iffD2])

lemma words_edge: "single_spaced w \<Longrightarrow> no_space (hd (w @ rest)) \<and> w @ rest \<noteq> []"
  by (cases w) (auto simp: single_spaced_def)

lemma hex_no_space: "is_space c \<Longrightarrow> \<not> is_hex c"
  by (auto simp: is_space_def is_hex_def)

lemma match_hex:
  "h \<noteq> [] \<Longrightarrow> list_all is_hex h \<Longrightarrow> is_space (hd rest) \<Longrightarrow> match_all ms rest = Some ws \<Longrightarrow>
   match_all (greedy 1 is_hex # ms) (h @ rest) = Some (h # ws)"
  by (rule match_greedy) (auto simp: hex_no_space Suc_le_eq)

lemma match_cause: "plain_text s \<Longrightarrow> match_all [greedy 1 no_newline] s = Some [s]"
  using match_greedy [of no_newline s 1 "[]" "[]" "[]"] by (auto simp: plain_text_def Suc_le_eq)

lemma parse_shown: "shows_node line n \<Longrightarrow> parse_row line = Some n"
proof (induction rule: shows_node.induct)
  case (row h proto fw git product wrp cause g1 g2 g3 g4 g5 g6)
  note gaps = row(9-14)
  have cause: "no_space (hd cause)" "cause \<noteq> []" using row(8) by (simp_all add: plain_text_def)
  note edges = field_edges words_edge gap_edge cause
  have "0 < (1::nat)" "0 < (2::nat)" by simp_all
  note spaces = gaps(1,2,4-6) [THEN gap_hd, OF this(1)] gaps(3) [THEN gap_hd, OF this(2)]
  have "match_all row_regex (''0x'' @ h @ g1 @ proto @ g2 @ fw @ g3 @ git @ g4 @ product @ g5 @ wrp @ g6 @ cause) =
      Some [''0x'', h, g1, proto, g2, fw, g3, git, g4, product, g5, wrp, g6, cause]"
    unfolding row_regex_def
    by (intro match_literal match_hex match_gap match_word match_words match_cause row(1-8) gaps)
      (use row(3-7) gaps in \<open>auto simp: edges spaces\<close>)
  moreover have "py_strip fw = fw" "py_strip cause = cause"
    using row(4,8) by (auto simp: single_spaced_def plain_text_def strip_plain)
  ultimately show ?case by (simp add: parse_row_def)
qed


lemma shown_one_line: "shows_node line n \<Longrightarrow> list_all no_newline line"
proof (induction rule: shows_node.induct)
  case (row h proto fw git product wrp cause g1 g2 g3 g4 g5 g6)
  have "list_all no_newline w" if "field_word w" for w
    using that by (auto simp: field_word_def list_all_iff is_space_def)
  moreover have "list_all no_newline h" using row(2) by (auto simp: list_all_iff is_hex_def)
  ultimately show ?case using row by (auto simp: single_spaced_def plain_text_def)
qed

lemma header_no_row: "take 2 l \<noteq> ''0x'' \<Longrightarrow> parse_row l = None"
  by (simp add: parse_row_def row_regex_def literal_def numeral_2_eq_2)

text \<open>C38: \<open>discover\<close> on a table that \<^verbatim>\<open>can-flasher\<close> printed, with its header lines, returns exactly the nodes the
  table shows, in its order and field by field, whatever the widths of the columns and although the version may
  itself contain single spaces; on any other exit status it raises.\<close>

theorem discover_reads_table:
  assumes "list_all (\<lambda>l. take 2 l \<noteq> ''0x'' \<and> list_all no_newline l) headers" "list_all2 shows_node rows nodes"
    and "out = concat (map (\<lambda>l. l @ [CHR 0x0A]) (headers @ rows))"
    and "run (discover_args self t) 15 w = (Inr (rc, out, err), w')"
    and "\<not> contains ''No bootloaders replied'' (out @ err)"
  shows "cf_discover run self t w =
    (if rc = 0 then Inr nodes else Inl (flasher_error (discover_args self t) rc out err), w')"
proof -
  have "list_all (list_all no_newline) rows"
    using assms(2) by (induction rows nodes) (auto simp: shown_one_line)
  then have "split_lines out = headers @ rows"
    using assms(1) unfolding assms(3) by (intro split_lines_concat) (auto simp: list_all_iff)
  moreover have "List.map_filter parse_row headers = []"
    using assms(1) by (induction headers) (simp_all add: List.map_filter_simps header_no_row)
  moreover have "List.map_filter parse_row rows = nodes"
    using assms(2) by (induction rows nodes) (simp_all add: List.map_filter_simps parse_shown)
  ultimately show ?thesis
    using assms(4,5) by (simp add: cf_discover_def run_tool_def Let_def io_simps List.map_filter_def)
qed


definition demo_row :: string where
  "demo_row = ''0x'' @ ''1a'' @ ''  '' @ ''v1'' @ '' '' @ ''2.0 rc'' @ ''  '' @ ''abc'' @ '' '' @ ''AMS'' @ '' '' @ check_mark @ '' '' @ ''power on''"

definition demo_table :: string where
  "demo_table = concat (map (\<lambda>l. l @ [CHR 0x0A]) ([''Node  Proto''] @ [demo_row]))"

definition demo_flasher :: can_flasher where
  "demo_flasher = can_flasher_init ''can2'' 500000 1 3000 30000 ''can-flasher'' None"

lemma demo_shown: "shows_node demo_row
    \<lparr>dn_node_id = hex_value ''1a'', dn_proto = ''v1'', dn_fw_version = ''2.0 rc'', dn_git_hash = ''abc'', dn_product = ''AMS'',
     dn_wrp = (check_mark = check_mark), dn_reset_cause = ''power on''\<rparr>"
  unfolding demo_row_def
  by (rule shows_node.row)
    (simp_all add: is_hex_def field_word_def single_spaced_def plain_text_def gap_def is_space_def check_mark_def
      numeral_eq_Suc All_less_Suc)

theorem discover_reads_table_witness:
  "cf_discover (\<lambda>argv t w. (Inr (0, demo_table, []), w)) demo_flasher None () =
    (Inr [\<lparr>dn_node_id = 26, dn_proto = ''v1'', dn_fw_version = ''2.0 rc'', dn_git_hash = ''abc'', dn_product = ''AMS'',
           dn_wrp = True, dn_reset_cause = ''power on''\<rparr>], ())"
proof -
  have "\<not> contains ''No bootloaders replied'' (demo_table @ [])" by code_simp
  moreover have "hex_value ''1a'' = 26" by (simp add: hex_value_def hex_digit_def)
  moreover have "list_all2 shows_node [demo_row] [\<lparr>dn_node_id = hex_value ''1a'', dn_proto = ''v1'', dn_fw_version = ''2.0 rc'',
      dn_git_hash = ''abc'', dn_product = ''AMS'', dn_wrp = (check_mark = check_mark), dn_reset_cause = ''power on''\<rparr>]"
    using demo_shown by simp
  ultimately show ?thesis
    using discover_reads_table [of "[''Node  Proto'']" "[demo_row]" _ demo_table "\<lambda>argv t w. (Inr (0, demo_table, []), w)" demo_flasher None
        "()" 0 "[]" "()"]
    by (simp add: demo_table_def)
qed

end
