(* ===== verification/Kpi_Report.thy ===== *)
theory Kpi_Report
  imports Py_Value "HOL-Library.List_Lexorder" "HOL-Library.Char_ord" "HOL-Library.Multiset"
begin

text \<open>
  \<^verbatim>\<open>scripts/hil_kpi_report.py\<close>: the summary of the ledgers that the test sessions leave. A ledger is a parsed JSON
  value; the directory is a list of file names with what \<^verbatim>\<open>json.load\<close> makes of them (None when it raises). Numbers
  stay integers or floats as Python keeps them; how a float is printed without a precision is a parameter. The
  rows of the CSV file are the values of its cells, without the quoting of the \<^verbatim>\<open>csv\<close> module; the argument parser
  and the writing of the files are not modelled.
\<close>

section \<open>Numbers\<close>

fun py_num :: "json \<Rightarrow> json res" where
  "py_num (JBool b) = Inr (JInt (of_bool b))"
| "py_num (JInt i) = Inr (JInt i)"
| "py_num (JNum r) = Inr (JNum r)"
| "py_num v = Inl (type_error ''unsupported operand type(s) for +'' v)"

fun add_num :: "json \<Rightarrow> json \<Rightarrow> json res" where
  "add_num (JInt a) (JInt b) = Inr (JInt (a + b))"
| "add_num a b = rbind (as_num a) (\<lambda>x. rbind (as_num b) (\<lambda>y. Inr (JNum (x + y))))"

text \<open>\<open>sum(s[key] for s in sessions)\<close>.\<close>

primrec sum_from :: "json \<Rightarrow> string \<Rightarrow> json list \<Rightarrow> json res" where
  "sum_from acc key [] = Inr acc"
| "sum_from acc key (s # ss) =
     rbind (json_item key s) (\<lambda>v. rbind (py_num v) (\<lambda>n. rbind (add_num acc n) (\<lambda>acc'. sum_from acc' key ss)))"

definition total :: "string \<Rightarrow> json list \<Rightarrow> json res" where
  "total key ss = sum_from (JInt 0) key ss"

definition hours :: "string \<Rightarrow> json list \<Rightarrow> rat res" where
  "hours key ss = rbind (total key ss) (\<lambda>v. rbind (as_num v) (\<lambda>r. Inr (r / 3600)))"

text \<open>\<^verbatim>\<open>statistics.mean\<close> and \<^verbatim>\<open>statistics.median\<close> of a list that is not empty.\<close>

definition mean :: "rat list \<Rightarrow> rat" where
  "mean xs = sum_list xs / of_nat (length xs)"

definition median :: "rat list \<Rightarrow> rat" where
  "median xs =
     (let ys = sort xs; n = length xs
      in if odd n then ys ! (n div 2) else (ys ! (n div 2 - 1) + ys ! (n div 2)) / 2)"

section \<open>Loading\<close>

definition ends_with :: "string \<Rightarrow> string \<Rightarrow> bool" where
  "ends_with suf s \<longleftrightarrow> length suf \<le> length s \<and> drop (length s - length suf) s = suf"

fun as_str :: "json \<Rightarrow> string res" where
  "as_str (JStr s) = Inr s"
| "as_str v = Inl (type_error ''not a string'' v)"

definition since_ok :: "string option \<Rightarrow> json \<Rightarrow> bool res" where
  "since_ok since s =
     (case since of
        None \<Rightarrow> Inr True
      | Some t \<Rightarrow> if t = [] then Inr True
          else rbind (data_get ''started_at_iso'' (JStr []) s) (\<lambda>v. rbind (as_str v) (\<lambda>iso. Inr (\<not> iso < t))))"

text \<open>The loop over the files, in the order of their names; then the key each session is sorted by.\<close>

primrec keep_sessions :: "string option \<Rightarrow> (string \<times> json option) list \<Rightarrow> json list res" where
  "keep_sessions since [] = Inr []"
| "keep_sessions since (f # fs) =
     (case snd f of
        None \<Rightarrow> keep_sessions since fs
      | Some s \<Rightarrow> rbind (since_ok since s) (\<lambda>ok. rbind (keep_sessions since fs) (\<lambda>out. Inr (if ok then s # out else out))))"

definition session_time :: "json \<Rightarrow> rat res" where
  "session_time s = rbind (data_get ''started_at_unix'' (JInt 0) s) as_num"

definition sort_sessions :: "json list \<Rightarrow> json list res" where
  "sort_sessions ss =
     rbind (rmap (\<lambda>s. rbind (session_time s) (\<lambda>t. Inr (t, s))) ss) (\<lambda>ps. Inr (map snd (sort_key fst ps)))"

definition load_sessions :: "bool \<Rightarrow> (string \<times> json option) list \<Rightarrow> string option \<Rightarrow> json list res" where
  "load_sessions is_dir files since =
     (if \<not> is_dir then Inr []
      else rbind (keep_sessions since (sort_key fst (filter (\<lambda>f. ends_with ''.json'' (fst f)) files))) sort_sessions)"

section \<open>The summary\<close>

record kpi_summary =
  kp_session_count :: nat
  kp_first_session_iso :: json
  kp_last_session_iso :: json
  kp_bench_hours :: rat
  kp_test_hours :: rat
  kp_power_cycles :: json
  kp_flash_cycles :: json
  kp_bl_triggers :: json
  kp_frames_observed :: json
  kp_block_f_cycles :: json
  kp_tests_executed :: json
  kp_tests_passed :: json
  kp_tests_failed :: json
  kp_tests_errored :: json
  kp_tests_skipped :: json
  kp_operator_hours :: json
  kp_utilisation :: "(rat \<times> rat) option"
  kp_bl_latency :: "rat option"
  kp_regressions :: "string list"
  kp_flakes :: "string list"

definition util_samples :: "json list \<Rightarrow> rat list res" where
  "util_samples ss =
     rbind (rmap (\<lambda>s. rbind (json_item ''session_wall_clock_s'' s) (\<lambda>w. rbind (as_num w) (\<lambda>r.
        if r > 0 then rbind (json_item ''bench_utilisation_pct'' s) (\<lambda>u. rbind (as_num u) (\<lambda>x. Inr [x])) else Inr []))) ss)
       (\<lambda>xs. Inr (concat xs))"

definition latency_samples :: "json list \<Rightarrow> rat list res" where
  "latency_samples ss =
     rbind (rmap (\<lambda>s. rbind (data_get ''bl_discover_latency_ms_mean'' JNull s) (\<lambda>v.
        if v = JNull then Inr [] else rbind (as_num v) (\<lambda>r. Inr [r]))) ss) (\<lambda>xs. Inr (concat xs))"

fun as_names :: "json \<Rightarrow> string list res" where
  "as_names (JList xs) = rmap as_str xs"
| "as_names v = Inl (type_error ''can only concatenate list'' v)"

definition failures :: "json \<Rightarrow> string list res" where
  "failures s =
     rbind (json_item ''failed_tests'' s) (\<lambda>f. rbind (json_item ''errored_tests'' s) (\<lambda>e.
     rbind (as_names f) (\<lambda>fs. rbind (as_names e) (\<lambda>es. Inr (fs @ es)))))"

text \<open>\<open>outcomes[n].append((t, "fail"))\<close> for every session and every test that failed in it.\<close>

type_synonym outcomes = "(string \<times> json list) list"

definition hit :: "json \<Rightarrow> string \<Rightarrow> outcomes \<Rightarrow> outcomes" where
  "hit t n d = alist_set n ((case map_of d n of Some ts \<Rightarrow> ts | None \<Rightarrow> []) @ [t]) d"

primrec collect_outcomes :: "outcomes \<Rightarrow> json list \<Rightarrow> outcomes res" where
  "collect_outcomes d [] = Inr d"
| "collect_outcomes d (s # ss) =
     rbind (json_item ''started_at_unix'' s) (\<lambda>t. rbind (failures s) (\<lambda>ns. collect_outcomes (fold (hit t) ns d) ss))"

definition regression_candidates :: "outcomes \<Rightarrow> string list" where
  "regression_candidates d = sort (map fst (filter (\<lambda>(n, hits). \<not> length hits \<ge> 2) d))"

definition flake_candidates :: "nat \<Rightarrow> outcomes \<Rightarrow> string list" where
  "flake_candidates sessions d = sort (map fst (filter (\<lambda>(n, hits). length hits \<ge> 2 \<and> length hits < sessions) d))"

definition summarise :: "json list \<Rightarrow> kpi_summary option res" where
  "summarise ss =
     (if ss = [] then Inr None
      else
        rbind (json_item ''started_at_iso'' (hd ss)) (\<lambda>first.
        rbind (json_item ''started_at_iso'' (last ss)) (\<lambda>lst.
        rbind (hours ''session_wall_clock_s'' ss) (\<lambda>bench.
        rbind (hours ''total_test_time_s'' ss) (\<lambda>test.
        rbind (total ''power_cycle_count'' ss) (\<lambda>power.
        rbind (total ''flash_cycle_count'' ss) (\<lambda>flash.
        rbind (total ''bl_trigger_count'' ss) (\<lambda>trigger.
        rbind (total ''frames_observed_total'' ss) (\<lambda>frames.
        rbind (total ''block_f_cycles_completed'' ss) (\<lambda>block_f.
        rbind (total ''tests_executed'' ss) (\<lambda>executed.
        rbind (total ''tests_passed'' ss) (\<lambda>passed.
        rbind (total ''tests_failed'' ss) (\<lambda>failed.
        rbind (total ''tests_errored'' ss) (\<lambda>errored.
        rbind (total ''tests_skipped'' ss) (\<lambda>skipped.
        rbind (total ''equivalent_operator_hours'' ss) (\<lambda>operator.
        rbind (util_samples ss) (\<lambda>util.
        rbind (latency_samples ss) (\<lambda>lat.
        rbind (collect_outcomes [] ss) (\<lambda>outcomes.
          Inr (Some
            \<lparr>kp_session_count = length ss, kp_first_session_iso = first, kp_last_session_iso = lst,
             kp_bench_hours = bench, kp_test_hours = test, kp_power_cycles = power, kp_flash_cycles = flash,
             kp_bl_triggers = trigger, kp_frames_observed = frames, kp_block_f_cycles = block_f,
             kp_tests_executed = executed, kp_tests_passed = passed, kp_tests_failed = failed,
             kp_tests_errored = errored, kp_tests_skipped = skipped, kp_operator_hours = operator,
             kp_utilisation = (if util = [] then None else Some (mean util, median util)),
             kp_bl_latency = (if lat = [] then None else Some (mean lat)),
             kp_regressions = regression_candidates outcomes,
             kp_flakes = flake_candidates (length ss) outcomes\<rparr>))))))))))))))))))))"


section \<open>The report\<close>

record float_format =
  ff_str :: "rat \<Rightarrow> string"
  ff_comma :: "rat \<Rightarrow> string"

text \<open>The format \<open>.nf\<close>: the value rounded half to even to \<open>n\<close> places.\<close>

definition fixed :: "nat \<Rightarrow> rat \<Rightarrow> string" where
  "fixed n r =
     (let k = round_even (\<bar>r\<bar> * 10 ^ n); frac = show_int (k mod 10 ^ n)
      in (if r < 0 then ''-'' else []) @ show_int (k div 10 ^ n) @ ''.'' @ replicate (n - length frac) (CHR ''0'') @ frac)"

definition fixed_json :: "nat \<Rightarrow> json \<Rightarrow> string res" where
  "fixed_json n v = rbind (as_num v) (\<lambda>r. Inr (fixed n r))"

text \<open>The format \<open>,\<close> of an integer.\<close>

fun groups_of_three :: "string \<Rightarrow> string" where
  "groups_of_three (a # b # c # d # ds) = a # b # c # CHR '','' # groups_of_three (d # ds)"
| "groups_of_three ds = ds"

definition with_commas :: "float_format \<Rightarrow> json \<Rightarrow> string res" where
  "with_commas ff v =
     (case v of
        JInt i \<Rightarrow> Inr ((if i < 0 then ''-'' else []) @ rev (groups_of_three (rev (show_int \<bar>i\<bar>))))
      | JNum r \<Rightarrow> Inr (ff_comma ff r)
      | _ \<Rightarrow> Inl (Exn ValueError ''Cannot specify comma with this type''))"

definition text_of :: "float_format \<Rightarrow> json \<Rightarrow> string" where
  "text_of ff v = (case v of JNum r \<Rightarrow> ff_str ff r | _ \<Rightarrow> py_str v)"

definition nl :: string where "nl = [CHR 0x0A]"

definition bullet :: "string \<Rightarrow> string" where "bullet n = ''- `'' @ n @ ''`''"

text \<open>A roster: its title, at most twenty names, and how many more there are.\<close>

definition roster :: "string \<Rightarrow> string list \<Rightarrow> string list" where
  "roster title names =
     (if names = [] then []
      else [title @ nl] @ map bullet (take 20 names)
        @ (if 20 < length names then [''- ... and '' @ show_int (int (length names) - 20) @ '' more''] else []) @ [[]])"

definition session_row :: "float_format \<Rightarrow> json \<Rightarrow> string res" where
  "session_row ff s =
     rbind (json_item ''started_at_iso'' s) (\<lambda>iso.
     rbind (json_item ''session_wall_clock_s'' s) (\<lambda>w. rbind (as_num w) (\<lambda>wall.
     rbind (rmap (\<lambda>k. json_item k s) [''tests_executed'', ''tests_passed'', ''tests_failed'', ''power_cycle_count'',
       ''flash_cycle_count'', ''bl_trigger_count'']) (\<lambda>cells.
       Inr (''| '' @ text_of ff iso @ '' | '' @ fixed 1 (wall / 60) @ '' min ''
            @ concat (map (\<lambda>v. ''| '' @ text_of ff v @ '' '') cells) @ ''|'')))))"

definition metric :: "string \<Rightarrow> string \<Rightarrow> string" where
  "metric name v = ''| '' @ name @ '' | '' @ v @ '' |''"

definition last_sessions :: "json list \<Rightarrow> json list" where
  "last_sessions ss = drop (length ss - 10) ss"

definition render_md :: "float_format \<Rightarrow> kpi_summary option \<Rightarrow> json list \<Rightarrow> string res" where
  "render_md ff agg ss =
     (case agg of
        None \<Rightarrow> Inr (''# AMS HIL KPI summary'' @ nl @ nl @ ''No sessions in `--kpi-dir` yet.'' @ nl)
      | Some a \<Rightarrow>
          rbind (with_commas ff (kp_frames_observed a)) (\<lambda>frames.
          rbind (fixed_json 2 (kp_operator_hours a)) (\<lambda>operator.
          rbind (rmap (session_row ff) (last_sessions ss)) (\<lambda>rows.
            Inr (py_join nl (
              [''# AMS HIL KPI summary'' @ nl,
               ''Sessions in window: **'' @ show_int (int (kp_session_count a)) @ ''**  '',
               ''First: `'' @ text_of ff (kp_first_session_iso a) @ ''`  '',
               ''Last:  `'' @ text_of ff (kp_last_session_iso a) @ ''`'' @ nl,
               ''## Cumulative testing exposure'' @ nl, ''| Metric | Value |'', ''|---|---|'',
               metric ''Bench-hours (wall-clock)'' (''**'' @ fixed 2 (kp_bench_hours a) @ '' h**''),
               metric ''Active test-hours'' (fixed 2 (kp_test_hours a) @ '' h''),
               metric ''Power cycles'' (text_of ff (kp_power_cycles a)),
               metric ''Flash cycles'' (text_of ff (kp_flash_cycles a)),
               metric ''BL triggers fired'' (text_of ff (kp_bl_triggers a)),
               metric ''Frames observed'' frames,
               metric ''Block F soak cycles completed'' (text_of ff (kp_block_f_cycles a)),
               metric ''**Equivalent operator hours (estimate)**'' (''**'' @ operator @ '' h**''), [],
               ''## Test outcomes (cumulative)'' @ nl, ''| | Count |'', ''|---|---|'',
               metric ''Passed'' (text_of ff (kp_tests_passed a)),
               metric ''Failed'' (text_of ff (kp_tests_failed a)),
               metric ''Errored'' (text_of ff (kp_tests_errored a)),
               metric ''Skipped'' (text_of ff (kp_tests_skipped a)),
               metric ''Executed (passed+failed+errored)'' (text_of ff (kp_tests_executed a)), []]
              @ (case kp_utilisation a of
                   None \<Rightarrow> []
                 | Some (avg, mid) \<Rightarrow> [''## Bench utilisation'' @ nl, ''- Mean: '' @ fixed 1 avg @ '' %  '',
                     ''- Median: '' @ fixed 1 mid @ '' %'' @ nl])
              @ (case kp_bl_latency a of
                   None \<Rightarrow> []
                 | Some m \<Rightarrow> [''## BL DISCOVER latency'' @ nl, ''- Cross-session mean: '' @ fixed 1 m @ '' ms'' @ nl])
              @ roster ''## Regression candidates (single-session failures)'' (kp_regressions a)
              @ roster ''## Flake candidates (mixed outcomes across sessions)'' (kp_flakes a)
              @ [''## Last 10 sessions'' @ nl, ''| When | Wall clock | Tests | Pass | Fail | Power cycles | Flash | Triggers |'',
                 ''|---|---|---|---|---|---|---|---|'']
              @ rows) @ nl)))))"

definition csv_columns :: "string list" where
  "csv_columns = [''started_at_iso'', ''session_wall_clock_s'', ''total_test_time_s'', ''bench_utilisation_pct'',
     ''tests_executed'', ''tests_passed'', ''tests_failed'', ''tests_errored'', ''tests_skipped'', ''power_cycle_count'',
     ''flash_cycle_count'', ''bl_trigger_count'', ''frames_observed_total'', ''block_f_cycles_completed'',
     ''equivalent_operator_hours'', ''git_sha'', ''bench'']"

text \<open>The header and a row per session; a missing key leaves its cell empty; no file for no sessions.\<close>

definition write_csv :: "json list \<Rightarrow> (string list \<times> json list list) option res" where
  "write_csv ss =
     (if ss = [] then Inr None
      else rbind (rmap (\<lambda>s. rmap (\<lambda>k. data_get k (JStr []) s) csv_columns) ss) (\<lambda>rows. Inr (Some (csv_columns, rows))))"

definition kpi_main ::
  "float_format \<Rightarrow> bool \<Rightarrow> (string \<times> json option) list \<Rightarrow> string option \<Rightarrow> (string \<times> (string list \<times> json list list) option) res"
where
  "kpi_main ff is_dir files since =
     rbind (load_sessions is_dir files since) (\<lambda>ss.
     rbind (summarise ss) (\<lambda>agg.
     rbind (render_md ff agg ss) (\<lambda>md.
     rbind (write_csv ss) (\<lambda>rows. Inr (md, rows)))))"

section \<open>What the rosters say\<close>

text \<open>How often a test is listed as failed or errored, over all sessions.\<close>

definition failures_of :: "string \<Rightarrow> json list \<Rightarrow> nat" where
  "failures_of n ss = sum_list (map (\<lambda>s. case failures s of Inr ns \<Rightarrow> count_list ns n | Inl e \<Rightarrow> 0) ss)"

definition hits :: "outcomes \<Rightarrow> string \<Rightarrow> nat" where
  "hits d n = (case map_of d n of Some ts \<Rightarrow> length ts | None \<Rightarrow> 0)"

definition well_kept :: "outcomes \<Rightarrow> bool" where
  "well_kept d \<longleftrightarrow> distinct (map fst d) \<and> (\<forall>(n, ts) \<in> set d. ts \<noteq> [])"

lemma hits_hit: "hits (hit t m d) n = hits d n + (if m = n then 1 else 0)"
  by (simp add: hits_def hit_def split: option.split)

lemma alist_set_members: "p \<in> set (alist_set k v d) \<Longrightarrow> p = (k, v) \<or> p \<in> set d"
  by (induction k v d rule: alist_set.induct) (auto split: if_splits)

lemma well_kept_hit: "well_kept d \<Longrightarrow> well_kept (hit t m d)"
  unfolding well_kept_def hit_def
  by (auto simp: distinct_alist_set dest!: alist_set_members)

lemma hits_fold: "hits (fold (hit t) ns d) n = hits d n + count_list ns n \<and> (well_kept d \<longrightarrow> well_kept (fold (hit t) ns d))"
  by (induction ns arbitrary: d) (auto simp: hits_hit well_kept_hit)

lemma collect_hits:
  "collect_outcomes d ss = Inr d' \<Longrightarrow> well_kept d \<Longrightarrow> well_kept d' \<and> hits d' n = hits d n + failures_of n ss"
proof (induction ss arbitrary: d)
  case (Cons s ss)
  then obtain t ns where "failures s = Inr ns" "collect_outcomes (fold (hit t) ns d) ss = Inr d'"
    by (auto simp: rbind_Inr_iff)
  with Cons.IH [of "fold (hit t) ns d"] Cons.prems(2) hits_fold [of t ns d n]
  show ?case by (auto simp: failures_of_def)
qed (auto simp: failures_of_def)

lemma member_hits: "well_kept d \<Longrightarrow> (n, ts) \<in> set d \<longleftrightarrow> map_of d n = Some ts"
  by (auto simp: well_kept_def dest: map_of_SomeD)

lemma roster_members:
  assumes "well_kept d"
  shows "n \<in> set (map fst (filter (\<lambda>(n, ts). P (length ts)) d)) \<longleftrightarrow> 0 < hits d n \<and> P (hits d n)"
proof -
  have "n \<in> set (map fst (filter (\<lambda>(n, ts). P (length ts)) d)) \<longleftrightarrow> (\<exists>ts. (n, ts) \<in> set d \<and> P (length ts))"
    by force
  also have "\<dots> \<longleftrightarrow> (\<exists>ts. map_of d n = Some ts \<and> P (length ts))"
    using member_hits [OF assms] by simp
  also have "\<dots> \<longleftrightarrow> 0 < hits d n \<and> P (hits d n)"
  proof (cases "map_of d n")
    case (Some ts)
    with assms have "ts \<noteq> []" by (auto simp: well_kept_def dest: map_of_SomeD)
    with Some show ?thesis by (simp add: hits_def)
  qed (simp add: hits_def)
  finally show ?thesis .
qed

lemma roster_distinct: "well_kept d \<Longrightarrow> distinct (map fst (filter P d))"
  unfolding well_kept_def by (simp add: distinct_map_filter)

text \<open>Both rosters, by how often a test is listed.\<close>

lemma rosters:
  assumes "summarise ss = Inr (Some a)"
  shows "set (kp_regressions a) = {n. failures_of n ss = 1} \<and>
    set (kp_flakes a) = {n. 2 \<le> failures_of n ss \<and> failures_of n ss < length ss} \<and>
    sorted (kp_regressions a) \<and> sorted (kp_flakes a) \<and> distinct (kp_regressions a) \<and> distinct (kp_flakes a)"
proof -
  obtain d where d: "collect_outcomes [] ss = Inr d" "kp_regressions a = regression_candidates d"
      "kp_flakes a = flake_candidates (length ss) d"
    using assms by (auto simp: summarise_def rbind_Inr_iff split: if_splits)
  have w: "well_kept []" by (simp add: well_kept_def)
  note c = collect_hits [OF d(1) w]
  have h: "hits d n = failures_of n ss" for n using c [of n] by (simp add: hits_def)
  note members = roster_members [OF c [THEN conjunct1], unfolded h]
  have "set (kp_regressions a) = {n. failures_of n ss = 1}"
    by (rule set_eqI) (simp only: d(2) regression_candidates_def set_sort members [of _ "\<lambda>k. \<not> k \<ge> 2"], auto)
  moreover have "set (kp_flakes a) = {n. 2 \<le> failures_of n ss \<and> failures_of n ss < length ss}"
    by (rule set_eqI) (simp only: d(3) flake_candidates_def set_sort members [of _ "\<lambda>k. k \<ge> 2 \<and> k < length ss"], auto)
  ultimately show ?thesis
    using roster_distinct [OF c [THEN conjunct1]] by (simp add: d(2,3) regression_candidates_def flake_candidates_def)
qed

text \<open>C40: the regression roster of a summary holds exactly the tests listed once over all sessions, and the flake
  roster those listed at least twice but less often than there are sessions; both are sorted and without repetition,
  so no test is in both. Passed tests play no part.\<close>

theorem rosters_count_failures:
  assumes "summarise ss = Inr (Some a)"
  shows "set (kp_regressions a) = {n. failures_of n ss = 1} \<and>
    set (kp_flakes a) = {n. 2 \<le> failures_of n ss \<and> failures_of n ss < length ss} \<and>
    sorted (kp_regressions a) \<and> sorted (kp_flakes a) \<and> distinct (kp_regressions a) \<and> distinct (kp_flakes a)"
  by (rule rosters) (rule assms)

section \<open>What is loaded\<close>

lemma rmap_members: "rmap f xs = Inr ys \<Longrightarrow> list_all2 (\<lambda>x y. f x = Inr y) xs ys"
  by (induction xs arbitrary: ys) (auto simp: rbind_Inr_iff)

lemma keep_sessions_filter:
  "keep_sessions since fs = Inr ss \<Longrightarrow> ss = filter (\<lambda>s. since_ok since s = Inr True) (List.map_filter snd fs)"
  by (induction fs arbitrary: ss) (auto simp: rbind_Inr_iff List.map_filter_simps split: option.splits if_splits)


lemma mset_map_filter: "mset xs = mset ys \<Longrightarrow> mset (List.map_filter f xs) = mset (List.map_filter f ys)"
  by (simp add: List.map_filter_def)

text \<open>the sessions loaded from a directory are the readable \<^verbatim>\<open>.json\<close> ledgers that did not start before the
  cut-off, each as often as it is there, ordered by the time they started.\<close>

theorem load_sessions_exact:
  assumes "load_sessions is_dir files since = Inr ss"
  shows "mset ss = (if is_dir then mset (filter (\<lambda>s. since_ok since s = Inr True)
      (List.map_filter snd (filter (\<lambda>f. ends_with ''.json'' (fst f)) files))) else {#}) \<and>
    (\<exists>ts. rmap session_time ss = Inr ts \<and> sorted ts)"
proof (cases is_dir)
  case False
  with assms show ?thesis by (simp add: load_sessions_def)
next
  case True
  let ?fs = "filter (\<lambda>f. ends_with ''.json'' (fst f)) files"
  from True assms obtain kept where kept: "keep_sessions since (sort_key fst ?fs) = Inr kept" "sort_sessions kept = Inr ss"
    by (auto simp: load_sessions_def rbind_Inr_iff)
  obtain ps where ps: "rmap (\<lambda>s. rbind (session_time s) (\<lambda>t. Inr (t, s))) kept = Inr ps" "ss = map snd (sort_key fst ps)"
    using kept(2) by (auto simp: sort_sessions_def rbind_Inr_iff)
  have pairs: "map snd ps = kept \<and> (\<forall>(t, s) \<in> set ps. session_time s = Inr t)"
    using ps(1) by (induction kept arbitrary: ps) (auto simp: rbind_Inr_iff)
  have "mset ss = mset kept" unfolding ps(2) pairs [THEN conjunct1, symmetric] by simp
  also have "mset kept = mset (filter (\<lambda>s. since_ok since s = Inr True) (List.map_filter snd ?fs))"
    unfolding keep_sessions_filter [OF kept(1)] mset_filter by (simp add: mset_map_filter [of "sort_key fst ?fs" ?fs])
  finally have "mset ss = mset (filter (\<lambda>s. since_ok since s = Inr True) (List.map_filter snd ?fs))" .
  moreover have "rmap session_time ss = Inr (map fst (sort_key fst ps))"
  proof -
    have "rmap session_time (map snd qs) = Inr (map fst qs)" if "\<forall>(t, s) \<in> set qs. session_time s = Inr t" for qs
      using that by (induction qs) auto
    with pairs ps(2) show ?thesis by simp
  qed
  ultimately show ?thesis using True by simp
qed


text \<open>Three sessions: one test fails and errors in a single session, another fails once, a third in every session.\<close>

definition demo_ledger :: "int \<Rightarrow> string list \<Rightarrow> string list \<Rightarrow> json" where
  "demo_ledger t failed errored = JObj ([(''started_at_iso'', JStr ''2026-05-01''), (''started_at_unix'', JInt t),
     (''failed_tests'', JList (map JStr failed)), (''errored_tests'', JList (map JStr errored)),
     (''bench_utilisation_pct'', JNum 50)]
     @ map (\<lambda>k. (k, JInt 1)) [''session_wall_clock_s'', ''total_test_time_s'', ''power_cycle_count'', ''flash_cycle_count'',
         ''bl_trigger_count'', ''frames_observed_total'', ''block_f_cycles_completed'', ''tests_executed'', ''tests_passed'',
         ''tests_failed'', ''tests_errored'', ''tests_skipped'', ''equivalent_operator_hours''])"

definition demo_ledgers :: "json list" where
  "demo_ledgers = [demo_ledger 1 [''a'', ''c''] [''a''], demo_ledger 2 [''b'', ''c''] [], demo_ledger 3 [''c''] []]"

lemma demo_summary: "\<exists>a. summarise demo_ledgers = Inr (Some a)"
  by (simp add: summarise_def demo_ledgers_def demo_ledger_def json_item_def data_get_def hours_def total_def
      util_samples_def latency_samples_def failures_def)

lemma demo_failures: "failures_of n demo_ledgers =
    (if n = ''a'' then 2 else 0) + (if n = ''b'' then 1 else 0) + (if n = ''c'' then 3 else 0)"
  by (simp add: failures_of_def demo_ledgers_def demo_ledger_def failures_def json_item_def)

theorem rosters_count_failures_witness:
  "\<exists>a. summarise demo_ledgers = Inr (Some a) \<and> set (kp_regressions a) = {''b''} \<and> set (kp_flakes a) = {''a''}"
proof -
  obtain a where a: "summarise demo_ledgers = Inr (Some a)" using demo_summary ..
  have "length demo_ledgers = 3" by (simp add: demo_ledgers_def)
  with rosters_count_failures [OF a] a show ?thesis by (auto simp: demo_failures split: if_splits)
qed

theorem load_sessions_exact_witness:
  "\<exists>ts. rmap session_time [demo_ledger 1 [] [], demo_ledger 2 [] []] = Inr ts \<and> sorted ts"
proof -
  have "load_sessions True [(''a.json'', Some (demo_ledger 2 [] [])), (''b.json'', None), (''c.txt'', None),
      (''d.json'', Some (demo_ledger 1 [] []))] None = Inr [demo_ledger 1 [] [], demo_ledger 2 [] []]"
    by (simp add: load_sessions_def ends_with_def since_ok_def sort_sessions_def session_time_def data_get_def demo_ledger_def)
  from load_sessions_exact [OF this] show ?thesis by (rule conjunct2)
qed

end
