(* ===== verification/Kpi_Plugin.thy ===== *)
theory Kpi_Plugin
  imports Kpi_Report Bench_Config
begin

text \<open>
  \<^verbatim>\<open>tests/hil/ams/kpi_plugin.py\<close>: the plugin of the test runner that counts what a session does and leaves the ledger
  that Kpi_Report reads. A session is the sequence of what the fixtures and the hooks of the runner report. What the
  plugin asks of the outside (clock, host, git, options) is the record \<open>kpi_env\<close>; a test report is what the runner
  documents of it: its phase, outcome, name and duration, failed meaning that the outcome is \<open>failed\<close>. Floats are
  rationals; registering the options is not modelled.
\<close>

section \<open>The counters\<close>

record kpi_state =
  ks_power :: int
  ks_flash :: int
  ks_trigger :: int
  ks_frames :: int
  ks_block_f :: int
  ks_durations :: "(string \<times> rat) list"
  ks_outcomes :: "(string \<times> string) list"
  ks_latencies :: "rat list"

definition kpi_state_init :: kpi_state where
  "kpi_state_init = \<lparr>ks_power = 0, ks_flash = 0, ks_trigger = 0, ks_frames = 0, ks_block_f = 0, ks_durations = [],
     ks_outcomes = [], ks_latencies = []\<rparr>"

definition bump_power_cycle :: "int \<Rightarrow> kpi_state \<Rightarrow> kpi_state" where
  "bump_power_cycle n s = s\<lparr>ks_power := ks_power s + n\<rparr>"

definition bump_flash_cycle :: "int \<Rightarrow> kpi_state \<Rightarrow> kpi_state" where
  "bump_flash_cycle n s = s\<lparr>ks_flash := ks_flash s + n\<rparr>"

definition bump_bl_trigger :: "int \<Rightarrow> kpi_state \<Rightarrow> kpi_state" where
  "bump_bl_trigger n s = s\<lparr>ks_trigger := ks_trigger s + n\<rparr>"

definition bump_frames_observed :: "int \<Rightarrow> kpi_state \<Rightarrow> kpi_state" where
  "bump_frames_observed n s = s\<lparr>ks_frames := ks_frames s + n\<rparr>"

definition bump_block_f_cycle :: "int \<Rightarrow> kpi_state \<Rightarrow> kpi_state" where
  "bump_block_f_cycle n s = s\<lparr>ks_block_f := ks_block_f s + n\<rparr>"

definition record_bl_discover_latency_ms :: "rat \<Rightarrow> kpi_state \<Rightarrow> kpi_state" where
  "record_bl_discover_latency_ms ms s = s\<lparr>ks_latencies := ks_latencies s @ [ms]\<rparr>"

section \<open>The session\<close>

record session_kpi =
  sk_session_id :: string
  sk_hostname :: string
  sk_bench :: string
  sk_started_at_unix :: rat
  sk_started_at_iso :: string
  sk_git_sha :: string
  sk_git_dirty :: bool
  sk_pytest_args :: "string list"
  sk_finished_at_unix :: rat
  sk_session_wall_clock_s :: rat
  sk_tests_collected :: int
  sk_tests_executed :: int
  sk_tests_passed :: int
  sk_tests_failed :: int
  sk_tests_errored :: int
  sk_tests_skipped :: int
  sk_tests_xfailed :: int
  sk_tests_xpassed :: int
  sk_tests_deselected :: int
  sk_total_test_time_s :: rat
  sk_bench_utilisation_pct :: rat
  sk_power_cycle_count :: int
  sk_flash_cycle_count :: int
  sk_bl_trigger_count :: int
  sk_frames_observed_total :: int
  sk_block_f_cycles_completed :: int
  sk_latency_mean :: "rat option"
  sk_latency_p50 :: "rat option"
  sk_latency_p99 :: "rat option"
  sk_operator_hours :: rat
  sk_failed_tests :: "string list"
  sk_errored_tests :: "string list"

text \<open>\<open>ke_sha\<close> and \<open>ke_status\<close> are what the two git commands print, None when they raise.\<close>

record kpi_env =
  ke_no_kpi :: bool
  ke_bench :: string
  ke_uuid :: string
  ke_hostname :: string
  ke_now :: rat
  ke_iso :: string
  ke_args :: "string list"
  ke_sha :: "string option"
  ke_status :: "string option"
  ke_finish :: rat
  ke_system :: string
  ke_release :: string
  ke_machine :: string
  ke_python :: string

definition git_status :: "kpi_env \<Rightarrow> string \<times> bool" where
  "git_status env =
     (case ke_sha env of
        None \<Rightarrow> (''unknown'', False)
      | Some sha \<Rightarrow> (py_strip sha, case ke_status env of None \<Rightarrow> False | Some st \<Rightarrow> py_strip st \<noteq> []))"

definition percentile :: "rat list \<Rightarrow> rat \<Rightarrow> rat option" where
  "percentile samples pct =
     (if samples = [] then None
      else let s = sort samples; k = of_nat (length s - 1) * (pct / 100); f = nat \<lfloor>k\<rfloor>; c = min (f + 1) (length s - 1)
        in Some (if f = c then s ! f else s ! f + (s ! c - s ! f) * (k - of_nat f)))"

definition operator_hours_heuristic :: "session_kpi \<Rightarrow> rat" where
  "operator_hours_heuristic s =
     of_int (sk_power_cycle_count s * 30 + sk_flash_cycle_count s * 60 + sk_bl_trigger_count s * 45
       + sk_tests_executed s * 30) / 3600"

definition new_session :: "kpi_env \<Rightarrow> session_kpi" where
  "new_session env =
     \<lparr>sk_session_id = take 12 (ke_uuid env), sk_hostname = ke_hostname env, sk_bench = ke_bench env,
      sk_started_at_unix = ke_now env, sk_started_at_iso = ke_iso env, sk_git_sha = fst (git_status env),
      sk_git_dirty = snd (git_status env), sk_pytest_args = ke_args env, sk_finished_at_unix = 0, sk_session_wall_clock_s = 0,
      sk_tests_collected = 0, sk_tests_executed = 0, sk_tests_passed = 0, sk_tests_failed = 0, sk_tests_errored = 0,
      sk_tests_skipped = 0, sk_tests_xfailed = 0, sk_tests_xpassed = 0, sk_tests_deselected = 0, sk_total_test_time_s = 0,
      sk_bench_utilisation_pct = 0, sk_power_cycle_count = 0, sk_flash_cycle_count = 0, sk_bl_trigger_count = 0,
      sk_frames_observed_total = 0, sk_block_f_cycles_completed = 0, sk_latency_mean = None, sk_latency_p50 = None,
      sk_latency_p99 = None, sk_operator_hours = 0, sk_failed_tests = [], sk_errored_tests = []\<rparr>"

definition sessionstart :: "kpi_env \<Rightarrow> session_kpi option" where
  "sessionstart env = (if ke_no_kpi env then None else Some (new_session env))"

section \<open>The hooks\<close>

record test_report =
  rp_when :: string
  rp_outcome :: string
  rp_nodeid :: string
  rp_duration :: rat

text \<open>The module's two variables.\<close>

type_synonym plugin = "kpi_state \<times> session_kpi option"

definition on_session :: "(session_kpi \<Rightarrow> session_kpi) \<Rightarrow> plugin \<Rightarrow> plugin" where
  "on_session f p = (fst p, map_option f (snd p))"

definition add_errored :: "string \<Rightarrow> session_kpi \<Rightarrow> session_kpi" where
  "add_errored n k =
     (if n \<in> set (sk_errored_tests k) then k
      else k\<lparr>sk_errored_tests := sk_errored_tests k @ [n], sk_tests_errored := sk_tests_errored k + 1\<rparr>)"

definition count_call :: "test_report \<Rightarrow> session_kpi \<Rightarrow> session_kpi" where
  "count_call rep k =
     (let k = k\<lparr>sk_total_test_time_s := sk_total_test_time_s k + rp_duration rep\<rparr>
      in if rp_outcome rep = ''passed'' then k\<lparr>sk_tests_passed := sk_tests_passed k + 1\<rparr>
         else if rp_outcome rep = ''failed'' then
           k\<lparr>sk_tests_failed := sk_tests_failed k + 1,
             sk_failed_tests := (if rp_nodeid rep \<in> set (sk_failed_tests k) then sk_failed_tests k
                                 else sk_failed_tests k @ [rp_nodeid rep])\<rparr>
         else if rp_outcome rep = ''skipped'' then k\<lparr>sk_tests_skipped := sk_tests_skipped k + 1\<rparr> else k)"

definition runtest_makereport :: "test_report \<Rightarrow> plugin \<Rightarrow> plugin" where
  "runtest_makereport rep p =
     (case snd p of
        None \<Rightarrow> p
      | Some k \<Rightarrow>
          if rp_when rep = ''call'' then
            ((fst p)\<lparr>ks_durations := alist_set (rp_nodeid rep) (rp_duration rep) (ks_durations (fst p)),
                     ks_outcomes := alist_set (rp_nodeid rep) (rp_outcome rep) (ks_outcomes (fst p))\<rparr>,
             Some (count_call rep k))
          else if rp_when rep = ''setup'' then
            (fst p, Some (if rp_outcome rep = ''skipped'' then k\<lparr>sk_tests_skipped := sk_tests_skipped k + 1\<rparr>
                          else if rp_outcome rep = ''failed'' then add_errored (rp_nodeid rep) k else k))
          else if rp_when rep = ''teardown'' then
            (fst p, Some (if rp_outcome rep = ''failed'' then add_errored (rp_nodeid rep) k else k))
          else p)"

datatype kpi_event =
    PowerCycle int | FlashCycle int | BlTrigger int | Frames int | BlockF int | Latency rat
  | Collected nat | Deselected nat | Report test_report

fun kpi_step :: "kpi_event \<Rightarrow> plugin \<Rightarrow> plugin" where
  "kpi_step (PowerCycle n) p = (bump_power_cycle n (fst p), snd p)"
| "kpi_step (FlashCycle n) p = (bump_flash_cycle n (fst p), snd p)"
| "kpi_step (BlTrigger n) p = (bump_bl_trigger n (fst p), snd p)"
| "kpi_step (Frames n) p = (bump_frames_observed n (fst p), snd p)"
| "kpi_step (BlockF n) p = (bump_block_f_cycle n (fst p), snd p)"
| "kpi_step (Latency ms) p = (record_bl_discover_latency_ms ms (fst p), snd p)"
| "kpi_step (Collected n) p = on_session (\<lambda>k. k\<lparr>sk_tests_collected := int n\<rparr>) p"
| "kpi_step (Deselected n) p = on_session (\<lambda>k. k\<lparr>sk_tests_deselected := sk_tests_deselected k + int n\<rparr>) p"
| "kpi_step (Report rep) p = runtest_makereport rep p"

section \<open>The ledger\<close>

definition finish_session :: "kpi_env \<Rightarrow> kpi_state \<Rightarrow> session_kpi \<Rightarrow> session_kpi" where
  "finish_session env st k =
     (let wall = ke_finish env - sk_started_at_unix k;
          k = k\<lparr>sk_finished_at_unix := ke_finish env, sk_session_wall_clock_s := wall,
                sk_tests_executed := sk_tests_passed k + sk_tests_failed k + sk_tests_errored k,
                sk_power_cycle_count := ks_power st, sk_flash_cycle_count := ks_flash st,
                sk_bl_trigger_count := ks_trigger st, sk_frames_observed_total := ks_frames st,
                sk_block_f_cycles_completed := ks_block_f st\<rparr>;
          k = (if wall > 0 then k\<lparr>sk_bench_utilisation_pct := sk_total_test_time_s k / wall * 100\<rparr> else k);
          lat = ks_latencies st;
          k = (if lat = [] then k
               else k\<lparr>sk_latency_mean := Some (sum_list lat / of_nat (length lat)), sk_latency_p50 := percentile lat 50,
                      sk_latency_p99 := percentile lat 99\<rparr>)
      in k\<lparr>sk_operator_hours := operator_hours_heuristic k\<rparr>)"

definition opt_num :: "rat option \<Rightarrow> json" where
  "opt_num r = (case r of None \<Rightarrow> JNull | Some x \<Rightarrow> JNum x)"

text \<open>\<open>asdict\<close>.\<close>

definition session_dict :: "session_kpi \<Rightarrow> (string \<times> json) list" where
  "session_dict k =
     [(''session_id'', JStr (sk_session_id k)), (''hostname'', JStr (sk_hostname k)), (''bench'', JStr (sk_bench k)),
      (''started_at_unix'', JNum (sk_started_at_unix k)), (''started_at_iso'', JStr (sk_started_at_iso k)),
      (''git_sha'', JStr (sk_git_sha k)), (''git_dirty'', JBool (sk_git_dirty k)),
      (''pytest_args'', JList (map JStr (sk_pytest_args k))), (''finished_at_unix'', JNum (sk_finished_at_unix k)),
      (''session_wall_clock_s'', JNum (sk_session_wall_clock_s k)), (''tests_collected'', JInt (sk_tests_collected k)),
      (''tests_executed'', JInt (sk_tests_executed k)), (''tests_passed'', JInt (sk_tests_passed k)),
      (''tests_failed'', JInt (sk_tests_failed k)), (''tests_errored'', JInt (sk_tests_errored k)),
      (''tests_skipped'', JInt (sk_tests_skipped k)), (''tests_xfailed'', JInt (sk_tests_xfailed k)),
      (''tests_xpassed'', JInt (sk_tests_xpassed k)), (''tests_deselected'', JInt (sk_tests_deselected k)),
      (''total_test_time_s'', JNum (sk_total_test_time_s k)), (''bench_utilisation_pct'', JNum (sk_bench_utilisation_pct k)),
      (''power_cycle_count'', JInt (sk_power_cycle_count k)), (''flash_cycle_count'', JInt (sk_flash_cycle_count k)),
      (''bl_trigger_count'', JInt (sk_bl_trigger_count k)), (''frames_observed_total'', JInt (sk_frames_observed_total k)),
      (''block_f_cycles_completed'', JInt (sk_block_f_cycles_completed k)),
      (''bl_discover_latency_ms_mean'', opt_num (sk_latency_mean k)), (''bl_discover_latency_ms_p50'', opt_num (sk_latency_p50 k)),
      (''bl_discover_latency_ms_p99'', opt_num (sk_latency_p99 k)), (''equivalent_operator_hours'', JNum (sk_operator_hours k)),
      (''failed_tests'', JList (map JStr (sk_failed_tests k))), (''errored_tests'', JList (map JStr (sk_errored_tests k)))]"

text \<open>The file is written with sorted keys.\<close>

definition sorted_obj :: "(string \<times> json) list \<Rightarrow> json" where
  "sorted_obj kvs = JObj (sort_key fst kvs)"

definition ledger :: "kpi_env \<Rightarrow> session_kpi \<Rightarrow> json" where
  "ledger env k = sorted_obj (session_dict k @ [(''platform'', sorted_obj [(''system'', JStr (ke_system env)),
     (''release'', JStr (ke_release env)), (''machine'', JStr (ke_machine env)), (''python'', JStr (ke_python env))])])"

definition sessionfinish :: "kpi_env \<Rightarrow> plugin \<Rightarrow> (string \<times> json) option" where
  "sessionfinish env p =
     (case snd p of
        None \<Rightarrow> None
      | Some k \<Rightarrow> let k = finish_session env (fst p) k in Some (sk_session_id k @ ''.json'', ledger env k))"

definition run_session :: "kpi_env \<Rightarrow> kpi_event list \<Rightarrow> (string \<times> json) option" where
  "run_session env es = sessionfinish env (fold kpi_step es (kpi_state_init, sessionstart env))"

text \<open>The ledger directory after some sessions of the runner, one after the other.\<close>

definition ledger_files :: "(kpi_env \<times> kpi_event list) list \<Rightarrow> (string \<times> json option) list" where
  "ledger_files runs =
     fold (\<lambda>(env, es) d. case run_session env es of None \<Rightarrow> d | Some (f, l) \<Rightarrow> alist_set f (Some l) d) runs []"

section \<open>What a session counts\<close>

text \<open>Read off the events: sums, calls with an outcome, tests that failed and tests whose set-up or teardown failed.\<close>

definition power_cycles :: "kpi_event list \<Rightarrow> int" where
  "power_cycles es = sum_list (map (\<lambda>e. case e of PowerCycle n \<Rightarrow> n | _ \<Rightarrow> 0) es)"

definition flash_cycles :: "kpi_event list \<Rightarrow> int" where
  "flash_cycles es = sum_list (map (\<lambda>e. case e of FlashCycle n \<Rightarrow> n | _ \<Rightarrow> 0) es)"

definition bl_triggers :: "kpi_event list \<Rightarrow> int" where
  "bl_triggers es = sum_list (map (\<lambda>e. case e of BlTrigger n \<Rightarrow> n | _ \<Rightarrow> 0) es)"

definition frames_seen :: "kpi_event list \<Rightarrow> int" where
  "frames_seen es = sum_list (map (\<lambda>e. case e of Frames n \<Rightarrow> n | _ \<Rightarrow> 0) es)"

definition block_f_cycles :: "kpi_event list \<Rightarrow> int" where
  "block_f_cycles es = sum_list (map (\<lambda>e. case e of BlockF n \<Rightarrow> n | _ \<Rightarrow> 0) es)"

definition calls :: "string \<Rightarrow> kpi_event list \<Rightarrow> int" where
  "calls outcome es = int (length (filter (\<lambda>e. case e of Report r \<Rightarrow> rp_when r = ''call'' \<and> rp_outcome r = outcome | _ \<Rightarrow> False) es))"

text \<open>A test is skipped in its call or already in its set-up.\<close>

definition skips :: "kpi_event list \<Rightarrow> int" where
  "skips es = int (length (filter (\<lambda>e. case e of Report r \<Rightarrow> rp_when r \<in> {''call'', ''setup''} \<and> rp_outcome r = ''skipped''
     | _ \<Rightarrow> False) es))"

definition call_failed :: "kpi_event list \<Rightarrow> string set" where
  "call_failed es = {n. \<exists>r. Report r \<in> set es \<and> rp_when r = ''call'' \<and> rp_outcome r = ''failed'' \<and> rp_nodeid r = n}"

definition fixture_failed :: "kpi_event list \<Rightarrow> string set" where
  "fixture_failed es = {n. \<exists>r. Report r \<in> set es \<and> rp_when r \<in> {''setup'', ''teardown''} \<and> rp_outcome r = ''failed'' \<and> rp_nodeid r = n}"

definition tallied :: "kpi_env \<Rightarrow> kpi_event list \<Rightarrow> plugin \<Rightarrow> bool" where
  "tallied env es = (\<lambda>(st, k'). \<exists>k. k' = Some k \<and> ks_power st = power_cycles es \<and>
     ks_flash st = flash_cycles es \<and> ks_trigger st = bl_triggers es \<and> ks_frames st = frames_seen es \<and>
     ks_block_f st = block_f_cycles es \<and> sk_tests_skipped k = skips es \<and> sk_session_id k = take 12 (ke_uuid env) \<and>
     sk_tests_passed k = calls ''passed'' es \<and> sk_tests_failed k = calls ''failed'' es \<and>
     set (sk_failed_tests k) = call_failed es \<and> distinct (sk_failed_tests k) \<and>
     set (sk_errored_tests k) = fixture_failed es \<and> distinct (sk_errored_tests k) \<and>
     sk_tests_errored k = int (card (fixture_failed es)))"

lemma count_call_fields:
  "sk_session_id (count_call r k) = sk_session_id k" "sk_errored_tests (count_call r k) = sk_errored_tests k"
  "sk_tests_errored (count_call r k) = sk_tests_errored k"
  "sk_tests_passed (count_call r k) = sk_tests_passed k + of_bool (rp_outcome r = ''passed'')"
  "sk_tests_failed (count_call r k) = sk_tests_failed k + of_bool (rp_outcome r = ''failed'')"
  "sk_tests_skipped (count_call r k) = sk_tests_skipped k + of_bool (rp_outcome r = ''skipped'')"
  "set (sk_failed_tests (count_call r k))
   = set (sk_failed_tests k) \<union> (if rp_outcome r = ''failed'' then {rp_nodeid r} else {})"
  "distinct (sk_failed_tests (count_call r k)) = distinct (sk_failed_tests k)"
  by (auto simp: count_call_def Let_def)

lemma add_errored_fields:
  "sk_session_id (add_errored n k) = sk_session_id k" "sk_failed_tests (add_errored n k) = sk_failed_tests k"
  "sk_tests_passed (add_errored n k) = sk_tests_passed k" "sk_tests_failed (add_errored n k) = sk_tests_failed k"
  "sk_tests_skipped (add_errored n k) = sk_tests_skipped k"
  "set (sk_errored_tests (add_errored n k)) = insert n (set (sk_errored_tests k))"
  "distinct (sk_errored_tests (add_errored n k)) = distinct (sk_errored_tests k)"
  "sk_tests_errored (add_errored n k) = sk_tests_errored k + of_bool (n \<notin> set (sk_errored_tests k))"
  by (auto simp: add_errored_def)

lemmas count_defs = power_cycles_def flash_cycles_def bl_triggers_def frames_seen_def block_f_cycles_def skips_def calls_def
  call_failed_def fixture_failed_def

text \<open>One event more.\<close>

lemma counts_snoc:
  "power_cycles (es @ [e]) = power_cycles es + (case e of PowerCycle n \<Rightarrow> n | _ \<Rightarrow> 0)"
  "flash_cycles (es @ [e]) = flash_cycles es + (case e of FlashCycle n \<Rightarrow> n | _ \<Rightarrow> 0)"
  "bl_triggers (es @ [e]) = bl_triggers es + (case e of BlTrigger n \<Rightarrow> n | _ \<Rightarrow> 0)"
  "frames_seen (es @ [e]) = frames_seen es + (case e of Frames n \<Rightarrow> n | _ \<Rightarrow> 0)"
  "block_f_cycles (es @ [e]) = block_f_cycles es + (case e of BlockF n \<Rightarrow> n | _ \<Rightarrow> 0)"
  "skips (es @ [e]) = skips es
    + of_bool (case e of Report r \<Rightarrow> rp_when r \<in> {''call'', ''setup''} \<and> rp_outcome r = ''skipped'' | _ \<Rightarrow> False)"
  "calls outcome (es @ [e]) = calls outcome es
    + of_bool (case e of Report r \<Rightarrow> rp_when r = ''call'' \<and> rp_outcome r = outcome | _ \<Rightarrow> False)"
  "call_failed (es @ [e]) = call_failed es
    \<union> (case e of Report r \<Rightarrow> if rp_when r = ''call'' \<and> rp_outcome r = ''failed'' then {rp_nodeid r} else {} | _ \<Rightarrow> {})"
  "fixture_failed (es @ [e]) = fixture_failed es
    \<union> (case e of Report r \<Rightarrow> if rp_when r \<in> {''setup'', ''teardown''} \<and> rp_outcome r = ''failed'' then {rp_nodeid r} else {}
       | _ \<Rightarrow> {})"
  by (auto simp: count_defs split: kpi_event.split)

lemma report_tallied:
  assumes "tallied env es p"
  shows "tallied env (es @ [Report r]) (runtest_makereport r p)"
proof -
  obtain st k where p: "p = (st, Some k)" using assms by (auto simp: tallied_def)
  have "fixture_failed es = set (sk_errored_tests k)" using assms by (simp add: tallied_def p)
  then have fin: "finite (fixture_failed es)" by simp
  consider (call) "rp_when r = ''call''" | (fixture) "rp_when r \<in> {''setup'', ''teardown''}" "rp_outcome r = ''failed''"
    | (other) "rp_when r \<noteq> ''call''" "\<not> (rp_when r \<in> {''setup'', ''teardown''} \<and> rp_outcome r = ''failed'')" by blast
  then show ?thesis
  proof cases
    case call
    with assms show ?thesis by (auto simp: tallied_def p runtest_makereport_def counts_snoc count_call_fields)
  next
    case fixture
    with assms have "runtest_makereport r p = (st, Some (add_errored (rp_nodeid r) k))"
      by (auto simp: p runtest_makereport_def)
    moreover from fixture have "skips (es @ [Report r]) = skips es" by (simp add: counts_snoc)
    ultimately show ?thesis using assms fixture fin
      by (auto simp: tallied_def p counts_snoc add_errored_fields card_insert_if)
  next
    case other
    then have "\<exists>k'. runtest_makereport r p = (st, Some k') \<and> sk_session_id k' = sk_session_id k \<and>
        sk_tests_passed k' = sk_tests_passed k \<and> sk_tests_failed k' = sk_tests_failed k \<and>
        sk_failed_tests k' = sk_failed_tests k \<and> sk_errored_tests k' = sk_errored_tests k \<and> sk_tests_errored k' = sk_tests_errored k \<and>
        sk_tests_skipped k' = sk_tests_skipped k + of_bool (rp_when r = ''setup'' \<and> rp_outcome r = ''skipped'')"
      by (auto simp: p runtest_makereport_def)
    with assms other show ?thesis by (auto simp: tallied_def p counts_snoc)
  qed
qed

lemma session_tallied:
  "\<not> ke_no_kpi env \<Longrightarrow> tallied env es (fold kpi_step es (kpi_state_init, sessionstart env))"
proof (induction es rule: rev_induct)
  case Nil
  then show ?case
    by (simp add: tallied_def sessionstart_def new_session_def kpi_state_init_def count_defs)
next
  case (snoc e es)
  then have t: "tallied env es (fold kpi_step es (kpi_state_init, sessionstart env))" by blast
  show ?case
  proof (cases e)
    case (Report r)
    with report_tallied [OF t, of r] show ?thesis by simp
  qed (use t in \<open>auto simp: tallied_def counts_snoc on_session_def bump_power_cycle_def bump_flash_cycle_def
      bump_bl_trigger_def bump_frames_observed_def bump_block_f_cycle_def record_bl_discover_latency_ms_def\<close>)
qed

section \<open>What the report reads\<close>

lemma map_of_sort: "distinct (map fst kvs) \<Longrightarrow> map_of (sort_key fst kvs) = map_of kvs"
proof -
  assume d: "distinct (map fst kvs)"
  have "mset (map fst (sort_key fst kvs)) = mset (map fst kvs)" by simp
  then have "distinct (map fst (sort_key fst kvs))" using d by (metis mset_eq_imp_distinct_iff)
  with d show ?thesis by (simp add: map_of_inject_set)
qed

lemma read_sorted:
  assumes "distinct (map fst kvs)"
  shows "json_item key (sorted_obj kvs) = json_item key (JObj kvs)" "data_get key v (sorted_obj kvs) = data_get key v (JObj kvs)"
  using map_of_sort [OF assms] by (simp_all add: sorted_obj_def json_item_def data_get_def)

lemma ledger_keys: "distinct (map fst (session_dict k @ [(''platform'', v)]))"
  by (simp add: session_dict_def)

lemma ledger_reads:
  "json_item key (ledger env k) = json_item key (JObj (session_dict k @ [(''platform'', sorted_obj [(''system'', JStr (ke_system env)),
     (''release'', JStr (ke_release env)), (''machine'', JStr (ke_machine env)), (''python'', JStr (ke_python env))])]))"
  "data_get key v (ledger env k) = data_get key v (JObj (session_dict k @ [(''platform'', sorted_obj [(''system'', JStr (ke_system env)),
     (''release'', JStr (ke_release env)), (''machine'', JStr (ke_machine env)), (''python'', JStr (ke_python env))])]))"
  by (simp_all only: ledger_def read_sorted [OF ledger_keys])

lemma ledger_ints:
  "json_item ''tests_executed'' (ledger env k) = Inr (JInt (sk_tests_executed k))"
  "json_item ''tests_passed'' (ledger env k) = Inr (JInt (sk_tests_passed k))"
  "json_item ''tests_failed'' (ledger env k) = Inr (JInt (sk_tests_failed k))"
  "json_item ''tests_errored'' (ledger env k) = Inr (JInt (sk_tests_errored k))"
  "json_item ''tests_skipped'' (ledger env k) = Inr (JInt (sk_tests_skipped k))"
  "json_item ''power_cycle_count'' (ledger env k) = Inr (JInt (sk_power_cycle_count k))"
  "json_item ''flash_cycle_count'' (ledger env k) = Inr (JInt (sk_flash_cycle_count k))"
  "json_item ''bl_trigger_count'' (ledger env k) = Inr (JInt (sk_bl_trigger_count k))"
  "json_item ''frames_observed_total'' (ledger env k) = Inr (JInt (sk_frames_observed_total k))"
  "json_item ''block_f_cycles_completed'' (ledger env k) = Inr (JInt (sk_block_f_cycles_completed k))"
  unfolding ledger_reads by (simp_all add: session_dict_def json_item_def)

lemma ledger_nums:
  "json_item ''started_at_unix'' (ledger env k) = Inr (JNum (sk_started_at_unix k))"
  "json_item ''session_wall_clock_s'' (ledger env k) = Inr (JNum (sk_session_wall_clock_s k))"
  "json_item ''total_test_time_s'' (ledger env k) = Inr (JNum (sk_total_test_time_s k))"
  "json_item ''bench_utilisation_pct'' (ledger env k) = Inr (JNum (sk_bench_utilisation_pct k))"
  "json_item ''equivalent_operator_hours'' (ledger env k) = Inr (JNum (sk_operator_hours k))"
  unfolding ledger_reads by (simp_all add: session_dict_def json_item_def)

lemma ledger_others:
  "json_item ''started_at_iso'' (ledger env k) = Inr (JStr (sk_started_at_iso k))"
  "json_item ''failed_tests'' (ledger env k) = Inr (JList (map JStr (sk_failed_tests k)))"
  "json_item ''errored_tests'' (ledger env k) = Inr (JList (map JStr (sk_errored_tests k)))"
  "data_get ''bl_discover_latency_ms_mean'' JNull (ledger env k) = Inr (opt_num (sk_latency_mean k))"
  "session_time (ledger env k) = Inr (sk_started_at_unix k)"
  unfolding session_time_def ledger_reads by (simp_all add: session_dict_def json_item_def data_get_def)

lemma ledger_object: "\<exists>v. data_get key dflt (ledger env k) = Inr v"
  by (simp add: ledger_def sorted_obj_def data_get_def)

text \<open>Sums over ledgers.\<close>

definition int_at :: "string \<Rightarrow> json \<Rightarrow> int" where
  "int_at key s = (case json_item key s of Inr (JInt i) \<Rightarrow> i | _ \<Rightarrow> 0)"

lemma total_ints:
  assumes "\<forall>s \<in> set ss. json_item key s = Inr (JInt (int_at key s))"
  shows "total key ss = Inr (JInt (sum_list (map (int_at key) ss)))"
proof -
  have "sum_from (JInt a) key ss = Inr (JInt (a + sum_list (map (int_at key) ss)))" for a
    using assms by (induction ss arbitrary: a) (auto simp: add.assoc)
  then show ?thesis by (simp add: total_def)
qed


definition ledgers :: "json list \<Rightarrow> bool" where
  "ledgers ss \<longleftrightarrow> (\<forall>s \<in> set ss. \<exists>env k. s = ledger env k)"

lemma ledgers_simps [simp]: "ledgers []" "ledgers (s # ss) \<longleftrightarrow> (\<exists>env k. s = ledger env k) \<and> ledgers ss"
  by (auto simp: ledgers_def)

lemma ledgersD: "ledgers ss \<Longrightarrow> s \<in> set ss \<Longrightarrow> (\<And>env k. P (ledger env k)) \<Longrightarrow> P s"
  by (auto simp: ledgers_def)

lemma rmap_ledgers: "ledgers ss \<Longrightarrow> (\<And>env k. \<exists>y. f (ledger env k) = Inr y) \<Longrightarrow> \<exists>ys. rmap f ss = Inr ys"
proof (induction ss)
  case (Cons s ss)
  then obtain ys env k where "rmap f ss = Inr ys" "s = ledger env k" by auto
  with Cons.prems(2) [of env k] show ?case by auto
qed simp

lemma rbind_ok: "\<exists>y. m = Inr y \<Longrightarrow> (\<And>y. \<exists>z. f y = Inr z) \<Longrightarrow> \<exists>z. rbind m f = Inr z"
  by auto

lemma sum_from_nums:
  "\<forall>s \<in> set ss. \<exists>r. json_item key s = Inr (JNum r) \<Longrightarrow> as_num a = Inr q \<Longrightarrow> \<exists>v r. sum_from a key ss = Inr v \<and> as_num v = Inr r"
proof (induction ss arbitrary: a q)
  case (Cons s ss)
  then obtain r where r: "json_item key s = Inr (JNum r)" by auto
  have "add_num a (JNum r) = Inr (JNum (q + r))" using Cons.prems(2) by (cases a) auto
  with Cons r show ?case by simp
qed simp

lemma ledger_totals:
  assumes "ledgers ss"
  shows "key \<in> {''tests_executed'', ''tests_passed'', ''tests_failed'', ''tests_errored'', ''tests_skipped'', ''power_cycle_count'',
      ''flash_cycle_count'', ''bl_trigger_count'', ''frames_observed_total'', ''block_f_cycles_completed''} \<Longrightarrow>
      total key ss = Inr (JInt (sum_list (map (int_at key) ss)))"
    and "key \<in> {''session_wall_clock_s'', ''total_test_time_s'', ''equivalent_operator_hours''} \<Longrightarrow>
      \<exists>v r. total key ss = Inr v \<and> as_num v = Inr r"
proof -
  assume "key \<in> {''tests_executed'', ''tests_passed'', ''tests_failed'', ''tests_errored'', ''tests_skipped'',
    ''power_cycle_count'', ''flash_cycle_count'', ''bl_trigger_count'', ''frames_observed_total'', ''block_f_cycles_completed''}"
  then have "\<exists>i. json_item key (ledger env k) = Inr (JInt i)" for env k by (auto simp: ledger_ints)
  with assms have "\<forall>s \<in> set ss. \<exists>i. json_item key s = Inr (JInt i)"
    by (intro ballI) (rule ledgersD [where P = "\<lambda>s. \<exists>i. json_item key s = Inr (JInt i)"])
  then show "total key ss = Inr (JInt (sum_list (map (int_at key) ss)))"
    by (intro total_ints) (auto simp: int_at_def)
next
  assume "key \<in> {''session_wall_clock_s'', ''total_test_time_s'', ''equivalent_operator_hours''}"
  then have "\<exists>r. json_item key (ledger env k) = Inr (JNum r)" for env k by (auto simp: ledger_nums)
  with assms have "\<forall>s \<in> set ss. \<exists>r. json_item key s = Inr (JNum r)"
    by (intro ballI) (rule ledgersD [where P = "\<lambda>s. \<exists>r. json_item key s = Inr (JNum r)"])
  from sum_from_nums [OF this] show "\<exists>v r. total key ss = Inr v \<and> as_num v = Inr r" by (simp add: total_def)
qed

lemma ledger_failures: "failures (ledger env k) = Inr (sk_failed_tests k @ sk_errored_tests k)"
proof -
  have "rmap as_str (map JStr xs) = Inr xs" for xs by (induction xs) simp_all
  then show ?thesis by (simp add: failures_def ledger_others)
qed

lemma ledger_samples:
  assumes "ledgers ss"
  shows "\<exists>us. util_samples ss = Inr us" "\<exists>ls. latency_samples ss = Inr ls" "\<exists>d'. collect_outcomes d ss = Inr d'"
proof -
  show "\<exists>us. util_samples ss = Inr us" unfolding util_samples_def
    by (rule rbind_ok, rule rmap_ledgers [OF assms]) (simp_all add: ledger_nums)
  show "\<exists>ls. latency_samples ss = Inr ls" unfolding latency_samples_def
  proof (rule rbind_ok, rule rmap_ledgers [OF assms])
    fix env k
    show "\<exists>y. rbind (data_get ''bl_discover_latency_ms_mean'' JNull (ledger env k))
        (\<lambda>v. if v = JNull then Inr [] else rbind (as_num v) (\<lambda>r. Inr [r])) = Inr y"
      by (cases "sk_latency_mean k") (simp_all add: ledger_others opt_num_def)
  qed simp
  show "\<exists>d'. collect_outcomes d ss = Inr d'" using assms
    by (induction ss arbitrary: d) (auto simp: ledger_nums ledger_failures)
qed

lemma summarise_ledgers:
  assumes "ledgers ss" "ss \<noteq> []"
  shows "\<exists>a q. summarise ss = Inr (Some a) \<and> kp_session_count a = length ss
    \<and> kp_power_cycles a = JInt (sum_list (map (int_at ''power_cycle_count'') ss))
    \<and> kp_tests_executed a = JInt (sum_list (map (int_at ''tests_executed'') ss))
    \<and> kp_tests_passed a = JInt (sum_list (map (int_at ''tests_passed'') ss))
    \<and> kp_tests_failed a = JInt (sum_list (map (int_at ''tests_failed'') ss))
    \<and> kp_tests_errored a = JInt (sum_list (map (int_at ''tests_errored'') ss))
    \<and> kp_tests_skipped a = JInt (sum_list (map (int_at ''tests_skipped'') ss))
    \<and> kp_flash_cycles a = JInt (sum_list (map (int_at ''flash_cycle_count'') ss))
    \<and> kp_bl_triggers a = JInt (sum_list (map (int_at ''bl_trigger_count'') ss))
    \<and> kp_block_f_cycles a = JInt (sum_list (map (int_at ''block_f_cycles_completed'') ss))
    \<and> kp_frames_observed a = JInt (sum_list (map (int_at ''frames_observed_total'') ss)) \<and> as_num (kp_operator_hours a) = Inr q"
proof -
  have iso: "\<exists>v. json_item ''started_at_iso'' s = Inr v" if "s \<in> set ss" for s
    using assms(1) that by (rule ledgersD) (simp add: ledger_others)
  obtain v1 where v1: "json_item ''started_at_iso'' (hd ss) = Inr v1" using iso [of "hd ss"] assms(2) by auto
  obtain v2 where v2: "json_item ''started_at_iso'' (last ss) = Inr v2" using iso [of "last ss"] assms(2) by auto
  obtain w1 r1 where w1: "total ''session_wall_clock_s'' ss = Inr w1" "as_num w1 = Inr r1"
    using ledger_totals(2) [OF assms(1), of "''session_wall_clock_s''"] by auto
  obtain w2 r2 where w2: "total ''total_test_time_s'' ss = Inr w2" "as_num w2 = Inr r2"
    using ledger_totals(2) [OF assms(1), of "''total_test_time_s''"] by auto
  obtain w3 r3 where w3: "total ''equivalent_operator_hours'' ss = Inr w3" "as_num w3 = Inr r3"
    using ledger_totals(2) [OF assms(1), of "''equivalent_operator_hours''"] by auto
  obtain us ls d' where s: "util_samples ss = Inr us" "latency_samples ss = Inr ls" "collect_outcomes [] ss = Inr d'"
    using ledger_samples [OF assms(1)] by metis
  show ?thesis
    by (simp add: summarise_def assms(2) v1 v2 hours_def w1 w2 w3 s ledger_totals(1) [OF assms(1)])
qed

lemma report_ledgers:
  assumes "ledgers ss" "ss \<noteq> []"
  shows "\<exists>a md rows. summarise ss = Inr (Some a) \<and> render_md ff (Some a) ss = Inr md
    \<and> write_csv ss = Inr (Some (csv_columns, rows)) \<and> length rows = length ss"
proof -
  obtain a q where a: "summarise ss = Inr (Some a)" "\<exists>i. kp_frames_observed a = JInt i" "as_num (kp_operator_hours a) = Inr q"
    using summarise_ledgers [OF assms] by blast
  have row: "\<exists>y. session_row ff (ledger env k) = Inr y" for env k
    by (simp add: session_row_def ledger_others ledger_nums ledger_ints)
  have "ledgers (last_sessions ss)" using assms(1) by (auto simp: ledgers_def last_sessions_def dest: in_set_dropD)
  then have "\<exists>ys. rmap (session_row ff) (last_sessions ss) = Inr ys" using row by (rule rmap_ledgers)
  with a(2,3) have md: "\<exists>md. render_md ff (Some a) ss = Inr md"
    by (auto simp: render_md_def with_commas_def fixed_json_def)
  have "\<exists>y. rmap (\<lambda>key. data_get key (JStr []) (ledger env k)) ks = Inr y" for env k ks
    by (induction ks) (use ledger_object in \<open>auto simp: ledger_def sorted_obj_def data_get_def\<close>)
  from rmap_ledgers [where f = "\<lambda>s. rmap (\<lambda>key. data_get key (JStr []) s) csv_columns", OF assms(1) this] obtain rows
    where rows: "rmap (\<lambda>s. rmap (\<lambda>key. data_get key (JStr []) s) csv_columns) ss = Inr rows" by blast
  then have "length rows = length ss" using list_all2_lengthD [OF rmap_members [OF rows]] by simp
  with a(1) md rows assms(2) show ?thesis by (auto simp: write_csv_def)
qed

section \<open>From the sessions to the report\<close>

definition session_record :: "kpi_env \<Rightarrow> kpi_event list \<Rightarrow> session_kpi" where
  "session_record env es =
     (let p = fold kpi_step es (kpi_state_init, sessionstart env) in finish_session env (fst p) (the (snd p)))"

lemma recorded:
  fixes es :: "kpi_event list"
  assumes "\<not> ke_no_kpi env"
  defines "k \<equiv> session_record env es"
  shows "run_session env es = Some (take 12 (ke_uuid env) @ ''.json'', ledger env k)"
    "sk_power_cycle_count k = power_cycles es" "sk_tests_passed k = calls ''passed'' es" "sk_tests_failed k = calls ''failed'' es"
    "sk_tests_errored k = int (card (fixture_failed es))"
    "sk_tests_executed k = calls ''passed'' es + calls ''failed'' es + int (card (fixture_failed es))"
    "set (sk_failed_tests k) = call_failed es" "distinct (sk_failed_tests k)"
    "set (sk_errored_tests k) = fixture_failed es" "distinct (sk_errored_tests k)"
    "sk_flash_cycle_count k = flash_cycles es"
    "sk_bl_trigger_count k = bl_triggers es"
    "sk_frames_observed_total k = frames_seen es"
    "sk_block_f_cycles_completed k = block_f_cycles es"
    "sk_tests_skipped k = skips es"
proof -
  obtain st k0 where p: "fold kpi_step es (kpi_state_init, sessionstart env) = (st, Some k0)"
    and t: "tallied env es (st, Some k0)"
    using session_tallied [OF assms(1), of es] by (auto simp: tallied_def)
  have k: "k = finish_session env st k0" by (simp add: k_def session_record_def p Let_def)
  have f: "sk_session_id k = sk_session_id k0" "sk_power_cycle_count k = ks_power st" "sk_tests_passed k = sk_tests_passed k0"
    "sk_tests_failed k = sk_tests_failed k0" "sk_tests_errored k = sk_tests_errored k0"
    "sk_tests_executed k = sk_tests_passed k0 + sk_tests_failed k0 + sk_tests_errored k0"
    "sk_flash_cycle_count k = ks_flash st" "sk_bl_trigger_count k = ks_trigger st" "sk_frames_observed_total k = ks_frames st"
    "sk_block_f_cycles_completed k = ks_block_f st" "sk_tests_skipped k = sk_tests_skipped k0"
    "sk_failed_tests k = sk_failed_tests k0" "sk_errored_tests k = sk_errored_tests k0"
    by (simp_all add: k finish_session_def Let_def)
  show "run_session env es = Some (take 12 (ke_uuid env) @ ''.json'', ledger env k)"
    using t f(1) by (simp add: run_session_def p sessionfinish_def tallied_def flip: k)
  show "sk_power_cycle_count k = power_cycles es" "sk_tests_passed k = calls ''passed'' es" "sk_tests_failed k = calls ''failed'' es"
    "sk_tests_errored k = int (card (fixture_failed es))"
    "sk_tests_executed k = calls ''passed'' es + calls ''failed'' es + int (card (fixture_failed es))"
    "set (sk_failed_tests k) = call_failed es" "distinct (sk_failed_tests k)"
    "set (sk_errored_tests k) = fixture_failed es" "distinct (sk_errored_tests k)"
    "sk_flash_cycle_count k = flash_cycles es"
    "sk_bl_trigger_count k = bl_triggers es"
    "sk_frames_observed_total k = frames_seen es"
    "sk_block_f_cycles_completed k = block_f_cycles es"
    "sk_tests_skipped k = skips es"
    using t by (simp_all add: f tallied_def)
qed

definition recorded_runs :: "(kpi_env \<times> kpi_event list) list \<Rightarrow> (kpi_env \<times> kpi_event list) list" where
  "recorded_runs runs = filter (\<lambda>(env, es). \<not> ke_no_kpi env) runs"

definition ledger_of :: "kpi_env \<times> kpi_event list \<Rightarrow> json" where
  "ledger_of = (\<lambda>(env, es). ledger env (session_record env es))"

lemma alist_set_new: "k \<notin> fst ` set d \<Longrightarrow> alist_set k v d = d @ [(k, v)]"
  by (induction k v d rule: alist_set.induct) auto

lemma files_recorded:
  assumes "distinct (map (\<lambda>(env, es). take 12 (ke_uuid env)) (recorded_runs runs))"
  shows "ledger_files runs = map (\<lambda>r. (take 12 (ke_uuid (fst r)) @ ''.json'', Some (ledger_of r))) (recorded_runs runs)"
  using assms
proof (induction runs rule: rev_induct)
  case (snoc r runs)
  obtain env es where r: "r = (env, es)" by fastforce
  have ih: "ledger_files runs = map (\<lambda>r. (take 12 (ke_uuid (fst r)) @ ''.json'', Some (ledger_of r))) (recorded_runs runs)"
    using snoc by (simp add: recorded_runs_def)
  show ?case
  proof (cases "ke_no_kpi env")
    case True
    then have "run_session env es = None"
    proof -
      have "snd (fold kpi_step es (st, None)) = None" for st
      proof (induction es arbitrary: st)
        case (Cons e es)
        then show ?case by (cases e) (auto simp: on_session_def runtest_makereport_def)
      qed simp
      then show ?thesis by (simp add: run_session_def sessionstart_def True sessionfinish_def)
    qed
    with True ih show ?thesis by (simp add: r ledger_files_def recorded_runs_def)
  next
    case False
    with snoc.prems have "take 12 (ke_uuid env) @ ''.json'' \<notin> fst ` set (ledger_files runs)"
      unfolding ih by (auto simp: recorded_runs_def r)
    from alist_set_new [OF this] recorded(1) [OF False, of es] ih False show ?thesis
      by (simp add: r ledger_files_def recorded_runs_def ledger_of_def)
  qed
qed (simp add: ledger_files_def recorded_runs_def)

text \<open>Loading neither loses nor adds a ledger.\<close>

lemma all_kept: "keep_sessions None fs = Inr (List.map_filter snd fs)"
  by (induction fs) (auto simp: since_ok_def List.map_filter_simps split: option.split)

lemma load_recorded:
  assumes "distinct (map (\<lambda>(env, es). take 12 (ke_uuid env)) (recorded_runs runs))"
  shows "\<exists>ss. load_sessions True (ledger_files runs) None = Inr ss \<and> mset ss = mset (map ledger_of (recorded_runs runs)) \<and> ledgers ss"
proof -
  let ?fs = "ledger_files runs"
  have json: "filter (\<lambda>f. ends_with ''.json'' (fst f)) ?fs = ?fs"
    unfolding files_recorded [OF assms] by (auto simp: filter_id_conv ends_with_def)
  define kept where "kept = List.map_filter snd (sort_key fst ?fs)"
  have "mset kept = mset (List.map_filter snd ?fs)" unfolding kept_def by (rule mset_map_filter) simp
  also have "List.map_filter snd ?fs = map ledger_of (recorded_runs runs)"
    unfolding files_recorded [OF assms] by (simp add: List.map_filter_def comp_def)
  finally have m: "mset kept = mset (map ledger_of (recorded_runs runs))" .
  have all: "ledgers kept" unfolding ledgers_def mset_eq_setD [OF m] by (auto simp: ledger_of_def)
  have "\<exists>ps. rmap (\<lambda>s. rbind (session_time s) (\<lambda>t. Inr (t, s))) kept = Inr ps"
    by (rule rmap_ledgers [OF all]) (simp add: ledger_others)
  then obtain ps where "rmap (\<lambda>s. rbind (session_time s) (\<lambda>t. Inr (t, s))) kept = Inr ps" ..
  then have "\<exists>ss. load_sessions True ?fs None = Inr ss"
    by (simp add: load_sessions_def json all_kept sort_sessions_def kept_def [symmetric])
  then obtain ss where ss: "load_sessions True ?fs None = Inr ss" ..
  have "mset ss = mset (List.map_filter snd ?fs)"
    using load_sessions_exact [OF ss] by (simp add: json since_ok_def)
  also have "\<dots> = mset (map ledger_of (recorded_runs runs))"
    unfolding files_recorded [OF assms] by (simp add: List.map_filter_def comp_def)
  finally have m': "mset ss = mset (map ledger_of (recorded_runs runs))" .
  have "ledgers ss" unfolding ledgers_def mset_eq_setD [OF m'] by (auto simp: ledger_of_def)
  with ss m' show ?thesis by blast
qed

lemma sum_loaded:
  fixes f :: "'a \<Rightarrow> 'b::comm_monoid_add"
  assumes "mset ss = mset (map g rs)"
  shows "sum_list (map f ss) = sum_list (map (\<lambda>r. f (g r)) rs)"
proof -
  from assms have "mset (map f ss) = mset (map f (map g rs))" by (simp only: mset_map)
  then have "sum_list (map f ss) = sum_list (map f (map g rs))" by (metis sum_mset_sum_list)
  then show ?thesis by (simp add: comp_def)
qed

lemma sums:
  fixes f :: "json \<Rightarrow> 'b::comm_monoid_add"
  assumes "\<And>env es. (env, es) \<in> set rs \<Longrightarrow> f (ledger_of (env, es)) = g es"
  shows "(\<Sum>r\<leftarrow>rs. f (ledger_of r)) = (\<Sum>(env, es)\<leftarrow>rs. g es)"
  by (intro arg_cong [where f = sum_list] map_cong) (use assms in auto)

lemma count_distinct: "distinct xs \<Longrightarrow> count_list xs n = of_bool (n \<in> set xs)"
  by (induction xs) auto

text \<open>How often a test failed: once for each session in which its call failed and once for each in which its set-up or
  teardown did.\<close>

definition times_failed :: "string \<Rightarrow> (kpi_env \<times> kpi_event list) list \<Rightarrow> nat" where
  "times_failed n runs = (\<Sum>(env, es)\<leftarrow>runs. of_bool (n \<in> call_failed es) + of_bool (n \<in> fixture_failed es))"

lemma ledger_counts:
  assumes "(env, es) \<in> set (recorded_runs runs)"
  shows "int_at ''power_cycle_count'' (ledger_of (env, es)) = power_cycles es"
    "int_at ''flash_cycle_count'' (ledger_of (env, es)) = flash_cycles es"
    "int_at ''bl_trigger_count'' (ledger_of (env, es)) = bl_triggers es"
    "int_at ''frames_observed_total'' (ledger_of (env, es)) = frames_seen es"
    "int_at ''block_f_cycles_completed'' (ledger_of (env, es)) = block_f_cycles es"
    "int_at ''tests_passed'' (ledger_of (env, es)) = calls ''passed'' es"
    "int_at ''tests_failed'' (ledger_of (env, es)) = calls ''failed'' es"
    "int_at ''tests_errored'' (ledger_of (env, es)) = int (card (fixture_failed es))"
    "int_at ''tests_skipped'' (ledger_of (env, es)) = skips es"
    "int_at ''tests_executed'' (ledger_of (env, es)) = calls ''passed'' es + calls ''failed'' es + int (card (fixture_failed es))"
    "(case failures (ledger_of (env, es)) of Inr ns \<Rightarrow> count_list ns n | Inl e \<Rightarrow> 0)
     = of_bool (n \<in> call_failed es) + of_bool (n \<in> fixture_failed es)"
proof -
  from assms have "\<not> ke_no_kpi env" by (auto simp: recorded_runs_def)
  from recorded [OF this, of es]
  show "int_at ''power_cycle_count'' (ledger_of (env, es)) = power_cycles es"
    "int_at ''flash_cycle_count'' (ledger_of (env, es)) = flash_cycles es"
    "int_at ''bl_trigger_count'' (ledger_of (env, es)) = bl_triggers es"
    "int_at ''frames_observed_total'' (ledger_of (env, es)) = frames_seen es"
    "int_at ''block_f_cycles_completed'' (ledger_of (env, es)) = block_f_cycles es"
    "int_at ''tests_passed'' (ledger_of (env, es)) = calls ''passed'' es"
    "int_at ''tests_failed'' (ledger_of (env, es)) = calls ''failed'' es"
    "int_at ''tests_errored'' (ledger_of (env, es)) = int (card (fixture_failed es))"
    "int_at ''tests_skipped'' (ledger_of (env, es)) = skips es"
    "int_at ''tests_executed'' (ledger_of (env, es)) = calls ''passed'' es + calls ''failed'' es + int (card (fixture_failed es))"
    "(case failures (ledger_of (env, es)) of Inr ns \<Rightarrow> count_list ns n | Inl e \<Rightarrow> 0)
     = of_bool (n \<in> call_failed es) + of_bool (n \<in> fixture_failed es)"
    by (simp_all add: ledger_of_def int_at_def ledger_ints ledger_failures count_distinct)
qed

lemma loaded_counts:
  assumes "mset ss = mset (map ledger_of (recorded_runs runs))"
  shows "sum_list (map (int_at ''power_cycle_count'') ss) = (\<Sum>(env, es)\<leftarrow>recorded_runs runs. power_cycles es)"
    "sum_list (map (int_at ''flash_cycle_count'') ss) = (\<Sum>(env, es)\<leftarrow>recorded_runs runs. flash_cycles es)"
    "sum_list (map (int_at ''bl_trigger_count'') ss) = (\<Sum>(env, es)\<leftarrow>recorded_runs runs. bl_triggers es)"
    "sum_list (map (int_at ''frames_observed_total'') ss) = (\<Sum>(env, es)\<leftarrow>recorded_runs runs. frames_seen es)"
    "sum_list (map (int_at ''block_f_cycles_completed'') ss) = (\<Sum>(env, es)\<leftarrow>recorded_runs runs. block_f_cycles es)"
    "sum_list (map (int_at ''tests_passed'') ss) = (\<Sum>(env, es)\<leftarrow>recorded_runs runs. calls ''passed'' es)"
    "sum_list (map (int_at ''tests_failed'') ss) = (\<Sum>(env, es)\<leftarrow>recorded_runs runs. calls ''failed'' es)"
    "sum_list (map (int_at ''tests_errored'') ss) = (\<Sum>(env, es)\<leftarrow>recorded_runs runs. int (card (fixture_failed es)))"
    "sum_list (map (int_at ''tests_skipped'') ss) = (\<Sum>(env, es)\<leftarrow>recorded_runs runs. skips es)"
    "sum_list (map (int_at ''tests_executed'') ss)
     = (\<Sum>(env, es)\<leftarrow>recorded_runs runs. calls ''passed'' es + calls ''failed'' es + int (card (fixture_failed es)))"
    "failures_of n ss = times_failed n (recorded_runs runs)"
  unfolding failures_of_def times_failed_def sum_loaded [OF assms] by (rule sums, erule ledger_counts)+

text \<open>C39: the report over the directory that some sessions of the runner left is made without an error, from exactly
  their ledgers, one row for each. Each of its counts is the sum over the sessions: power cycles, flash cycles, triggers,
  frames and block F cycles as they were reported, calls that passed and failed, skips in call or set-up, tests whose
  set-up or teardown failed, and passed, failed and errored together as executed tests. Its regression roster names, in
  order, the tests that failed once over all sessions, its flake roster those that failed more than once but less often
  than there are sessions.\<close>

theorem report_of_sessions:
  assumes "recorded_runs runs \<noteq> []" "distinct (map (\<lambda>(env, es). take 12 (ke_uuid env)) (recorded_runs runs))"
  shows "\<exists>ss a md rows. load_sessions True (ledger_files runs) None = Inr ss \<and> summarise ss = Inr (Some a)
    \<and> kpi_main ff True (ledger_files runs) None = Inr (md, Some (csv_columns, rows)) \<and> render_md ff (Some a) ss = Inr md
    \<and> length rows = length (recorded_runs runs) \<and> kp_session_count a = length (recorded_runs runs)
    \<and> kp_power_cycles a = JInt (\<Sum>(env, es)\<leftarrow>recorded_runs runs. power_cycles es)
    \<and> kp_flash_cycles a = JInt (\<Sum>(env, es)\<leftarrow>recorded_runs runs. flash_cycles es)
    \<and> kp_bl_triggers a = JInt (\<Sum>(env, es)\<leftarrow>recorded_runs runs. bl_triggers es)
    \<and> kp_frames_observed a = JInt (\<Sum>(env, es)\<leftarrow>recorded_runs runs. frames_seen es)
    \<and> kp_block_f_cycles a = JInt (\<Sum>(env, es)\<leftarrow>recorded_runs runs. block_f_cycles es)
    \<and> kp_tests_passed a = JInt (\<Sum>(env, es)\<leftarrow>recorded_runs runs. calls ''passed'' es)
    \<and> kp_tests_failed a = JInt (\<Sum>(env, es)\<leftarrow>recorded_runs runs. calls ''failed'' es)
    \<and> kp_tests_errored a = JInt (\<Sum>(env, es)\<leftarrow>recorded_runs runs. int (card (fixture_failed es)))
    \<and> kp_tests_skipped a = JInt (\<Sum>(env, es)\<leftarrow>recorded_runs runs. skips es)
    \<and> kp_tests_executed a = JInt (\<Sum>(env, es)\<leftarrow>recorded_runs runs.
         calls ''passed'' es + calls ''failed'' es + int (card (fixture_failed es)))
    \<and> set (kp_regressions a) = {n. times_failed n (recorded_runs runs) = 1}
    \<and> set (kp_flakes a) = {n. 2 \<le> times_failed n (recorded_runs runs)
         \<and> times_failed n (recorded_runs runs) < length (recorded_runs runs)}
    \<and> sorted (kp_regressions a) \<and> sorted (kp_flakes a) \<and> distinct (kp_regressions a) \<and> distinct (kp_flakes a)"
proof -
  let ?rs = "recorded_runs runs"
  obtain ss where ss: "load_sessions True (ledger_files runs) None = Inr ss" "mset ss = mset (map ledger_of ?rs)" "ledgers ss"
    using load_recorded [OF assms(2)] by blast
  have len: "length ss = length ?rs" using mset_eq_length [OF ss(2)] by simp
  with assms(1) have ne: "ss \<noteq> []" by auto
  from summarise_ledgers [OF ss(3) ne] obtain a where a: "summarise ss = Inr (Some a)" and sums: "kp_session_count a = length ss"
      "kp_power_cycles a = JInt (sum_list (map (int_at ''power_cycle_count'') ss))"
      "kp_tests_executed a = JInt (sum_list (map (int_at ''tests_executed'') ss))"
      "kp_tests_passed a = JInt (sum_list (map (int_at ''tests_passed'') ss))"
      "kp_tests_failed a = JInt (sum_list (map (int_at ''tests_failed'') ss))"
      "kp_tests_errored a = JInt (sum_list (map (int_at ''tests_errored'') ss))"
      "kp_tests_skipped a = JInt (sum_list (map (int_at ''tests_skipped'') ss))"
      "kp_flash_cycles a = JInt (sum_list (map (int_at ''flash_cycle_count'') ss))"
      "kp_bl_triggers a = JInt (sum_list (map (int_at ''bl_trigger_count'') ss))"
      "kp_block_f_cycles a = JInt (sum_list (map (int_at ''block_f_cycles_completed'') ss))"
      "kp_frames_observed a = JInt (sum_list (map (int_at ''frames_observed_total'') ss))"
    by blast
  obtain md rows where r: "render_md ff (Some a) ss = Inr md" "write_csv ss = Inr (Some (csv_columns, rows))" "length rows = length ss"
    using report_ledgers [OF ss(3) ne, of ff] a by auto
  have "kpi_main ff True (ledger_files runs) None = Inr (md, Some (csv_columns, rows))"
    by (simp add: kpi_main_def ss(1) a r)
  with ss(1) a r(1,3) sums show ?thesis unfolding loaded_counts [OF ss(2)]
    using rosters [OF a, unfolded loaded_counts(11) [OF ss(2)]]
    by (intro exI [of _ ss] exI [of _ a] exI [of _ md] exI [of _ rows]) (simp add: len)
qed

text \<open>A session of a test that is skipped and one whose call passes and whose teardown fails: two tests executed.\<close>

definition demo_env :: kpi_env where
  "demo_env = \<lparr>ke_no_kpi = False, ke_bench = ''default'', ke_uuid = ''0123456789abcdef'', ke_hostname = ''pi'', ke_now = 100,
     ke_iso = ''2026-05-01T10:00:00+0000'', ke_args = [], ke_sha = None, ke_status = None, ke_finish = 160, ke_system = ''Linux'',
     ke_release = ''6.6'', ke_machine = ''aarch64'', ke_python = ''3.11''\<rparr>"

definition demo_events :: "kpi_event list" where
  "demo_events = [Collected 2, PowerCycle 1, FlashCycle 1, BlTrigger 2, Frames 40,
     Report \<lparr>rp_when = ''setup'', rp_outcome = ''skipped'', rp_nodeid = ''u'', rp_duration = 0\<rparr>,
     Report \<lparr>rp_when = ''setup'', rp_outcome = ''passed'', rp_nodeid = ''t'', rp_duration = 1\<rparr>,
     Report \<lparr>rp_when = ''call'', rp_outcome = ''passed'', rp_nodeid = ''t'', rp_duration = 30\<rparr>, PowerCycle 2,
     Report \<lparr>rp_when = ''teardown'', rp_outcome = ''failed'', rp_nodeid = ''t'', rp_duration = 1\<rparr>]"

lemma failed_cons:
  "call_failed [] = {}" "fixture_failed [] = {}"
  "call_failed (e # es) =
    (case e of Report r \<Rightarrow> if rp_when r = ''call'' \<and> rp_outcome r = ''failed'' then {rp_nodeid r} else {} | _ \<Rightarrow> {})
    \<union> call_failed es"
  "fixture_failed (e # es) =
    (case e of Report r \<Rightarrow> if rp_when r \<in> {''setup'', ''teardown''} \<and> rp_outcome r = ''failed'' then {rp_nodeid r} else {}
       | _ \<Rightarrow> {}) \<union> fixture_failed es"
  by (auto simp: call_failed_def fixture_failed_def split: kpi_event.split)

definition demo_format :: float_format where
  "demo_format = \<lparr>ff_str = fixed 2, ff_comma = fixed 2\<rparr>"

lemma only_member: "distinct xs \<Longrightarrow> set xs = {x} \<Longrightarrow> xs = [x]"
  by (cases xs; cases "tl xs") auto

theorem report_of_sessions_witness:
  "\<exists>ss a md rows. load_sessions True (ledger_files [(demo_env, demo_events)]) None = Inr ss \<and> summarise ss = Inr (Some a) \<and>
     kpi_main demo_format True (ledger_files [(demo_env, demo_events)]) None = Inr (md, Some (csv_columns, rows)) \<and>
     kp_power_cycles a = JInt 3 \<and> kp_flash_cycles a = JInt 1 \<and> kp_bl_triggers a = JInt 2 \<and> kp_frames_observed a = JInt 40 \<and>
     kp_tests_passed a = JInt 1 \<and> kp_tests_skipped a = JInt 1 \<and> kp_tests_executed a = JInt 2 \<and>
     kp_regressions a = [''t''] \<and> kp_flakes a = []"
proof -
  have fx: "fixture_failed demo_events = {''t''}" "call_failed demo_events = {}"
    by (simp_all add: demo_events_def failed_cons)
  have c: "power_cycles demo_events = 3" "flash_cycles demo_events = 1" "bl_triggers demo_events = 2" "frames_seen demo_events = 40"
    "calls ''passed'' demo_events = 1" "calls ''failed'' demo_events = 0" "skips demo_events = 1"
    by (simp_all add: count_defs demo_events_def)
  let ?runs = "[(demo_env, demo_events)]"
  have one: "recorded_runs ?runs = ?runs" by (simp add: recorded_runs_def demo_env_def)
  have failed: "times_failed n ?runs = of_bool (n = ''t'')" for n by (simp add: times_failed_def fx)
  have "recorded_runs ?runs \<noteq> []" "distinct (map (\<lambda>(env, es). take 12 (ke_uuid env)) (recorded_runs ?runs))"
    by (simp_all add: one)
  from report_of_sessions [OF this, of demo_format] show ?thesis
  proof (elim exE conjE, goal_cases)
    case (1 ss a md rows)
    have "set (kp_regressions a) = {''t''}" "set (kp_flakes a) = {}" using 1(17,18) by (simp_all add: one failed)
    with 1(21) have "kp_regressions a = [''t'']" "kp_flakes a = []" by (simp_all add: only_member)
    moreover have "kp_power_cycles a = JInt 3" "kp_flash_cycles a = JInt 1" "kp_bl_triggers a = JInt 2"
      "kp_frames_observed a = JInt 40" "kp_tests_passed a = JInt 1" "kp_tests_skipped a = JInt 1" "kp_tests_executed a = JInt 2"
      by (simp_all add: 1(7-16) one fx c)
    ultimately show ?case using 1(1-3) by (intro exI [of _ ss] exI [of _ a] exI [of _ md] exI [of _ rows]) simp
  qed
qed

section \<open>Percentiles\<close>

text \<open>A percentile lies between the ends of the samples.\<close>

lemma percentile_between:
  assumes "samples \<noteq> []" "0 \<le> pct" "pct \<le> 100"
  shows "\<exists>p. percentile samples pct = Some p \<and> Min (set samples) \<le> p \<and> p \<le> Max (set samples)"
proof -
  define s where "s = sort samples"
  define k where "k = rat_of_nat (length s - 1) * (pct / 100)"
  define f where "f = nat \<lfloor>k\<rfloor>"
  define c where "c = min (f + 1) (length s - 1)"
  have s: "sorted s" "set s = set samples" "s \<noteq> []" using assms(1) by (simp_all add: s_def) (metis set_empty set_sort)
  have k: "0 \<le> k" "k \<le> rat_of_nat (length s - 1)" using assms(2,3) mult_left_le [of "pct / 100" "rat_of_nat (length s - 1)"] by (simp_all add: k_def)
  have f: "rat_of_nat f \<le> k" "k < rat_of_nat f + 1" using k(1) floor_correct [of k] by (simp_all add: f_def)
  have "rat_of_nat f \<le> rat_of_nat (length s - 1)" using f(1) k(2) by linarith
  then have fl: "f \<le> length s - 1" by simp
  then have fc: "f \<le> c" "c \<le> length s - 1" by (simp_all add: c_def)
  have len: "0 < length s" using s(3) by simp
  then have lt: "c < length s" using fc(2) by linarith
  with s(1) fc(1) have le: "s ! f \<le> s ! c" by (intro sorted_nth_mono) simp_all
  have ends: "Min (set samples) \<le> s ! f" "s ! c \<le> Max (set samples)"
    using fc lt by (simp_all flip: s(2))
  have "percentile samples pct = Some (if f = c then s ! f else s ! f + (s ! c - s ! f) * (k - rat_of_nat f))"
    using assms(1) by (simp add: percentile_def Let_def s_def k_def f_def c_def)
  moreover have "0 \<le> (s ! c - s ! f) * (k - rat_of_nat f)" "(s ! c - s ! f) * (k - rat_of_nat f) \<le> s ! c - s ! f"
    using le f by (simp_all add: mult_left_le)
  ultimately show ?thesis using ends le by fastforce
qed

end
