(* ===== verification/Drive_Active.thy ===== *)
theory Drive_Active
  imports Can_Sims Vcu_Can_Map Can_Link Py_Value
begin

text \<open>
  \<^verbatim>\<open>tools/firmware_test/vcu/drive_to_active.py\<close>: driving the start-up state machine of the ECU. The dictionary
  that the main thread shares with the sender and the receiver is the record \<open>drive_state\<close>. The two threads run
  while the main thread sleeps: the environment says which of their iterations happen then (a round of the sender,
  a message for the receiver), and the model takes them in that order. Frames sent are recorded beside the state,
  with the bus they go to. Printed lines are the record that \<open>drive_main\<close> returns; \<open>wait_fsm\<close> has fuel.
\<close>

record drive_state =
  dv_inv :: int
  dv_vdc :: int
  dv_sendvdc :: bool
  dv_ams :: int
  dv_sess :: int
  dv_prech :: int
  dv_cnt :: int
  dv_run :: bool
  dv_sim :: bool
  dv_fsm :: "int option"
  dv_torque :: "int option"
  dv_ams_seen :: bool

datatype drive_bus = Inv | Acu

datatype thread_turn = Sender | Receiver "can_msg option"

record 'w drive_env =
  de_ip :: "string list \<Rightarrow> ('w, unit) io"
  de_connect :: "('w, unit) io"
  de_call :: "string \<Rightarrow> (string \<times> json) list \<Rightarrow> ('w, json) io"
  de_open :: "string \<Rightarrow> ('w, unit) io"
  de_send :: "drive_bus \<Rightarrow> can_msg \<Rightarrow> ('w, unit) io"
  de_now :: "('w, rat) io"
  de_sleep :: "rat \<Rightarrow> ('w, thread_turn list) io"
  de_shutdown :: "nat \<Rightarrow> ('w, unit) io"

record 'w drive_world =
  dw_env :: 'w
  dw_st :: drive_state
  dw_sent :: "(drive_bus \<times> can_msg) list"

definition on_drive_env :: "('w, 'a) io \<Rightarrow> ('w drive_world, 'a) io" where
  "on_drive_env = zoom dw_env (\<lambda>w s. s\<lparr>dw_env := w\<rparr>)"

definition ID_PIT_STATUS :: int where "ID_PIT_STATUS = 0x700"
definition ID_PIT_ENABLE :: int where "ID_PIT_ENABLE = 0x7E0"
definition ID_AMS_STATUS :: int where "ID_AMS_STATUS = 0x4A0"
definition ECU_RELAY_PIN :: int where "ECU_RELAY_PIN = 3"
definition AMS_RELAY_PIN :: int where "AMS_RELAY_PIN = 1"

definition drive_ip :: "'w drive_env \<Rightarrow> string \<Rightarrow> string \<Rightarrow> ('w drive_world, unit) io" where
  "drive_ip env ch sp =
     for_each (\<lambda>cmd. on_drive_env (de_ip env ([''sudo'', ''ip'', ''link'', ''set'', ch] @ cmd)))
       [[''down''], [''type'', ''can'', ''bitrate'', ''500000'', ''sample-point'', sp, ''restart-ms'', ''200''],
        [''txqueuelen'', ''1000''], [''up'']]"

definition apps_volts :: "rat \<Rightarrow> rat \<Rightarrow> rat \<Rightarrow> rat" where
  "apps_volts profile_min profile_max pct =
     (let raw = profile_min + pct / 100 * (profile_max - profile_min)
      in max 0 (min (33 / 10) (raw / 4095 * (33 / 10))))"

section \<open>The threads\<close>

definition sender_round :: "drive_state \<Rightarrow> drive_state \<times> (drive_bus \<times> can_msg) list" where
  "sender_round st =
     (let st = st\<lparr>dv_cnt := (dv_cnt st + 1) AND 0x0F\<rparr>
      in (st,
          [(Inv, std_msg 0x461 (f_461 (dv_inv st) 0 (dv_cnt st)))]
          @ (if dv_sendvdc st then [(Inv, std_msg 0x466 (f_466 (dv_vdc st) (dv_cnt st)))] else [])
          @ (if dv_sim st then [(Acu, std_msg ID_AMS_STATUS (f_4a0 (dv_ams st) (dv_sess st))),
                                (Acu, std_msg 0x020 (f_020 (dv_prech st)))] else [])))"

definition receiver_step :: "can_msg option \<Rightarrow> drive_state \<Rightarrow> drive_state" where
  "receiver_step msg st =
     (case msg of
        None \<Rightarrow> st
      | Some m \<Rightarrow>
          if cm_id m = ID_PIT_STATUS \<and> length (cm_data m) \<ge> 8
          then (let raw = push_bit 8 (cm_data m ! 6) OR cm_data m ! 7
                in st\<lparr>dv_fsm := Some (cm_data m ! 0), dv_torque := Some (if raw \<ge> 0x8000 then raw - 0x10000 else raw)\<rparr>)
          else if cm_id m = ID_AMS_STATUS then st\<lparr>dv_ams_seen := True\<rparr>
          else st)"

fun thread_step :: "thread_turn \<Rightarrow> 'w drive_world \<Rightarrow> 'w drive_world" where
  "thread_step Sender s =
     (if dv_run (dw_st s)
      then (let (st, frames) = sender_round (dw_st s) in s\<lparr>dw_st := st, dw_sent := dw_sent s @ frames\<rparr>) else s)"
| "thread_step (Receiver msg) s = (if dv_run (dw_st s) then s\<lparr>dw_st := receiver_step msg (dw_st s)\<rparr> else s)"

section \<open>The main thread\<close>

definition drive_sleep :: "'w drive_env \<Rightarrow> rat \<Rightarrow> ('w drive_world, unit) io" where
  "drive_sleep env t = bind (on_drive_env (de_sleep env t)) (\<lambda>turns. modify (fold thread_step turns))"

definition drive_call :: "'w drive_env \<Rightarrow> string \<Rightarrow> (string \<times> json) list \<Rightarrow> ('w drive_world, unit) io" where
  "drive_call env m ps = bind (on_drive_env (de_call env m ps)) (\<lambda>_. ret ())"

definition set_st :: "(drive_state \<Rightarrow> drive_state) \<Rightarrow> ('w drive_world, unit) io" where
  "set_st f = modify (\<lambda>s. s\<lparr>dw_st := f (dw_st s)\<rparr>)"

definition relay :: "'w drive_env \<Rightarrow> int \<Rightarrow> bool \<Rightarrow> ('w drive_world, unit) io" where
  "relay env pin on = drive_call env ''tca.write_pin''
     [(''addr'', JInt 0x20), (''port'', JInt 0), (''pin'', JInt pin), (''value'', JBool on)]"

primrec wait_until_fsm :: "nat \<Rightarrow> 'w drive_env \<Rightarrow> rat \<Rightarrow> int \<Rightarrow> ('w drive_world, bool) io" where
  "wait_until_fsm 0 env deadline target = raise no_fuel"
| "wait_until_fsm (Suc n) env deadline target =
     bind (on_drive_env (de_now env)) (\<lambda>t.
       if t < deadline
       then bind (reads (\<lambda>s. dv_fsm (dw_st s))) (\<lambda>fsm.
            if fsm = Some target then ret True
            else bind (drive_sleep env (1 / 10)) (\<lambda>_. wait_until_fsm n env deadline target))
       else ret False)"

definition wait_fsm :: "nat \<Rightarrow> 'w drive_env \<Rightarrow> rat \<Rightarrow> int \<Rightarrow> ('w drive_world, bool) io" where
  "wait_fsm n env gate_timeout target =
     bind (on_drive_env (de_now env)) (\<lambda>t. wait_until_fsm n env (t + gate_timeout) target)"

definition drive_init :: "bool \<Rightarrow> drive_state" where
  "drive_init sim =
     \<lparr>dv_inv = 0, dv_vdc = 0, dv_sendvdc = False, dv_ams = 3, dv_sess = 1, dv_prech = 1, dv_cnt = 0, dv_run = True,
      dv_sim = sim, dv_fsm = None, dv_torque = None, dv_ams_seen = False\<rparr>"

record drive_report =
  dr_ams_warning :: bool
  dr_wait_brake :: bool
  dr_r2d :: bool
  dr_standby :: bool
  dr_active :: bool
  dr_fsm :: "int option"
  dr_torque :: "int option"

text \<open>Power up: the links, the relays, the buses.\<close>

definition drive_setup :: "'w drive_env \<Rightarrow> bool \<Rightarrow> string \<Rightarrow> string \<Rightarrow> ('w drive_world, unit) io" where
  "drive_setup env sim inv_ch acu_ch =
     bind (drive_ip env inv_ch ''0.875'') (\<lambda>_.
     bind (drive_ip env acu_ch ''0.688'') (\<lambda>_.
     bind (on_drive_env (de_connect env)) (\<lambda>_.
     bind (drive_call env ''tca.set_direction'' [(''addr'', JInt 0x20), (''port'', JInt 0), (''mask'', JInt 0)]) (\<lambda>_.
     bind (whenever (\<not> sim) (relay env AMS_RELAY_PIN True)) (\<lambda>_.
     bind (relay env ECU_RELAY_PIN False) (\<lambda>_.
     bind (on_drive_env (de_sleep env (3 / 2))) (\<lambda>_.
     bind (relay env ECU_RELAY_PIN True) (\<lambda>_.
     bind (on_drive_env (de_open env inv_ch)) (\<lambda>_.
     bind (on_drive_env (de_open env acu_ch)) (\<lambda>_.
     bind (on_drive_env (de_open env acu_ch)) (\<lambda>_.
       set_st (\<lambda>_. drive_init sim))))))))))))"

definition dac :: "'w drive_env \<Rightarrow> int \<Rightarrow> rat \<Rightarrow> ('w drive_world, unit) io" where
  "dac env channel volts =
     drive_call env ''dac.set_voltage'' [(''idx'', JInt 0), (''channel'', JInt channel), (''volts'', JNum volts)]"

text \<open>From the application's boot to torque, gate by gate; a gate that is not reached is reported and passed.\<close>

definition drive_gates :: "nat \<Rightarrow> 'w drive_env \<Rightarrow> bool \<Rightarrow> rat \<Rightarrow> ('w drive_world, drive_report) io" where
  "drive_gates n env sim gate_timeout =
     bind (drive_sleep env 3) (\<lambda>_.
     bind (reads (\<lambda>s. \<not> sim \<and> \<not> dv_ams_seen (dw_st s))) (\<lambda>warning.
     bind (on_drive_env (de_send env Acu (std_msg ID_PIT_ENABLE [0xDE, 0xAD, 0xBE, 0xEF]))) (\<lambda>_.
     bind (drive_sleep env (1 / 2)) (\<lambda>_.
     bind (set_st (\<lambda>st. st\<lparr>dv_vdc := 400, dv_sendvdc := True\<rparr>)) (\<lambda>_.
     bind (wait_fsm n env gate_timeout 2) (\<lambda>brake.
     bind (drive_call env ''tca.set_direction'' [(''addr'', JInt 0x22), (''port'', JInt 1), (''mask'', JInt 0)]) (\<lambda>_.
     bind (drive_call env ''tca.write_pin'' [(''addr'', JInt 0x22), (''port'', JInt 1), (''pin'', JInt 0), (''value'', JBool True)]) (\<lambda>_.
     bind (dac env 0 (3 / 2)) (\<lambda>_.
     bind (wait_fsm n env gate_timeout 3) (\<lambda>r2d.
     bind (wait_fsm n env gate_timeout 4) (\<lambda>standby.
     bind (set_st (\<lambda>st. st\<lparr>dv_inv := 3\<rparr>)) (\<lambda>_.
     bind (wait_fsm n env gate_timeout 5) (\<lambda>active.
     bind (set_st (\<lambda>st. st\<lparr>dv_inv := 6\<rparr>)) (\<lambda>_.
     bind (dac env 1 (apps_volts 2050 2950 50)) (\<lambda>_.
     bind (dac env 2 (apps_volts 1915 2570 50)) (\<lambda>_.
     bind (drive_sleep env (6 / 10)) (\<lambda>_.
     bind (reads (\<lambda>s. \<lparr>dr_ams_warning = warning, dr_wait_brake = brake, dr_r2d = r2d, dr_standby = standby, dr_active = active,
                        dr_fsm = dv_fsm (dw_st s), dr_torque = dv_torque (dw_st s)\<rparr>)) (\<lambda>report.
     bind (set_st (\<lambda>st. st\<lparr>dv_run := False\<rparr>)) (\<lambda>_.
     bind (drive_sleep env (1 / 10)) (\<lambda>_. ret report))))))))))))))))))))"

definition drive_main :: "nat \<Rightarrow> 'w drive_env \<Rightarrow> bool \<Rightarrow> string \<Rightarrow> string \<Rightarrow> rat \<Rightarrow> ('w drive_world, drive_report) io" where
  "drive_main n env sim inv_ch acu_ch gate_timeout =
     bind (drive_setup env sim inv_ch acu_ch) (\<lambda>_.
     bind (drive_gates n env sim gate_timeout) (\<lambda>report.
     bind (for_each (\<lambda>bus. try_except (on_drive_env (de_shutdown env bus)) is_exception (\<lambda>_. ret ())) [0, 1, 2]) (\<lambda>_.
       ret report)))"

section \<open>The receiver reads what the frame map documents\<close>

definition is_status :: "can_msg option \<Rightarrow> bool" where
  "is_status msg = (case msg of Some m \<Rightarrow> cm_id m = ID_PIT_STATUS \<and> 8 \<le> length (cm_data m) | None \<Rightarrow> False)"

definition decoded_status :: "can_msg option \<Rightarrow> (int \<times> int) option" where
  "decoded_status msg =
     (case msg of
        Some m \<Rightarrow> (case decode_pit_status (cm_data m) of PitFull p \<Rightarrow> Some (ps_fsm_state p, ps_torque_cmd p) | PitShort f \<Rightarrow> None)
      | None \<Rightarrow> None)"

lemma torque_word:
  assumes "8 \<le> length data" "is_bytes data"
  shows "(let raw = push_bit 8 (data ! 6) OR data ! 7 in if raw \<ge> 0x8000 then raw - 0x10000 else raw) =
    signed 16 (from_be (slice 6 8 data))"
proof -
  have "slice 6 8 data = [data ! 6, data ! 7]"
    using assms(1) by (simp add: slice_def take_Suc_conv_app_nth numeral_2_eq_2 hd_drop_conv_nth tl_drop drop_Suc [symmetric] flip: hd_drop_conv_nth)
  moreover have "is_byte (data ! 7)" using is_bytes_nth [OF assms(2), of 7] assms(1) by (simp add: is_byte_def)
  ultimately show ?thesis
    by (simp add: from_be_def signed_def Let_def shifts(2) byte_or algebra_simps)
qed

lemma status_received:
  "is_status msg \<Longrightarrow> (\<forall>m. msg = Some m \<longrightarrow> is_bytes (cm_data m)) \<Longrightarrow>
   dv_fsm (receiver_step msg st) = map_option fst (decoded_status msg) \<and>
   dv_torque (receiver_step msg st) = map_option snd (decoded_status msg)"
  using torque_word
  by (auto simp: is_status_def decoded_status_def receiver_step_def decode_pit_status_def Let_def split: option.splits)

definition byte_msg :: "can_msg option \<Rightarrow> bool" where
  "byte_msg msg = (case msg of Some m \<Rightarrow> is_bytes (cm_data m) | None \<Rightarrow> True)"

definition is_ams_status :: "can_msg option \<Rightarrow> bool" where
  "is_ams_status msg = (case msg of Some m \<Rightarrow> cm_id m = ID_AMS_STATUS | None \<Rightarrow> False)"

lemma other_received:
  "\<not> is_status msg \<Longrightarrow> dv_fsm (receiver_step msg st) = dv_fsm st \<and> dv_torque (receiver_step msg st) = dv_torque st"
  by (auto simp: is_status_def receiver_step_def split: option.splits)

lemma ams_received: "dv_ams_seen (receiver_step msg st) \<longleftrightarrow> dv_ams_seen st \<or> is_ams_status msg"
  by (auto simp: is_ams_status_def receiver_step_def Let_def ID_PIT_STATUS_def ID_AMS_STATUS_def split: option.splits)

text \<open>C25: whatever the receiver of the drive script gets, the state and torque it holds are those that the frame map's
  own decoder reads in the last complete pit status frame, or the ones it had when there was none; shorter and
  other frames change neither, and the AMS counts as seen exactly when its status frame came.\<close>

theorem drive_receiver_decodes:
  assumes "list_all byte_msg msgs"
  shows "dv_fsm (fold receiver_step msgs st) =
      (if filter is_status msgs = [] then dv_fsm st else map_option fst (decoded_status (last (filter is_status msgs)))) \<and>
    dv_torque (fold receiver_step msgs st) =
      (if filter is_status msgs = [] then dv_torque st else map_option snd (decoded_status (last (filter is_status msgs)))) \<and>
    (dv_ams_seen (fold receiver_step msgs st) \<longleftrightarrow> dv_ams_seen st \<or> list_ex is_ams_status msgs)"
  using assms
proof (induction msgs rule: rev_induct)
  case (snoc msg msgs)
  have "\<forall>m. msg = Some m \<longrightarrow> is_bytes (cm_data m)" using snoc.prems by (auto simp: byte_msg_def)
  from status_received [OF _ this, of "fold receiver_step msgs st"] snoc other_received [of msg "fold receiver_step msgs st"]
  show ?case by (auto simp: ams_received)
qed simp

theorem drive_receiver_decodes_witness:
  "dv_torque (fold receiver_step [Some (std_msg 0x700 [5, 6, 0, 50, 14, 16, 255, 254]), None, Some (std_msg 0x700 [3])] (drive_init True)) =
   Some (- 2)"
  using drive_receiver_decodes [of "[Some (std_msg 0x700 [5, 6, 0, 50, 14, 16, 255, 254]), None, Some (std_msg 0x700 [3])]" "drive_init True"]
  by (simp add: byte_msg_def is_byte_def is_status_def ID_PIT_STATUS_def decoded_status_def decode_pit_status_def
      slice_def from_be_def signed_def)

section \<open>A gate is waited for and not for ever\<close>

definition drive_clock :: "('w \<Rightarrow> rat) \<Rightarrow> 'w drive_env \<Rightarrow> bool" where
  "drive_clock clk env \<longleftrightarrow> (\<forall>w. de_now env w = (Inr (clk w), w)) \<and>
     (\<forall>t w turns w'. de_sleep env t w = (Inr turns, w') \<longrightarrow> clk w + t \<le> clk w') \<and> (\<forall>t. enough_fuel (de_sleep env t))"

definition gate_outcome :: "('w \<Rightarrow> rat) \<Rightarrow> rat \<Rightarrow> int \<Rightarrow> bool res \<times> 'w drive_world \<Rightarrow> bool" where
  "gate_outcome clk deadline target = (\<lambda>(r, s'). case r of
     Inr reached \<Rightarrow> if reached then dv_fsm (dw_st s') = Some target else deadline \<le> clk (dw_env s')
   | Inl e \<Rightarrow> e \<noteq> no_fuel)"

lemma thread_env [simp]: "dw_env (thread_step turn s) = dw_env s"
  by (cases turn) (auto split: prod.split)

lemma threads_env [simp]: "dw_env (fold thread_step turns s) = dw_env s"
  by (induction turns arbitrary: s) auto

lemma wait_step:
  assumes "\<And>w. de_now env w = (Inr (clk w), w)" "de_sleep env (1 / 10) (dw_env s) = (Inr turns, w')"
  shows "wait_until_fsm (Suc n) env deadline target s =
    (if clk (dw_env s) < deadline
     then if dv_fsm (dw_st s) = Some target then (Inr True, s)
          else wait_until_fsm n env deadline target (fold thread_step turns (s\<lparr>dw_env := w'\<rparr>))
     else (Inr False, s))"
  using assms by (simp add: drive_sleep_def on_drive_env_def io_simps)

lemma wait_until_outcome:
  "drive_clock clk env \<Longrightarrow> deadline - clk (dw_env s) < of_nat n / 10 \<Longrightarrow>
   gate_outcome clk deadline target (wait_until_fsm (Suc n) env deadline target s)"
proof (induction n arbitrary: s)
  case 0
  then show ?case by (auto simp: gate_outcome_def drive_clock_def on_drive_env_def io_simps)
next
  case (Suc n)
  have clk: "de_now env w = (Inr (clk w), w)" for w using Suc.prems(1) by (simp add: drive_clock_def)
  obtain r w' where sl: "de_sleep env (1 / 10) (dw_env s) = (r, w')" by (rule prod.exhaust)
  show ?case
  proof (cases r)
    case (Inl e)
    have "e \<noteq> no_fuel" using Suc.prems(1) sl Inl unfolding drive_clock_def enough_fuel_def by (metis fst_conv)
    with sl Inl clk show ?thesis
      by (simp add: gate_outcome_def drive_sleep_def on_drive_env_def io_simps)
  next
    case (Inr turns)
    let ?s = "fold thread_step turns (s\<lparr>dw_env := w'\<rparr>)"
    have "clk (dw_env s) + 1 / 10 \<le> clk w'" using Suc.prems(1) sl Inr by (auto simp: drive_clock_def)
    then have "deadline - clk (dw_env ?s) < of_nat n / 10" using Suc.prems(2) by (simp add: field_simps)
    from Suc.IH [OF Suc.prems(1) this] show ?thesis
      unfolding wait_step [OF clk sl [unfolded Inr], of "Suc n"] by (simp add: gate_outcome_def del: wait_until_fsm.simps)
  qed
qed

text \<open>with a clock that does not run slower than the pauses, waiting for a gate ends: it says the gate was reached
  only when the state it last received is the target, it gives up only once the timeout has passed, and fuel for ten
  turns a second (62 for the default of six seconds) is enough.\<close>

theorem wait_fsm_returns:
  assumes "drive_clock clk env" "gate_timeout < of_nat n / 10"
  shows "gate_outcome clk (clk (dw_env s) + gate_timeout) target (wait_fsm (Suc n) env gate_timeout target s)"
proof -
  have "wait_fsm (Suc n) env gate_timeout target s = wait_until_fsm (Suc n) env (clk (dw_env s) + gate_timeout) target s"
    using assms(1) by (simp add: wait_fsm_def drive_clock_def on_drive_env_def io_simps del: wait_until_fsm.simps)
  with wait_until_outcome [OF assms(1)] assms(2) show ?thesis by simp
qed

text \<open>An ECU that answers with state 2 after three pauses.\<close>

definition demo_env :: "(rat \<times> nat) drive_env" where
  "demo_env =
     \<lparr>de_ip = \<lambda>_. ret (), de_connect = ret (), de_call = \<lambda>_ _. ret JNull, de_open = \<lambda>_. ret (), de_send = \<lambda>_ _. ret (),
      de_now = reads fst,
      de_sleep = \<lambda>t (c, k). (Inr [Sender, Receiver (Some (std_msg 0x700 [if k < 3 then 1 else 2, 0, 0, 0, 0, 0, 0, 0]))], (c + t, k + 1)),
      de_shutdown = \<lambda>_. ret ()\<rparr>"

theorem wait_fsm_returns_witness:
  "gate_outcome fst 6 2 (wait_fsm 62 demo_env 6 2 \<lparr>dw_env = (0, 0), dw_st = drive_init True, dw_sent = []\<rparr>)"
proof -
  have "drive_clock fst demo_env"
    by (auto simp: drive_clock_def demo_env_def enough_fuel_def io_simps)
  from wait_fsm_returns [OF this, of 6 61 "\<lparr>dw_env = (0, 0), dw_st = drive_init True, dw_sent = []\<rparr>" 2] show ?thesis by simp
qed

end
