(* ===== verification/Bus_Scans.thy ===== *)
theory Bus_Scans
  imports Hw_Bus
begin

text \<open>
  The scripts that look for the SPI and power pins of a new backplane: \<^verbatim>\<open>tools/scan_gate_oe.py\<close>,
  \<^verbatim>\<open>tools/scan_spi_cs.py\<close>, \<^verbatim>\<open>tools/scan_debug_spi.py\<close> and \<^verbatim>\<open>tools/diagnose_gpio.py\<close>. A script is a program
  that returns what it prints, as a record; the waits of three seconds take fuel \<open>n\<close>.

  The properties are about a board \<open>scan_board\<close>: output latches follow the writes, and the CAN controllers
  answer 0x80 exactly when the supply is on, the buffer of the bus is enabled and one of them is selected.
  \<open>runs lv L m R\<close> is the triple they are derived with: started on latches \<open>L\<close>, \<open>m\<close> raises nothing and ends
  with a result and latches related by \<open>R\<close>.
\<close>

record 'w rpi =
  rp_hw :: "'w hw"
  rp_spi_open :: "('w, unit) io"
  rp_spi_close :: "('w, unit) io"
  rp_i2c_open :: "('w, unit) io"
  rp_i2c_close :: "('w, unit) io"
  rp_cleanup :: "('w, unit) io"

section \<open>What the scripts share\<close>

definition PSU_ON :: int where "PSU_ON = 7"
definition PWR_OK :: int where "PWR_OK = 8"

definition drive_pin :: "'w rpi \<Rightarrow> int \<Rightarrow> bool \<Rightarrow> ('w, unit) io" where
  "drive_pin b p v = hw_gpio_out (rp_hw b) p v"

definition make_output :: "'w rpi \<Rightarrow> bool \<Rightarrow> int \<Rightarrow> ('w, unit) io" where
  "make_output b v p = bind (hw_gpio_setup (rp_hw b) p Output) (\<lambda>_. drive_pin b p v)"

definition sweep_reset_and_read :: "'w rpi \<Rightarrow> int \<Rightarrow> ('w, int) io" where
  "sweep_reset_and_read b cs =
     bind (drive_pin b cs False) (\<lambda>_. bind (hw_xfer2 (rp_hw b) 0 [0xC0]) (\<lambda>_.
     bind (drive_pin b cs True) (\<lambda>_. bind (hw_sleep (rp_hw b) (15 / 1000)) (\<lambda>_.
     bind (drive_pin b cs False) (\<lambda>_. bind (hw_xfer2 (rp_hw b) 0 [0x03, 0x0E, 0x00]) (\<lambda>resp.
     bind (drive_pin b cs True) (\<lambda>_. of_res (py_nth resp 2))))))))"

definition open_spi :: "'w rpi \<Rightarrow> ('w, unit) io" where
  "open_spi b = bind (rp_spi_open b) (\<lambda>_. hw_set_mode (rp_hw b) 0 0)"

definition psu_setup :: "'w rpi \<Rightarrow> ('w, unit) io" where
  "psu_setup b = bind (make_output b True PSU_ON) (\<lambda>_. hw_gpio_setup (rp_hw b) PWR_OK InputPullDown)"

text \<open>Switch the supply on, wait for it, and read once more whether it is good. The wait goes on whatever the
  answer was; None is fuel run out.\<close>

definition power_up :: "'w rpi \<Rightarrow> nat \<Rightarrow> rat \<Rightarrow> ('w, bool option) io" where
  "power_up b n settle =
     bind (drive_pin b PSU_ON False) (\<lambda>_. bind (hw_time (rp_hw b)) (\<lambda>t.
     bind (poll n (hw_time (rp_hw b)) (t + 3) (hw_gpio_in (rp_hw b) PWR_OK) (hw_sleep (rp_hw b) (1 / 20))) (\<lambda>r.
     case r of None \<Rightarrow> ret None
     | Some _ \<Rightarrow> bind (hw_gpio_in (rp_hw b) PWR_OK) (\<lambda>ok. bind (hw_sleep (rp_hw b) settle) (\<lambda>_. ret (Some ok))))))"

definition shut_down :: "'w rpi \<Rightarrow> ('w, unit) io" where
  "shut_down b = bind (drive_pin b PSU_ON True) (\<lambda>_. bind (rp_spi_close b) (\<lambda>_. rp_cleanup b))"

section \<open>scan_gate_oe\<close>

definition CS_CAN1 :: int where "CS_CAN1 = 17"
definition CS_CAN2 :: int where "CS_CAN2 = 18"
definition CS_CAN3 :: int where "CS_CAN3 = 27"

definition GATE_CANDIDATES :: "int list" where
  "GATE_CANDIDATES =
     filter (\<lambda>g. g \<notin> {9, 10, 11, 2, 3, PSU_ON, PWR_OK} \<and> g \<notin> {CS_CAN1, CS_CAN2, CS_CAN3}) [0..27]"

definition try_gate :: "'w rpi \<Rightarrow> int \<Rightarrow> ('w, int \<times> int) io" where
  "try_gate b g =
     bind (drive_pin b g True) (\<lambda>_. bind (sweep_reset_and_read b CS_CAN1) (\<lambda>canstat.
     bind (drive_pin b g False) (\<lambda>_. ret (g, canstat))))"

definition first_match :: "(int \<times> int) list \<Rightarrow> int option" where
  "first_match readings =
     foldl (\<lambda>found (g, canstat). if canstat = 0x80 \<and> found = None then Some g else found) None readings"

definition confirm_gate :: "'w rpi \<Rightarrow> int \<Rightarrow> ('w, (int \<times> int) list) io" where
  "confirm_gate b g =
     bind (drive_pin b g True) (\<lambda>_.
     bind (map_io (\<lambda>cs. bind (sweep_reset_and_read b cs) (\<lambda>v. ret (cs, v))) [CS_CAN1, CS_CAN2, CS_CAN3]) (\<lambda>vs.
     bind (drive_pin b g False) (\<lambda>_. ret vs)))"

record gate_report =
  ga_power :: bool
  ga_readings :: "(int \<times> int) list"
  ga_gate :: "int option"
  ga_confirmed :: "(int \<times> int) list"

definition scan_gate_oe :: "'w rpi \<Rightarrow> nat \<Rightarrow> ('w, gate_report option) io" where
  "scan_gate_oe b n =
     bind (psu_setup b) (\<lambda>_.
     bind (for_each (make_output b True) [CS_CAN1, CS_CAN2, CS_CAN3]) (\<lambda>_.
     bind (for_each (make_output b False) GATE_CANDIDATES) (\<lambda>_.
     bind (open_spi b) (\<lambda>_.
     bind (power_up b n (2 / 10)) (\<lambda>power.
     case power of None \<Rightarrow> ret None
     | Some ok \<Rightarrow>
         bind (map_io (try_gate b) GATE_CANDIDATES) (\<lambda>readings.
         bind (case first_match readings of
                 Some g \<Rightarrow> confirm_gate b g
               | None \<Rightarrow> ret []) (\<lambda>confirmed.
         bind (shut_down b) (\<lambda>_.
           ret (Some \<lparr>ga_power = ok, ga_readings = readings, ga_gate = first_match readings,
                      ga_confirmed = confirmed\<rparr>)))))))))"

section \<open>scan_spi_cs\<close>

definition ALL_GPIO :: "int list" where
  "ALL_GPIO = filter (\<lambda>g. g \<notin> {9, 10, 11, PSU_ON, PWR_OK}) [0..27]"

definition try_pair :: "'w rpi \<Rightarrow> int \<Rightarrow> int \<Rightarrow> ('w, (int \<times> int) list) io" where
  "try_pair b gate cs =
     (if cs = gate then ret []
      else bind (sweep_reset_and_read b cs) (\<lambda>canstat. ret (if canstat = 0x80 then [(gate, cs)] else [])))"

definition sweep_gate :: "'w rpi \<Rightarrow> int \<Rightarrow> ('w, (int \<times> int) list) io" where
  "sweep_gate b gate =
     bind (drive_pin b gate True) (\<lambda>_. bind (map_io (try_pair b gate) ALL_GPIO) (\<lambda>row.
     bind (drive_pin b gate False) (\<lambda>_. ret (concat row))))"

record pair_report =
  pa_power :: bool
  pa_results :: "(int \<times> int) list"
  pa_gate :: "int option"
  pa_cs :: "int list"

definition fromkeys :: "'a list \<Rightarrow> 'a list" where
  "fromkeys xs = rev (remdups (rev xs))"

text \<open>The verdict: with three matches or more, the first gate and the first three chip selects.\<close>

definition pair_verdict :: "bool \<Rightarrow> (int \<times> int) list \<Rightarrow> pair_report" where
  "pair_verdict ok results =
     (if 3 \<le> length results
      then \<lparr>pa_power = ok, pa_results = results, pa_gate = Some (hd (fromkeys (map fst results))),
            pa_cs = take 3 (map snd results)\<rparr>
      else \<lparr>pa_power = ok, pa_results = results, pa_gate = None, pa_cs = []\<rparr>)"

definition scan_spi_cs :: "'w rpi \<Rightarrow> nat \<Rightarrow> ('w, pair_report option) io" where
  "scan_spi_cs b n =
     bind (psu_setup b) (\<lambda>_.
     bind (for_each (make_output b True) ALL_GPIO) (\<lambda>_.
     bind (open_spi b) (\<lambda>_.
     bind (power_up b n (2 / 10)) (\<lambda>power.
     case power of None \<Rightarrow> ret None
     | Some ok \<Rightarrow>
         bind (map_io (sweep_gate b) ALL_GPIO) (\<lambda>rows.
         bind (shut_down b) (\<lambda>_. ret (Some (pair_verdict ok (concat rows)))))))))"

section \<open>scan_debug_spi\<close>

definition OTHER_GPIOS :: "int list" where
  "OTHER_GPIOS =
     filter (\<lambda>g. g \<notin> {9, 10, 11, 2, 3, PSU_ON, PWR_OK} \<and> g \<notin> {CS_CAN1, CS_CAN2, CS_CAN3}) [0..27]"

definition debug_xfer :: "'w rpi \<Rightarrow> int \<Rightarrow> int list \<Rightarrow> ('w, int list) io" where
  "debug_xfer b cs data =
     bind (drive_pin b cs False) (\<lambda>_. bind (hw_xfer2 (rp_hw b) 0 data) (\<lambda>r. bind (drive_pin b cs True) (\<lambda>_. ret r)))"

definition debug_reset :: "'w rpi \<Rightarrow> int \<Rightarrow> ('w, unit) io" where
  "debug_reset b cs = bind (debug_xfer b cs [0xC0]) (\<lambda>_. hw_sleep (rp_hw b) (20 / 1000))"

definition debug_read_reg :: "'w rpi \<Rightarrow> int \<Rightarrow> int \<Rightarrow> ('w, int) io" where
  "debug_read_reg b cs reg = bind (debug_xfer b cs [0x03, reg, 0x00]) (\<lambda>r. of_res (py_nth r 2))"

definition debug_write_reg :: "'w rpi \<Rightarrow> int \<Rightarrow> int \<Rightarrow> int \<Rightarrow> ('w, unit) io" where
  "debug_write_reg b cs reg v = bind (debug_xfer b cs [0x02, reg, v]) (\<lambda>_. ret ())"

text \<open>Tests 1 and 2 print chip select, \<open>CANSTAT\<close> and \<open>CANCTRL\<close>; test 3 prints \<open>CANSTAT\<close> before and both
  registers after the forced write; test 4 five raw responses; test 5 the base line and, for each pin, what
  is read with only that pin low.\<close>

definition debug_status :: "'w rpi \<Rightarrow> int \<Rightarrow> ('w, int \<times> int \<times> int) io" where
  "debug_status b cs =
     bind (debug_reset b cs) (\<lambda>_. bind (debug_read_reg b cs 0x0E) (\<lambda>canstat.
     bind (debug_read_reg b cs 0x0F) (\<lambda>canctrl. ret (cs, canstat, canctrl))))"

definition debug_test1 :: "'w rpi \<Rightarrow> ('w, (int \<times> int \<times> int) list) io" where
  "debug_test1 b =
     bind (drive_pin b 16 True) (\<lambda>_. bind (map_io (debug_status b) [CS_CAN1, CS_CAN2, CS_CAN3]) (\<lambda>t.
     bind (drive_pin b 16 False) (\<lambda>_. ret t)))"

definition debug_test2 :: "'w rpi \<Rightarrow> ('w, (int \<times> int \<times> int) list) io" where
  "debug_test2 b =
     bind (for_each (\<lambda>g. drive_pin b g True) OTHER_GPIOS) (\<lambda>_.
     bind (map_io (debug_status b) [CS_CAN1, CS_CAN2, CS_CAN3]) (\<lambda>t.
     bind (for_each (\<lambda>g. drive_pin b g False) OTHER_GPIOS) (\<lambda>_. ret t)))"

definition debug_test3 :: "'w rpi \<Rightarrow> ('w, int \<times> int \<times> int) io" where
  "debug_test3 b =
     bind (drive_pin b 16 True) (\<lambda>_.
     bind (debug_reset b CS_CAN1) (\<lambda>_. bind (debug_read_reg b CS_CAN1 0x0E) (\<lambda>before.
     bind (debug_write_reg b CS_CAN1 0x0F 0x80) (\<lambda>_. bind (hw_sleep (rp_hw b) (5 / 1000)) (\<lambda>_.
     bind (debug_read_reg b CS_CAN1 0x0E) (\<lambda>after. bind (debug_read_reg b CS_CAN1 0x0F) (\<lambda>ctrl.
     bind (drive_pin b 16 False) (\<lambda>_. ret (before, after, ctrl)))))))))"

definition debug_test4 :: "'w rpi \<Rightarrow> ('w, int list list) io" where
  "debug_test4 b =
     bind (drive_pin b 16 True) (\<lambda>_.
     bind (map_io (\<lambda>trial. bind (debug_xfer b CS_CAN1 [0x03, 0x0E, 0x00]) (\<lambda>r.
             bind (hw_sleep (rp_hw b) (2 / 1000)) (\<lambda>_. ret r))) [0..4]) (\<lambda>rs.
     bind (drive_pin b 16 False) (\<lambda>_. ret rs)))"

definition debug_without :: "'w rpi \<Rightarrow> int \<Rightarrow> ('w, int \<times> int) io" where
  "debug_without b g =
     bind (drive_pin b g False) (\<lambda>_. bind (debug_reset b CS_CAN1) (\<lambda>_.
     bind (debug_read_reg b CS_CAN1 0x0E) (\<lambda>canstat. bind (drive_pin b g True) (\<lambda>_. ret (g, canstat)))))"

definition debug_test5 :: "'w rpi \<Rightarrow> ('w, int \<times> (int \<times> int) list) io" where
  "debug_test5 b =
     bind (for_each (\<lambda>g. drive_pin b g True) OTHER_GPIOS) (\<lambda>_.
     bind (debug_reset b CS_CAN1) (\<lambda>_. bind (debug_read_reg b CS_CAN1 0x0E) (\<lambda>baseline.
     bind (map_io (debug_without b) OTHER_GPIOS) (\<lambda>readings. ret (baseline, readings)))))"

definition buffer_lost :: "(int \<times> int) list \<Rightarrow> int list" where
  "buffer_lost readings = map fst (filter (\<lambda>(g, canstat). canstat \<noteq> 0x80) readings)"

record debug_report =
  de_power :: bool
  de_test1 :: "(int \<times> int \<times> int) list"
  de_test2 :: "(int \<times> int \<times> int) list"
  de_test3 :: "int \<times> int \<times> int"
  de_test4 :: "int list list"
  de_baseline :: int
  de_lost :: "int list"

definition scan_debug_spi :: "'w rpi \<Rightarrow> nat \<Rightarrow> ('w, debug_report option) io" where
  "scan_debug_spi b n =
     bind (psu_setup b) (\<lambda>_.
     bind (for_each (make_output b True) [CS_CAN1, CS_CAN2, CS_CAN3]) (\<lambda>_.
     bind (for_each (make_output b False) OTHER_GPIOS) (\<lambda>_.
     bind (open_spi b) (\<lambda>_.
     bind (power_up b n (3 / 10)) (\<lambda>power.
     case power of None \<Rightarrow> ret None
     | Some ok \<Rightarrow>
         bind (debug_test1 b) (\<lambda>t1. bind (debug_test2 b) (\<lambda>t2. bind (debug_test3 b) (\<lambda>t3.
         bind (debug_test4 b) (\<lambda>t4. bind (debug_test5 b) (\<lambda>(baseline, readings).
         bind (shut_down b) (\<lambda>_.
           ret (Some \<lparr>de_power = ok, de_test1 = t1, de_test2 = t2, de_test3 = t3, de_test4 = t4,
                      de_baseline = baseline, de_lost = buffer_lost readings\<rparr>))))))))))))"

section \<open>diagnose_gpio\<close>

definition DIAG_CS :: int where "DIAG_CS = 12"

definition DIAG_CANDIDATES :: "int list" where
  "DIAG_CANDIDATES = filter (\<lambda>g. g \<notin> {9, 10, 11, 2, 3, DIAG_CS}) [0..27]"

definition ALL_CS :: "int list" where
  "ALL_CS = [12, 21, 20, 19, 18, 17, 25, 15, 14, 26, 8, 13]"

definition diag_reset :: "'w rpi \<Rightarrow> int \<Rightarrow> ('w, unit) io" where
  "diag_reset b cs =
     bind (drive_pin b cs False) (\<lambda>_. bind (hw_xfer2 (rp_hw b) 0 [0xC0]) (\<lambda>_.
     bind (drive_pin b cs True) (\<lambda>_. hw_sleep (rp_hw b) (1 / 100))))"

definition diag_read_canstat :: "'w rpi \<Rightarrow> int \<Rightarrow> ('w, int) io" where
  "diag_read_canstat b cs =
     bind (drive_pin b cs False) (\<lambda>_. bind (hw_xfer2 (rp_hw b) 0 [0x03, 0x0E, 0x00]) (\<lambda>resp.
     bind (drive_pin b cs True) (\<lambda>_. of_res (py_nth resp 2))))"

definition diag_bus_voltage :: "'w rpi \<Rightarrow> int \<Rightarrow> ('w, rat) io" where
  "diag_bus_voltage b addr =
     try_except
       (bind (hw_i2c_read_block (rp_hw b) addr 0x02 2) (\<lambda>raw.
        bind (of_res (py_nth raw 0)) (\<lambda>hi. bind (of_res (py_nth raw 1)) (\<lambda>lo.
          ret (of_int (push_bit 8 hi OR lo) * (125 / 100000))))))
       is_exception (\<lambda>_. ret (- 1))"

primrec diag_i2c_scan :: "'w rpi \<Rightarrow> int list \<Rightarrow> ('w, int list) io" where
  "diag_i2c_scan b [] = ret []"
| "diag_i2c_scan b (addr # addrs) =
     bind (try_except (bind (hw_i2c_probe (rp_hw b) addr) (\<lambda>_. ret [addr])) is_os_error (\<lambda>_. ret [])) (\<lambda>f.
     bind (diag_i2c_scan b addrs) (\<lambda>fs. ret (f @ fs)))"

definition diag_gate :: "'w rpi \<Rightarrow> int \<Rightarrow> ('w, int \<times> int) io" where
  "diag_gate b g =
     bind (make_output b True g) (\<lambda>_. bind (diag_reset b DIAG_CS) (\<lambda>_.
     bind (diag_read_canstat b DIAG_CS) (\<lambda>canstat. bind (drive_pin b g False) (\<lambda>_.
     bind (hw_gpio_setup (rp_hw b) g InputFloat) (\<lambda>_. ret (g, canstat))))))"

definition diag_psu :: "'w rpi \<Rightarrow> int \<Rightarrow> ('w, int \<times> rat) io" where
  "diag_psu b g =
     bind (make_output b False g) (\<lambda>_. bind (hw_sleep (rp_hw b) (1 / 10)) (\<lambda>_.
     bind (diag_bus_voltage b 0x40) (\<lambda>v. bind (drive_pin b g True) (\<lambda>_.
     bind (hw_sleep (rp_hw b) (5 / 100)) (\<lambda>_. bind (hw_gpio_setup (rp_hw b) g InputFloat) (\<lambda>_. ret (g, v)))))))"

definition first_powered :: "(int \<times> rat) list \<Rightarrow> int option" where
  "first_powered readings = foldl (\<lambda>found (g, v). if 1 < v \<and> found = None then Some g else found) None readings"

text \<open>The line after each scan says \<open>not found\<close> unless \<open>if gate_found\<close> holds, which it does not for GPIO 0.\<close>

definition truthy_pin :: "int option \<Rightarrow> bool" where
  "truthy_pin r = (case r of None \<Rightarrow> False | Some g \<Rightarrow> g \<noteq> 0)"

record diag_report =
  dg_devices :: "int list"
  dg_gate :: "int option"
  dg_gate_line :: bool
  dg_psu :: "int option"
  dg_psu_line :: bool

definition diagnose_gpio :: "'w rpi \<Rightarrow> ('w, diag_report) io" where
  "diagnose_gpio b =
     bind (for_each (make_output b True) ALL_CS) (\<lambda>_.
     bind (open_spi b) (\<lambda>_. bind (rp_i2c_open b) (\<lambda>_.
     bind (diag_i2c_scan b [0x08..0x77]) (\<lambda>found.
     bind (map_io (diag_gate b) DIAG_CANDIDATES) (\<lambda>gates.
     bind (map_io (diag_psu b) DIAG_CANDIDATES) (\<lambda>psus.
     bind (rp_spi_close b) (\<lambda>_. bind (rp_i2c_close b) (\<lambda>_. bind (rp_cleanup b) (\<lambda>_.
       ret \<lparr>dg_devices = found, dg_gate = first_match gates, dg_gate_line = truthy_pin (first_match gates),
            dg_psu = first_powered psus, dg_psu_line = truthy_pin (first_powered psus)\<rparr>)))))))))"

section \<open>The board\<close>

text \<open>A program that raises nothing and leaves the output latches \<open>lv\<close> alone.\<close>

definition quiet :: "('w \<Rightarrow> int \<Rightarrow> bool) \<Rightarrow> ('w, 'a) io \<Rightarrow> bool" where
  "quiet lv m \<longleftrightarrow> (\<forall>w. \<exists>x w'. m w = (Inr x, w') \<and> lv w' = lv w)"

definition latches :: "'w rpi \<Rightarrow> ('w \<Rightarrow> int \<Rightarrow> bool) \<Rightarrow> bool" where
  "latches b lv \<longleftrightarrow>
     (\<forall>p v w. \<exists>w'. drive_pin b p v w = (Inr (), w') \<and> lv w' = (lv w)(p := v)) \<and>
     (\<forall>p m w. \<exists>w' v. hw_gpio_setup (rp_hw b) p m w = (Inr (), w') \<and> lv w' = (lv w)(p := v)) \<and>
     (\<forall>p. quiet lv (hw_gpio_in (rp_hw b) p)) \<and> quiet lv (hw_time (rp_hw b)) \<and>
     (\<forall>t. quiet lv (hw_sleep (rp_hw b) t)) \<and> (\<forall>h m. quiet lv (hw_set_mode (rp_hw b) h m)) \<and>
     quiet lv (rp_spi_open b) \<and> quiet lv (rp_spi_close b) \<and> quiet lv (rp_cleanup b)"

text \<open>When the controllers answer: the supply on, the buffer enabled by its pin (None: always), one selected.\<close>

definition answers :: "int option \<Rightarrow> int set \<Rightarrow> (int \<Rightarrow> bool) \<Rightarrow> bool" where
  "answers gate css L \<longleftrightarrow>
     \<not> L PSU_ON \<and> (case gate of None \<Rightarrow> True | Some g \<Rightarrow> L g) \<and> (\<exists>c\<in>css. \<not> L c)"

text \<open>A transfer has the length of its packet, and reading \<open>CANSTAT\<close> gives 0x80 exactly then.\<close>

definition scan_board :: "'w rpi \<Rightarrow> ('w \<Rightarrow> int \<Rightarrow> bool) \<Rightarrow> int option \<Rightarrow> int set \<Rightarrow> bool" where
  "scan_board b lv gate css \<longleftrightarrow>
     latches b lv \<and>
     (\<forall>pkt w. \<exists>resp w'. hw_xfer2 (rp_hw b) 0 pkt w = (Inr resp, w') \<and> lv w' = lv w \<and> length resp = length pkt \<and>
        (pkt = [0x03, 0x0E, 0x00] \<longrightarrow> (resp ! 2 = 0x80 \<longleftrightarrow> answers gate css (lv w))))"

section \<open>Triples\<close>

definition runs ::
  "('w \<Rightarrow> int \<Rightarrow> bool) \<Rightarrow> (int \<Rightarrow> bool) \<Rightarrow> ('w, 'a) io \<Rightarrow> ('a \<Rightarrow> (int \<Rightarrow> bool) \<Rightarrow> bool) \<Rightarrow> bool"
where
  "runs lv L m R \<longleftrightarrow> (\<forall>w. lv w = L \<longrightarrow> (\<exists>x w'. m w = (Inr x, w') \<and> R x (lv w')))"

lemma runs_ret: "R x L \<Longrightarrow> runs lv L (ret x) R"
  by (simp add: runs_def ret_def)

lemma runs_bind: "runs lv L m R \<Longrightarrow> (\<And>x L'. R x L' \<Longrightarrow> runs lv L' (f x) S) \<Longrightarrow> runs lv L (bind m f) S"
  unfolding runs_def bind_def by fastforce

lemma runs_mono: "runs lv L m R \<Longrightarrow> (\<And>x L'. R x L' \<Longrightarrow> S x L') \<Longrightarrow> runs lv L m S"
  unfolding runs_def by blast

lemma runs_quiet: "quiet lv m \<Longrightarrow> runs lv L m (\<lambda>_ L'. L' = L)"
  unfolding runs_def quiet_def by metis

lemma latch_quiet_bind: "quiet lv m \<Longrightarrow> (\<And>x. quiet lv (f x)) \<Longrightarrow> quiet lv (bind m f)"
proof -
  assume m: "quiet lv m" and f: "\<And>x. quiet lv (f x)"
  show ?thesis unfolding quiet_def
  proof
    fix w
    obtain x w1 where 1: "m w = (Inr x, w1)" "lv w1 = lv w" using m unfolding quiet_def by blast
    obtain y w2 where 2: "f x w1 = (Inr y, w2)" "lv w2 = lv w1" using f unfolding quiet_def by blast
    from 1 2 show "\<exists>y w2. bind m f w = (Inr y, w2) \<and> lv w2 = lv w" by (simp add: bind_def)
  qed
qed

lemma latch_quiet_ret: "quiet lv (ret x)"
  by (simp add: quiet_def ret_def)

lemma quiet_poll: "quiet lv time \<Longrightarrow> quiet lv test \<Longrightarrow> quiet lv wait \<Longrightarrow> quiet lv (poll n time deadline test wait)"
  by (induction n) (simp_all add: latch_quiet_ret latch_quiet_bind)

text \<open>Loops: one that restores the latches at every turn, and one that drives pins.\<close>

lemma runs_map_io:
  assumes "\<And>x. x \<in> set xs \<Longrightarrow> runs lv L (f x) (\<lambda>y L'. L' = L \<and> P x y)"
  shows "runs lv L (map_io f xs) (\<lambda>ys L'. L' = L \<and> list_all2 P xs ys)"
  using assms
proof (induction xs)
  case (Cons x xs)
  have "runs lv L (f x) (\<lambda>y L'. L' = L \<and> P x y)" using Cons.prems by simp
  moreover have "runs lv L' (bind (map_io f xs) (\<lambda>ys. ret (y # ys))) (\<lambda>ys L'. L' = L \<and> list_all2 P (x # xs) ys)"
    if "L' = L \<and> P x y" for y L'
    using that Cons.prems by (auto intro!: runs_bind [OF Cons.IH] runs_ret)
  ultimately show ?case unfolding map_io.simps by (rule runs_bind)
qed (simp add: runs_ret)

lemma runs_drive:
  assumes "\<And>p L. runs lv L (f p) (\<lambda>_ L'. L' = L(p := v))"
  shows "runs lv L (for_each f ps) (\<lambda>_ L'. L' = (\<lambda>q. if q \<in> set ps then v else L q))"
proof (induction ps arbitrary: L)
  case (Cons p ps)
  have "runs lv L' (for_each f ps) (\<lambda>_ L'. L' = (\<lambda>q. if q \<in> set (p # ps) then v else L q))"
    if "L' = L(p := v)" for L'
    using Cons [of L'] by (rule runs_mono) (simp add: that fun_eq_iff)
  then show ?case unfolding for_each.simps by (rule runs_bind [OF assms])
qed (simp add: runs_ret)

section \<open>The shared steps on a board\<close>

lemma runs_out: "latches b lv \<Longrightarrow> runs lv L (drive_pin b p v) (\<lambda>_ L'. L' = L(p := v))"
  unfolding runs_def latches_def by metis

lemma runs_make_output: "latches b lv \<Longrightarrow> runs lv L (make_output b v p) (\<lambda>_ L'. L' = L(p := v))"
  unfolding make_output_def
  by (rule runs_bind [where R = "\<lambda>_ L'. \<exists>v'. L' = L(p := v')"])
    (unfold runs_def latches_def, metis, fastforce)

lemma runs_xfer:
  "scan_board b lv gate css \<Longrightarrow>
   runs lv L (hw_xfer2 (rp_hw b) 0 pkt) (\<lambda>resp L'. L' = L \<and> length resp = length pkt \<and>
     (pkt = [0x03, 0x0E, 0x00] \<longrightarrow> (resp ! 2 = 0x80 \<longleftrightarrow> answers gate css L)))"
  unfolding runs_def scan_board_def by metis

lemma runs_third: "length resp = 3 \<Longrightarrow> R (resp ! 2) L \<Longrightarrow> runs lv L (of_res (py_nth resp 2)) R"
  by (simp add: py_nth_nonneg runs_def of_res_def)

lemma board_latches: "scan_board b lv gate css \<Longrightarrow> latches b lv"
  by (simp add: scan_board_def)

lemma latches_quiet:
  assumes "latches b lv"
  shows "quiet lv (hw_gpio_in (rp_hw b) p)" "quiet lv (hw_time (rp_hw b))" "quiet lv (hw_sleep (rp_hw b) t)"
    "quiet lv (hw_set_mode (rp_hw b) h m)" "quiet lv (rp_spi_open b)" "quiet lv (rp_spi_close b)"
    "quiet lv (rp_cleanup b)"
  using assms by (simp_all add: latches_def)

lemma runs_sweep_reset_and_read:
  assumes "scan_board b lv gate css"
  shows "runs lv L (sweep_reset_and_read b cs)
    (\<lambda>v L'. L' = L(cs := True) \<and> (v = 0x80 \<longleftrightarrow> answers gate css (L(cs := False))))"
  unfolding sweep_reset_and_read_def
proof -
  note o = runs_out [OF board_latches [OF assms]]
  show "runs lv L (bind (drive_pin b cs False) (\<lambda>_. bind (hw_xfer2 (rp_hw b) 0 [0xC0]) (\<lambda>_.
     bind (drive_pin b cs True) (\<lambda>_. bind (hw_sleep (rp_hw b) (15 / 1000)) (\<lambda>_.
     bind (drive_pin b cs False) (\<lambda>_. bind (hw_xfer2 (rp_hw b) 0 [0x03, 0x0E, 0x00]) (\<lambda>resp.
     bind (drive_pin b cs True) (\<lambda>_. of_res (py_nth resp 2)))))))) )
    (\<lambda>v L'. L' = L(cs := True) \<and> (v = 0x80 \<longleftrightarrow> answers gate css (L(cs := False))))"
    apply (rule runs_bind [OF o])
    apply (rule runs_bind [OF runs_xfer [OF assms]])
    apply (rule runs_bind [OF o])
    apply (rule runs_bind [OF runs_quiet [OF latches_quiet(3) [OF board_latches [OF assms]]]])
    apply (rule runs_bind [OF o])
    apply (rule runs_bind [OF runs_xfer [OF assms]])
    apply (rule runs_bind [OF o])
    apply (rule runs_third)
     apply simp_all
    done
qed

definition power_clock :: "'w rpi \<Rightarrow> ('w \<Rightarrow> rat) \<Rightarrow> bool" where
  "power_clock b clk \<longleftrightarrow>
     clock_ok clk (hw_time (rp_hw b)) (hw_gpio_in (rp_hw b) PWR_OK) (hw_sleep (rp_hw b) (1 / 20)) (1 / 20)"

lemma quiet_Inr: "quiet lv m \<Longrightarrow> \<exists>x. fst (m w) = Inr x \<and> lv (snd (m w)) = lv w"
  unfolding quiet_def by (metis fst_conv snd_conv)

lemma runs_power_up:
  assumes l: "latches b lv" and c: "power_clock b clk"
  shows "runs lv L (power_up b 61 settle) (\<lambda>r L'. r \<noteq> None \<and> L' = L(PSU_ON := False))"
proof -
  let ?rest = "\<lambda>t r. case r of None \<Rightarrow> ret None
     | Some _ \<Rightarrow> bind (hw_gpio_in (rp_hw b) PWR_OK) (\<lambda>ok. bind (hw_sleep (rp_hw b) settle) (\<lambda>_. ret (Some ok)))"
  let ?poll = "\<lambda>t. poll 61 (hw_time (rp_hw b)) (t + 3) (hw_gpio_in (rp_hw b) PWR_OK) (hw_sleep (rp_hw b) (1 / 20))"
  note q = latches_quiet [OF l]
  have time: "hw_time (rp_hw b) w = (Inr (clk w), w)" for w
    using c by (simp add: power_clock_def clock_ok_def)
  have "runs lv L' (bind (hw_time (rp_hw b)) ?poll) (\<lambda>r L''. r \<noteq> None \<and> L'' = L')" for L'
    unfolding runs_def
  proof (intro allI impI)
    fix w assume w: "lv w = L'"
    have "fst (poll (Suc 60) (hw_time (rp_hw b)) (clk w + 3) (hw_gpio_in (rp_hw b) PWR_OK)
        (hw_sleep (rp_hw b) (1 / 20)) w) \<noteq> Inr None"
      using poll_returns [OF c [unfolded power_clock_def], of "clk w + 3" w 60] by simp
    moreover obtain x where "fst (?poll (clk w) w) = Inr x" "lv (snd (?poll (clk w) w)) = lv w"
      using quiet_Inr [OF quiet_poll [OF q(2) q(1) q(3)]] by blast
    ultimately show "\<exists>x w'. bind (hw_time (rp_hw b)) ?poll w = (Inr x, w') \<and> x \<noteq> None \<and> lv w' = L'"
      using w time by (cases "?poll (clk w) w") (auto simp: bind_def)
  qed
  then have "runs lv L' (bind (hw_time (rp_hw b)) (\<lambda>t. bind (?poll t) (?rest t))) (\<lambda>r L''. r \<noteq> None \<and> L'' = L')" for L'
    unfolding bind_assoc [symmetric]
    by (rule runs_bind) (auto intro!: runs_bind [OF runs_quiet [OF q(1)]] runs_bind [OF runs_quiet [OF q(3)]] runs_ret)
  then show ?thesis unfolding power_up_def
    by (intro runs_bind [OF runs_out [OF l]]) auto
qed

lemma runs_psu_setup:
  assumes "latches b lv"
  shows "runs lv L (psu_setup b) (\<lambda>_ L'. \<forall>q. q \<noteq> PWR_OK \<longrightarrow> L' q = (L(PSU_ON := True)) q)"
  unfolding psu_setup_def
  by (rule runs_bind [OF runs_make_output [OF assms]])
    (use assms in \<open>unfold runs_def latches_def, fastforce\<close>)

lemma runs_open_spi: "latches b lv \<Longrightarrow> runs lv L (open_spi b) (\<lambda>_ L'. L' = L)"
  unfolding open_spi_def by (intro runs_quiet latch_quiet_bind latches_quiet)

lemma runs_shut_down: "latches b lv \<Longrightarrow> runs lv L (shut_down b) (\<lambda>_ L'. L' = L(PSU_ON := True))"
  unfolding shut_down_def
  by (rule runs_bind [OF runs_out]) (auto intro!: runs_mono [OF runs_quiet] latch_quiet_bind latches_quiet)

section \<open>The scan for the buffer enable\<close>

definition parked :: "(int \<Rightarrow> bool) \<Rightarrow> bool" where
  "parked L \<longleftrightarrow> \<not> L PSU_ON \<and> (\<forall>c\<in>{CS_CAN1, CS_CAN2, CS_CAN3}. L c) \<and> (\<forall>g\<in>set GATE_CANDIDATES. \<not> L g)"

lemma gate_candidates: "GATE_CANDIDATES = [0, 1, 4, 5, 6, 12, 13, 14, 15, 16, 19, 20, 21, 22, 23, 24, 25, 26]"
  by (simp add: GATE_CANDIDATES_def upto.simps PSU_ON_def PWR_OK_def CS_CAN1_def CS_CAN2_def CS_CAN3_def)

lemma candidate_is_free: "g \<in> set GATE_CANDIDATES \<Longrightarrow> g \<noteq> PSU_ON \<and> g \<notin> {CS_CAN1, CS_CAN2, CS_CAN3}"
  by (simp add: GATE_CANDIDATES_def)

lemma pin_numbers [simp]: "CS_CAN1 \<noteq> PSU_ON" "CS_CAN2 \<noteq> PSU_ON" "CS_CAN3 \<noteq> PSU_ON"
    "CS_CAN1 \<noteq> CS_CAN2" "CS_CAN1 \<noteq> CS_CAN3" "CS_CAN2 \<noteq> CS_CAN3" "PSU_ON \<noteq> CS_CAN1" "PSU_ON \<noteq> CS_CAN2" "PSU_ON \<noteq> CS_CAN3"
    "CS_CAN2 \<noteq> CS_CAN1" "CS_CAN3 \<noteq> CS_CAN1" "CS_CAN3 \<noteq> CS_CAN2" "PWR_OK \<noteq> PSU_ON" "PSU_ON \<noteq> PWR_OK"
  by (simp_all add: PSU_ON_def PWR_OK_def CS_CAN1_def CS_CAN2_def CS_CAN3_def)

definition gate_known :: "int option \<Rightarrow> bool" where
  "gate_known gate \<longleftrightarrow> (case gate of None \<Rightarrow> True | Some g \<Rightarrow> g \<in> set GATE_CANDIDATES)"

definition opens :: "int option \<Rightarrow> int \<Rightarrow> bool" where
  "opens gate g \<longleftrightarrow> gate = None \<or> gate = Some g"

text \<open>With the candidates parked low, raising \<open>g\<close> and selecting one controller answers exactly when \<open>g\<close> opens
  the buffer.\<close>

lemma answers_parked:
  assumes "parked L" "gate_known gate" "g \<in> set GATE_CANDIDATES" "c \<in> css" "c \<in> {CS_CAN1, CS_CAN2, CS_CAN3}"
  shows "answers gate css (L(g := True, c := False)) \<longleftrightarrow> opens gate g"
proof -
  have "c \<noteq> g" "PSU_ON \<noteq> g" "PSU_ON \<noteq> c" using assms(3,5) candidate_is_free [of g] by auto
  moreover have "gate \<noteq> Some c" using assms(2,5) candidate_is_free [of c] by (auto simp: gate_known_def)
  ultimately show ?thesis
    using assms(1,2,4) by (auto simp: answers_def opens_def parked_def gate_known_def split: option.splits)
qed

lemma runs_try_gate:
  assumes b: "scan_board b lv gate css" and "parked L" "gate_known gate" "CS_CAN1 \<in> css" "g \<in> set GATE_CANDIDATES"
  shows "runs lv L (try_gate b g) (\<lambda>r L'. L' = L \<and> fst r = g \<and> (snd r = 0x80 \<longleftrightarrow> opens gate g))"
proof -
  note o = runs_out [OF board_latches [OF b]]
  have a: "answers gate css (L(g := True, CS_CAN1 := False)) \<longleftrightarrow> opens gate g"
    using assms by (intro answers_parked) auto
  have rest: "L(g := True, CS_CAN1 := True, g := False) = L"
    using assms(2,5) candidate_is_free [OF assms(5)] by (auto simp: parked_def fun_eq_iff)
  show ?thesis
    unfolding try_gate_def
    by (intro runs_bind [OF o] runs_bind [OF runs_sweep_reset_and_read [OF b]])
      (auto simp: a rest intro!: runs_mono [OF runs_bind [OF o runs_ret]] runs_bind [OF o] runs_ret)
qed

lemma runs_subst: "runs lv L m R \<Longrightarrow> L' = L \<Longrightarrow> runs lv L' m R"
  by simp

lemma first_match_find:
  assumes "list_all2 (\<lambda>g r. fst r = g \<and> (snd r = 0x80 \<longleftrightarrow> P g)) gs readings"
  shows "first_match readings = find P gs"
proof -
  have settled: "foldl (\<lambda>found (g, canstat). if canstat = 0x80 \<and> found = None then Some g else found) (Some g) rs
      = Some g" for g and rs :: "(int \<times> int) list"
    by (induction rs) auto
  show ?thesis using assms unfolding first_match_def
    by (induction rule: list_all2_induct) (auto simp: settled)
qed

lemma runs_confirm:
  assumes b: "scan_board b lv gate css" and "parked L" "gate_known gate" "g \<in> set GATE_CANDIDATES" "opens gate g"
    and css: "css = {CS_CAN1, CS_CAN2, CS_CAN3}"
  shows "runs lv L (confirm_gate b g)
    (\<lambda>vs L'. L' = L \<and> vs = [(CS_CAN1, 0x80), (CS_CAN2, 0x80), (CS_CAN3, 0x80)])"
proof -
  note o = runs_out [OF board_latches [OF b]]
  have g: "g \<noteq> c" if "c \<in> css" for c using that css candidate_is_free [OF assms(4)] by auto
  have "runs lv (L(g := True)) (bind (sweep_reset_and_read b cs) (\<lambda>v. ret (cs, v)))
      (\<lambda>r L'. L' = L(g := True) \<and> r = (cs, 0x80))" if cs: "cs \<in> css" for cs
  proof -
    have a: "answers gate css (L(g := True, cs := False))"
      using answers_parked [OF assms(2,3,4) cs] assms(5) cs css by simp
    have "L(g := True, cs := True) = L(g := True)"
      using assms(2) cs css g [OF cs] by (auto simp: parked_def fun_eq_iff)
    with a show ?thesis
      by (intro runs_bind [OF runs_sweep_reset_and_read [OF b]] runs_ret) auto
  qed
  then have *: "runs lv (L(g := True)) (map_io (\<lambda>cs. bind (sweep_reset_and_read b cs) (\<lambda>v. ret (cs, v))) [CS_CAN1, CS_CAN2, CS_CAN3])
      (\<lambda>ys L'. L' = L(g := True) \<and> list_all2 (\<lambda>cs r. r = (cs, 0x80)) [CS_CAN1, CS_CAN2, CS_CAN3] ys)"
    using css by (intro runs_map_io) simp
  have "(L(g := True))(g := False) = L" using assms(2,4) by (auto simp: parked_def fun_eq_iff)
  then have last: "runs lv (L(g := True)) (bind (drive_pin b g False) (\<lambda>_. ret vs)) (\<lambda>vs' L'. L' = L \<and> vs' = vs)" for vs
    by (intro runs_bind [OF o] runs_ret) simp
  show ?thesis unfolding confirm_gate_def
    by (rule runs_bind [OF o], simp only:, rule runs_bind [OF *], rule runs_mono [OF runs_subst [OF last]])
      (auto simp: list_all2_Cons1)
qed

text \<open>on a board whose buffer is enabled by one of the scanned pins the script reports that pin and confirms
  it with three answers; on a board whose buffer is always enabled it reports the first pin it tried, GPIO 0,
  although it prints a buffer that is always enabled as a cause of finding nothing. Either way it ends with the
  supply off.\<close>

theorem gate_scan_verdict:
  assumes b: "scan_board b lv gate css" and c: "power_clock b clk" and "gate_known gate"
    and css: "css = {CS_CAN1, CS_CAN2, CS_CAN3}"
  shows "\<exists>r w'. scan_gate_oe b 61 w = (Inr (Some r), w') \<and>
    ga_gate r = Some (case gate of None \<Rightarrow> 0 | Some g \<Rightarrow> g) \<and>
    ga_confirmed r = [(CS_CAN1, 0x80), (CS_CAN2, 0x80), (CS_CAN3, 0x80)] \<and> lv w' PSU_ON"
proof -
  note l = board_latches [OF b]
  let ?g = "case gate of None \<Rightarrow> 0 | Some g \<Rightarrow> g"
  have g: "?g \<in> set GATE_CANDIDATES" "opens gate ?g"
    using assms(3) by (auto simp: gate_known_def opens_def gate_candidates split: option.split)
  have "find (opens gate) GATE_CANDIDATES = Some ?g"
    using assms(3) by (auto simp: gate_known_def opens_def gate_candidates split: option.split)
  then have found: "first_match rs = Some ?g"
    if "list_all2 (\<lambda>g r. fst r = g \<and> (snd r = 0x80 \<longleftrightarrow> opens gate g)) GATE_CANDIDATES rs" for rs
    using first_match_find [OF that] by simp
  have "runs lv (lv w) (scan_gate_oe b 61) (\<lambda>r L'. \<exists>g. r = Some g \<and> ga_gate g = Some ?g \<and>
      ga_confirmed g = [(CS_CAN1, 0x80), (CS_CAN2, 0x80), (CS_CAN3, 0x80)] \<and> L' PSU_ON)"
    unfolding scan_gate_oe_def
    apply (rule runs_bind [OF runs_psu_setup [OF l]])
    apply (rule runs_bind [OF runs_drive [OF runs_make_output [OF l]]])
    apply (rule runs_bind [OF runs_drive [OF runs_make_output [OF l]]])
    apply (rule runs_bind [OF runs_open_spi [OF l]])
    apply (rule runs_bind [OF runs_power_up [OF l c]])
    subgoal premises p for _ _ _ _ _ _ _ _ r L
    proof -
      have L: "parked L" using p candidate_is_free by (auto simp: parked_def)
      obtain ok where r: "r = Some ok" using p by auto
      show ?thesis
        unfolding r option.case
        apply (rule runs_bind [OF runs_map_io [OF runs_try_gate [OF b L assms(3)]]])
          apply (simp add: css)
         apply assumption
        subgoal for rs L'
          by (auto simp: found intro!: runs_bind [OF runs_confirm [OF b L assms(3) g css]] runs_bind [OF runs_shut_down [OF l]] runs_ret)
        done
    qed
    done
  then show ?thesis unfolding runs_def by blast
qed

text \<open>A board of this kind, for the witnesses: latches and a clock.\<close>

definition demo_board :: "int option \<Rightarrow> int set \<Rightarrow> ((int \<Rightarrow> bool) \<times> rat) rpi" where
  "demo_board gate css =
     \<lparr>rp_hw = null_hw
        \<lparr>hw_xfer2 := (\<lambda>h pkt w. (Inr (if pkt = [0x03, 0x0E, 0x00] \<and> answers gate css (fst w) then [0, 0, 0x80]
                                 else replicate (length pkt) 0), w)),
         hw_gpio_out := (\<lambda>p v w. (Inr (), (fst w)(p := v), snd w)),
         hw_time := (\<lambda>w. (Inr (snd w), w)),
         hw_sleep := (\<lambda>t w. (Inr (), fst w, snd w + t))\<rparr>,
      rp_spi_open = ret (), rp_spi_close = ret (), rp_i2c_open = ret (), rp_i2c_close = ret (), rp_cleanup = ret ()\<rparr>"

lemma demo_latches: "latches (demo_board gate css) fst"
proof -
  have "\<exists>v. L = L(p := v)" for L :: "int \<Rightarrow> bool" and p by (metis fun_upd_triv)
  then show ?thesis by (auto simp: latches_def demo_board_def drive_pin_def quiet_def null_hw_def ret_def)
qed

lemma demo_is_board: "scan_board (demo_board gate css) fst gate css"
  using demo_latches [of gate css] by (auto simp: scan_board_def demo_board_def)

lemma demo_clock: "power_clock (demo_board gate css) snd"
  by (simp add: power_clock_def clock_ok_def demo_board_def null_hw_def ret_def)

theorem gate_scan_verdict_witness:
  "\<exists>r w'. scan_gate_oe (demo_board (Some 16) {CS_CAN1, CS_CAN2, CS_CAN3}) 61 (\<lambda>_. False, 0) = (Inr (Some r), w') \<and>
    ga_gate r = Some 16 \<and> ga_confirmed r = [(CS_CAN1, 0x80), (CS_CAN2, 0x80), (CS_CAN3, 0x80)] \<and> fst w' PSU_ON"
  using gate_scan_verdict [OF demo_is_board demo_clock _ refl, of "Some 16" "(\<lambda>_. False, 0)"]
  by (simp add: gate_known_def gate_candidates)

section \<open>The sweep over pairs\<close>

lemma hd_fromkeys: "xs \<noteq> [] \<Longrightarrow> hd (fromkeys xs) = hd xs"
proof -
  have "remdups (ys @ [y]) \<noteq> [] \<and> last (remdups (ys @ [y])) = y" for y and ys :: "'a list"
    by (induction ys) auto
  from this [of "rev (tl xs)" "hd xs"] show "hd (fromkeys xs) = hd xs" if "xs \<noteq> []"
    using that by (cases xs) (simp_all add: fromkeys_def hd_rev)
qed

text \<open>Every pin high but the supply: the sweep's state when it starts.\<close>

definition raised :: "(int \<Rightarrow> bool) \<Rightarrow> bool" where
  "raised L \<longleftrightarrow> \<not> L PSU_ON \<and> (\<forall>g\<in>set ALL_GPIO. L g)"

lemma all_gpio: "ALL_GPIO = [0, 1, 2, 3, 4, 5, 6, 12, 13, 14, 15, 16, 17, 18, 19, 20, 21, 22, 23, 24, 25, 26, 27]"
  by (simp add: ALL_GPIO_def upto.simps PSU_ON_def PWR_OK_def)

lemma runs_try_pair:
  assumes b: "scan_board b lv gate css" and L: "raised L" and "set_option gate \<subseteq> set ALL_GPIO" "css \<subseteq> set ALL_GPIO"
    and "set_option gate \<inter> css = {}" "cs \<in> set ALL_GPIO"
  shows "runs lv L (try_pair b g cs) (\<lambda>r L'. L' = L \<and> r = (if cs \<noteq> g \<and> cs \<in> css then [(g, cs)] else []))"
proof (cases "cs = g")
  case False
  have "L(cs := True) = L" using L assms(6) by (auto simp: raised_def fun_eq_iff)
  moreover have "PSU_ON \<noteq> cs" using assms(6) by (simp add: ALL_GPIO_def)
  then have "answers gate css (L(cs := False)) \<longleftrightarrow> cs \<in> css"
    using assms(3-6) L by (auto simp: answers_def raised_def split: option.splits)
  ultimately show ?thesis
    using False unfolding try_pair_def
    by (simp only: if_False, intro runs_bind [OF runs_sweep_reset_and_read [OF b]] runs_ret) auto
qed (simp add: try_pair_def runs_ret)

text \<open>Whatever the latches are, a pair raises nothing.\<close>

lemma runs_any_pair: "scan_board b lv gate css \<Longrightarrow> runs lv L (try_pair b g cs) (\<lambda>_ _. True)"
  unfolding try_pair_def by (auto intro!: runs_bind [OF runs_sweep_reset_and_read] runs_ret)

lemma runs_any_map: "(\<And>x L. runs lv L (f x) (\<lambda>_ _. True)) \<Longrightarrow> runs lv L (map_io f xs) (\<lambda>_ _. True)"
  by (induction xs arbitrary: L) (auto intro!: runs_bind runs_ret)

lemma runs_any_sweep: "scan_board b lv gate css \<Longrightarrow> runs lv L (sweep_gate b g) (\<lambda>_ _. True)"
  unfolding sweep_gate_def
  by (intro runs_bind [OF runs_out] runs_bind [OF runs_any_map] runs_any_pair runs_ret board_latches) auto

lemma runs_first_sweep:
  assumes b: "scan_board b lv gate css" and L: "raised L" and "set_option gate \<subseteq> set ALL_GPIO" "css \<subseteq> set ALL_GPIO"
    and "set_option gate \<inter> css = {}" "g \<in> set ALL_GPIO"
  shows "runs lv L (sweep_gate b g) (\<lambda>row _. row = map (Pair g) (filter (\<lambda>cs. cs \<noteq> g \<and> cs \<in> css) ALL_GPIO))"
proof -
  note o = runs_out [OF board_latches [OF b]]
  let ?P = "\<lambda>cs r. r = (if cs \<noteq> g \<and> cs \<in> css then [(g, cs)] else [])"
  have row: "concat rs = map (Pair g) (filter (\<lambda>cs. cs \<noteq> g \<and> cs \<in> css) xs)" if "list_all2 ?P xs rs" for xs rs
    using that by (induction rule: list_all2_induct) auto
  have "L(g := True) = L" using L assms(6) by (auto simp: raised_def fun_eq_iff)
  then show ?thesis
    unfolding sweep_gate_def
    by (intro runs_bind [OF o]) (auto simp: row intro!: runs_bind [OF runs_map_io [OF runs_try_pair [OF b L assms(3-5)]]]
      runs_bind [OF o] runs_ret)
qed

text \<open>the sweep leaves every pin it has not come to yet high, so the buffer is already enabled while the first
  gate, GPIO 0, is tried: with the controllers selected by three other pins or more the script reports GPIO 0 as
  the gate, whichever pin it really is, and the chip selects correctly.\<close>

theorem pair_sweep_blames_first:
  assumes b: "scan_board b lv gate css" and c: "power_clock b clk"
    and "set_option gate \<subseteq> set ALL_GPIO" "css \<subseteq> set ALL_GPIO - {0}" "set_option gate \<inter> css = {}" "3 \<le> card css"
  shows "\<exists>r w'. scan_spi_cs b 61 w = (Inr (Some r), w') \<and> pa_gate r = Some 0 \<and>
    pa_cs r = take 3 (filter (\<lambda>g. g \<in> css) ALL_GPIO) \<and> lv w' PSU_ON"
proof -
  note l = board_latches [OF b]
  let ?cs = "filter (\<lambda>g. g \<in> css) ALL_GPIO"
  have same: "filter (\<lambda>cs. cs \<noteq> 0 \<and> cs \<in> css) ALL_GPIO = ?cs" using assms(4) by (intro filter_cong) auto
  have "set ?cs = css" using assms(4) by auto
  then have three: "3 \<le> length ?cs" using assms(6) card_length [of ?cs] by simp
  then have verdict: "pa_gate (pair_verdict ok (map (Pair 0) ?cs @ rest)) = Some 0"
      "pa_cs (pair_verdict ok (map (Pair 0) ?cs @ rest)) = take 3 ?cs" for ok and rest :: "(int \<times> int) list"
    by (cases ?cs; simp add: pair_verdict_def hd_fromkeys comp_def)+
  have sweeps: "runs lv L (map_io (sweep_gate b) ALL_GPIO) (\<lambda>rows _. \<exists>rest. rows = map (Pair 0) ?cs # rest)"
    if L: "raised L" for L
  proof -
    have split: "ALL_GPIO = 0 # tl ALL_GPIO" by (simp add: all_gpio)
    show ?thesis
      apply (subst split, unfold map_io.simps)
      apply (rule runs_bind [OF runs_first_sweep [OF b L assms(3) _ assms(5)]])
      using assms(4) apply blast
       apply (simp add: all_gpio)
      apply (rule runs_bind [OF runs_any_map [OF runs_any_sweep [OF b]]])
      apply (simp add: same runs_ret)
      done
  qed
  have "runs lv (lv w) (scan_spi_cs b 61) (\<lambda>r L'. \<exists>p. r = Some p \<and> pa_gate p = Some 0 \<and> pa_cs p = take 3 ?cs \<and> L' PSU_ON)"
    unfolding scan_spi_cs_def
    apply (rule runs_bind [OF runs_psu_setup [OF l]])
    apply (rule runs_bind [OF runs_drive [OF runs_make_output [OF l]]])
    apply (rule runs_bind [OF runs_open_spi [OF l]])
    apply (rule runs_bind [OF runs_power_up [OF l c]])
    subgoal premises p for _ _ _ _ _ _ r L
    proof -
      have L: "raised L" using p by (auto simp: raised_def ALL_GPIO_def)
      obtain ok where r: "r = Some ok" using p by auto
      show ?thesis
        unfolding r option.case
        by (rule runs_bind [OF sweeps [OF L]])
          (auto simp: verdict intro!: runs_bind [OF runs_shut_down [OF l]] runs_ret)
    qed
    done
  then show ?thesis unfolding runs_def by blast
qed

theorem pair_sweep_blames_first_witness:
  "\<exists>r w'. scan_spi_cs (demo_board (Some 16) {17, 18, 27}) 61 (\<lambda>_. False, 0) = (Inr (Some r), w') \<and> pa_gate r = Some 0 \<and>
    pa_cs r = [17, 18, 27] \<and> fst w' PSU_ON"
  using pair_sweep_blames_first [OF demo_is_board demo_clock, of "Some 16" "{17, 18, 27}" "(\<lambda>_. False, 0)"]
  by (simp add: all_gpio)

section \<open>The debug tests\<close>

lemma runs_debug_xfer:
  "scan_board b lv gate css \<Longrightarrow> runs lv L (debug_xfer b cs pkt) (\<lambda>resp L'. L' = L(cs := True) \<and>
     length resp = length pkt \<and> (pkt = [0x03, 0x0E, 0x00] \<longrightarrow> (resp ! 2 = 0x80 \<longleftrightarrow> answers gate css (L(cs := False)))))"
  unfolding debug_xfer_def
  by (intro runs_bind [OF runs_out] runs_bind [OF runs_xfer] runs_ret) (auto dest: board_latches)

lemma runs_debug_read:
  assumes "scan_board b lv gate css"
  shows "runs lv L (debug_read_reg b cs reg)
    (\<lambda>v L'. L' = L(cs := True) \<and> (reg = 0x0E \<longrightarrow> (v = 0x80 \<longleftrightarrow> answers gate css (L(cs := False)))))"
  unfolding debug_read_reg_def
  by (rule runs_bind [OF runs_debug_xfer [OF assms]]) (auto intro: runs_third)

lemma runs_debug_reset: "scan_board b lv gate css \<Longrightarrow> runs lv L (debug_reset b cs) (\<lambda>_ L'. L' = L(cs := True))"
  unfolding debug_reset_def
  by (rule runs_bind [OF runs_debug_xfer])
    (auto intro!: runs_mono [OF runs_quiet] latches_quiet dest: board_latches)

lemma runs_debug_write: "scan_board b lv gate css \<Longrightarrow> runs lv L (debug_write_reg b cs reg v) (\<lambda>_ L'. L' = L(cs := True))"
  unfolding debug_write_reg_def by (rule runs_bind [OF runs_debug_xfer]) (auto intro: runs_ret)

text \<open>With the chip selects high, reading the status of one restores the latches.\<close>

definition selects_high :: "(int \<Rightarrow> bool) \<Rightarrow> bool" where
  "selects_high L \<longleftrightarrow> (\<forall>c\<in>{CS_CAN1, CS_CAN2, CS_CAN3}. L c)"

lemma selects_high_upd [simp]:
  "selects_high L \<Longrightarrow> c \<in> {CS_CAN1, CS_CAN2, CS_CAN3} \<Longrightarrow> L(c := True) = L"
  by (auto simp: selects_high_def fun_eq_iff)

lemma selects_high_cs1 [simp]: "selects_high L \<Longrightarrow> L(CS_CAN1 := True) = L"
  by (simp add: selects_high_upd)

lemma runs_debug_status:
  assumes b: "scan_board b lv gate css" and "selects_high L" "cs \<in> {CS_CAN1, CS_CAN2, CS_CAN3}"
  shows "runs lv L (debug_status b cs)
    (\<lambda>r L'. L' = L \<and> fst r = cs \<and> (fst (snd r) = 0x80 \<longleftrightarrow> answers gate css (L(cs := False))))"
  unfolding debug_status_def
  using selects_high_upd [OF assms(2,3)]
  by (intro runs_bind [OF runs_debug_reset [OF b]] runs_bind [OF runs_debug_read [OF b]] runs_ret) auto

text \<open>Pins driven to \<open>H\<close> and back around a test that restores \<open>H\<close>.\<close>

lemma runs_bracket:
  assumes "runs lv L up (\<lambda>_ L'. L' = H)" "runs lv H m (\<lambda>x L'. L' = H \<and> P x)" "runs lv H down (\<lambda>_ L'. L' = L)"
  shows "runs lv L (bind up (\<lambda>_. bind m (\<lambda>x. bind down (\<lambda>_. ret x)))) (\<lambda>x L'. L' = L \<and> P x)"
  by (rule runs_bind [OF assms(1)], simp only:, rule runs_bind [OF assms(2)], elim conjE, simp only:,
      rule runs_bind [OF assms(3)]) (simp add: runs_ret)

lemma other_gpios: "OTHER_GPIOS = GATE_CANDIDATES"
  by (simp add: OTHER_GPIOS_def GATE_CANDIDATES_def)

text \<open>A test that ends on the latches it started from, whatever it reads.\<close>

lemma runs_debug_test1:
  assumes b: "scan_board b lv gate css" and L: "parked L" and "gate_known gate" "css = {CS_CAN1, CS_CAN2, CS_CAN3}"
  shows "runs lv L (debug_test1 b)
    (\<lambda>t L'. L' = L \<and> map fst t = [CS_CAN1, CS_CAN2, CS_CAN3] \<and> (\<forall>r\<in>set t. fst (snd r) = 0x80 \<longleftrightarrow> opens gate 16))"
proof -
  note o = runs_out [OF board_latches [OF b]]
  have g: "16 \<in> set GATE_CANDIDATES" by (simp add: gate_candidates)
  have h: "selects_high (L(16 := True))" using L by (auto simp: selects_high_def parked_def)
  have s: "runs lv (L(16 := True)) (debug_status b cs)
      (\<lambda>r L'. L' = L(16 := True) \<and> fst r = cs \<and> (fst (snd r) = 0x80 \<longleftrightarrow> opens gate 16))"
    if "cs \<in> set [CS_CAN1, CS_CAN2, CS_CAN3]" for cs
    using runs_debug_status [OF b h, of cs] answers_parked [OF L assms(3) g, of cs css] that assms(4) by simp
  have "(L(16 := True))(16 := False) = L" using L g by (auto simp: parked_def fun_eq_iff)
  then have down: "runs lv (L(16 := True)) (drive_pin b 16 False) (\<lambda>_ L'. L' = L)"
    using o [of "L(16 := True)" 16 False] by simp
  show ?thesis
    unfolding debug_test1_def
    by (rule runs_mono [OF runs_bracket [OF o runs_map_io [OF s] down]]) (auto simp: list_all2_Cons1)
qed

lemma runs_debug_test2:
  assumes b: "scan_board b lv gate css" and L: "parked L"
  shows "runs lv L (debug_test2 b) (\<lambda>_ L'. L' = L)"
proof -
  let ?H = "\<lambda>q. if q \<in> set OTHER_GPIOS then True else L q"
  note d = runs_drive [OF runs_out [OF board_latches [OF b]]]
  have h: "selects_high ?H" using L by (auto simp: selects_high_def parked_def)
  have "runs lv ?H (debug_status b cs) (\<lambda>r L'. L' = ?H \<and> True)" if "cs \<in> set [CS_CAN1, CS_CAN2, CS_CAN3]" for cs
    using runs_mono [OF runs_debug_status [OF b h, of cs]] that by force
  note s = runs_map_io [OF this]
  have "(\<lambda>q. if q \<in> set OTHER_GPIOS then False else ?H q) = L"
    using L by (auto simp: parked_def other_gpios fun_eq_iff)
  then have down: "runs lv ?H (for_each (\<lambda>g. drive_pin b g False) OTHER_GPIOS) (\<lambda>_ L'. L' = L)"
    using d [of ?H False OTHER_GPIOS] by simp
  show ?thesis
    unfolding debug_test2_def by (rule runs_mono [OF runs_bracket [OF d s down]]) simp_all
qed

lemma runs_debug_test3:
  assumes b: "scan_board b lv gate css" and L: "parked L"
  shows "runs lv L (debug_test3 b) (\<lambda>_ L'. L' = L)"
proof -
  note o = runs_out [OF board_latches [OF b]]
  have "L(16 := True, CS_CAN1 := True, 16 := False) = L"
    using L by (auto simp: parked_def gate_candidates CS_CAN1_def fun_eq_iff)
  then show ?thesis
    unfolding debug_test3_def
    by (intro runs_bind [OF o] runs_bind [OF runs_debug_reset [OF b]] runs_bind [OF runs_debug_read [OF b]]
        runs_bind [OF runs_debug_write [OF b]] runs_bind [OF runs_quiet [OF latches_quiet(3) [OF board_latches [OF b]]]]
        runs_ret) auto
qed

lemma runs_debug_test4:
  assumes b: "scan_board b lv gate css" and L: "parked L"
  shows "runs lv L (debug_test4 b) (\<lambda>_ L'. L' = L)"
proof -
  note o = runs_out [OF board_latches [OF b]]
  let ?f = "\<lambda>trial. bind (debug_xfer b CS_CAN1 [0x03, 0x0E, 0x00]) (\<lambda>r. bind (hw_sleep (rp_hw b) (2 / 1000)) (\<lambda>_. ret r))"
  have H: "(L(16 := True))(CS_CAN1 := True) = L(16 := True)" "(L(16 := True))(16 := False) = L"
    using L by (auto simp: parked_def gate_candidates CS_CAN1_def fun_eq_iff)
  have "runs lv (L(16 := True)) (?f trial) (\<lambda>r L'. L' = L(16 := True) \<and> True)" for trial :: int
    using H by (intro runs_bind [OF runs_debug_xfer [OF b]]
        runs_bind [OF runs_quiet [OF latches_quiet(3) [OF board_latches [OF b]]]] runs_ret) auto
  note s = runs_map_io [OF this]
  have down: "runs lv (L(16 := True)) (drive_pin b 16 False) (\<lambda>_ L'. L' = L)"
    using o [of "L(16 := True)" 16 False] H(2) by simp
  show ?thesis
    unfolding debug_test4_def by (rule runs_mono [OF runs_bracket [OF o s down]]) simp_all
qed

text \<open>Test 5 starts with every pin high: only pulling the enabling pin low loses the answer.\<close>

lemma runs_debug_test5:
  assumes b: "scan_board b lv gate css" and L: "parked L" and "gate_known gate" "css = {CS_CAN1, CS_CAN2, CS_CAN3}"
  shows "runs lv L (debug_test5 b)
    (\<lambda>r _. fst r = 0x80 \<and> buffer_lost (snd r) = (case gate of None \<Rightarrow> [] | Some g \<Rightarrow> [g]))"
proof -
  let ?H = "\<lambda>q. if q \<in> set OTHER_GPIOS then True else L q"
  note d = runs_drive [OF runs_out [OF board_latches [OF b]]]
  note o = runs_out [OF board_latches [OF b]]
  have h: "selects_high ?H" using L by (auto simp: selects_high_def parked_def)
  have base: "answers gate css (?H(CS_CAN1 := False))"
    using L assms(3,4) by (auto simp: answers_def parked_def gate_known_def other_gpios dest: candidate_is_free split: option.split)
  have one: "runs lv ?H (debug_without b g) (\<lambda>r L'. L' = ?H \<and> fst r = g \<and> (snd r = 0x80 \<longleftrightarrow> gate \<noteq> Some g))"
    if g: "g \<in> set OTHER_GPIOS" for g
  proof -
    have free: "g \<noteq> CS_CAN1" "g \<noteq> PSU_ON" using g candidate_is_free [of g] by (auto simp: other_gpios)
    then have r1: "?H(g := False, CS_CAN1 := True) = ?H(g := False)" "?H(g := False, g := True) = ?H"
      using h g by (auto simp: selects_high_def fun_eq_iff)
    have "answers gate css (?H(g := False, CS_CAN1 := False)) \<longleftrightarrow> gate \<noteq> Some g"
      using L assms(3,4) free
      by (auto simp: answers_def parked_def gate_known_def other_gpios dest: candidate_is_free split: option.splits)
    then show ?thesis unfolding debug_without_def using r1
      by (intro runs_bind [OF o] runs_bind [OF runs_debug_reset [OF b]] runs_bind [OF runs_debug_read [OF b]] runs_ret) auto
  qed
  have lost: "buffer_lost rs = filter (\<lambda>g. gate = Some g) xs"
    if "list_all2 (\<lambda>g r. fst r = g \<and> (snd r = 0x80 \<longleftrightarrow> gate \<noteq> Some g)) xs rs" for xs and rs :: "(int \<times> int) list"
    using that unfolding buffer_lost_def by (induction rule: list_all2_induct) auto
  have only: "filter (\<lambda>g. gate = Some g) OTHER_GPIOS = (case gate of None \<Rightarrow> [] | Some g \<Rightarrow> [g])"
    using assms(3) by (auto simp: gate_known_def other_gpios gate_candidates split: option.split)
  show ?thesis
    unfolding debug_test5_def
    apply (rule runs_bind [OF d], simp only:)
    apply (rule runs_bind [OF runs_debug_reset [OF b]], simp only: selects_high_cs1 [OF h])
    apply (rule runs_bind [OF runs_debug_read [OF b]], elim conjE, simp only: selects_high_cs1 [OF h])
    apply (rule runs_bind [OF runs_map_io [OF one]], assumption)
    using base apply (auto simp: lost only intro!: runs_ret)
    done
qed

text \<open>on a board whose buffer is enabled by one of the pins the debug tool tries, its last test names that pin and
  no other, and its first test, which assumes GPIO 16, finds the controllers in configuration mode exactly when
  GPIO 16 is that pin (or the buffer is always enabled).\<close>

theorem debug_scan_verdict:
  assumes b: "scan_board b lv gate css" and c: "power_clock b clk" and "gate_known gate"
    and css: "css = {CS_CAN1, CS_CAN2, CS_CAN3}"
  shows "\<exists>r w'. scan_debug_spi b 61 w = (Inr (Some r), w') \<and>
    de_lost r = (case gate of None \<Rightarrow> [] | Some g \<Rightarrow> [g]) \<and> de_baseline r = 0x80 \<and>
    ((\<exists>t\<in>set (de_test1 r). fst (snd t) = 0x80) \<longleftrightarrow> gate = None \<or> gate = Some 16) \<and> lv w' PSU_ON"
proof -
  note l = board_latches [OF b]
  have some: "(\<exists>r\<in>set t. fst (snd r) = 0x80) \<longleftrightarrow> opens gate 16"
    if "map fst t = [CS_CAN1, CS_CAN2, CS_CAN3]" "\<forall>r\<in>set t. fst (snd r) = 0x80 \<longleftrightarrow> opens gate 16"
    for t :: "(int \<times> int \<times> int) list"
    using that by (cases t) auto
  have "runs lv (lv w) (scan_debug_spi b 61) (\<lambda>r L'. \<exists>d. r = Some d \<and>
      de_lost d = (case gate of None \<Rightarrow> [] | Some g \<Rightarrow> [g]) \<and> de_baseline d = 0x80 \<and>
      ((\<exists>t\<in>set (de_test1 d). fst (snd t) = 0x80) \<longleftrightarrow> opens gate 16) \<and> L' PSU_ON)"
    unfolding scan_debug_spi_def
    apply (rule runs_bind [OF runs_psu_setup [OF l]])
    apply (rule runs_bind [OF runs_drive [OF runs_make_output [OF l]]])
    apply (rule runs_bind [OF runs_drive [OF runs_make_output [OF l]]])
    apply (rule runs_bind [OF runs_open_spi [OF l]])
    apply (rule runs_bind [OF runs_power_up [OF l c]])
    subgoal premises p for _ _ _ _ _ _ _ _ r L
    proof -
      have L: "parked L" using p candidate_is_free by (auto simp: parked_def other_gpios)
      obtain ok where r: "r = Some ok" using p by auto
      show ?thesis
        unfolding r option.case
        apply (rule runs_bind [OF runs_debug_test1 [OF b L assms(3) css]], elim conjE, simp only:)
        apply (rule runs_bind [OF runs_debug_test2 [OF b L]], simp only:)
        apply (rule runs_bind [OF runs_debug_test3 [OF b L]], simp only:)
        apply (rule runs_bind [OF runs_debug_test4 [OF b L]], simp only:)
        apply (rule runs_bind [OF runs_debug_test5 [OF b L assms(3) css]])
        apply (auto simp: some intro!: runs_bind [OF runs_shut_down [OF l]] runs_ret)
        done
    qed
    done
  then show ?thesis unfolding runs_def opens_def by blast
qed

theorem debug_scan_verdict_witness:
  "\<exists>r w'. scan_debug_spi (demo_board (Some 13) {CS_CAN1, CS_CAN2, CS_CAN3}) 61 (\<lambda>_. False, 0) = (Inr (Some r), w') \<and>
    de_lost r = [13] \<and> de_baseline r = 0x80 \<and> \<not> (\<exists>t\<in>set (de_test1 r). fst (snd t) = 0x80) \<and> fst w' PSU_ON"
  using debug_scan_verdict [OF demo_is_board demo_clock _ refl, of "Some 13" "(\<lambda>_. False, 0)"]
  by (simp add: gate_known_def gate_candidates)

end
