(* ===== verification/Pico_Probes.thy ===== *)
theory Pico_Probes
  imports Pico_Client Ams_Can_Map Flash_Dut
begin

text \<open>
  The bench checks of the emulator's transmit path: \<^verbatim>\<open>tools/measure_116.py\<close>, \<^verbatim>\<open>tools/verify_116.py\<close>,
  \<^verbatim>\<open>tools/bootcheck_116.py\<close> and \<^verbatim>\<open>tools/pec_under_load.py\<close>. They inject values through the client of
  \<open>Pico_Client\<close>, let \<^verbatim>\<open>candump\<close> print the bus for some seconds and read its text. What they reach is the record
  \<open>probe_env\<close>; what they print is a record that they return. \<open>candump_text\<close> is that text for a list of frames,
  and the properties tie what the scripts read in it to the frames and to the decoders of the frame map.
\<close>

record 'w probe_env =
  pb_port :: "string res"
  pb_serial :: "'w serial"
  pb_candump :: "string \<Rightarrow> rat \<Rightarrow> ('w, string) io"
  pb_cansend :: "string list \<Rightarrow> ('w, unit) io"
  pb_connect :: "('w, unit) io"
  pb_call :: "string \<Rightarrow> (string \<times> json) list \<Rightarrow> ('w, json) io"
  pb_close :: "('w, unit) io"
  pb_sleep :: "rat \<Rightarrow> ('w, unit) io"

text \<open>\<open>with PicoLtcClient() as p: body\<close>.\<close>

definition with_pico :: "'w probe_env \<Rightarrow> ('w pico, 'a) io \<Rightarrow> ('w pico, 'a) io" where
  "with_pico env body =
     bind (of_res (pb_port env)) (\<lambda>_. bind (pico_open (pb_serial env)) (\<lambda>_.
       try_finally body (pico_close (pb_serial env))))"

definition probe_sleep :: "'w probe_env \<Rightarrow> rat \<Rightarrow> ('w pico, unit) io" where
  "probe_sleep env t = on_line (pb_sleep env t)"

section \<open>Reading candump\<close>

text \<open>\<open>int(x, 16)\<close>, without underscores.\<close>

fun hex_number :: "string \<Rightarrow> int option" where
  "hex_number (z # x # cs) =
     (if z = CHR ''0'' \<and> (x = CHR ''x'' \<or> x = CHR ''X'') then int_value 16 cs else int_value 16 (z # x # cs))"
| "hex_number s = int_value 16 s"

definition py_int16 :: "string \<Rightarrow> int res" where
  "py_int16 s = (case signed_text hex_number (py_strip s) of Some v \<Rightarrow> Inr v
     | None \<Rightarrow> Inl (Exn ValueError ''invalid literal for int() with base 16''))"

definition text_u16 :: "string list \<Rightarrow> int \<Rightarrow> int res" where
  "text_u16 b i =
     rbind (py_nth b i) (\<lambda>x. rbind (py_int16 x) (\<lambda>hi.
     rbind (py_nth b (i + 1)) (\<lambda>y. rbind (py_int16 y) (\<lambda>lo. Inr (push_bit 8 hi OR lo)))))"

text \<open>The lines with at least four words, as identifier and data words; the last one of an identifier.\<close>

definition text_frames :: "string \<Rightarrow> (string \<times> string list) list" where
  "text_frames out = [(f ! 1, drop 3 f). f \<leftarrow> map split_words (split_lines out), 4 \<le> length f]"

definition last_frame :: "string \<Rightarrow> string \<Rightarrow> string list option" where
  "last_frame out fid = map_of (rev (text_frames out)) fid"

section \<open>measure_116\<close>

definition CELL_MV :: int where "CELL_MV = 3750"

definition STEPS :: "int list" where "STEPS = [250, 500, 100, 250]"

definition measure_sample :: "string \<Rightarrow> (int option list \<times> int option) res" where
  "measure_sample out =
     rbind (case last_frame out ''131'' of
              Some c131 \<Rightarrow>
                if 6 \<le> length c131 then rbind (rmap (text_u16 c131) [0, 2, 4]) (\<lambda>vs. Inr (map Some vs))
                else Inr [None, None, None]
            | None \<Rightarrow> Inr [None, None, None]) (\<lambda>cells.
     rbind (case last_frame out ''12C'' of
              Some c12c \<Rightarrow> if 2 \<le> length c12c then rbind (text_u16 c12c 0) (\<lambda>v. Inr (Some v)) else Inr None
            | None \<Rightarrow> Inr None) (\<lambda>mn. Inr (cells, mn)))"

record measure_row =
  mr_dC :: int
  mr_cells :: "int option list"
  mr_min :: "int option"
  mr_ok :: bool

record measure_report =
  me_ping :: string
  me_rows :: "measure_row list"
  me_status :: "(string \<times> json) list"
  me_bad :: nat

definition measure_step :: "'w probe_env \<Rightarrow> int \<Rightarrow> ('w pico, measure_row) io" where
  "measure_step env dC =
     bind (pico_set_all_temps (pb_serial env) dC) (\<lambda>_. bind (probe_sleep env (5 / 2)) (\<lambda>_.
     bind (on_line (pb_candump env ''can2'' 2)) (\<lambda>out.
     bind (of_res (measure_sample out)) (\<lambda>(cells, mn).
       ret \<lparr>mr_dC = dC, mr_cells = cells, mr_min = mn, mr_ok = (cells ! 0 = Some CELL_MV)\<rparr>))))"

definition measure_116 :: "'w probe_env \<Rightarrow> ('w pico, measure_report) io" where
  "measure_116 env =
     with_pico env
       (bind (pico_ping (pb_serial env)) (\<lambda>ping.
        bind (pico_set_all_cells (pb_serial env) CELL_MV) (\<lambda>_.
        bind (probe_sleep env 1) (\<lambda>_.
        bind (map_io (measure_step env) STEPS) (\<lambda>rows.
        bind (pico_status (pb_serial env)) (\<lambda>st.
          ret \<lparr>me_ping = ping, me_rows = rows, me_status = st,
               me_bad = length (filter (\<lambda>r. \<not> mr_ok r) rows)\<rparr>))))))"

definition measure_passes :: "measure_report \<Rightarrow> bool" where "measure_passes r \<longleftrightarrow> me_bad r = 0"

section \<open>verify_116\<close>

definition BASE :: int where "BASE = 3750"

definition verify_sample :: "string \<Rightarrow> (int option \<times> int option \<times> int list) res" where
  "verify_sample out =
     rbind (case last_frame out ''4A0'' of
              Some a0 \<Rightarrow>
                if 8 \<le> length a0
                then rbind (text_u16 a0 4) (\<lambda>mn. rbind (text_u16 a0 6) (\<lambda>mx. Inr (Some mn, Some mx)))
                else Inr (None, None)
            | None \<Rightarrow> Inr (None, None)) (\<lambda>(mn, mx).
     rbind (case last_frame out ''136'' of
              Some t \<Rightarrow>
                if 6 \<le> length t then rmap (\<lambda>i. rbind (py_nth t (i + 1)) py_int16) [0, 2, 4] else Inr []
            | None \<Rightarrow> Inr []) (\<lambda>temps. Inr (mn, mx, temps)))"

datatype extreme = Minimum | Maximum | Both

definition cell_ok :: "int \<Rightarrow> extreme \<Rightarrow> int option \<Rightarrow> int option \<Rightarrow> bool" where
  "cell_ok mV which mn mx =
     (case which of
        Minimum \<Rightarrow> mn = Some mV \<and> mx = Some BASE
      | Maximum \<Rightarrow> mx = Some mV \<and> mn = Some BASE
      | Both \<Rightarrow> mn = mx \<and> mx = Some BASE)"

definition temps_ok :: "int \<Rightarrow> int list \<Rightarrow> bool" where
  "temps_ok dC temps \<longleftrightarrow> temps \<noteq> [] \<and> list_all (\<lambda>t. \<bar>of_int t - of_int dC / 10\<bar> \<le> (1 :: rat)) temps"

definition verify_cell :: "'w probe_env \<Rightarrow> int \<times> extreme \<Rightarrow> ('w pico, string option) io" where
  "verify_cell env = (\<lambda>(mV, which).
     bind (pico_set_module_cell (pb_serial env) 0 0 mV) (\<lambda>_. bind (probe_sleep env (5 / 2)) (\<lambda>_.
     bind (on_line (pb_candump env ''can2'' 2)) (\<lambda>out.
     bind (of_res (verify_sample out)) (\<lambda>(mn, mx, temps).
       ret (if cell_ok mV which mn mx then None else Some (''cell '' @ show_int mV)))))))"

definition verify_temp :: "'w probe_env \<Rightarrow> int \<Rightarrow> ('w pico, string option) io" where
  "verify_temp env dC =
     bind (pico_set_all_temps (pb_serial env) dC) (\<lambda>_. bind (probe_sleep env (5 / 2)) (\<lambda>_.
     bind (on_line (pb_candump env ''can2'' 2)) (\<lambda>out.
     bind (of_res (verify_sample out)) (\<lambda>(mn, mx, temps).
       ret (if temps_ok dC temps then None else Some (''temp '' @ show_int dC))))))"

text \<open>What the run prints at its end: the firmware's name, the status, and the failures among its six checks.\<close>

record verify_report =
  ve_ping :: string
  ve_status :: "(string \<times> json) list"
  ve_fails :: "string option list"

definition verify_116 :: "'w probe_env \<Rightarrow> ('w pico, verify_report) io" where
  "verify_116 env =
     with_pico env
       (bind (pico_ping (pb_serial env)) (\<lambda>ping.
        bind (pico_set_all_cells (pb_serial env) BASE) (\<lambda>_.
        bind (pico_set_all_temps (pb_serial env) 250) (\<lambda>_.
        bind (probe_sleep env (5 / 2)) (\<lambda>_.
        bind (map_io (verify_cell env) [(3600, Minimum), (3900, Maximum), (3750, Both)]) (\<lambda>cells.
        bind (map_io (verify_temp env) [250, 500, 100]) (\<lambda>temps.
        bind (pico_set_all_temps (pb_serial env) 250) (\<lambda>_.
        bind (pico_status (pb_serial env)) (\<lambda>st.
          ret \<lparr>ve_ping = ping, ve_status = st, ve_fails = cells @ temps\<rparr>)))))))))"

definition verify_result :: "verify_report \<Rightarrow> string" where
  "verify_result r =
     (let bad = List.map_filter (\<lambda>f. f) (ve_fails r)
      in if bad = [] then ''PASS - all '' @ show_int (int (length (ve_fails r))) @ '' checks''
         else ''FAIL - '' @ py_join '', '' bad)"

section \<open>bootcheck_116\<close>

definition text_bytes :: "string list \<Rightarrow> int list res" where
  "text_bytes ws =
     rbind (rmap py_int16 ws) (\<lambda>vs.
       if list_all is_byte vs then Inr vs else Inl (Exn ValueError ''bytes must be in range(0, 256)''))"

primrec boot_frames :: "(string \<times> string list) list \<Rightarrow> telem_status option \<Rightarrow> telem_status option \<Rightarrow>
    (telem_status option \<times> telem_status option) res" where
  "boot_frames [] first last' = Inr (first, last')"
| "boot_frames (f # fs) first last' =
     (if fst f = ''4A0''
      then rbind (text_bytes (snd f)) (\<lambda>d.
           if length d = 8
           then rbind (decode_telem_status d) (\<lambda>dec.
                boot_frames fs (case first of None \<Rightarrow> Some dec | Some x \<Rightarrow> Some x) (Some dec))
           else boot_frames fs first last')
      else boot_frames fs first last')"

text \<open>\<open>int(status.get(k, 1))\<close>.\<close>

definition status_int :: "(string \<times> json) list \<Rightarrow> string \<Rightarrow> int res" where
  "status_int st k =
     (case map_of st k of
        None \<Rightarrow> Inr 1
      | Some (JStr s) \<Rightarrow>
          (case signed_text (int_value 10) (py_strip s) of Some v \<Rightarrow> Inr v
           | None \<Rightarrow> Inl (Exn ValueError ''invalid literal for int() with base 10''))
      | Some v \<Rightarrow> as_int ''int() argument'' v)"

record boot_report =
  bo_ping :: string
  bo_mA :: rat
  bo_first :: "telem_status option"
  bo_last :: "telem_status option"
  bo_before :: "(string \<times> json) list"
  bo_after :: "(string \<times> json) list"
  bo_pass :: bool

definition relay_write :: "'w probe_env \<Rightarrow> bool \<Rightarrow> ('w pico, unit) io" where
  "relay_write env on =
     bind (on_line (pb_call env ''tca.write_pin''
       [(''addr'', JInt 0x20), (''port'', JInt 0), (''pin'', JInt 1), (''value'', JBool on)])) (\<lambda>_. ret ())"

text \<open>Power-cycle the carrier of slot 2 and read its draw.\<close>

definition recycle_carrier :: "'w probe_env \<Rightarrow> ('w pico, rat) io" where
  "recycle_carrier env =
     bind (on_line (pb_connect env)) (\<lambda>_.
     bind (on_line (pb_call env ''tca.set_direction'' [(''addr'', JInt 0x20), (''port'', JInt 0), (''mask'', JInt 0)])) (\<lambda>_.
     bind (relay_write env False) (\<lambda>_. bind (probe_sleep env 4) (\<lambda>_.
     bind (relay_write env True) (\<lambda>_. bind (probe_sleep env (1 / 2)) (\<lambda>_.
     bind (on_line (pb_call env ''ina.current'' [(''addr'', JInt 0x41)])) (\<lambda>c. of_res (milliamps c))))))))"

definition bootcheck_116 :: "'w probe_env \<Rightarrow> ('w pico, boot_report) io" where
  "bootcheck_116 env =
     bind (with_pico env
       (bind (pico_ping (pb_serial env)) (\<lambda>ping.
        bind (pico_set_all_cells (pb_serial env) 3750) (\<lambda>_.
        bind (pico_set_all_temps (pb_serial env) 250) (\<lambda>_.
        bind (pico_status (pb_serial env)) (\<lambda>before. ret (ping, before))))))) (\<lambda>(ping, before).
     bind (recycle_carrier env) (\<lambda>mA.
     bind (on_line (pb_candump env ''can2'' 12)) (\<lambda>out.
     bind (of_res (boot_frames (text_frames out) None None)) (\<lambda>(first, last').
     bind (with_pico env (pico_status (pb_serial env))) (\<lambda>after.
     bind (case last' of
             Some d \<Rightarrow>
               if ts_min_cell_mV d = 3750 \<and> ts_max_cell_mV d = 3750
               then of_res (rbind (status_int after ''tx_stall_cmd'') (\<lambda>v. Inr (v = 0)))
               else ret False
           | None \<Rightarrow> ret False) (\<lambda>ok.
       ret \<lparr>bo_ping = ping, bo_mA = mA, bo_first = first, bo_last = last', bo_before = before,
            bo_after = after, bo_pass = ok\<rparr>))))))"

section \<open>pec_under_load\<close>

definition ID_PIT_DIAG_CMD :: int where "ID_PIT_DIAG_CMD = 0x7F0"

definition PIT_DIAG_ENABLE_MAGIC :: "int list" where "PIT_DIAG_ENABLE_MAGIC = [0xDE, 0xAD, 0xBE, 0xEF]"

definition PIT_DIAG_DISABLE_MAGIC :: "int list" where "PIT_DIAG_DISABLE_MAGIC = [0, 0, 0, 0]"

definition SECS :: rat where "SECS = 60"

definition pec_cansend :: "'w probe_env \<Rightarrow> int list \<Rightarrow> ('w pico, unit) io" where
  "pec_cansend env payload =
     on_line (pb_cansend env [''cansend'', ''can2'', hexX 3 ID_PIT_DIAG_CMD @ ''#'' @ concat (map (hexX 2) payload)])"

text \<open>One pass over the lines, as the code makes it: both counters keep their last value.\<close>

primrec pec_frames :: "(string \<times> string list) list \<Rightarrow> int option \<Rightarrow> int list option \<Rightarrow>
    (int option \<times> int list option) res" where
  "pec_frames [] agg per = Inr (agg, per)"
| "pec_frames (f # fs) agg per =
     (if fst f = ''6C0'' \<and> length (snd f) = 8
      then rbind (text_u16 (snd f) 4) (\<lambda>v. pec_frames fs (Some v) per)
      else if fst f = ''6C7'' \<and> length (snd f) = 8
      then rbind (rmap py_int16 (snd f)) (\<lambda>vs. pec_frames fs agg (Some vs))
      else pec_frames fs agg per)"

definition pec :: "'w probe_env \<Rightarrow> ('w pico, int option) io" where
  "pec env =
     bind (on_line (pb_candump env ''can2'' 3)) (\<lambda>out.
     bind (of_res (pec_frames (text_frames out) None None)) (\<lambda>(agg, per). ret agg))"

text \<open>The hammering thread: it polls until it is stopped or a poll fails. The environment says how many polls
  it gets while the main thread sleeps and while it samples; the state is the count and whether it still runs.\<close>

primrec hammer :: "'w probe_env \<Rightarrow> nat \<Rightarrow> nat \<times> bool \<Rightarrow> ('w pico, nat \<times> bool) io" where
  "hammer env 0 h = ret h"
| "hammer env (Suc k) h =
     (if \<not> snd h then ret h
      else bind (try_except (bind (pico_status (pb_serial env)) (\<lambda>_. ret (fst h + 1, True))) is_exception
                   (\<lambda>_. ret (fst h, False))) (hammer env k))"

text \<open>\<open>a - b\<close> of two samples: a missing one raises.\<close>

definition pec_diff :: "int option \<Rightarrow> int \<Rightarrow> int res" where
  "pec_diff a b = (case a of Some v \<Rightarrow> Inr (v - b) | None \<Rightarrow> Inl (Exn TypeError ''unsupported operand type(s) for -''))"

record pec_report =
  pe_ver :: string
  pe_mA :: rat
  pe_start :: int
  pe_idle :: int
  pe_busy :: int
  pe_polls :: nat
  pe_stall :: "json option"

definition pec_power_cycle :: "'w probe_env \<Rightarrow> ('w pico, rat) io" where
  "pec_power_cycle env = bind (recycle_carrier env) (\<lambda>mA. bind (on_line (pb_close env)) (\<lambda>_. ret mA))"

definition pec_busy :: "'w probe_env \<Rightarrow> nat \<Rightarrow> nat \<Rightarrow> int \<Rightarrow> ('w pico, int \<times> nat \<times> json option) io" where
  "pec_busy env k1 k2 a1 =
     bind (with_pico env
       (bind (hammer env k1 (0, True)) (\<lambda>h. bind (probe_sleep env SECS) (\<lambda>_.
        bind (hammer env k2 h) (\<lambda>h'. bind (pec env) (\<lambda>a2.
        bind (try_except (bind (pico_status (pb_serial env)) (\<lambda>st. ret (map_of st ''tx_stall_cmd'')))
                is_exception (\<lambda>_. ret None)) (\<lambda>stall. ret (a2, fst h', stall))))))))
     (\<lambda>(a2, polls, stall). bind (of_res (pec_diff a2 a1)) (\<lambda>d. ret (d, polls, stall)))"

definition pec_under_load :: "'w probe_env \<Rightarrow> nat \<Rightarrow> nat \<Rightarrow> ('w pico, pec_report) io" where
  "pec_under_load env k1 k2 =
     bind (with_pico env
       (bind (pico_ping (pb_serial env)) (\<lambda>ver.
        bind (pico_set_all_cells (pb_serial env) 3750) (\<lambda>_.
        bind (pico_set_all_temps (pb_serial env) 250) (\<lambda>_. ret ver))))) (\<lambda>ver.
     bind (pec_power_cycle env) (\<lambda>mA. bind (probe_sleep env 6) (\<lambda>_.
     bind (pec_cansend env PIT_DIAG_ENABLE_MAGIC) (\<lambda>_. bind (probe_sleep env 2) (\<lambda>_.
     bind (pec env) (\<lambda>a0.
     case a0 of
       None \<Rightarrow> raise (Exn SystemExit ''1'')
     | Some s0 \<Rightarrow>
         if 0xFFFF \<le> s0 then raise (Exn SystemExit ''1'')
         else bind (probe_sleep env SECS) (\<lambda>_. bind (pec env) (\<lambda>a1.
              bind (of_res (pec_diff a1 s0)) (\<lambda>idle_errors.
              bind (pec_busy env k1 k2 (s0 + idle_errors)) (\<lambda>(busy, polls, stall).
              bind (pec_cansend env PIT_DIAG_DISABLE_MAGIC) (\<lambda>_.
              bind (of_res (py_nth (split_words ver) (- 1))) (\<lambda>v.
                ret \<lparr>pe_ver = v, pe_mA = mA, pe_start = s0, pe_idle = idle_errors, pe_busy = busy,
                     pe_polls = polls, pe_stall = stall\<rparr>))))))))))))"

section \<open>The text of a capture\<close>

text \<open>A line that shows a frame: interface, identifier, length and data bytes, whatever the spacing.\<close>

definition shows_frame :: "string \<Rightarrow> int \<times> int list \<Rightarrow> bool" where
  "shows_frame line f \<longleftrightarrow>
     list_all (\<lambda>c. c \<noteq> CHR 0x0A) line \<and>
     (\<exists>iface len. split_words line = [iface, hexX 3 (fst f), len] @ map (hexX 2) (snd f))"

definition good_frame :: "int \<times> int list \<Rightarrow> bool" where
  "good_frame f \<longleftrightarrow> 0 \<le> fst f \<and> snd f \<noteq> [] \<and> is_bytes (snd f)"

definition last_data :: "(int \<times> int list) list \<Rightarrow> int \<Rightarrow> int list option" where
  "last_data frames fid = map_of (rev frames) fid"

text \<open>A padded hexadecimal number reads back.\<close>

lemma hexX_nonneg: "0 \<le> v \<Longrightarrow> \<exists>k. hexX w v = replicate k (CHR ''0'') @ digits 16 (nat v)"
  by (auto simp: hexX_def Let_def)

lemma int_value_zeros: "s \<noteq> [] \<Longrightarrow> int_value 16 (replicate k (CHR ''0'') @ s) = int_value 16 s"
proof -
  have zero: "digit_in 16 (CHR ''0'')" "digit_of (CHR ''0'') = Some 0" by (simp_all add: digit_in_def digit_of_def Let_def)
  then have "list_all (digit_in 16) (replicate k (CHR ''0''))" by (simp add: list_all_iff)
  moreover have "foldl (\<lambda>a c. a * int 16 + int (the (digit_of c))) 0 (replicate k (CHR ''0'')) = 0"
    using zero by (induction k) auto
  ultimately show "s \<noteq> [] \<Longrightarrow> ?thesis" by (simp add: int_value_def)
qed

lemma int_value_hexX: "0 \<le> v \<Longrightarrow> int_value 16 (hexX w v) = Some v"
proof -
  assume v: "0 \<le> v"
  then obtain k where "hexX w v = replicate k (CHR ''0'') @ digits 16 (nat v)" using hexX_nonneg by blast
  then have "int_value 16 (hexX w v) = int_value 16 (digits 16 (nat v))"
    using int_value_zeros [OF digits_nonempty] by simp
  also have "\<dots> = Some (int (nat v))" by (rule int_value_digits) simp_all
  finally show "int_value 16 (hexX w v) = Some v" using v by simp
qed

lemma hexX_inj: "0 \<le> a \<Longrightarrow> 0 \<le> b \<Longrightarrow> hexX w a = hexX w b \<Longrightarrow> a = b"
  by (metis int_value_hexX option.inject)

lemma hexX_chars: "0 \<le> v \<Longrightarrow> c \<in> set (hexX w v) \<Longrightarrow> \<not> is_space c \<and> c \<notin> {CHR ''-'', CHR ''+'', CHR ''x'', CHR ''X''}"
  using hexX_nonneg [of v w] digits_clean [of 16 c "nat v"] by (auto simp: is_space_def)

lemma py_int16_hexX: "0 \<le> v \<Longrightarrow> py_int16 (hexX w v) = Inr v"
proof -
  assume v: "0 \<le> v"
  let ?s = "hexX w v"
  obtain c cs where s: "?s = c # cs" using hexX_nonneg [OF v, of w] digits_nonempty [of 16 "nat v"] by (cases ?s) auto
  note ch = hexX_chars [OF v, of _ w]
  have "\<not> is_space (hd ?s)" "\<not> is_space (last ?s)" using ch s by (metis last_in_set list.distinct(1) list.set_sel(1))+
  then have strip: "py_strip ?s = ?s" using s by (simp add: py_strip_def hd_rev dropWhile_eq_self_iff [THEN iffD2] del: rev.simps)
  have "hex_number ?s = int_value 16 ?s" using ch [of "hd cs"] s by (cases cs) auto
  moreover have "signed_text hex_number ?s = hex_number ?s" using ch [of c] s by simp
  ultimately show ?thesis by (simp add: py_int16_def strip int_value_hexX [OF v])
qed

lemma text_u16_bytes:
  assumes "is_bytes d" "i + 1 < length d"
  shows "text_u16 (map (hexX 2) d) (int i) = Inr (push_bit 8 (d ! i) OR d ! (i + 1))"
  using is_bytes_nth [OF assms(1), of i] is_bytes_nth [OF assms(1), of "i + 1"] assms(2)
  by (simp add: text_u16_def py_nth_nonneg py_int16_hexX nat_add_distrib)

lemma rmap_bytes: "is_bytes d \<Longrightarrow> rmap py_int16 (map (hexX 2) d) = Inr d"
  by (induction d) (auto simp: py_int16_hexX is_byte_def)

lemma text_frames_shown:
  assumes "list_all2 shows_frame lines frames" "list_all good_frame frames"
    and "out = concat (map (\<lambda>l. l @ [CHR 0x0A]) lines)"
  shows "text_frames out = map (\<lambda>(i, d). (hexX 3 i, map (hexX 2) d)) frames"
proof -
  have "list_all (list_all no_newline) lines"
    using assms(1) by (induction rule: list_all2_induct) (auto simp: shows_frame_def)
  then have lines: "split_lines out = lines" unfolding assms(3) by (rule split_lines_concat)
  show ?thesis using assms(1,2) unfolding text_frames_def lines
    by (induction rule: list_all2_induct) (auto simp: shows_frame_def good_frame_def neq_Nil_conv)
qed

lemma last_frame_shown:
  assumes "list_all2 shows_frame lines frames" "list_all good_frame frames"
    and "out = concat (map (\<lambda>l. l @ [CHR 0x0A]) lines)" "0 \<le> fid"
  shows "last_frame out (hexX 3 fid) = map_option (map (hexX 2)) (last_data frames fid)"
proof -
  have "map_of (map (\<lambda>(i, d). (hexX 3 i, map (hexX 2) d)) fs) (hexX 3 fid) = map_option (map (hexX 2)) (map_of fs fid)"
    if "list_all good_frame fs" for fs
    using that assms(4) by (induction fs) (auto simp: good_frame_def dest: hexX_inj)
  from this [of "rev frames"] assms(2) show ?thesis
    by (simp add: last_frame_def text_frames_shown [OF assms(1-3)] last_data_def rev_map)
qed

text \<open>What the frames themselves say, through the decoder of the frame map.\<close>

definition seen_extremes :: "(int \<times> int list) list \<Rightarrow> int option \<times> int option" where
  "seen_extremes frames =
     (case last_data frames 0x4A0 of
        None \<Rightarrow> (None, None)
      | Some d \<Rightarrow> (case decode_telem_status d of
          Inl e \<Rightarrow> (None, None) | Inr t \<Rightarrow> (Some (ts_min_cell_mV t), Some (ts_max_cell_mV t))))"

definition seen_temps :: "(int \<times> int list) list \<Rightarrow> int list" where
  "seen_temps frames =
     (case last_data frames 0x136 of None \<Rightarrow> [] | Some d \<Rightarrow> if 6 \<le> length d then [d ! 1, d ! 3, d ! 5] else [])"

definition seen_statuses :: "(int \<times> int list) list \<Rightarrow> telem_status list" where
  "seen_statuses frames =
     [t. f \<leftarrow> frames, fst f = 0x4A0, length (snd f) = 8, Inr t \<leftarrow> [decode_telem_status (snd f)]]"

definition ends :: "'a list \<Rightarrow> 'a option \<times> 'a option" where
  "ends xs = (if xs = [] then (None, None) else (Some (hd xs), Some (last xs)))"

lemma hexX_ids: "hexX 3 0x4A0 = ''4A0''" "hexX 3 0x136 = ''136''"
  by code_simp+

lemma last_data_good: "list_all good_frame frames \<Longrightarrow> last_data frames fid = Some d \<Longrightarrow> is_bytes d"
  unfolding last_data_def by (drule map_of_SomeD) (auto simp: list_all_iff good_frame_def)

lemma boot_frames_shown:
  assumes "list_all good_frame frames"
  shows "boot_frames (map (\<lambda>(i, d). (hexX 3 i, map (hexX 2) d)) frames) first last' =
    Inr (case first of None \<Rightarrow> fst (ends (seen_statuses frames)) | Some x \<Rightarrow> Some x,
         case snd (ends (seen_statuses frames)) of None \<Rightarrow> last' | Some x \<Rightarrow> Some x)"
  using assms
proof (induction frames arbitrary: first last')
  case (Cons f frames)
  obtain i d where f: "f = (i, d)" by (cases f)
  have id: "hexX 3 i = ''4A0'' \<longleftrightarrow> i = 0x4A0"
    using hexX_inj [of i "0x4A0" 3] hexX_ids(1) Cons.prems by (auto simp: f good_frame_def)
  have bytes: "text_bytes (map (hexX 2) d) = Inr d"
    using Cons.prems by (auto simp: f good_frame_def text_bytes_def rmap_bytes is_bytes_def)
  show ?case
  proof (cases "i = 0x4A0 \<and> length d = 8")
    case True
    then obtain t where t: "decode_telem_status d = Inr t" by (simp add: decode_telem_status_def)
    then have "seen_statuses ((i, d) # frames) = t # seen_statuses frames" using True by (simp add: seen_statuses_def)
    with True t Cons bytes show ?thesis
      unfolding f by (simp add: hexX_ids ends_def split: option.split)
  next
    case False
    then have same: "seen_statuses ((i, d) # frames) = seen_statuses frames" by (auto simp: seen_statuses_def)
    from False Cons bytes id show ?thesis unfolding f same by auto
  qed
qed (simp add: seen_statuses_def ends_def split: option.split)

text \<open>C34: on the text of a capture, whatever its spacing, the verification script reads the minimum and maximum cell
  voltage that the frame map's decoder reads in the last status frame, and the temperatures of the last 0x136
  frame; the cold-boot check holds the decoded first and last status frames of eight bytes.\<close>

theorem probes_agree_with_map:
  assumes "list_all2 shows_frame lines frames" "list_all good_frame frames"
    and "out = concat (map (\<lambda>l. l @ [CHR 0x0A]) lines)"
  shows "verify_sample out = Inr (fst (seen_extremes frames), snd (seen_extremes frames), seen_temps frames)
    \<and> boot_frames (text_frames out) None None = Inr (ends (seen_statuses frames))"
proof
  note shown = last_frame_shown [OF assms]
  have a0: "last_frame out ''4A0'' = map_option (map (hexX 2)) (last_data frames 0x4A0)"
    and t: "last_frame out ''136'' = map_option (map (hexX 2)) (last_data frames 0x136)"
    using shown [of "0x4A0"] shown [of "0x136"] by (simp_all add: hexX_ids)
  have ext: "(case last_frame out ''4A0'' of
      Some a0 \<Rightarrow> if 8 \<le> length a0
        then rbind (text_u16 a0 4) (\<lambda>mn. rbind (text_u16 a0 6) (\<lambda>mx. Inr (Some mn, Some mx))) else Inr (None, None)
    | None \<Rightarrow> Inr (None, None)) = Inr (seen_extremes frames)"
    using text_u16_bytes [of "the (last_data frames 0x4A0)" 4] text_u16_bytes [of "the (last_data frames 0x4A0)" 6]
      last_data_good [OF assms(2), of "0x4A0"]
    by (cases "last_data frames 0x4A0") (auto simp: a0 seen_extremes_def decode_telem_status_def)
  have "rbind (py_nth (map (hexX 2) d) (int i)) py_int16 = Inr (d ! i)" if "is_bytes d" "i < length d" for d i
    using that is_bytes_nth [OF that] by (simp add: py_nth_nonneg py_int16_hexX)
  from this [of _ 1] this [of _ 3] this [of _ 5]
  have third: "rbind (py_nth (map (hexX 2) d) 1) py_int16 = Inr (d ! 1)"
      "rbind (py_nth (map (hexX 2) d) 3) py_int16 = Inr (d ! 3)" "rbind (py_nth (map (hexX 2) d) 5) py_int16 = Inr (d ! 5)"
    if "is_bytes d" "6 \<le> length d" for d using that by simp_all
  have temps: "(case last_frame out ''136'' of
      Some t \<Rightarrow> if 6 \<le> length t then rmap (\<lambda>i. rbind (py_nth t (i + 1)) py_int16) [0, 2, 4] else Inr []
    | None \<Rightarrow> Inr []) = Inr (seen_temps frames)"
    using last_data_good [OF assms(2), of "0x136"]
    by (cases "last_data frames 0x136") (auto simp: t seen_temps_def third)
  show "verify_sample out = Inr (fst (seen_extremes frames), snd (seen_extremes frames), seen_temps frames)"
    unfolding verify_sample_def ext temps by (simp add: case_prod_beta)
  show "boot_frames (text_frames out) None None = Inr (ends (seen_statuses frames))"
    unfolding text_frames_shown [OF assms] boot_frames_shown [OF assms(2)]
    by (cases "ends (seen_statuses frames)") (simp split: option.split)
qed

theorem probes_agree_with_map_witness:
  "verify_sample (''  can2  4A0   [8]  03 01 1F 00 0E A6 0E D8'' @ [CHR 0x0A] @ ''  can2  136   [6]  00 19 00 1A 00 1B'' @ [CHR 0x0A])
     = Inr (Some 3750, Some 3800, [25, 26, 27])"
proof -
  have words: "split_words ''  can2  4A0   [8]  03 01 1F 00 0E A6 0E D8'' = [''can2'', ''4A0'', ''[8]''] @ map (hexX 2) [3, 1, 31, 0, 14, 166, 14, 216]"
    "split_words ''  can2  136   [6]  00 19 00 1A 00 1B'' = [''can2'', ''136'', ''[6]''] @ map (hexX 2) [0, 25, 0, 26, 0, 27]"
    by code_simp+
  have "list_all2 shows_frame [''  can2  4A0   [8]  03 01 1F 00 0E A6 0E D8'', ''  can2  136   [6]  00 19 00 1A 00 1B'']
      [(0x4A0, [3, 1, 31, 0, 14, 166, 14, 216]), (0x136, [0, 25, 0, 26, 0, 27])]"
    using words by (simp add: shows_frame_def hexX_ids)
  from probes_agree_with_map [OF this _ refl] show ?thesis
    by (simp add: good_frame_def is_byte_def seen_extremes_def seen_temps_def last_data_def decode_telem_status_def)
qed

end
