(* ===== verification/Sim_Mains.thy ===== *)
theory Sim_Mains
  imports Can_Sims Bms_Emulator Can_Link "HOL-Library.Sublist"
begin

text \<open>
  The lives of the programs and objects that own a CAN bus under \<^verbatim>\<open>tools/firmware_test\<close>: the main loops and
  self tests of the AMS and inverter simulators, the BMS emulator's command, and \<open>start\<close>/\<open>stop\<close> of the ACU
  stimulus, the emulator and the observer. The bus is a record of programs; a main loop ends by an exception
  (Ctrl-C is \<open>KeyboardInterrupt\<close>), so it takes fuel and a run that uses it up raises \<open>no_fuel\<close>.
  Printed text is not modelled: that the line both mains print between opening the bus and the \<open>try\<close> can be written
  is assumed (an exception of that \<open>print\<close>, or Ctrl-C during it, leaves the bus open).
\<close>

record 'w sim_bus =
  sb_open :: "string \<Rightarrow> ('w, unit) io"
  sb_send :: "can_msg \<Rightarrow> ('w, unit) io"
  sb_recv :: "('w, (rat \<times> can_msg) option) io"
  sb_shutdown :: "('w, unit) io"
  sb_sleep :: "rat \<Rightarrow> ('w, unit) io"
  sb_now :: "('w, rat) io"

fun is_interrupt :: "exn \<Rightarrow> bool" where
  "is_interrupt (Exn c m) = (c = KeyboardInterrupt)"
| "is_interrupt (RpcErr c m) = False"

definition quiet_shutdown :: "'w sim_bus \<Rightarrow> ('w, unit) io" where
  "quiet_shutdown b = try_except (sb_shutdown b) is_exception (\<lambda>_. ret ())"

section \<open>AMS simulator\<close>

primrec ams_stream :: "nat \<Rightarrow> 'w sim_bus \<Rightarrow> int \<Rightarrow> int \<Rightarrow> int \<Rightarrow> rat \<Rightarrow> ('w, unit) io" where
  "ams_stream 0 b state session precharge period = raise no_fuel"
| "ams_stream (Suc n) b state session precharge period =
     bind (for_each (\<lambda>(fid, data). sb_send b (std_msg fid data)) (ams_build_round state session precharge)) (\<lambda>_.
     bind (sb_sleep b period) (\<lambda>_. ams_stream n b state session precharge period))"

definition ams_main :: "nat \<Rightarrow> 'w sim_bus \<Rightarrow> string \<Rightarrow> int \<Rightarrow> int \<Rightarrow> int \<Rightarrow> rat \<Rightarrow> ('w, unit) io" where
  "ams_main n b channel state session precharge period =
     bind (sb_open b channel) (\<lambda>_.
     try_finally
       (try_except (ams_stream n b state session precharge period) is_interrupt (\<lambda>_. ret ()))
       (quiet_shutdown b))"

definition ams_selftest :: bool where
  "ams_selftest =
     (let rnd = map_of (rev (ams_build_round 3 1 1))
      in the (rnd 0x4A0) ! 0 = 3 \<and> the (rnd 0x4A0) ! 3 = 1 \<and> the (rnd 0x020) ! 0 = 1)"

section \<open>Inverter simulator\<close>

primrec inv_stream :: "nat \<Rightarrow> 'w sim_bus \<Rightarrow> inv_args \<Rightarrow> rat \<Rightarrow> int \<Rightarrow> ('w, unit) io" where
  "inv_stream 0 b a period cnt = raise no_fuel"
| "inv_stream (Suc n) b a period cnt =
     (let cnt' = (cnt + 1) AND 0x0F
      in bind (for_each (\<lambda>(fid, dlc, data). sb_send b (std_msg fid data)) (inv_build_round a cnt')) (\<lambda>_.
         bind (sb_sleep b period) (\<lambda>_. inv_stream n b a period cnt')))"

definition inv_main :: "nat \<Rightarrow> 'w sim_bus \<Rightarrow> string \<Rightarrow> inv_args \<Rightarrow> rat \<Rightarrow> ('w, unit) io" where
  "inv_main n b channel a period =
     bind (sb_open b channel) (\<lambda>_.
     try_finally (try_except (inv_stream n b a period 0) is_interrupt (\<lambda>_. ret ())) (quiet_shutdown b))"

definition inv_selftest :: bool where
  "inv_selftest =
     (let rnd = (\<lambda>i. snd (the (map_of (rev (inv_build_round
            \<lparr>ia_state = 3, ia_err = 0, ia_vdc = 400, ia_rpm = 1500, ia_motor_temp = 30, ia_igbt_temp = 40,
             ia_air_temp = 25, ia_speed = 1500, ia_current = 120\<rparr> 5)) i)))
      in rnd 0x461 ! 4 AND 0x0F = 3 \<and> from_le (slice 2 4 (rnd 0x466)) = 400 \<and>
         rnd 0x464 ! 0 = 30 \<and> rnd 0x464 ! 1 = 40 \<and> rnd 0x464 ! 2 = 25 \<and>
         from_le (slice 2 4 (rnd 0x465)) = 1500 \<and> from_le (slice 4 6 (rnd 0x465)) = 120 \<and>
         rnd 0x463 ! 5 OR push_bit 8 (rnd 0x463 ! 6) OR push_bit 16 (rnd 0x463 ! 7 AND 0x0F) = 1500)"

section \<open>ACU stimulus\<close>

text \<open>The object's state beside the world is whether it holds a bus.\<close>

definition acu_bus :: "'w sim_bus \<Rightarrow> bool \<Rightarrow> (can_msg \<Rightarrow> ('w, unit) io) option" where
  "acu_bus b started = (if started then Some (sb_send b) else None)"

definition acu_start :: "'w sim_bus \<Rightarrow> string \<Rightarrow> ('w \<times> bool, unit) io" where
  "acu_start b channel = bind (on_fst (sb_open b channel)) (\<lambda>_. modify (\<lambda>(w, s). (w, True)))"

definition acu_stop :: "'w sim_bus \<Rightarrow> ('w \<times> bool, unit) io" where
  "acu_stop b =
     bind (reads snd) (\<lambda>started.
       whenever started (bind (on_fst (quiet_shutdown b)) (\<lambda>_. modify (\<lambda>(w, s). (w, False)))))"

definition acu_send_raw :: "'w sim_bus \<Rightarrow> int \<Rightarrow> int list \<Rightarrow> bool \<Rightarrow> ('w \<times> bool, unit) io" where
  "acu_send_raw b can_id data ext = bind (reads snd) (\<lambda>s. on_fst (acu_send (acu_bus b s) can_id data ext))"

primrec emit_dc_bus_v_periodic ::
  "nat \<Rightarrow> 'w sim_bus \<Rightarrow> ('w, int) io \<Rightarrow> rat \<Rightarrow> ('w, bool) io \<Rightarrow> ('w \<times> bool, unit) io"
where
  "emit_dc_bus_v_periodic 0 b volts period is_set = raise no_fuel"
| "emit_dc_bus_v_periodic (Suc n) b volts period is_set =
     bind (on_fst is_set) (\<lambda>stop.
       if stop then ret ()
       else bind (on_fst volts) (\<lambda>v.
            bind (reads snd) (\<lambda>s. bind (on_fst (send_dc_bus_v (acu_bus b s) v)) (\<lambda>_.
            bind (on_fst (sb_sleep b period)) (\<lambda>_. emit_dc_bus_v_periodic n b volts period is_set)))))"

section \<open>BMS emulator\<close>

text \<open>Beside the world: the emulator, whether it holds a bus and whether its thread runs. While the main thread
  sleeps, the thread makes its iterations, one for each thing that \<open>recv\<close> gives: \<open>rxs\<close>.\<close>

record bms_owner =
  bo_emu :: bms_emulator
  bo_bus :: bool
  bo_thread :: bool

definition emu_start :: "'w sim_bus \<Rightarrow> string \<Rightarrow> ('w \<times> bms_owner, unit) io" where
  "emu_start b channel =
     bind (on_fst (sb_open b channel)) (\<lambda>_. modify (\<lambda>(w, o'). (w, o'\<lparr>bo_bus := True, bo_thread := True\<rparr>)))"

definition emu_stop :: "'w sim_bus \<Rightarrow> ('w \<times> bms_owner, unit) io" where
  "emu_stop b =
     bind (modify (\<lambda>(w, o'). (w, o'\<lparr>bo_thread := False\<rparr>))) (\<lambda>_. bind (reads (\<lambda>s. bo_bus (snd s))) (\<lambda>held.
       whenever held (bind (on_fst (quiet_shutdown b)) (\<lambda>_. modify (\<lambda>(w, o'). (w, o'\<lparr>bo_bus := False\<rparr>))))))"

definition emu_receives :: "'w sim_bus \<Rightarrow> (exn + can_msg option) list \<Rightarrow> ('w \<times> bms_owner, unit) io" where
  "emu_receives b rxs =
     bind (reads snd) (\<lambda>o'.
       whenever (bo_thread o')
         (bind (on_fst (bms_run (sb_send b) rxs (bo_emu o'))) (\<lambda>e. modify (\<lambda>(w, o'). (w, o'\<lparr>bo_emu := e\<rparr>)))))"

text \<open>\<open>_cli\<close>: \<open>turns\<close> are the receipts of the thread during each of the main thread's sleeps of two seconds.\<close>

primrec cli_loop :: "'w sim_bus \<Rightarrow> (exn + can_msg option) list list \<Rightarrow> ('w \<times> bms_owner, unit) io" where
  "cli_loop b [] = raise no_fuel"
| "cli_loop b (rxs # turns) =
     bind (emu_receives b rxs) (\<lambda>_. bind (on_fst (sb_sleep b 2)) (\<lambda>_. cli_loop b turns))"

definition bms_cli :: "'w sim_bus \<Rightarrow> (exn + can_msg option) list list \<Rightarrow> string \<Rightarrow> nat \<Rightarrow> int \<Rightarrow> int \<Rightarrow> ('w, int) io" where
  "bms_cli b turns channel num_modules cell_mv temp_c =
     bind (of_res (bms_init num_modules)) (\<lambda>e.
       zoom (\<lambda>w. (w, \<lparr>bo_emu = set_all_temps temp_c (set_all_cells cell_mv e), bo_bus = False, bo_thread = False\<rparr>))
         (\<lambda>s w. fst s)
         (bind (emu_start b channel) (\<lambda>_.
          bind (try_finally (try_except (cli_loop b turns) is_interrupt (\<lambda>_. ret ())) (emu_stop b)) (\<lambda>_. ret 0))))"

section \<open>Observer\<close>

record observer =
  ob_captured :: "captured_frame list"
  ob_bus :: bool
  ob_stop :: bool

definition ob_start :: "'w sim_bus \<Rightarrow> string \<Rightarrow> ('w \<times> observer, unit) io" where
  "ob_start b channel =
     bind (on_fst (sb_open b channel)) (\<lambda>_. modify (\<lambda>(w, s). (w, s\<lparr>ob_bus := True, ob_stop := False\<rparr>)))"

definition ob_stop_it :: "'w sim_bus \<Rightarrow> ('w \<times> observer, unit) io" where
  "ob_stop_it b =
     bind (modify (\<lambda>(w, s). (w, s\<lparr>ob_stop := True\<rparr>))) (\<lambda>_. bind (reads (\<lambda>s. ob_bus (snd s))) (\<lambda>held.
       whenever held (bind (on_fst (quiet_shutdown b)) (\<lambda>_. modify (\<lambda>(w, s). (w, s\<lparr>ob_bus := False\<rparr>))))))"

definition ob_clear :: "observer \<Rightarrow> observer" where
  "ob_clear s = s\<lparr>ob_captured := []\<rparr>"

definition ob_all_frames :: "observer \<Rightarrow> captured_frame list" where
  "ob_all_frames s = ob_captured s"

text \<open>At most \<open>n\<close> iterations of the thread, until it sees the stop flag.\<close>

primrec ob_run :: "nat \<Rightarrow> 'w sim_bus \<Rightarrow> ('w \<times> observer, unit) io" where
  "ob_run 0 b = ret ()"
| "ob_run (Suc n) b =
     bind (reads (\<lambda>s. ob_stop (snd s))) (\<lambda>stop.
       if stop then ret ()
       else bind (try_except (bind (on_fst (sb_recv b)) (\<lambda>m. ret (Inr m))) is_exception (\<lambda>e. ret (Inl e))) (\<lambda>rx.
            bind (on_fst (sb_now b)) (\<lambda>now.
            bind (modify (\<lambda>(w, s). (w, s\<lparr>ob_captured := observer_step now rx (ob_captured s)\<rparr>))) (\<lambda>_. ob_run n b))))"

section \<open>What goes over the bus\<close>

datatype sim_event = Opened string | Sent can_msg | Closed

definition watched_bus :: "'w sim_bus \<Rightarrow> ('w \<times> sim_event list) sim_bus" where
  "watched_bus b =
     \<lparr>sb_open = (\<lambda>c. logged (sb_open b c) (\<lambda>r. case r of Inr u \<Rightarrow> [Opened c] | Inl e \<Rightarrow> [])),
      sb_send = (\<lambda>m. logged (sb_send b m) (\<lambda>r. case r of Inr u \<Rightarrow> [Sent m] | Inl e \<Rightarrow> [])),
      sb_recv = on_fst (sb_recv b),
      sb_shutdown = logged (sb_shutdown b) (\<lambda>r. [Closed]),
      sb_sleep = (\<lambda>t. on_fst (sb_sleep b t)),
      sb_now = on_fst (sb_now b)\<rparr>"

text \<open>The frames of a list were sent up to some point; all of them when the program went on.\<close>

definition sent_of :: "can_msg list \<Rightarrow> unit res \<Rightarrow> sim_event list \<Rightarrow> bool" where
  "sent_of ms r ts \<longleftrightarrow> (\<exists>sent. ts = map Sent sent \<and> prefix sent ms \<and> (r = Inr () \<longrightarrow> sent = ms))"

lemma sent_of_Nil: "sent_of ms (Inl e) []"
  by (simp add: sent_of_def)

lemma sent_of_append: "sent_of ms (Inr ()) ts \<Longrightarrow> sent_of ms' r ts' \<Longrightarrow> sent_of (ms @ ms') r (ts @ ts')"
  unfolding sent_of_def by (metis map_append same_prefix_prefix)

lemma sent_of_stop: "sent_of ms (Inl e) ts \<Longrightarrow> sent_of (ms @ ms') (Inl e) ts"
  by (auto simp: sent_of_def intro: prefix_prefix)

lemma emits_send_all: "emits (for_each (\<lambda>x. sb_send (watched_bus b) (f x)) xs) (sent_of (map f xs))"
proof (induction xs)
  case (Cons x xs)
  have "emits (sb_send (watched_bus b) (f x)) (sent_of [f x])"
    by (auto simp: watched_bus_def sent_of_def intro!: emits_logged split: sum.split)
  then show ?case
    by (simp del: list.map, intro emits_bind [where P = "sent_of [f x]" and Q = "\<lambda>_. sent_of (map f xs)"] Cons.IH)
      (use sent_of_append [of "[f x]"] sent_of_stop [of "[f x]"] in auto)
qed (simp add: emits_ret sent_of_def)

text \<open>One round of a stream and the rest.\<close>

lemma emits_round:
  assumes "emits m (sent_of ms)" "emits rest (sent_of ms')"
  shows "emits (bind m (\<lambda>_. bind (sb_sleep (watched_bus b) t) (\<lambda>_. rest))) (sent_of (ms @ ms'))"
proof -
  have "emits (bind (sb_sleep (watched_bus b) t) (\<lambda>_. rest)) (sent_of ms')"
    by (rule emits_bind [where P = "\<lambda>_ ts. ts = []" and Q = "\<lambda>_. sent_of ms'"])
      (auto simp: watched_bus_def sent_of_Nil intro!: emits_silent assms(2))
  then show ?thesis
    by (rule emits_bind [OF assms(1), where Q = "\<lambda>_. sent_of ms'"])
      (auto intro: sent_of_append sent_of_stop)
qed

lemma emits_ams_stream:
  "emits (ams_stream n (watched_bus b) state session precharge period)
     (sent_of (concat (replicate n (map (\<lambda>(i, d). std_msg i d) (ams_build_round state session precharge)))))"
proof (induction n)
  case (Suc n)
  show ?case
    using emits_round [OF emits_send_all [where f = "\<lambda>(i, d). std_msg i d"] Suc.IH]
    by (simp add: case_prod_unfold)
qed (simp add: emits_raise sent_of_Nil)

lemma emits_inv_stream:
  "emits (inv_stream n (watched_bus b) a period cnt)
     (sent_of (map (\<lambda>(i, k, d). std_msg i d) (inv_sim_rounds n a cnt)))"
proof (induction n arbitrary: cnt)
  case (Suc n)
  show ?case
    using emits_round [OF emits_send_all [where f = "\<lambda>(i, k, d). std_msg i d"] Suc.IH]
    by (simp add: case_prod_unfold Let_def)
qed (simp add: emits_raise sent_of_Nil)

text \<open>The frame of both mains: open, stream until interrupted, shut down.\<close>

definition streamed :: "string \<Rightarrow> can_msg list \<Rightarrow> unit res \<Rightarrow> sim_event list \<Rightarrow> bool" where
  "streamed channel ms r ts \<longleftrightarrow>
     (ts = [] \<and> r \<noteq> Inr ()) \<or> (\<exists>sent. ts = Opened channel # map Sent sent @ [Closed] \<and> prefix sent ms)"

lemma emits_main:
  assumes "emits m (sent_of ms)"
  shows "emits (bind (sb_open (watched_bus b) channel) (\<lambda>_.
     try_finally (try_except m is_interrupt (\<lambda>_. ret ())) (quiet_shutdown (watched_bus b)))) (streamed channel ms)"
proof -
  let ?P = "\<lambda>(r :: unit res) ts. \<exists>sent. ts = map Sent sent \<and> prefix sent ms"
  let ?Q = "\<lambda>(r :: unit res) ts. \<exists>sent. ts = map Sent sent @ [Closed] \<and> prefix sent ms"
  have open': "emits (sb_open (watched_bus b) channel) (\<lambda>r ts. ts = (case r of Inr u \<Rightarrow> [Opened channel] | Inl e \<Rightarrow> []))"
    by (simp add: watched_bus_def emits_logged)
  have body: "emits (try_except m is_interrupt (\<lambda>_. ret ())) ?P"
    by (rule emits_try_except [OF assms, where Q = "\<lambda>_ _ ts. ts = []"]) (auto simp: sent_of_def emits_ret)
  have "emits (sb_shutdown (watched_bus b)) (\<lambda>r ts. ts = [Closed])"
    by (simp add: watched_bus_def emits_logged)
  then have down: "emits (quiet_shutdown (watched_bus b)) (\<lambda>r ts. ts = [Closed])"
    unfolding quiet_shutdown_def
    by (rule emits_try_except [where Q = "\<lambda>_ _ ts. ts = []"]) (auto simp: emits_ret)
  have "emits (try_finally (try_except m is_interrupt (\<lambda>_. ret ())) (quiet_shutdown (watched_bus b))) ?Q"
    by (rule emits_finally [OF body down]) auto
  then show ?thesis
    by (rule emits_bind [OF open', where Q = "\<lambda>_. ?Q"]) (auto simp: streamed_def)
qed

text \<open>C29: however a run of a simulator ends (Ctrl-C, an error of the bus), nothing was sent unless the bus was opened,
  what was sent is whole rounds of its frames up to the point of the end, the inverter's with its counter rolling
  from 1, and the bus is shut down exactly once, as the last thing.\<close>

theorem simulators_release_bus:
  "emits (ams_main n (watched_bus b) channel state session precharge period)
     (streamed channel (concat (replicate n (map (\<lambda>(i, d). std_msg i d) (ams_build_round state session precharge))))) \<and>
   emits (inv_main n (watched_bus b) channel a period)
     (streamed channel (map (\<lambda>(i, k, d). std_msg i d) (inv_sim_rounds n a 0)))"
  unfolding ams_main_def inv_main_def by (intro conjI emits_main emits_ams_stream emits_inv_stream)

text \<open>the self tests of both simulators pass.\<close>

theorem selftests_pass: "ams_selftest \<and> inv_selftest"
  by code_simp

text \<open>The stimulus object: stopping always leaves it without a bus, however the shutdown fares, and without one it
  sends nothing.\<close>

lemma acu_stopped:
  assumes "\<And>w e. fst (sb_shutdown b w) = Inl e \<Longrightarrow> is_exception e"
  shows "\<exists>w'. acu_stop b (w, s) = (Inr (), (w', False)) \<and>
    acu_send_raw b i d ext (w', False) = (Inl (Exn RuntimeError ''AcuStim used before start()''), (w', False))"
  using assms [of w]
  by (cases s; cases "sb_shutdown b w")
    (auto simp: acu_send_raw_def acu_send_def acu_bus_def on_fst_def acu_stop_def quiet_shutdown_def io_simps split: sum.splits)

end
