(* ===== verification/Bench_Draft.thy ===== *)
theory Bench_Draft
  imports Bench_Ops
begin

text \<open>
  The rest of \<^verbatim>\<open>tools/bench.py\<close>: the draft descriptor that \<open>describe --draft\<close> writes from a probe, and the
  command itself. The text of a draft is modelled character by character; the list of
  capabilities of the schema, which is a data file, and the printing of a float are parameters.
  \<open>draft_desc\<close> and \<open>draft_expect\<close> are the values the text holds, as a descriptor that \<open>verify\<close> reads.
\<close>

section \<open>The draft\<close>

definition hexes :: "int list \<Rightarrow> string" where
  "hexes xs = ''['' @ py_join '', '' (map (\<lambda>v. ''0x'' @ hexX 2 v) xs) @ '']''"

text \<open>\<open>str\<close> of a list of integers.\<close>

definition show_ints :: "int list \<Rightarrow> string" where
  "show_ints xs = ''['' @ py_join '', '' (map show_int xs) @ '']''"

definition newline :: string where "newline = [CHR 0x0A]"

text \<open>The comment of a slot line; \<open>current_mA\<close> is rounded to one decimal by the probe and to none here.\<close>

definition slot_hint :: "slot_reading option \<Rightarrow> string res" where
  "slot_hint seated =
     (case seated of
        None \<Rightarrow> Inr []
      | Some s \<Rightarrow>
          if sr_populated s
          then (case sr_current_A s of
                  Some c \<Rightarrow> Inr (''  # carrier detected, '' @ show_int (round_even (py_round 1 (c * 1000))) @ '' mA'')
                | None \<Rightarrow> Inl (Exn TypeError ''unsupported format string passed to NoneType.__format__''))
          else Inr ''  # no carrier seated'')"

definition slot_line :: "probe_result \<Rightarrow> int \<times> int \<Rightarrow> string list res" where
  "slot_line found = (\<lambda>(slot, ina_addr).
     if ina_addr \<notin> set (pr_ina found) then Inr []
     else rbind (slot_hint (map_of (case pr_slots found of Some d \<Rightarrow> d | None \<Rightarrow> []) (show_int slot))) (\<lambda>hint.
       Inr [''  \"'' @ show_int slot @ ''\": { dut: none, ina: 0x'' @ hexX 2 ina_addr @ '' }'' @ hint]))"

definition slots_block :: "probe_result \<Rightarrow> string res" where
  "slots_block found =
     rbind (rmap (slot_line found) (zip [1, 2, 3, 4] INA_CANDIDATES)) (\<lambda>ls.
       Inr (if concat ls = [] then ''  \"1\": { dut: none }'' else py_join newline (concat ls)))"

definition link_lines :: "(rat \<Rightarrow> string) \<Rightarrow> string \<times> can_link \<Rightarrow> string list" where
  "link_lines show_float = (\<lambda>(dev, info).
     [''  '' @ dev @ '':'', ''    dev: '' @ dev,
      ''    bitrate: '' @ show_int (case cl_bitrate info of Some b \<Rightarrow> b | None \<Rightarrow> 500000)]
     @ (case cl_sample_point info of Some sp \<Rightarrow> [''    sample_point: '' @ show_float sp] | None \<Rightarrow> []))"

definition can_block :: "(rat \<Rightarrow> string) \<Rightarrow> probe_result \<Rightarrow> string" where
  "can_block show_float found =
     (let ls = concat (map (link_lines show_float) (sort_key fst (pr_can found)))
      in if ls = []
         then py_join newline [''  acu:'', ''    dev: can2'', ''    bitrate: 500000'', ''    sample_point: 0.6875'']
         else py_join newline ls)"

definition menu_block :: "string list \<Rightarrow> string" where
  "menu_block menu = py_join newline (map (\<lambda>c. ''#   - '' @ c) menu)"

definition draft_head :: "string \<Rightarrow> string list" where
  "draft_head bench_id =
     [''# Draft descriptor for '' @ bench_id @ '', generated by:'',
      ''#   python -m tools.bench describe --draft '' @ bench_id,
      ''#'',
      ''# Values under `expect`, `can` and `slots` came from a live probe of this'',
      ''# bench. Everything else is yours to fill in -- no probe can tell which DUT is'',
      ''# in which slot, what an interposer is wired to, or who to call when the bench'',
      ''# is down.'',
      ''#'',
      ''# Then:  python -m tools.bench validate'',
      ''#        python -m tools.bench verify --bench '' @ bench_id,
      '''',
      ''schema_version: 1'',
      ''id: '' @ bench_id,
      '''',
      ''owner:'',
      ''  name: FIXME'',
      ''  github: FIXME'',
      '''',
      ''board_rev: FIXME            # e.g. BACKPLANE_HIL-A'',
      ''location: FIXME'',
      '''',
      ''hosts:'',
      ''  lan: FIXME                # user@host'',
      ''  # tailscale: user@host    # recommended: lets the fleet reach it off-LAN'',
      '''',
      ''runner:'',
      ''  base_labels: [self-hosted, hil-bench]'',
      '''',
      ''# What this bench can DO. Left empty on purpose: `validate` will fail until you'',
      ''# declare it, because a wrong guess here routes other people's tests to a bench'',
      ''# that cannot run them. Name the capability, never the hardware -- `pico-ltc`'',
      ''# is rejected, `stim-cells` is what you want.'',
      ''#'',
      ''# Choose from:'']"

definition draft_wiring :: "string list" where
  "draft_wiring =
     [''capabilities: []'',
      '''',
      ''# What physically provides each capability. Documentation only, never routed on,'',
      ''# so swapping an emulator changes nothing for tests. Free-form values.'',
      ''hardware:'',
      ''  cell_temp_emulator: FIXME     # e.g. pico-ltc, real-pack'',
      ''  pack_current_source: FIXME    # e.g. dac80504'',
      ''  temp_fault: FIXME             # e.g. ntc-interposer, none'',
      '''',
      ''can:'']"

definition draft_slots_note :: "string list" where
  "draft_slots_note =
     ['''',
      ''# Detected from which INA226s answered. Set `dut` for each occupied slot'',
      ''# (ams | ecu | udv | none).'',
      ''slots:'']"

definition draft_tail :: "probe_result \<Rightarrow> string list" where
  "draft_tail found =
     ['''',
      ''# Bench-physical wiring, so no test ever hardcodes a DAC index or TCA pin.'',
      ''routing:'',
      ''  pack_current: { dac: FIXME, ch_p: FIXME, ch_n: FIXME }'',
      ''  tsms:         { tca: FIXME, port: FIXME, pin: FIXME }'',
      '''',
      ''# Probed. `verify` re-probes and diffs against this.'',
      ''expect:'',
      ''  ina:  '' @ hexes (pr_ina found),
      ''  tca:  '' @ hexes (pr_tca found),
      ''  dac:  '' @ show_ints (pr_dac found),
      ''  nrf24: '' @ (if pr_nrf24 found then ''true'' else ''false'')]"

definition draft_yaml :: "(rat \<Rightarrow> string) \<Rightarrow> string list \<Rightarrow> string \<Rightarrow> probe_result \<Rightarrow> string res" where
  "draft_yaml show_float menu bench_id found =
     rbind (slots_block found) (\<lambda>slots.
       Inr (py_join newline
         (draft_head bench_id @ [menu_block menu] @ draft_wiring @ [can_block show_float found]
          @ draft_slots_note @ [slots] @ draft_tail found) @ newline))"

text \<open>\<open>cmd_describe\<close>: \<open>write\<close> stores a file and \<open>dumps\<close> is the JSON of a probe; it returns the exit status and
  the text printed, None when it went to a file.\<close>

definition cmd_describe ::
  "(string \<Rightarrow> string \<Rightarrow> ('w, unit) io) \<Rightarrow> (probe_result \<Rightarrow> string) \<Rightarrow> (rat \<Rightarrow> string) \<Rightarrow> string list \<Rightarrow> 'w bench_env \<Rightarrow>
   bool \<Rightarrow> string \<Rightarrow> string \<Rightarrow> ('w, int \<times> string option) io"
where
  "cmd_describe write dumps show_float menu env deep draft outfile =
     bind (probe env deep) (\<lambda>result.
     bind (if draft \<noteq> [] then of_res (draft_yaml show_float menu draft result) else ret (dumps result)) (\<lambda>txt.
       if outfile \<noteq> []
       then bind (write outfile (if draft \<noteq> [] then txt else txt @ newline)) (\<lambda>_. ret (0, None))
       else ret (0, Some txt)))"

section \<open>What a draft says\<close>

definition draft_slot :: "probe_result \<Rightarrow> int \<times> int \<Rightarrow> (string \<times> slot_spec) list" where
  "draft_slot found = (\<lambda>(slot, ina_addr).
     if ina_addr \<in> set (pr_ina found)
     then [(show_int slot, \<lparr>sl_dut = Some ''none'', sl_ina = Some ina_addr\<rparr>)] else [])"

definition draft_slots :: "probe_result \<Rightarrow> (string \<times> slot_spec) list" where
  "draft_slots found =
     (let ls = concat (map (draft_slot found) (zip [1, 2, 3, 4] INA_CANDIDATES))
      in if ls = [] then [(''1'', \<lparr>sl_dut = Some ''none'', sl_ina = None\<rparr>)] else ls)"

definition draft_role :: "string \<times> can_link \<Rightarrow> string \<times> can_role" where
  "draft_role = (\<lambda>(dev, info).
     (dev, \<lparr>cr_dev = Some dev, cr_bitrate = Some (case cl_bitrate info of Some b \<Rightarrow> b | None \<Rightarrow> 500000),
            cr_sample_point = cl_sample_point info\<rparr>))"

definition draft_can :: "probe_result \<Rightarrow> (string \<times> can_role) list" where
  "draft_can found =
     (if pr_can found = []
      then [(''acu'', \<lparr>cr_dev = Some ''can2'', cr_bitrate = Some 500000, cr_sample_point = Some (6875 / 10000)\<rparr>)]
      else map draft_role (sort_key fst (pr_can found)))"

definition draft_expect :: "probe_result \<Rightarrow> expect_block" where
  "draft_expect found =
     \<lparr>ex_ina = pr_ina found, ex_tca = pr_tca found, ex_dac = pr_dac found, ex_nrf24 = Some (pr_nrf24 found)\<rparr>"

definition draft_desc :: "string \<Rightarrow> probe_result \<Rightarrow> bench_desc" where
  "draft_desc bench_id found =
     \<lparr>bd_id = bench_id, bd_capabilities = [], bd_base_labels = Some [''self-hosted'', ''hil-bench''],
      bd_slots = draft_slots found, bd_can = draft_can found, bd_routing = [], bd_expect = Some (draft_expect found)\<rparr>"

section \<open>Properties\<close>

text \<open>A probe reports each link at most once.\<close>

lemma probe_can_devs_keys:
  "probe_can_devs env devs w = (Inr ls, w') \<Longrightarrow> distinct devs \<Longrightarrow> distinct (map fst ls) \<and> set (map fst ls) \<subseteq> set devs"
proof (induction devs arbitrary: w ls w')
  case (Cons dev devs)
  obtain r w1 where 1: "try_except (bind (bn_run env (''ip -details link show '' @ dev)) (\<lambda>r. ret (Some r))) no_iproute
      (\<lambda>_. ret None) w = (r, w1)" by (rule prod.exhaust)
  show ?case
  proof (cases r)
    case (Inl e)
    with Cons.prems 1 show ?thesis by (simp add: bind_def)
  next
    case (Inr x)
    show ?thesis
    proof (cases x)
      case None
      with Cons.prems 1 Inr show ?thesis by (simp add: bind_def ret_def)
    next
      case (Some y)
      obtain rc out err where y: "y = (rc, out, err)" by (cases y)
      show ?thesis
      proof (cases "rc = 0")
        case False
        with Cons.prems 1 Inr Some y have "probe_can_devs env devs w1 = (Inr ls, w')" by (simp add: bind_def)
        with Cons show ?thesis by fastforce
      next
        case True
        with Cons.prems 1 Inr Some y obtain l ls' where "probe_can_devs env devs w1 = (Inr ls', w')" "ls = (dev, l) # ls'"
          by (auto simp: bind_def ret_def of_res_def split: prod.splits sum.splits)
        with Cons show ?thesis by fastforce
      qed
    qed
  qed
qed (simp add: ret_def)

lemma probe_links:
  assumes "probe env deep w = (Inr found, w')"
  shows "distinct (map fst (pr_can found))"
proof -
  obtain u u' ls where "probe_can_devs env [''can0'', ''can1'', ''can2''] u = (Inr ls, u')" "pr_can found = ls"
    using assms unfolding probe_def probe_can_def
    by (auto simp: bind_def ret_def simp del: probe_can_devs.simps split: prod.splits sum.splits if_splits)
  from this(1) have "distinct (map fst ls)" by (rule probe_can_devs_keys [THEN conjunct1]) simp
  with \<open>pr_can found = ls\<close> show ?thesis by simp
qed

lemma no_diff: "diff_problems key xs xs = []"
  by (simp add: diff_problems_def)

lemma drafted_role_agrees:
  "map_of (pr_can found) dev = Some info \<Longrightarrow> can_problems found (draft_role (dev, info)) = []"
  by (auto simp: can_problems_def draft_role_def SAMPLE_POINT_TOL_def split: option.splits)

text \<open>\<open>verify\<close> finds nothing wrong between a draft and the probe it was written from, provided every DAC
  answered with its id; only on a host without CAN links, where the draft falls back to a stock link, it reports
  that link missing.\<close>

theorem draft_verifies:
  assumes "probe env deep w = (Inr found, w')" and "pr_dac_bad found = []"
  shows "verify_problems (draft_desc bench_id found) (draft_expect found) found =
    (if pr_can found = [] then [CanAbsent ''acu''] else [])"
proof -
  have "concat (map (can_problems found) (map draft_role (sort_key fst (pr_can found)))) = []"
    using drafted_role_agrees [of found] map_of_is_SomeI [OF probe_links [OF assms(1)]] by auto
  then have "concat (map (can_problems found) (draft_can found)) = (if pr_can found = [] then [CanAbsent ''acu''] else [])"
    by (simp add: draft_can_def can_problems_def)
  then show ?thesis
    using assms(2) by (simp add: verify_problems_def draft_desc_def draft_expect_def no_diff dac_problems_def)
qed

definition linked_env :: "json list bench_env" where
  "linked_env = (scripted_env [])\<lparr>bn_run := (\<lambda>cmd. ret (0, '' state UP '', []))\<rparr>"

lemma linked_probe:
  "probe linked_env False [JNull, JNull, JBool False, JBool False, JBool True]
    = (Inr \<lparr>pr_broker = JNull, pr_psu_ok = None, pr_ina = [0x44], pr_tca = [], pr_dac = [], pr_dac_devid = [],
        pr_dac_bad = [], pr_dac_retries = [], pr_nrf24 = False,
        pr_can = map (\<lambda>d. (d, \<lparr>cl_up = True, cl_bitrate = None, cl_sample_point = None\<rparr>)) [''can0'', ''can1'', ''can2''],
        pr_slots = None, pr_warnings = []\<rparr>, [])"
proof -
  have "parse_link (\<lambda>s. None) '' state UP '' = Inr \<lparr>cl_up = True, cl_bitrate = None, cl_sample_point = None\<rparr>"
    by code_simp
  then have can: "probe_can linked_env [] =
      (Inr (map (\<lambda>d. (d, \<lparr>cl_up = True, cl_bitrate = None, cl_sample_point = None\<rparr>)) [''can0'', ''can1'', ''can2'']), [])"
    by (simp add: probe_can_def linked_env_def scripted_env_def io_simps)
  show ?thesis
    unfolding probe_def
    by (simp add: linked_env_def scripted_env_def io_simps try_call_def INA_CANDIDATES_def TCA_CANDIDATES_def
        DAC_CANDIDATES_def probe_dac_def probe_warnings_def psu_answer_def
        can [unfolded linked_env_def scripted_env_def, simplified])
qed

theorem draft_verifies_witness:
  "\<exists>found w'. probe linked_env False [JNull, JNull, JBool False, JBool False, JBool True] = (Inr found, w')
    \<and> pr_can found \<noteq> [] \<and> verify_problems (draft_desc ''b'' found) (draft_expect found) found = []"
  using draft_verifies [OF linked_probe, of "''b''"] by (simp add: linked_probe)

end
