(* ===== verification/Broker_Daemon.thy ===== *)
theory Broker_Daemon
  imports Server Hardware_Manager "HOL-Library.Sublist"
begin

text \<open>
  \<^verbatim>\<open>broker/server.py\<close> as a whole: the threads of all connections on the one backend, as a state machine whose
  events may come in any order, and the life of the socket file in \<open>serve\<close>. A thread takes the next line of its
  connection, runs the method the line asks for, then writes the answer.

  The methods of different connections overlap: the code has a lock per bus and none around a whole method (the
  fake backend has none at all), so a method is a sequence of sections, each of which changes the backend at
  once, and any other thread may run between two of them. How many sections a method has is left open:
  everything below holds for every way of cutting the methods, from one section per method (\<open>atomic\<close>) to one per
  load or store.
\<close>

section \<open>Methods in sections\<close>

text \<open>A running method: finished, or a section that changes the state of the backend, followed by what the
  method does next, which depends on the state it saw.\<close>

datatype 'w thread = Finished "json res" | Section "'w \<Rightarrow> 'w" "'w \<Rightarrow> 'w thread"

type_synonym 'w threaded_method = "signature \<times> (json list \<Rightarrow> 'w thread)"

text \<open>\<open>fn(**params)\<close>.\<close>

definition begin_call :: "'w threaded_method \<Rightarrow> (string \<times> json) list \<Rightarrow> 'w thread" where
  "begin_call m kws = (case bind_args (fst m) kws of Inl e \<Rightarrow> Finished (Inl e) | Inr vs \<Rightarrow> snd m vs)"

text \<open>A method that runs as a whole.\<close>

definition atomic :: "'w rpc_method \<Rightarrow> 'w threaded_method" where
  "atomic m = (fst m, \<lambda>vs. Section (\<lambda>w. snd (snd m vs w)) (\<lambda>w. Finished (fst (snd m vs w))))"

definition atomic_table :: "(string \<times> 'w rpc_method) list \<Rightarrow> (string \<times> 'w threaded_method) list" where
  "atomic_table methods = map (\<lambda>(n, m). (n, atomic m)) methods"

text \<open>The state changes a method makes until it has become another: it may find any state at each section.\<close>

inductive reaches :: "'w thread \<Rightarrow> ('w \<Rightarrow> 'w) list \<Rightarrow> 'w thread \<Rightarrow> bool" where
  start: "reaches t [] t"
| section_done: "reaches t us (Section u next) \<Longrightarrow> reaches t (us @ [u]) (next w)"

section \<open>The threads of the connections\<close>

text \<open>One connection: the lines sent and not yet read, the line whose method is running, the answer about to be
  written, the lines written, whether the client is still there and whether the thread still runs; all lines
  sent are kept for reference.\<close>

record 'w connection =
  cx_inbox :: "wire_line list"
  cx_call :: "(wire_line \<times> 'w thread) option"
  cx_answer :: "wire_line option"
  cx_written :: "wire_line list"
  cx_peer :: bool
  cx_alive :: bool
  cx_sent :: "wire_line list"

record 'w daemon =
  dm_backend :: 'w
  dm_conns :: "nat \<Rightarrow> 'w connection option"
  dm_log :: "(nat \<times> ('w \<Rightarrow> 'w)) list"

definition new_connection :: "'w connection" where
  "new_connection = \<lparr>cx_inbox = [], cx_call = None, cx_answer = None, cx_written = [], cx_peer = True,
     cx_alive = True, cx_sent = []\<rparr>"

definition daemon_init :: "'w \<Rightarrow> 'w daemon" where
  "daemon_init w = \<lparr>dm_backend = w, dm_conns = (\<lambda>k. None), dm_log = []\<rparr>"

definition put_conn :: "nat \<Rightarrow> 'w connection \<Rightarrow> 'w daemon \<Rightarrow> 'w daemon" where
  "put_conn k c D = D\<lparr>dm_conns := (dm_conns D)(k \<mapsto> c)\<rparr>"

text \<open>\<open>_Handler.handle\<close> on the next line: a blank one is skipped, one that needs no method is answered, any other
  begins the call.\<close>

definition take_line ::
  "(string \<times> 'w threaded_method) list \<Rightarrow> 'w connection \<Rightarrow> wire_line \<Rightarrow> wire_line list \<Rightarrow> 'w connection"
where
  "take_line methods c line rest =
     (if line = Blank then c\<lparr>cx_inbox := rest\<rparr>
      else case request_plan methods line of
        Reply r \<Rightarrow> c\<lparr>cx_inbox := rest, cx_answer := Some r\<rparr>
      | Invoke i m kws \<Rightarrow> c\<lparr>cx_inbox := rest, cx_call := Some (line, begin_call m kws)\<rparr>)"

text \<open>The end of the call: the result or the error is the answer, an exit ends the thread.\<close>

definition finish_call :: "'w connection \<Rightarrow> wire_line \<Rightarrow> json res \<Rightarrow> 'w connection" where
  "finish_call c line res =
     (case res of
        Inr v \<Rightarrow> c\<lparr>cx_call := None,
          cx_answer := (if request_id line = JNull then None else Some (result_line (request_id line) v))\<rparr>
      | Inl e \<Rightarrow> if is_exception e then c\<lparr>cx_call := None, cx_answer := Some (exn_response (request_id line) e)\<rparr>
                else c\<lparr>cx_call := None, cx_alive := False\<rparr>)"

text \<open>The write: a broken pipe ends the thread.\<close>

definition write_answer :: "'w connection \<Rightarrow> wire_line \<Rightarrow> 'w connection" where
  "write_answer c r =
     (if cx_peer c then c\<lparr>cx_answer := None, cx_written := cx_written c @ [r]\<rparr>
      else c\<lparr>cx_answer := None, cx_alive := False\<rparr>)"

datatype daemon_event =
  Connect nat | Send nat wire_line | Take nat | Work nat | Return nat | Answer nat | Hangup nat | EndOfFile nat

inductive daemon_step :: "(string \<times> 'w threaded_method) list \<Rightarrow> 'w daemon \<Rightarrow> daemon_event \<Rightarrow> 'w daemon \<Rightarrow> bool"
  for methods :: "(string \<times> 'w threaded_method) list"
where
  connect: "dm_conns D k = None \<Longrightarrow> daemon_step methods D (Connect k) (put_conn k new_connection D)"
| send: "dm_conns D k = Some c \<Longrightarrow> cx_peer c \<Longrightarrow>
    daemon_step methods D (Send k line)
      (put_conn k (c\<lparr>cx_inbox := cx_inbox c @ [line], cx_sent := cx_sent c @ [line]\<rparr>) D)"
| taken: "dm_conns D k = Some c \<Longrightarrow> cx_alive c \<Longrightarrow> cx_call c = None \<Longrightarrow> cx_answer c = None \<Longrightarrow>
    cx_inbox c = line # rest \<Longrightarrow> daemon_step methods D (Take k) (put_conn k (take_line methods c line rest) D)"
| work: "dm_conns D k = Some c \<Longrightarrow> cx_call c = Some (line, Section u next) \<Longrightarrow>
    daemon_step methods D (Work k) (put_conn k (c\<lparr>cx_call := Some (line, next (dm_backend D))\<rparr>)
      (D\<lparr>dm_backend := u (dm_backend D), dm_log := dm_log D @ [(k, u)]\<rparr>))"
| returned: "dm_conns D k = Some c \<Longrightarrow> cx_call c = Some (line, Finished r) \<Longrightarrow>
    daemon_step methods D (Return k) (put_conn k (finish_call c line r) D)"
| answered: "dm_conns D k = Some c \<Longrightarrow> cx_alive c \<Longrightarrow> cx_answer c = Some r \<Longrightarrow>
    daemon_step methods D (Answer k) (put_conn k (write_answer c r) D)"
| hangup: "dm_conns D k = Some c \<Longrightarrow> daemon_step methods D (Hangup k) (put_conn k (c\<lparr>cx_peer := False\<rparr>) D)"
| eof: "dm_conns D k = Some c \<Longrightarrow> \<not> cx_peer c \<Longrightarrow> cx_call c = None \<Longrightarrow> cx_answer c = None \<Longrightarrow>
    daemon_step methods D (EndOfFile k) (put_conn k (c\<lparr>cx_alive := False\<rparr>) D)"

text \<open>An event leads to at most one state.\<close>

fun daemon_next :: "(string \<times> 'w threaded_method) list \<Rightarrow> 'w daemon \<Rightarrow> daemon_event \<Rightarrow> 'w daemon option" where
  "daemon_next methods D (Connect k) =
     (if dm_conns D k = None then Some (put_conn k new_connection D) else None)"
| "daemon_next methods D (Send k line) =
     Option.bind (dm_conns D k) (\<lambda>c. if cx_peer c then
       Some (put_conn k (c\<lparr>cx_inbox := cx_inbox c @ [line], cx_sent := cx_sent c @ [line]\<rparr>) D) else None)"
| "daemon_next methods D (Take k) =
     Option.bind (dm_conns D k) (\<lambda>c. case (cx_alive c, cx_call c, cx_answer c, cx_inbox c) of
       (True, None, None, line # rest) \<Rightarrow> Some (put_conn k (take_line methods c line rest) D) | _ \<Rightarrow> None)"
| "daemon_next methods D (Work k) =
     Option.bind (dm_conns D k) (\<lambda>c. case cx_call c of
       Some (line, Section u next) \<Rightarrow> Some (put_conn k (c\<lparr>cx_call := Some (line, next (dm_backend D))\<rparr>)
         (D\<lparr>dm_backend := u (dm_backend D), dm_log := dm_log D @ [(k, u)]\<rparr>)) | _ \<Rightarrow> None)"
| "daemon_next methods D (Return k) =
     Option.bind (dm_conns D k) (\<lambda>c. case cx_call c of
       Some (line, Finished r) \<Rightarrow> Some (put_conn k (finish_call c line r) D) | _ \<Rightarrow> None)"
| "daemon_next methods D (Answer k) =
     Option.bind (dm_conns D k) (\<lambda>c. case (cx_alive c, cx_answer c) of
       (True, Some r) \<Rightarrow> Some (put_conn k (write_answer c r) D) | _ \<Rightarrow> None)"
| "daemon_next methods D (Hangup k) =
     Option.bind (dm_conns D k) (\<lambda>c. Some (put_conn k (c\<lparr>cx_peer := False\<rparr>) D))"
| "daemon_next methods D (EndOfFile k) =
     Option.bind (dm_conns D k) (\<lambda>c. if \<not> cx_peer c \<and> cx_call c = None \<and> cx_answer c = None then
       Some (put_conn k (c\<lparr>cx_alive := False\<rparr>) D) else None)"

lemma daemon_step_next: "daemon_step methods D e D' \<longleftrightarrow> daemon_next methods D e = Some D'"
proof
  show "daemon_step methods D e D' \<Longrightarrow> daemon_next methods D e = Some D'"
    by (induction rule: daemon_step.induct) simp_all
next
  assume n: "daemon_next methods D e = Some D'"
  show "daemon_step methods D e D'"
  proof (cases e)
    case (Work k)
    from n obtain c line t where c: "dm_conns D k = Some c" "cx_call c = Some (line, t)"
      by (auto simp: Work bind_eq_Some_conv split: option.splits)
    with n obtain u nxt where "t = Section u nxt" by (cases t) (auto simp: Work)
    with n c daemon_step.work [OF c(1)] show ?thesis by (auto simp: Work)
  next
    case (Return k)
    from n obtain c line t where c: "dm_conns D k = Some c" "cx_call c = Some (line, t)"
      by (auto simp: Return bind_eq_Some_conv split: option.splits)
    with n obtain r where "t = Finished r" by (cases t) (auto simp: Return)
    with n c daemon_step.returned [OF c(1)] show ?thesis by (auto simp: Return)
  next
    case (EndOfFile k)
    from n obtain c where c: "dm_conns D k = Some c" "\<not> cx_peer c" "cx_call c = None" "cx_answer c = None"
      "D' = put_conn k (c\<lparr>cx_alive := False\<rparr>) D"
      unfolding EndOfFile daemon_next.simps bind_eq_Some_conv by (metis option.distinct(1) option.inject)
    with daemon_step.eof [OF c(1-4)] show ?thesis by (simp add: EndOfFile)
  qed (use n in \<open>auto simp: bind_eq_Some_conv split: if_splits option.splits list.splits bool.splits
      intro: daemon_step.intros\<close>)
qed

inductive daemon_run :: "(string \<times> 'w threaded_method) list \<Rightarrow> 'w daemon \<Rightarrow> daemon_event list \<Rightarrow> 'w daemon \<Rightarrow> bool"
  for methods :: "(string \<times> 'w threaded_method) list"
where
  nil: "daemon_run methods D [] D"
| snoc: "daemon_run methods D es D1 \<Longrightarrow> daemon_step methods D1 e D2 \<Longrightarrow> daemon_run methods D (es @ [e]) D2"

section \<open>What a connection is told\<close>

definition of_conn :: "nat \<Rightarrow> (nat \<times> 'a) list \<Rightarrow> 'a list" where
  "of_conn k xs = map snd (filter (\<lambda>x. fst x = k) xs)"

lemma of_conn_simps [simp]:
  "of_conn k [] = []" "of_conn k (xs @ ys) = of_conn k xs @ of_conn k ys"
  "of_conn k ((j, x) # xs) = (if j = k then x # of_conn k xs else of_conn k xs)"
  by (simp_all add: of_conn_def)

definition not_blank :: "wire_line list \<Rightarrow> wire_line list" where
  "not_blank ls = filter (\<lambda>l. l \<noteq> Blank) ls"

text \<open>A line may be dealt with by the state changes \<open>us\<close> and the answer \<open>a\<close>: without a call, or by a complete
  run of its method, whatever the states the run found.\<close>

inductive dealt_with :: "(string \<times> 'w threaded_method) list \<Rightarrow> wire_line \<Rightarrow> ('w \<Rightarrow> 'w) list \<Rightarrow> wire_line option \<Rightarrow> bool"
  for methods :: "(string \<times> 'w threaded_method) list"
where
  without_call: "request_plan methods line = Reply r \<Longrightarrow> dealt_with methods line [] (Some r)"
| by_result: "request_plan methods line = Invoke i m kws \<Longrightarrow> reaches (begin_call m kws) us (Finished (Inr v)) \<Longrightarrow>
    dealt_with methods line us (if i = JNull then None else Some (result_line i v))"
| by_error: "request_plan methods line = Invoke i m kws \<Longrightarrow> reaches (begin_call m kws) us (Finished (Inl e)) \<Longrightarrow>
    is_exception e \<Longrightarrow> dealt_with methods line us (Some (exn_response i e))"

text \<open>The answers carry the identifier of their line; only a line without one may go unanswered.\<close>

lemma dealt_with_id:
  "dealt_with methods line us a \<Longrightarrow>
   (case a of Some r \<Rightarrow> answers (request_id line) r | None \<Rightarrow> request_id line = JNull)"
proof (induction rule: dealt_with.induct)
  case (without_call line r)
  with plan_reply [OF without_call] show ?case by auto
qed (auto dest: plan_id)

text \<open>For methods that run as a whole these are the answers and the effects of \<open>handle_request\<close>.\<close>

lemma plan_atomic:
  "request_plan (atomic_table methods) line =
     (case request_plan methods line of Reply r \<Rightarrow> Reply r | Invoke i m kws \<Rightarrow> Invoke i (atomic m) kws)"
proof -
  have "map_of (atomic_table methods) n = map_option atomic (map_of methods n)" for n
    by (induction methods) (auto simp: atomic_table_def)
  then show ?thesis
    by (cases line) (auto simp: request_plan_def Let_def split: json.split option.split)
qed

lemma reaches_finished: "reaches t us t' \<Longrightarrow> t = Finished r \<Longrightarrow> us = [] \<and> t' = Finished r"
  by (induction rule: reaches.induct) auto

lemma reaches_section:
  "reaches t us t' \<Longrightarrow> t = Section u (\<lambda>w. Finished (f w)) \<Longrightarrow>
   us = [] \<and> t' = t \<or> us = [u] \<and> (\<exists>w. t' = Finished (f w))"
  by (induction rule: reaches.induct) auto

lemma dealt_with_atomic:
  assumes "dealt_with (atomic_table methods) line us a"
  shows "\<exists>w. handle_request methods line w = (Inr a, foldl (\<lambda>v u. u v) w us)"
proof (cases "request_plan methods line")
  case (Reply r)
  with assms show ?thesis by cases (auto simp: plan_atomic handle_request_plan io_simps)
next
  case (Invoke i m kws)
  obtain sg fn where m: "m = (sg, fn)" by force
  from assms obtain x where run: "reaches (begin_call (atomic m) kws) us (Finished x)"
    and a: "a = (case x of Inr v \<Rightarrow> if i = JNull then None else Some (result_line i v) | Inl e \<Rightarrow> Some (exn_response i e))"
    and e: "\<And>e. x = Inl e \<Longrightarrow> is_exception e"
  proof cases
    case (by_result i' m' kws' v)
    with that [of "Inr v"] show thesis by (simp add: plan_atomic Invoke)
  next
    case (by_error i' m' kws' e)
    with that [of "Inl e"] show thesis by (simp add: plan_atomic Invoke)
  qed (simp add: plan_atomic Invoke)
  show ?thesis
  proof (cases "bind_args sg kws")
    case (Inl e')
    with run have "us = []" "x = Inl e'" by (auto simp: begin_call_def atomic_def m dest!: reaches_finished)
    with a e Inl Invoke m show ?thesis by (auto simp: handle_request_plan respond_cases apply_unbound io_simps)
  next
    case (Inr vs)
    with run have "us = [\<lambda>w. snd (fn vs w)] \<and> (\<exists>w. x = fst (fn vs w))"
      by (auto simp: begin_call_def atomic_def m dest!: reaches_section)
    then obtain w where "us = [\<lambda>w. snd (fn vs w)]" "x = fst (fn vs w)" by blast
    with a e Inr Invoke m show ?thesis
      by (intro exI [of _ w]) (cases "fn vs w"; cases x; auto simp: handle_request_plan respond_cases apply_bound)
  qed
qed

section \<open>The history of a connection\<close>

text \<open>The line in work and the sections its method has done, none when no method runs.\<close>

definition in_work ::
  "(string \<times> 'w threaded_method) list \<Rightarrow> wire_line option \<Rightarrow> wire_line list \<Rightarrow> ('w \<Rightarrow> 'w) list \<Rightarrow>
   (wire_line \<times> 'w thread) option \<Rightarrow> bool"
where
  "in_work methods answer cur tail call \<longleftrightarrow>
     (case call of
        None \<Rightarrow> cur = [] \<and> tail = []
      | Some (line, t) \<Rightarrow> answer = None \<and> cur = [line] \<and>
          (\<exists>i m kws. request_plan methods line = Invoke i m kws \<and> reaches (begin_call m kws) tail t))"

lemma in_work_simps [simp]:
  "in_work methods answer cur tail None \<longleftrightarrow> cur = [] \<and> tail = []"
  "in_work methods answer cur tail (Some (line, t)) \<longleftrightarrow> answer = None \<and> cur = [line] \<and>
      (\<exists>i m kws. request_plan methods line = Invoke i m kws \<and> reaches (begin_call m kws) tail t)"
  by (simp_all add: in_work_def)

text \<open>
  The state changes \<open>acts\<close> of a thread and what it has written come from a history of lines dealt with one after
  the other, in the order sent: \<open>cur\<close> is the line in work, \<open>tail\<close> the sections it has done. A thread that ended may
  have left its last line or its last answer.
\<close>

definition conn_ok :: "(string \<times> 'w threaded_method) list \<Rightarrow> ('w \<Rightarrow> 'w) list \<Rightarrow> 'w connection \<Rightarrow> bool" where
  "conn_ok methods acts c \<longleftrightarrow>
     (\<exists>hist cur tail.
        not_blank (cx_sent c) = map fst hist @ cur @ not_blank (cx_inbox c)
      \<and> acts = concat (map (fst \<circ> snd) hist) @ tail
      \<and> (\<forall>(line, us, a) \<in> set hist. dealt_with methods line us a)
      \<and> (if cx_alive c then
           List.map_filter (snd \<circ> snd) hist = cx_written c @ (case cx_answer c of None \<Rightarrow> [] | Some r \<Rightarrow> [r])
         \<and> in_work methods (cx_answer c) cur tail (cx_call c)
         else cx_call c = None \<and> cx_answer c = None \<and> length cur \<le> 1
           \<and> prefix (cx_written c) (List.map_filter (snd \<circ> snd) hist)))"

definition history_ok :: "(string \<times> 'w threaded_method) list \<Rightarrow> 'w \<Rightarrow> 'w daemon \<Rightarrow> bool" where
  "history_ok methods w D \<longleftrightarrow>
     dm_backend D = foldl (\<lambda>v u. u v) w (map snd (dm_log D)) \<and>
     (\<forall>k. dm_conns D k = None \<longrightarrow> of_conn k (dm_log D) = []) \<and>
     (\<forall>k c. dm_conns D k = Some c \<longrightarrow> conn_ok methods (of_conn k (dm_log D)) c)"

lemma history_conn: "history_ok methods w D \<Longrightarrow> dm_conns D k = Some c \<Longrightarrow> conn_ok methods (of_conn k (dm_log D)) c"
  by (simp add: history_ok_def)

text \<open>A step that leaves the backend alone has to account for its own connection only.\<close>

lemma history_put:
  "history_ok methods w D \<Longrightarrow> conn_ok methods (of_conn k (dm_log D)) c \<Longrightarrow> history_ok methods w (put_conn k c D)"
  by (simp add: history_ok_def put_conn_def)

lemma conn_okI:
  assumes "not_blank (cx_sent c) = map fst hist @ cur @ not_blank (cx_inbox c)"
    "acts = concat (map (fst \<circ> snd) hist) @ tail" "\<forall>(line, us, a) \<in> set hist. dealt_with methods line us a"
    "if cx_alive c then
           List.map_filter (snd \<circ> snd) hist = cx_written c @ (case cx_answer c of None \<Rightarrow> [] | Some r \<Rightarrow> [r])
         \<and> in_work methods (cx_answer c) cur tail (cx_call c)
         else cx_call c = None \<and> cx_answer c = None \<and> length cur \<le> 1
           \<and> prefix (cx_written c) (List.map_filter (snd \<circ> snd) hist)"
  shows "conn_ok methods acts c"
  unfolding conn_ok_def using assms by blast

lemma not_blank_simps [simp]:
  "not_blank [] = []" "not_blank (l # ls) = (if l = Blank then not_blank ls else l # not_blank ls)"
  "not_blank (ls @ ls') = not_blank ls @ not_blank ls'"
  by (simp_all add: not_blank_def)

lemma filter_snoc:
  "List.map_filter f (xs @ [x]) = List.map_filter f xs @ (case f x of None \<Rightarrow> [] | Some y \<Rightarrow> [y])"
  by (simp add: List.map_filter_def split: option.split)

lemma ok_new: "conn_ok methods [] new_connection"
  by (rule conn_okI [of _ "[]" "[]" _ "[]"]) (simp_all add: new_connection_def List.map_filter_def)

lemma ok_send:
  assumes "conn_ok methods acts c"
  shows "conn_ok methods acts (c\<lparr>cx_inbox := cx_inbox c @ [line], cx_sent := cx_sent c @ [line]\<rparr>)"
  using assms unfolding conn_ok_def by (simp split del: if_split cong: if_cong)

lemma ok_take:
  assumes "conn_ok methods acts c" "cx_alive c" "cx_call c = None" "cx_answer c = None" "cx_inbox c = line # rest"
  shows "conn_ok methods acts (take_line methods c line rest)"
proof (cases "line = Blank")
  case True
  with assms show ?thesis unfolding conn_ok_def by (simp add: take_line_def)
next
  case False
  from assms obtain hist where h: "not_blank (cx_sent c) = map fst hist @ line # not_blank rest"
    "acts = concat (map (fst \<circ> snd) hist)" "\<forall>(line, us, a) \<in> set hist. dealt_with methods line us a"
    "List.map_filter (snd \<circ> snd) hist = cx_written c"
    using False unfolding conn_ok_def by auto
  show ?thesis
  proof (cases "request_plan methods line")
    case (Reply r)
    from without_call [OF Reply] h assms(2,3) False Reply show ?thesis
      by (intro conn_okI [of _ "hist @ [(line, [], Some r)]" "[]" _ "[]"])
        (auto simp: take_line_def filter_snoc)
  next
    case (Invoke i m kws)
    from h assms(2,3,4) False Invoke show ?thesis
      by (intro conn_okI [of _ hist "[line]" _ "[]"]) (auto simp: take_line_def intro: reaches.start)
  qed
qed

lemma ok_call_alive: "conn_ok methods acts c \<Longrightarrow> cx_call c = Some lt \<Longrightarrow> cx_alive c"
  unfolding conn_ok_def by (auto split: if_splits)

lemma ok_call:
  assumes "conn_ok methods acts c" "cx_call c = Some (line, t)"
  obtains hist tail i m kws where "not_blank (cx_sent c) = map fst hist @ line # not_blank (cx_inbox c)"
    "acts = concat (map (fst \<circ> snd) hist) @ tail" "\<forall>(line, us, a) \<in> set hist. dealt_with methods line us a"
    "List.map_filter (snd \<circ> snd) hist = cx_written c" "cx_answer c = None" "cx_alive c"
    "request_plan methods line = Invoke i m kws" "reaches (begin_call m kws) tail t"
  using assms ok_call_alive [OF assms] unfolding conn_ok_def by auto

lemma ok_work:
  assumes "conn_ok methods acts c" "cx_call c = Some (line, Section u nxt)"
  shows "conn_ok methods (acts @ [u]) (c\<lparr>cx_call := Some (line, nxt w)\<rparr>)"
proof -
  from ok_call [OF assms] obtain hist tail i m kws where
    h: "not_blank (cx_sent c) = map fst hist @ line # not_blank (cx_inbox c)"
      "acts = concat (map (fst \<circ> snd) hist) @ tail" "\<forall>(line, us, a) \<in> set hist. dealt_with methods line us a"
      "List.map_filter (snd \<circ> snd) hist = cx_written c" "cx_answer c = None" "cx_alive c"
      "request_plan methods line = Invoke i m kws" "reaches (begin_call m kws) tail (Section u nxt)" .
  from section_done [OF h(8)] h(1-7) show ?thesis
    by (intro conn_okI [of _ hist "[line]" _ "tail @ [u]"]) auto
qed

lemma ok_return:
  assumes "conn_ok methods acts c" "cx_call c = Some (line, Finished r)"
  shows "conn_ok methods acts (finish_call c line r)"
proof -
  from ok_call [OF assms] obtain hist tail i m kws where
    h: "not_blank (cx_sent c) = map fst hist @ line # not_blank (cx_inbox c)"
      "acts = concat (map (fst \<circ> snd) hist) @ tail" "\<forall>(line, us, a) \<in> set hist. dealt_with methods line us a"
      "List.map_filter (snd \<circ> snd) hist = cx_written c" "cx_answer c = None" "cx_alive c"
      "request_plan methods line = Invoke i m kws" "reaches (begin_call m kws) tail (Finished r)" .
  have i: "request_id line = i" by (rule plan_id [OF h(7)])
  show ?thesis
  proof (cases r)
    case (Inr v)
    with by_result [OF h(7), of tail v] h i show ?thesis
      by (intro conn_okI [of _ "hist @ [(line, tail, if i = JNull then None else Some (result_line i v))]" "[]" _ "[]"])
        (auto simp: finish_call_def filter_snoc)
  next
    case (Inl e)
    show ?thesis
    proof (cases "is_exception e")
      case True
      with by_error [OF h(7), of tail e] h i Inl show ?thesis
        by (intro conn_okI [of _ "hist @ [(line, tail, Some (exn_response i e))]" "[]" _ "[]"])
          (auto simp: finish_call_def filter_snoc)
    next
      case False
      with h Inl show ?thesis
        by (intro conn_okI [of _ hist "[line]" _ tail]) (auto simp: finish_call_def)
    qed
  qed
qed

lemma ok_answer:
  assumes "conn_ok methods acts c" "cx_alive c" "cx_answer c = Some r"
  shows "conn_ok methods acts (write_answer c r)"
proof -
  have call: "cx_call c = None" using assms unfolding conn_ok_def by (cases "cx_call c") auto
  with assms obtain hist where "not_blank (cx_sent c) = map fst hist @ not_blank (cx_inbox c)"
    "acts = concat (map (fst \<circ> snd) hist)" "\<forall>(line, us, a) \<in> set hist. dealt_with methods line us a"
    "List.map_filter (snd \<circ> snd) hist = cx_written c @ [r]" "cx_call c = None"
    unfolding conn_ok_def by auto
  then show ?thesis
    using assms(2) by (intro conn_okI [of _ hist "[]" _ "[]"]) (auto simp: write_answer_def)
qed

lemma ok_hangup: "conn_ok methods acts c \<Longrightarrow> conn_ok methods acts (c\<lparr>cx_peer := False\<rparr>)"
  unfolding conn_ok_def by (simp split del: if_split cong: if_cong)

lemma ok_eof:
  assumes "conn_ok methods acts c" "cx_call c = None" "cx_answer c = None"
  shows "conn_ok methods acts (c\<lparr>cx_alive := False\<rparr>)"
proof (cases "cx_alive c")
  case True
  with assms obtain hist where "not_blank (cx_sent c) = map fst hist @ not_blank (cx_inbox c)"
    "acts = concat (map (fst \<circ> snd) hist)" "\<forall>(line, us, a) \<in> set hist. dealt_with methods line us a"
    "List.map_filter (snd \<circ> snd) hist = cx_written c"
    unfolding conn_ok_def by auto
  with assms(2,3) show ?thesis by (intro conn_okI [of _ hist "[]" _ "[]"]) auto
next
  case False
  then have "c\<lparr>cx_alive := False\<rparr> = c" by simp
  with assms(1) show ?thesis by simp
qed

lemma history_work:
  assumes "history_ok methods w D" "dm_conns D k = Some c" "cx_call c = Some (line, Section u nxt)"
  shows "history_ok methods w (put_conn k (c\<lparr>cx_call := Some (line, nxt (dm_backend D))\<rparr>)
      (D\<lparr>dm_backend := u (dm_backend D), dm_log := dm_log D @ [(k, u)]\<rparr>))"
  using assms(1) ok_work [OF history_conn [OF assms(1,2)] assms(3)]
  by (auto simp: history_ok_def put_conn_def)

lemma step_history: "daemon_step methods D e D' \<Longrightarrow> history_ok methods w D \<Longrightarrow> history_ok methods w D'"
proof (induction rule: daemon_step.induct)
  case (connect D k)
  then have "of_conn k (dm_log D) = []" by (simp add: history_ok_def)
  with connect show ?case by (intro history_put) (simp_all add: ok_new)
next
  case (work D k c line u nxt)
  then show ?case by (intro history_work)
qed (auto intro!: history_put intro: ok_send ok_take ok_return ok_answer ok_hangup ok_eof dest: history_conn)

lemma run_history: "daemon_run methods D es D' \<Longrightarrow> history_ok methods w D \<Longrightarrow> history_ok methods w D'"
  by (induction rule: daemon_run.induct) (auto intro: step_history)

lemma init_history: "history_ok methods w (daemon_init w)"
  by (simp add: history_ok_def daemon_init_def)

lemma run_next: "daemon_next methods D e = Some D1 \<Longrightarrow> daemon_run methods D1 es D2 \<Longrightarrow> daemon_run methods D (e # es) D2"
proof -
  assume e: "daemon_next methods D e = Some D1" and es: "daemon_run methods D1 es D2"
  have "daemon_run methods D ([] @ [e]) D1" by (rule daemon_run.snoc [OF daemon_run.nil]) (simp add: daemon_step_next e)
  moreover have "daemon_run methods D1 es D2 \<Longrightarrow> daemon_run methods D es' D1 \<Longrightarrow> daemon_run methods D (es' @ es) D2" for es'
    by (induction rule: daemon_run.induct) (auto simp: append_assoc [symmetric] simp del: append_assoc intro: daemon_run.snoc)
  ultimately show ?thesis using es by fastforce
qed

text \<open>An invariant that every section of every method keeps holds whatever the connections do.\<close>

primrec keeps_thread :: "('w \<Rightarrow> bool) \<Rightarrow> 'w thread \<Rightarrow> bool" where
  "keeps_thread good (Finished r) \<longleftrightarrow> True"
| "keeps_thread good (Section u nxt) \<longleftrightarrow> (\<forall>w. good w \<longrightarrow> good (u w)) \<and> (\<forall>w. keeps_thread good (nxt w))"

lemma reaches_keeps: "reaches t us t' \<Longrightarrow> keeps_thread good t \<Longrightarrow> keeps_thread good t' \<and> (\<forall>u\<in>set us. \<forall>w. good w \<longrightarrow> good (u w))"
  by (induction rule: reaches.induct) auto

lemma begin_keeps:
  "(\<And>n m vs. (n, m) \<in> set methods \<Longrightarrow> keeps_thread good (snd m vs)) \<Longrightarrow>
   request_plan methods line = Invoke i m kws \<Longrightarrow> keeps_thread good (begin_call m kws)"
  by (cases m) (auto simp: begin_call_def dest!: plan_set split: sum.split)

lemma daemon_keeps:
  assumes ok: "\<And>n m vs. (n, m) \<in> set methods \<Longrightarrow> keeps_thread good (snd m vs)"
    and "history_ok methods w D" "daemon_run methods D es D'" "good (dm_backend D)"
  shows "good (dm_backend D')"
  using assms(3,2,4)
proof (induction rule: daemon_run.induct)
  case (snoc D0 es D1 e D2)
  then have "good (dm_backend D1)" by simp
  have h: "history_ok methods w D1" by (rule run_history [OF snoc.hyps(1) snoc.prems(1)])
  from snoc.hyps(2) h \<open>good (dm_backend D1)\<close> show ?case
  proof (induction rule: daemon_step.induct)
    case (work D k c line u nxt)
    from ok_call [OF history_conn [OF work(3,1)] work(2)] obtain i m kws tail where
      p: "request_plan methods line = Invoke i m kws" and r: "reaches (begin_call m kws) tail (Section u nxt)" by metis
    have "keeps_thread good (begin_call m kws)" by (rule begin_keeps [OF ok p])
    with reaches_keeps [OF r] have "keeps_thread good (Section u nxt)" by blast
    with work show ?case by (simp add: put_conn_def)
  qed (simp_all add: put_conn_def)
qed

section \<open>The socket file\<close>

text \<open>The file system and the listening socket, and which of the calls raise.\<close>

datatype socket_call = Unlink | Mkdir | Listen | Chmod | FinalUnlink

record socket_world =
  sk_file :: bool
  sk_mode :: int
  sk_listening :: bool
  sk_fails :: "socket_call \<Rightarrow> exn option"

definition socket_op :: "socket_call \<Rightarrow> (socket_world \<Rightarrow> socket_world) \<Rightarrow> (socket_world, unit) io" where
  "socket_op call f = bind (reads sk_fails) (\<lambda>fails. case fails call of Some e \<Rightarrow> raise e | None \<Rightarrow> modify f)"

definition make_server :: "(socket_world, unit) io" where
  "make_server =
     bind (reads sk_file) (\<lambda>exists.
     bind (whenever exists (socket_op Unlink (\<lambda>s. s\<lparr>sk_file := False\<rparr>))) (\<lambda>_.
     bind (socket_op Mkdir id) (\<lambda>_.
     bind (socket_op Listen (\<lambda>s. s\<lparr>sk_file := True, sk_listening := True\<rparr>)) (\<lambda>_.
     socket_op Chmod (\<lambda>s. s\<lparr>sk_mode := 0x1B0\<rparr>)))))"

definition serve :: "('w, unit) io \<Rightarrow> ('w \<times> socket_world, unit) io" where
  "serve serve_forever =
     bind (on_conn make_server) (\<lambda>_.
     try_finally (on_backend serve_forever)
       (bind (on_conn (modify (\<lambda>s. s\<lparr>sk_listening := False\<rparr>))) (\<lambda>_.
        try_except (on_conn (socket_op FinalUnlink (\<lambda>s. s\<lparr>sk_file := False\<rparr>))) is_os_error (\<lambda>_. ret ()))))"

text \<open>\<open>main\<close>: the two backends.\<close>

definition daemon_main :: "bool \<Rightarrow> ('w, unit) io \<Rightarrow> ('w, unit) io \<Rightarrow> ('w \<times> socket_world, int) io" where
  "daemon_main fake serve_fake serve_hardware =
     bind (serve (if fake then serve_fake else serve_hardware)) (\<lambda>_. ret 0)"

text \<open>\<open>BrokerClient.close\<close>, also the exit of its context.\<close>

definition broker_client_close :: "('w, unit) io \<Rightarrow> ('w, unit) io \<Rightarrow> ('w, unit) io \<Rightarrow> ('w, unit) io" where
  "broker_client_close close_reader close_writer close_socket =
     try_finally (bind close_reader (\<lambda>_. close_writer)) close_socket"

lemma make_server_listens:
  "make_server s = (Inr (), s') \<Longrightarrow> sk_listening s' \<and> sk_file s' \<and> sk_mode s' = 0x1B0 \<and> sk_fails s' = sk_fails s"
  by (auto simp: make_server_def socket_op_def io_simps split: option.splits if_splits prod.splits sum.splits)

lemma serve_leaves_nothing:
  assumes "serve body (w, s) = (r, w', s')" "make_server s = (Inr (), s1)"
  shows "\<not> sk_listening s' \<and> (sk_fails s FinalUnlink = None \<longrightarrow> \<not> sk_file s' \<and> fst (body w) = r) \<and> w' = snd (body w)"
proof -
  obtain q v where b: "body w = (q, v)" by (rule prod.exhaust)
  have f: "sk_fails s1 = sk_fails s" using make_server_listens [OF assms(2)] by simp
  show ?thesis
  proof (cases "sk_fails s FinalUnlink")
    case None
    with assms(1) show ?thesis
      by (simp add: serve_def on_conn_def on_backend_def socket_op_def io_simps assms(2) b f) (cases q; auto)
  next
    case (Some e)
    with assms(1) show ?thesis
      by (simp add: serve_def on_conn_def on_backend_def socket_op_def io_simps assms(2) b f)
        (cases q; cases "is_os_error e"; auto simp: ret_def)
  qed
qed

section \<open>Properties\<close>

text \<open>C11: however the threads of the connections interleave, between the lines and inside the methods, a
  connection is served as if it were alone with a backend that others change. There is a history of its lines,
  in the order sent, each dealt with completely before the next: by an answer without a call, or by one complete
  run of its own method with the result or the error of that run as the answer, under its own identifier,
  unanswered only without one. The lines written are the answers of the history in order, up to one in the
  hand of the thread; the state changes its thread made are those of the history and of the one line in
  work. A thread that ended (broken pipe, end of file, exit) may have left its last answer unwritten or its
  last line undone. The state of the backend is what the sections of all connections make of the first one.\<close>

theorem connections_served_in_order:
  assumes "daemon_run methods (daemon_init w) es D"
  shows "dm_backend D = foldl (\<lambda>v u. u v) w (map snd (dm_log D))
    \<and> (\<forall>k c. dm_conns D k = Some c \<longrightarrow>
         (\<exists>hist cur tail.
            not_blank (cx_sent c) = map fst hist @ cur @ not_blank (cx_inbox c)
          \<and> of_conn k (dm_log D) = concat (map (fst \<circ> snd) hist) @ tail
          \<and> (\<forall>(line, us, a) \<in> set hist. dealt_with methods line us a \<and>
               (case a of Some r \<Rightarrow> answers (request_id line) r | None \<Rightarrow> request_id line = JNull))
          \<and> (if cx_alive c then
               List.map_filter (snd \<circ> snd) hist = cx_written c @ (case cx_answer c of None \<Rightarrow> [] | Some r \<Rightarrow> [r])
             \<and> in_work methods (cx_answer c) cur tail (cx_call c)
             else length cur \<le> 1 \<and> prefix (cx_written c) (List.map_filter (snd \<circ> snd) hist))))"
proof -
  have h: "history_ok methods w D" by (rule run_history [OF assms init_history])
  then have "dm_backend D = foldl (\<lambda>v u. u v) w (map snd (dm_log D))" by (simp add: history_ok_def)
  moreover have "\<exists>hist cur tail. not_blank (cx_sent c) = map fst hist @ cur @ not_blank (cx_inbox c)
          \<and> of_conn k (dm_log D) = concat (map (fst \<circ> snd) hist) @ tail
          \<and> (\<forall>(line, us, a) \<in> set hist. dealt_with methods line us a \<and>
               (case a of Some r \<Rightarrow> answers (request_id line) r | None \<Rightarrow> request_id line = JNull))
          \<and> (if cx_alive c then
               List.map_filter (snd \<circ> snd) hist = cx_written c @ (case cx_answer c of None \<Rightarrow> [] | Some r \<Rightarrow> [r])
             \<and> in_work methods (cx_answer c) cur tail (cx_call c)
             else length cur \<le> 1 \<and> prefix (cx_written c) (List.map_filter (snd \<circ> snd) hist))"
    if "dm_conns D k = Some c" for k c
    using history_conn [OF h that] dealt_with_id [of methods] unfolding conn_ok_def
    by (elim exE conjE, intro exI conjI) (assumption | fastforce split: if_splits)+
  ultimately show ?thesis by blast
qed

text \<open>A method that counts in two sections, a load and a store, as \<open>self._op_count += 1\<close> does: two connections that
  overlap lose an increment, and both are answered.\<close>

definition counting_table :: "(string \<times> nat threaded_method) list" where
  "counting_table =
     [(''inc'', sig_of [], \<lambda>vs. Section (\<lambda>w. w) (\<lambda>w. Section (\<lambda>_. Suc w) (\<lambda>_. Finished (Inr (JInt (1 + int w))))))]"

theorem connections_served_in_order_witness:
  "\<exists>D. daemon_run counting_table (daemon_init 0)
       [Connect 0, Connect 1, Send 0 (request (JInt 1) ''inc'' []), Send 1 (request (JInt 7) ''inc'' []),
        Take 1, Work 1, Take 0, Work 0, Work 0, Return 0, Answer 0, Work 1, Return 1, Answer 1] D
     \<and> dm_backend D = 1 \<and> map_option cx_written (dm_conns D 0) = Some [result_line (JInt 1) (JInt 1)]
     \<and> map_option cx_written (dm_conns D 1) = Some [result_line (JInt 7) (JInt 1)]
     \<and> dm_backend D = foldl (\<lambda>v u. u v) 0 (map snd (dm_log D))"
proof -
  let ?a = "request (JInt 1) ''inc'' []" and ?b = "request (JInt 7) ''inc'' []"
  let ?t = "Section (\<lambda>w. w) (\<lambda>w. Section (\<lambda>_. Suc w) (\<lambda>_. Finished (Inr (JInt (1 + int w)))))"
  have plan: "request_plan counting_table (request i ''inc'' []) = Invoke i ([], \<lambda>vs. ?t) []" for i
    by (simp add: counting_table_def request_def request_plan_def get_or_none_def sig_of_def)
  have begun: "begin_call ([], \<lambda>vs. ?t) [] = ?t" by (simp add: begin_call_def bind_args_def)
  have nb: "?a \<noteq> Blank" "?b \<noteq> Blank" "request_id ?a = JInt 1" "request_id ?b = JInt 7"
    by (simp_all add: request_def get_or_none_def)
  note steps = daemon_init_def put_conn_def new_connection_def take_line_def plan begun nb finish_call_def write_answer_def
  obtain D where D: "daemon_run counting_table (daemon_init 0)
      [Connect 0, Connect 1, Send 0 ?a, Send 1 ?b,
       Take 1, Work 1, Take 0, Work 0, Work 0, Return 0, Answer 0, Work 1, Return 1, Answer 1] D"
    "dm_backend D = 1" "map_option cx_written (dm_conns D 0) = Some [result_line (JInt 1) (JInt 1)]"
    "map_option cx_written (dm_conns D 1) = Some [result_line (JInt 7) (JInt 1)]"
    by (atomize_elim, intro exI conjI, (rule run_next, simp add: steps)+, rule daemon_run.nil) (simp_all add: steps)
  with connections_served_in_order [OF D(1)] show ?thesis by blast
qed

text \<open>Both backends keep their invariants under any threads, where their methods run as a whole.\<close>

lemma atomic_keeps:
  assumes "rpc_service methods good" "(n, m) \<in> set (atomic_table methods)"
  shows "keeps_thread good (snd m vs)"
proof -
  obtain m' where m: "(n, m') \<in> set methods" "m = atomic m'" using assms(2) by (auto simp: atomic_table_def)
  with rpc_service.method_keeps [OF assms(1) m(1)] show ?thesis
    by (auto simp: atomic_def keeps_def split: prod.splits)
qed

lemma backend_keeps:
  assumes "rpc_service methods good" "good v" "daemon_run (atomic_table methods) (daemon_init v) es D"
  shows "good (dm_backend D)"
  using daemon_keeps [OF atomic_keeps [OF assms(1)] init_history assms(3)] assms(2) by (simp add: daemon_init_def)

theorem backends_safe_under_threads:
  "fake_inv v \<Longrightarrow> daemon_run (atomic_table (build_method_table (fake_backend fl))) (daemon_init v) es D \<Longrightarrow>
     fake_inv (dm_backend D)"
  "hm_inv m \<Longrightarrow> daemon_run (atomic_table (build_method_table (hm_backend env))) (daemon_init m) es D' \<Longrightarrow>
     hm_inv (dm_backend D')"
  using backend_keeps [OF fake_rpc.rpc_service_axioms] backend_keeps [OF hm_rpc.rpc_service_axioms] by blast+

end
