(* ===== verification/Spec2Isabelle.thy ===== *)
theory Spec2Isabelle
  imports Ams_Can_Map Vcu_Can_Map Can_Observer Can_Sims Bms_Emulator Hw_Config Hil_Client Can_Flash Bench_Ops Flash_Dut Pico_Client Dashboard Boot_Trigger Ltc_Chain Flasher_Cli Kpi_Plugin Drive_Active Bus_Scans Pico_Probes Sim_Mains Bench_Draft Broker_Daemon
begin

text \<open>
  A model of the IFS hardware-in-the-loop rig software (the Python code under \<^verbatim>\<open>src/\<close>), and the theorems that make
  it correct. Paths are relative to \<^verbatim>\<open>src/\<close>.

  \<^bold>\<open>The program and how its parts interact.\<close> A Raspberry Pi drives a backplane over SPI, I2C, GPIO and CAN. The
  \<^emph>\<open>broker\<close> owns the hardware: a Unix socket on which every client (the dashboard, the bench command, the flashers,
  the tests) sends JSON requests, one thread per connection, dispatched to a \<^emph>\<open>backend\<close> that is the real hardware
  or an in-memory fake. Beside it stand the \<^emph>\<open>flashers\<close>, which write firmware to the devices under test over CAN;
  the \<^emph>\<open>bench command\<close>, which resolves and verifies bench descriptors and recovers a bench; the \<^emph>\<open>test tools\<close>:
  frame maps, simulators, the BMS emulator, an observer, the host of the Pico cell emulator and its probes; and the
  \<^emph>\<open>dashboard\<close> with its CAN tracer. A call goes proxy, client, socket, handler thread, dispatcher, backend,
  driver, bus, and the theories below are stacked in that order.

  \<^bold>\<open>Foundations.\<close>
  \<^item> Prelude: exceptions as values; a program \<open>('w, 'a) io\<close> maps a world to a result or an exception and the world it
    leaves, so what was done before an exception stays done; \<open>keeps I\<close> is the invariant rule set; Python's indexing,
    slices, byte codings, bit masks and number formats. Trace: programs that record events, and what they emit.
  \<^item> Py_Value: the JSON values that cross the broker and the coercions of Python's operators on them.
  \<^item> Regex_Match: backtracking matching of the one regular expression whose choices matter.
  \<^item> Can_Link: the \<^verbatim>\<open>python-can\<close> bus as a record of programs, and receive loops with a deadline.
  \<^item> Interfaces, as locales: Codec (\<open>payload_decoder\<close>, \<open>codec\<close>, \<open>padded_codec\<close>), Crc (\<open>crc\<close>), Pin_Bank (\<open>pin_bank\<close>)
    and Rpc (\<open>rpc_service\<close>). They are interpreted on the code's definitions: the decoders of both frame maps, the
    CRC-32 of the bootloader, the CRC-8 of the inverter frames and the check word of the LTC6811, the latches of the
    fake backend (and of the TCA9555 driver, on a chip that latches), and the method tables of the fake and of the
    real backend.

  \<^bold>\<open>The broker.\<close>
  \<^item> Hw_Config (\<^verbatim>\<open>tools/hw_config.py\<close>), Hw_Bus (what the code uses of \<^verbatim>\<open>spidev\<close>, \<^verbatim>\<open>RPi.GPIO\<close>, \<^verbatim>\<open>smbus2\<close> and the clock:
    a record of programs), I2c_Drivers (\<^verbatim>\<open>tca9555.py\<close>, \<^verbatim>\<open>ina226.py\<close>) and Spi_Drivers (\<^verbatim>\<open>mcp3208.py\<close>, \<^verbatim>\<open>dac80504.py\<close>,
    \<^verbatim>\<open>nrf24l01.py\<close>, \<^verbatim>\<open>mcp2515.py\<close>): register access, masking and scaling, chip selects, deadline loops.
  \<^item> Rpc (\<^verbatim>\<open>broker/rpc.py\<close>): \<open>handle_request\<close> and \<open>build_method_table\<close>; Fake_Bus (\<^verbatim>\<open>broker/fake_bus.py\<close>) and
    Hardware_Manager (\<^verbatim>\<open>broker/bus.py\<close>): one definition per method of the protocol, with state invariants.
  \<^item> Server and Broker_Daemon (\<^verbatim>\<open>broker/server.py\<close>): the handler of a connection, the client, all handler threads on one
    backend as the step relation \<open>daemon_step\<close>, in which a method is a sequence of sections (\<open>thread\<close>), and the socket
    file. Hil_Client (\<^verbatim>\<open>tools/hil_client.py\<close>): the cached connection and every proxy method.
  \<^item> Shown: which lines are answered and how (\<open>request_plan\<close> is what a line asks for), and that none ends the broker; a
    remote call is the backend's method; a connection is served in order and completely while the threads of the others
    run between its lines and inside its methods; the backends stay well formed; a sequence of pin writes through the
    whole stack leaves the last value of each output, on the fake and on expanders that behave as documented; a call
    after a disconnect connects anew; chip selects are released; the supply wait returns.

  \<^bold>\<open>Flashing.\<close>
  \<^item> Can_Flash (\<^verbatim>\<open>tools/flash.py\<close>): every bootloader command and the session, against the reference \<open>flash_script\<close>,
    runs in which each command follows the acknowledgement of the one before (\<open>in_turn\<close>, \<open>acked_run\<close>) and
    a bootloader that concatenates what it receives: order and acknowledgement, delivery, detection of a corrupted
    byte by the checksum that was sent, termination. Flash_Dut (\<^verbatim>\<open>tools/flash_dut.py\<close>): isolation of the target, gates and verified write, over the
    trace of its run. Boot_Trigger (\<^verbatim>\<open>tools/flash_ams_via_trigger.py\<close>): trigger, fallback, exit status. Flasher_Cli
    (\<^verbatim>\<open>tools/firmware_test/flash_helper.py\<close>): the wrapper of \<^verbatim>\<open>can-flasher\<close> and its table parser.

  \<^bold>\<open>Benches.\<close>
  \<^item> Bench_Config, Bench_Ops and Bench_Draft (\<^verbatim>\<open>tools/bench.py\<close>): descriptors and resolution; probing, verification, host
    checks, the recovery ladder and the watchdog under the bench lock; the draft descriptor, which verifies against
    the bench it was drawn from. Bus_Scans: the scripts that look for the pins of a backplane, on a board given by its
    wiring.

  \<^bold>\<open>The cell emulator.\<close>
  \<^item> The Pico firmware is C (\<^verbatim>\<open>tools/pico_ltc_emulator/firmware/src/\<close>): Ltc_Response (\<^verbatim>\<open>pec15.c\<close>, the encodings and the
    prebuilt replies of \<^verbatim>\<open>ltc6811_emu.c\<close>), Pico_Device (\<^verbatim>\<open>usb_cmd.c\<close>, \<^verbatim>\<open>cell_state.c\<close>: one character of the serial line at
    a time, every command and report), Ltc_Chain (the service loop of \<^verbatim>\<open>ltc6811_emu.c\<close> under \<^verbatim>\<open>main.c\<close>). Pico_Client
    (\<^verbatim>\<open>host/pico_ltc_client.py\<close>) is the host, Pico_Probes the scripts that check the AMS by reading \<^verbatim>\<open>candump\<close>.
  \<^item> Shown: the check word is the one of the data sheet and a corrupted byte is noticed; however the SPI clock, the service
    loop and the serial line interleave, a transaction is answered from the reply its own command selects; a voltage injected
    on the host is what the AMS reads from the wire, and a silenced module is not believed. \<open>prompt_complete\<close> gives a
    schedule of the service loop on which a whole read is heard, so the statements about what is heard are not empty.

  \<^bold>\<open>Frames, simulators and observation.\<close>
  \<^item> Ams_Can_Map and Vcu_Can_Map: identifiers, decoders, encoders, end-to-end protection; Can_Observer, Can_Sims,
    Bms_Emulator, Sim_Mains: what the simulators send, and the life of the bus they own; Drive_Active: driving the
    vehicle control unit's start-up through its gates.
  \<^item> Can_Tracer and Dashboard (\<^verbatim>\<open>dashboard/\<close>): the tracer's reader threads as the step relation \<open>tracer_step\<close>, the poller, the
    handlers and the relay state they report. Kpi_Plugin (\<^verbatim>\<open>tests/hil/ams/kpi_plugin.py\<close>): the ledger a session of
    the test runner leaves; Kpi_Report (\<^verbatim>\<open>scripts/hil_kpi_report.py\<close>): the report over the ledgers, which reads every ledger
    the plugin can write and adds up what the sessions did.

  \<^bold>\<open>How code becomes definitions.\<close> A class is a record, a method a program over it; what is outside the repository
  (libraries, subprocesses, chips, sockets) is an argument: a record of programs over an arbitrary world (\<open>hw_bus\<close>,
  \<open>can_bus\<close>, \<open>can_env\<close>, \<open>bench_env\<close>, \<open>dut_env\<close>, \<open>probe_env\<close> and the like), about which a theorem assumes only what it
  names. Integers are unbounded and masked where the code masks; in Pico_Device a C \<open>long\<close> has 32 bits,
  and the check word of Ltc_Response is a machine word. Floats are
  rationals, so statements about voltages are exact where Python rounds. Strings are lists of characters; text that
  is not ASCII is written as its UTF-8 bytes.

  \<^bold>\<open>Fuel.\<close> A loop that waits for a deadline takes fuel and raises \<open>no_fuel\<close> (or gives None) when it runs out, and a bound that
  is enough is proved for a clock that advances: \<open>poll_returns\<close> and \<open>recv_until_fuel\<close> in general; \<open>flash_terminates\<close>
  for the CAN flasher; 101 for the five seconds of the supply in steps of 50 ms; 61 for the three seconds of the
  scripts in steps of 50 ms; 62 for the six seconds of a gate of the drive script in steps of 100 ms. The main loops
  of the simulators end by an exception only, so their theorem is about every amount of fuel.

  \<^bold>\<open>Threads.\<close> The broker's connections and the tracer's readers are step relations whose events interleave freely, and
  so are the SPI master, the FIFOs and the service loop of the Pico. The methods of different connections overlap, for the
  fake has no lock and the four of \<^verbatim>\<open>broker/bus.py\<close> share the counter \<^verbatim>\<open>_op_count\<close>: a method may be cut into sections in
  any way, and other threads run between them (\<open>counting_table\<close> loses an increment). That the backends stay well formed is
  shown for methods that run as a whole. A rising edge of the Pico's chip select and a character served on its
  serial line take effect at once. The threads of the
  drive script, the BMS emulator and the observer are turns that an environment or a list of messages orders. A client's
  cache is per thread, as in the code.

  \<^bold>\<open>Not modelled.\<close> Argument parsers, logging and printed text (where a script only prints, what it prints is a record it
  returns); Flask, sockets, signals and the byte stream of a line (a line is what \<^verbatim>\<open>json.loads\<close> makes of it); the YAML,
  JSON-schema and csv libraries; \<^verbatim>\<open>cmd_list\<close> and \<^verbatim>\<open>cmd_suite\<close> of the bench command, which print; the pins and
  the DMA channel of the Pico, and its PIO programs below the level of bytes; the pytest
  suites and fixtures, which exercise the firmware under test;
  infrastructure files and prose.
\<close>

end
